(* ===== verification/XY_Prelude.thy ===== *)
theory XY_Prelude
  imports Main "HOL-Library.Word"
begin

text \<open>
  Shared vocabulary of the XYChat development: the named collections of facts, the generic
  list-as-table operations behind the SQL statements of the code (select, update, delete and
  insert with an AUTOINCREMENT key), the locale of such a table, JSON values as the Qt classes
  expose them, and the small string operations of QString that the code uses.
\<close>

section \<open>Collections of facts\<close>

named_theorems row_simps \<open>rewriting of table operations\<close>
named_theorems db_defs \<open>definitions of the statements of DatabaseManager\<close>
named_theorems inv_intros \<open>preservation of the database invariant by the statements\<close>
named_theorems handler_defs \<open>definitions of the request handlers\<close>

section \<open>Types\<close>

type_synonym byte = "8 word"
type_synonym bytes = "byte list"

text \<open>
  A qint64 identifier or a time in Unix seconds is an \<open>int\<close>: the code never computes with
  identifiers beyond comparison, and SQLite's AUTOINCREMENT refuses to wrap.
\<close>

type_synonym ident = int
type_synonym time = int

section \<open>Tables: rows in a list\<close>

definition update_where :: "('r \<Rightarrow> bool) \<Rightarrow> ('r \<Rightarrow> 'r) \<Rightarrow> 'r list \<Rightarrow> 'r list" where
  "update_where P f rs = map (\<lambda>r. if P r then f r else r) rs"

definition delete_where :: "('r \<Rightarrow> bool) \<Rightarrow> 'r list \<Rightarrow> 'r list" where
  "delete_where P rs = filter (\<lambda>r. \<not> P r) rs"

definition count_where :: "('r \<Rightarrow> bool) \<Rightarrow> 'r list \<Rightarrow> nat" where
  "count_where P rs = length (filter P rs)"

definition exists_where :: "('r \<Rightarrow> bool) \<Rightarrow> 'r list \<Rightarrow> bool" where
  "exists_where P rs = list_ex P rs"

text \<open>The greatest key of a list of keys, 0 for an empty one (COALESCE(MAX(k), 0)).\<close>

definition max_key :: "int list \<Rightarrow> int" where
  "max_key ks = foldr max ks 0"

lemma update_where_Nil [simp, row_simps]: "update_where P f [] = []"
  by (simp add: update_where_def)

lemma update_where_Cons [simp, row_simps]:
  "update_where P f (r # rs) = (if P r then f r else r) # update_where P f rs"
  by (simp add: update_where_def)

lemma delete_where_Nil [simp, row_simps]: "delete_where P [] = []"
  by (simp add: delete_where_def)

lemma delete_where_Cons [simp, row_simps]:
  "delete_where P (r # rs) = (if P r then delete_where P rs else r # delete_where P rs)"
  by (simp add: delete_where_def)

lemma count_where_Nil [simp, row_simps]: "count_where P [] = 0"
  by (simp add: count_where_def)

lemma count_where_Cons [simp, row_simps]:
  "count_where P (r # rs) = (if P r then Suc (count_where P rs) else count_where P rs)"
  by (simp add: count_where_def)

lemma exists_where_iff [row_simps]: "exists_where P rs \<longleftrightarrow> (\<exists>r\<in>set rs. P r)"
  by (auto simp: exists_where_def list_ex_iff)

lemma count_where_pos: "0 < count_where P rs \<longleftrightarrow> exists_where P rs"
  by (induction rs) (auto simp: exists_where_def)

lemma count_where_0: "count_where P rs = 0 \<longleftrightarrow> (\<forall>r\<in>set rs. \<not> P r)"
  by (induction rs) auto

lemma set_delete_where [simp, row_simps]: "set (delete_where P rs) = {r \<in> set rs. \<not> P r}"
  by (auto simp: delete_where_def)

lemma in_update_where:
  "r \<in> set (update_where P f rs) \<longleftrightarrow> (\<exists>s\<in>set rs. r = (if P s then f s else s))"
  by (auto simp: update_where_def)

lemma map_update_where:
  assumes "\<And>r. k (f r) = k r"
  shows "map k (update_where P f rs) = map k rs"
  using assms by (simp add: update_where_def)

lemma length_update_where [simp]: "length (update_where P f rs) = length rs"
  by (simp add: update_where_def)

lemma update_where_append [row_simps]:
  "update_where P f (rs @ ss) = update_where P f rs @ update_where P f ss"
  by (simp add: update_where_def)

lemma update_where_none: "(\<forall>r\<in>set rs. \<not> P r) \<Longrightarrow> update_where P f rs = rs"
  by (induction rs) auto

lemma delete_where_none: "(\<forall>r\<in>set rs. \<not> P r) \<Longrightarrow> delete_where P rs = rs"
  by (induction rs) auto

lemma distinct_map_delete_where:
  "distinct (map k rs) \<Longrightarrow> distinct (map k (delete_where P rs))"
  by (simp add: delete_where_def distinct_map_filter)

lemma filter_update_where_other:
  assumes "\<And>r. P r \<Longrightarrow> \<not> Q r" and "\<And>r. P r \<Longrightarrow> \<not> Q (f r)"
  shows "filter Q (update_where P f rs) = filter Q rs"
  using assms by (induction rs) auto

lemma count_where_eq_if_same:
  assumes "\<And>r. Q (f r) = Q r"
  shows "count_where Q (update_where P f rs) = count_where Q rs"
  using assms by (induction rs) auto

lemma count_where_append [row_simps]:
  "count_where P (rs @ ss) = count_where P rs + count_where P ss"
  by (simp add: count_where_def)

lemma count_where_le_distinct:
  assumes "distinct (map k rs)"
  shows "count_where (\<lambda>r. k r = x) rs \<le> 1"
  using assms
proof (induction rs)
  case (Cons r rs)
  show ?case
  proof (cases "k r = x")
    case True
    with Cons.prems have "\<forall>s\<in>set rs. k s \<noteq> x"
      by (auto simp: image_iff)
    then have "count_where (\<lambda>r. k r = x) rs = 0"
      by (simp add: count_where_0)
    with True show ?thesis by simp
  qed (use Cons in simp)
qed simp

lemma max_key_Nil [simp]: "max_key [] = 0"
  by (simp add: max_key_def)

lemma max_key_Cons [simp]: "max_key (k # ks) = max k (max_key ks)"
  by (simp add: max_key_def)

lemma max_key_nonneg [simp]: "0 \<le> max_key ks"
  by (induction ks) auto

lemma max_key_ge: "k \<in> set ks \<Longrightarrow> k \<le> max_key ks"
  by (induction ks) auto

lemma max_key_in: "0 < max_key ks \<Longrightarrow> max_key ks \<in> set ks"
  by (induction ks) (auto simp: max_def split: if_splits)

lemma max_key_le: "(\<forall>k\<in>set ks. k \<le> m) \<Longrightarrow> 0 \<le> m \<Longrightarrow> max_key ks \<le> m"
  by (induction ks) auto

lemma find_append:
  "find P (xs @ ys) = (case find P xs of None \<Rightarrow> find P ys | Some x \<Rightarrow> Some x)"
  by (induction xs) auto

section \<open>Tables with an AUTOINCREMENT key\<close>

text \<open>
  SQLite keeps the greatest key ever used of an AUTOINCREMENT table in sqlite_sequence and gives
  an inserted row the next one. \<open>keys_ok\<close> is what that guarantees about a table at any
  time: keys are distinct, positive, and never above the counter.
\<close>

definition keys_ok :: "('r \<Rightarrow> int) \<Rightarrow> 'r list \<Rightarrow> int \<Rightarrow> bool" where
  "keys_ok key rs n \<longleftrightarrow> distinct (map key rs) \<and> 0 \<le> n \<and> (\<forall>r\<in>set rs. 0 < key r \<and> key r \<le> n)"

lemma keys_ok_Nil [simp]: "keys_ok key [] 0"
  by (simp add: keys_ok_def)

lemma keys_ok_update:
  assumes "keys_ok key rs n" and "\<And>r. key (f r) = key r"
  shows "keys_ok key (update_where P f rs) n"
  using assms by (auto simp: keys_ok_def map_update_where in_update_where)

lemma keys_ok_delete: "keys_ok key rs n \<Longrightarrow> keys_ok key (delete_where P rs) n"
  by (auto simp: keys_ok_def distinct_map_delete_where)

lemma keys_ok_unique:
  "keys_ok key rs n \<Longrightarrow> r \<in> set rs \<Longrightarrow> s \<in> set rs \<Longrightarrow> key r = key s \<Longrightarrow> r = s"
  by (auto simp: keys_ok_def distinct_map dest: inj_onD)

text \<open>
  The interface of one such table inside a larger state \<open>'d\<close>: its rows, its counter and the
  INSERT statement that builds a row from its arguments and the new key.
\<close>

locale auto_table =
  fixes rows :: "'d \<Rightarrow> 'r list"
    and seqno :: "'d \<Rightarrow> int"
    and key :: "'r \<Rightarrow> int"
    and mk :: "int \<Rightarrow> 'a \<Rightarrow> 'd \<Rightarrow> 'r"
    and ins :: "'a \<Rightarrow> 'd \<Rightarrow> 'd"
  assumes rows_ins: "rows (ins a d) = rows d @ [mk (seqno d + 1) a d]"
    and seqno_ins: "seqno (ins a d) = seqno d + 1"
    and key_mk: "key (mk i a d) = i"
begin

lemma ins_keys_ok:
  assumes "keys_ok key (rows d) (seqno d)"
  shows "keys_ok key (rows (ins a d)) (seqno (ins a d))"
  using assms by (force simp: keys_ok_def rows_ins seqno_ins key_mk)

lemma ins_fresh:
  assumes "keys_ok key (rows d) (seqno d)"
  shows "seqno d + 1 \<notin> key ` set (rows d)"
  using assms by (force simp: keys_ok_def)

lemma find_new:
  assumes "keys_ok key (rows d) (seqno d)"
  shows "find (\<lambda>r. key r = seqno d + 1) (rows (ins a d)) = Some (mk (seqno d + 1) a d)"
proof -
  have "\<forall>r\<in>set (rows d). key r \<noteq> seqno d + 1"
    using ins_fresh [OF assms] by (metis imageI)
  then have "find (\<lambda>r. key r = seqno d + 1) (rows d) = None"
    by (simp add: find_None_iff)
  then show ?thesis by (simp add: rows_ins key_mk find_append)
qed

lemma find_old:
  assumes "i \<le> seqno d"
  shows "find (\<lambda>r. key r = i) (rows (ins a d)) = find (\<lambda>r. key r = i) (rows d)"
  using assms by (auto simp: rows_ins key_mk find_append split: option.splits)

lemma ins_extends: "\<exists>r. rows (ins a d) = rows d @ [r] \<and> key r = seqno (ins a d)"
  by (auto simp: rows_ins seqno_ins key_mk)

end

lemma find_SomeD: "find P xs = Some x \<Longrightarrow> x \<in> set xs \<and> P x"
  by (induction xs) (auto split: if_splits)

lemma find_NoneD: "find P xs = None \<Longrightarrow> x \<in> set xs \<Longrightarrow> \<not> P x"
  by (auto simp: find_None_iff)

section \<open>Strings\<close>

text \<open>
  A QString is a list of characters (the code units below 256, which is all the program's own
  literals, identifiers and Base64 or hex text need); \<open>size()\<close> is \<open>length\<close>.
  QChar::isSpace on that range is 9 to 13, 32, 133 and 160.
\<close>

definition qspace :: "char \<Rightarrow> bool" where
  "qspace c = (let n = of_char c :: nat in (9 \<le> n \<and> n \<le> 13) \<or> n = 32 \<or> n = 133 \<or> n = 160)"

definition trimmed :: "string \<Rightarrow> string" where
  "trimmed s = rev (dropWhile qspace (rev (dropWhile qspace s)))"

lemma trimmed_Nil [simp]: "trimmed [] = []"
  by (simp add: trimmed_def)

lemma length_trimmed: "length (trimmed s) \<le> length s"
  unfolding trimmed_def
  by (metis length_dropWhile_le length_rev le_trans)

lemma dropWhile_hd: "dropWhile P xs = [] \<or> \<not> P (hd (dropWhile P xs))"
  by (induction xs) auto

lemma trimmed_idem: "trimmed (trimmed s) = trimmed s"
proof -
  let ?a = "dropWhile qspace s"
  let ?b = "dropWhile qspace (rev ?a)"
  have b: "?b = [] \<or> \<not> qspace (hd ?b)" by (rule dropWhile_hd)
  have suf: "\<exists>us. rev ?a = us @ ?b"
    by (metis takeWhile_dropWhile_id)
  have "dropWhile qspace (rev ?b) = rev ?b"
  proof (cases "rev ?b")
    case Nil
    then show ?thesis by (simp only: dropWhile.simps)
  next
    case (Cons y ys)
    obtain us where us: "rev ?a = us @ ?b" using suf by blast
    then have "?a = rev ?b @ rev us" by (metis rev_append rev_rev_ident)
    with Cons have "?a \<noteq> []" and "hd ?a = y" by auto
    with dropWhile_hd [of qspace s] have "\<not> qspace y" by auto
    with Cons show ?thesis by simp
  qed
  moreover have "dropWhile qspace ?b = ?b"
    using b by (cases ?b) auto
  ultimately show ?thesis by (simp add: trimmed_def)
qed

text \<open>QString::split on one character keeps empty parts.\<close>

fun split_on :: "char \<Rightarrow> string \<Rightarrow> string list" where
  "split_on c [] = [[]]"
| "split_on c (x # xs) =
     (if x = c then [] # split_on c xs
      else (case split_on c xs of [] \<Rightarrow> [[x]] | p # ps \<Rightarrow> (x # p) # ps))"

lemma split_on_not_Nil [simp]: "split_on c s \<noteq> []"
  by (induction s) (auto split: list.splits)

lemma split_on_no_sep: "c \<notin> set s \<Longrightarrow> split_on c s = [s]"
  by (induction s) auto

lemma split_on_append: "c \<notin> set s \<Longrightarrow> split_on c (s @ c # t) = s # split_on c t"
  by (induction s) auto

text \<open>QString::toLongLong / toInt in base 10: surrounding white space is skipped, one sign is
  allowed, anything else or a value outside the width is a failure.\<close>

definition digit_val :: "char \<Rightarrow> int option" where
  "digit_val c = (let n = of_char c :: nat in if 48 \<le> n \<and> n \<le> 57 then Some (int n - 48) else None)"

fun digits_val :: "int \<Rightarrow> string \<Rightarrow> int option" where
  "digits_val acc [] = Some acc"
| "digits_val acc (c # cs) =
     (case digit_val c of None \<Rightarrow> None | Some d \<Rightarrow> digits_val (10 * acc + d) cs)"

definition parse_int :: "nat \<Rightarrow> string \<Rightarrow> int option" where
  "parse_int w s =
     (let t = trimmed s;
          v = (case t of [] \<Rightarrow> None
               | c # cs \<Rightarrow> if c = CHR ''-'' then (if cs = [] then None else map_option uminus (digits_val 0 cs))
                          else if c = CHR ''+'' then (if cs = [] then None else digits_val 0 cs)
                          else digits_val 0 t)
      in case v of None \<Rightarrow> None
         | Some n \<Rightarrow> if - (2 ^ (w - 1)) \<le> n \<and> n < 2 ^ (w - 1) then Some n else None)"

section \<open>JSON values as QJsonValue\<close>

text \<open>
  A JSON number is an integer here (every number of the protocol is one); an object is the list
  of its members. Reading a member that is missing gives \<open>JUndef\<close>, and the conversions
  return the default of the Qt accessor for a value of another type.
\<close>

datatype json =
    JUndef
  | JNull
  | JBool bool
  | JNum int
  | JStr string
  | JArr "json list"
  | JObj "(string \<times> json) list"

type_synonym jobj = "(string \<times> json) list"

definition jget :: "jobj \<Rightarrow> string \<Rightarrow> json" where
  "jget ob k = (case map_of ob k of None \<Rightarrow> JUndef | Some v \<Rightarrow> v)"

definition jhas :: "jobj \<Rightarrow> string \<Rightarrow> bool" where
  "jhas ob k = (map_of ob k \<noteq> None)"

definition jstr_or :: "string \<Rightarrow> json \<Rightarrow> string" where
  "jstr_or d v = (case v of JStr s \<Rightarrow> s | _ \<Rightarrow> d)"

abbreviation jstr :: "json \<Rightarrow> string" where
  "jstr \<equiv> jstr_or []"

definition jint_or :: "int \<Rightarrow> json \<Rightarrow> int" where
  "jint_or d v = (case v of JNum n \<Rightarrow> (if - (2 ^ 31) \<le> n \<and> n < 2 ^ 31 then n else d) | _ \<Rightarrow> d)"

text \<open>\<open>toVariant().toLongLong()\<close>: numbers, booleans and numeric text convert, all else is 0.\<close>

definition jlonglong :: "json \<Rightarrow> int" where
  "jlonglong v = (case v of JNum n \<Rightarrow> n | JBool b \<Rightarrow> (if b then 1 else 0)
     | JStr s \<Rightarrow> (case parse_int 64 s of None \<Rightarrow> 0 | Some n \<Rightarrow> n) | _ \<Rightarrow> 0)"

definition jdouble :: "json \<Rightarrow> int" where
  "jdouble v = (case v of JNum n \<Rightarrow> n | _ \<Rightarrow> 0)"

definition jbool :: "json \<Rightarrow> bool" where
  "jbool v = (case v of JBool b \<Rightarrow> b | _ \<Rightarrow> False)"

definition jarr :: "json \<Rightarrow> json list" where
  "jarr v = (case v of JArr xs \<Rightarrow> xs | _ \<Rightarrow> [])"

definition jobject :: "json \<Rightarrow> jobj" where
  "jobject v = (case v of JObj ob \<Rightarrow> ob | _ \<Rightarrow> [])"

fun is_JArr :: "json \<Rightarrow> bool" where
  "is_JArr (JArr _) = True" | "is_JArr _ = False"

fun is_JObj :: "json \<Rightarrow> bool" where
  "is_JObj (JObj _) = True" | "is_JObj _ = False"

fun is_JNum :: "json \<Rightarrow> bool" where
  "is_JNum (JNum _) = True" | "is_JNum _ = False"

fun is_JBool :: "json \<Rightarrow> bool" where
  "is_JBool (JBool _) = True" | "is_JBool _ = False"

lemma jget_Cons [simp]: "jget ((k, v) # ob) k' = (if k' = k then v else jget ob k')"
  by (simp add: jget_def)

lemma jget_Nil [simp]: "jget [] k = JUndef"
  by (simp add: jget_def)

lemma jhas_Cons [simp]: "jhas ((k, v) # ob) k' = (k' = k \<or> jhas ob k')"
  by (simp add: jhas_def)

lemma jhas_Nil [simp]: "\<not> jhas [] k"
  by (simp add: jhas_def)

lemma jconv_simps [simp]:
  "jstr_or d (JStr s) = s" "jstr_or d JUndef = d" "jstr_or d (JNum n) = d"
  "jlonglong (JNum n) = n" "jlonglong JUndef = 0"
  "jbool (JBool b) = b" "jbool (JNum n) = False" "jbool JUndef = False"
  "jarr (JArr xs) = xs" "jarr JUndef = []"
  "jobject (JObj ob) = ob"
  "jdouble (JNum n) = n" "jdouble JUndef = 0"
  "jstr_or d (JBool b) = d" "jstr_or d (JObj ob) = d" "jstr_or d (JArr xs) = d"
  by (simp_all add: jstr_or_def jlonglong_def jbool_def jarr_def jobject_def jdouble_def jint_or_def)

lemma jint_or_undef [simp]: "jint_or d JUndef = d"
  by (simp add: jint_or_def)

lemma jint_or_num [simp]: "- (2 ^ 31) \<le> n \<Longrightarrow> n < 2 ^ 31 \<Longrightarrow> jint_or d (JNum n) = n"
  by (simp add: jint_or_def)

end
