(* ===== verification/Qt_Text.thy ===== *)
theory Qt_Text
  imports XY_Prelude
begin

text \<open>
  The two text encodings of Qt the program stores and parses: decimal numbers
  (\<open>QString::number\<close>, \<open>QString::arg\<close>) and lower-case hexadecimal (\<open>QByteArray::toHex\<close>,
  \<open>fromHex\<close>), with their round trips.
\<close>

unbundle bit_operations_syntax

section \<open>Decimal numbers\<close>

definition dec_digit :: "nat \<Rightarrow> char" where
  "dec_digit d = char_of (48 + d)"

fun dec_digits :: "nat \<Rightarrow> string" where
  "dec_digits n = (if n < 10 then [dec_digit n] else dec_digits (n div 10) @ [dec_digit (n mod 10)])"

declare dec_digits.simps [simp del]

definition number :: "int \<Rightarrow> string" where
  "number n = (if n < 0 then CHR ''-'' # dec_digits (nat (- n)) else dec_digits (nat n))"

lemma digit_val_dec: "d < 10 \<Longrightarrow> digit_val (dec_digit d) = Some (int d)"
  by (simp add: digit_val_def dec_digit_def Let_def of_char_of)

lemma digits_val_append:
  "digits_val a (xs @ ys) = (case digits_val a xs of None \<Rightarrow> None | Some b \<Rightarrow> digits_val b ys)"
  by (induction xs arbitrary: a) (auto split: option.splits)

lemma digits_val_dec: "digits_val 0 (dec_digits n) = Some (int n)"
proof (induction n rule: dec_digits.induct)
  case (1 n)
  show ?case
  proof (cases "n < 10")
    case True
    then show ?thesis by (simp add: dec_digits.simps digit_val_dec)
  next
    case False
    with 1 show ?thesis
      by (simp add: dec_digits.simps [of n] digits_val_append digit_val_dec flip: zdiv_int zmod_int)
        (metis mult_div_mod_eq of_nat_add of_nat_mult of_nat_numeral)
  qed
qed

lemma dec_digits_set: "c \<in> set (dec_digits n) \<Longrightarrow> \<exists>d<10. c = dec_digit d"
proof (induction n rule: dec_digits.induct)
  case (1 n)
  show ?case
  proof (cases "n < 10")
    case True
    with 1(2) show ?thesis by (auto simp: dec_digits.simps [of n])
  next
    case False
    then have "c \<in> set (dec_digits (n div 10)) \<or> c = dec_digit (n mod 10)"
      using 1(2) by (auto simp: dec_digits.simps [of n])
    then show ?thesis
      using 1(1) [OF False] by (elim disjE) (auto intro: exI [of _ "n mod 10"])
  qed
qed

lemma dec_digits_not_Nil [simp]: "dec_digits n \<noteq> []"
  by (subst dec_digits.simps) simp

lemma dec_digit_not:
  "d < 10 \<Longrightarrow> dec_digit d \<noteq> CHR ''-''" "d < 10 \<Longrightarrow> dec_digit d \<noteq> CHR ''+''"
  "d < 10 \<Longrightarrow> dec_digit d \<noteq> CHR '':''" "d < 10 \<Longrightarrow> \<not> qspace (dec_digit d)"
proof -
  have "of_char (dec_digit d) = 48 + d" if "d < 10" for d
    using that by (simp add: dec_digit_def of_char_of)
  then show "d < 10 \<Longrightarrow> dec_digit d \<noteq> CHR ''-''" "d < 10 \<Longrightarrow> dec_digit d \<noteq> CHR ''+''"
    "d < 10 \<Longrightarrow> dec_digit d \<noteq> CHR '':''" "d < 10 \<Longrightarrow> \<not> qspace (dec_digit d)"
    by (force simp: qspace_def Let_def)+
qed

lemma trimmed_nospace: "(\<forall>c\<in>set s. \<not> qspace c) \<Longrightarrow> trimmed s = s"
proof -
  assume a: "\<forall>c\<in>set s. \<not> qspace c"
  have d: "dropWhile qspace t = t" if "\<forall>c\<in>set t. \<not> qspace c" for t
    using that by (cases t) auto
  show ?thesis using a by (simp add: trimmed_def d)
qed

text \<open>A natural number within the width reads back.\<close>

lemma parse_number:
  assumes "0 \<le> n" and "n < 2 ^ (w - 1)"
  shows "parse_int w (number n) = Some n"
proof -
  have t: "trimmed (dec_digits (nat n)) = dec_digits (nat n)"
    by (rule trimmed_nospace) (auto dest!: dec_digits_set simp: dec_digit_not)
  obtain c cs where c: "dec_digits (nat n) = c # cs"
    by (cases "dec_digits (nat n)") auto
  with dec_digits_set [of c "nat n"] obtain d where "d < 10" "c = dec_digit d" by auto
  then have "c \<noteq> CHR ''-''" "c \<noteq> CHR ''+''" by (simp_all add: dec_digit_not)
  moreover have "digits_val 0 (c # cs) = Some n"
    using digits_val_dec [of "nat n"] assms(1) c by simp
  moreover have "- (2 ^ (w - 1)) \<le> n"
    using assms(1) by (meson neg_le_0_iff_le order_trans zero_le_numeral zero_le_power)
  ultimately show ?thesis
    using assms t c by (simp add: parse_int_def number_def del: digits_val.simps)
qed

lemma number_no_colon: "CHR '':'' \<notin> set (number n)"
  by (auto simp: number_def dest!: dec_digits_set dec_digit_not(3) split: if_splits)

section \<open>Hexadecimal\<close>

definition hex_digit :: "nat \<Rightarrow> char" where
  "hex_digit d = (if d < 10 then char_of (48 + d) else char_of (87 + d))"

definition hex_val :: "char \<Rightarrow> nat option" where
  "hex_val c = (let n = of_char c :: nat in
     if 48 \<le> n \<and> n \<le> 57 then Some (n - 48)
     else if 97 \<le> n \<and> n \<le> 102 then Some (n - 87)
     else if 65 \<le> n \<and> n \<le> 70 then Some (n - 55) else None)"

fun to_hex :: "bytes \<Rightarrow> string" where
  "to_hex [] = []"
| "to_hex (b # bs) = hex_digit (unat b div 16) # hex_digit (unat b mod 16) # to_hex bs"

text \<open>\<open>fromHex\<close> skips invalid characters and pairs the digits from the end.\<close>

fun pair_up :: "nat list \<Rightarrow> bytes" where
  "pair_up (l # h # ds) = pair_up ds @ [word_of_nat (16 * h + l)]"
| "pair_up [l] = [word_of_nat l]"
| "pair_up [] = []"

definition from_hex :: "string \<Rightarrow> bytes" where
  "from_hex s = pair_up (rev (List.map_filter hex_val s))"

lemma nibbles: "unat (b :: byte) div 16 < 16" "unat b mod 16 < 16"
proof -
  have "unat b < 2 ^ LENGTH(8)" by (rule unsigned_less)
  then show "unat b div 16 < 16" by simp
qed simp

lemma hex_val_digit: "d < 16 \<Longrightarrow> hex_val (hex_digit d) = Some d"
  by (auto simp: hex_val_def hex_digit_def Let_def of_char_of)

lemma pair_up_append: "pair_up (ds @ [l, h]) = (if even (length ds) then word_of_nat (16 * h + l) # pair_up ds
    else pair_up (ds @ [l, h]))"
  by (induction ds rule: pair_up.induct) auto

lemma length_hex_vals: "length (List.map_filter hex_val (to_hex bs)) = 2 * length bs"
proof (induction bs)
  case (Cons b bs)
  note nibbles [of b]
  with Cons show ?case by (simp add: List.map_filter_simps hex_val_digit)
qed (simp add: List.map_filter_simps)

lemma from_hex_to_hex [simp]: "from_hex (to_hex bs) = bs"
proof (induction bs)
  case Nil
  show ?case by (simp add: from_hex_def List.map_filter_simps)
next
  case (Cons b bs)
  note d = nibbles [of b]
  have "(word_of_nat (16 * (unat b div 16) + unat b mod 16) :: byte) = b"
    by simp
  then show ?case
    using Cons by (simp add: from_hex_def List.map_filter_simps hex_val_digit d pair_up_append length_hex_vals
        del: word_of_nat_eq_iff of_nat_add of_nat_mult)
qed

lemma to_hex_no_colon: "CHR '':'' \<notin> set (to_hex bs)"
proof -
  have d: "hex_digit d \<noteq> CHR '':''" if "d < 16" for d
    using hex_val_digit [OF that] by (force simp: hex_val_def)
  show ?thesis
  proof (induction bs)
    case (Cons b bs)
    note nibbles [of b]
    with d Cons show ?case by (metis list.set_intros(1) set_ConsD to_hex.simps(2))
  qed simp
qed

lemma to_hex_Nil_iff [simp]: "to_hex bs = [] \<longleftrightarrow> bs = []"
  by (cases bs) auto

lemma length_to_hex [simp]: "length (to_hex bs) = 2 * length bs"
  by (induction bs) auto

end
