(* ===== verification/External.thy ===== *)
theory External
  imports Qt_Text
begin

text \<open>
  The operations of third-party libraries the program relies on, as one record of functions that
  the definitions using them take as an argument: hashing, key derivation, authenticated
  encryption and signatures (OpenSSL), and Base64 and JSON texts (Qt). Nothing is assumed of
  them here. What a property needs is a named hypothesis below, each the documented behaviour of
  the function, and the witnesses instantiate the record with \<open>sample_ext\<close>. The theory also
  holds QMap with integer keys.
\<close>

text \<open>QJsonObject's assignment to a member.\<close>

fun jset :: "string \<Rightarrow> json \<Rightarrow> jobj \<Rightarrow> jobj" where
  "jset k v [] = [(k, v)]"
| "jset k v ((j, u) # ob) = (if j = k then (k, v) # ob else (j, u) # jset k v ob)"

lemma jget_jset [simp]: "jget (jset k v ob) i = (if i = k then v else jget ob i)"
  by (induction ob) auto

section \<open>The record of library functions\<close>

record ext =
  x_utf8 :: "string \<Rightarrow> bytes"
  x_sha256 :: "bytes \<Rightarrow> bytes"
  x_pbkdf2 :: "bytes \<Rightarrow> bytes \<Rightarrow> int \<Rightarrow> bytes"
  x_toBase64 :: "bytes \<Rightarrow> string"
  x_fromBase64 :: "string \<Rightarrow> bytes"
  x_fromBase64Lax :: "string \<Rightarrow> bytes"
  x_fromUtf8 :: "bytes \<Rightarrow> string"
  x_protect :: "bytes \<Rightarrow> bytes"
  x_unprotect :: "bytes \<Rightarrow> bytes"
  x_parse :: "string \<Rightarrow> json option"
  x_fromJson :: "bytes \<Rightarrow> json option"
  x_compact :: "json \<Rightarrow> string"
  x_sqlTime :: "time \<Rightarrow> string"
  x_isoTime :: "time \<Rightarrow> string"
  x_hkdf :: "bytes \<Rightarrow> bytes \<Rightarrow> bytes \<Rightarrow> bytes option"
  x_gcmSeal :: "bytes \<Rightarrow> bytes \<Rightarrow> bytes \<Rightarrow> bytes option"
  x_gcmOpen :: "bytes \<Rightarrow> bytes \<Rightarrow> bytes \<Rightarrow> bytes option"
  x_x25519 :: "bytes \<Rightarrow> bytes \<Rightarrow> bytes option"
  x_x25519Public :: "bytes \<Rightarrow> bytes option"
  x_edSign :: "bytes \<Rightarrow> bytes \<Rightarrow> bytes option"
  x_edVerify :: "bytes \<Rightarrow> bytes \<Rightarrow> bytes \<Rightarrow> bool"

text \<open>
  \<^item> \<open>x_pbkdf2 password salt iterations\<close>: PKCS5_PBKDF2_HMAC with SHA-256, 32 bytes;
  \<^item> \<open>x_fromBase64\<close>: QByteArray::fromBase64 with AbortOnBase64DecodingErrors (empty on an error);
    \<open>x_fromBase64Lax\<close>: without the flag;
  \<^item> \<open>x_protect\<close>, \<open>x_unprotect\<close>: CryptProtectData and CryptUnprotectData for the user (empty on a
    failure), the identity on other platforms;
  \<^item> \<open>x_parse\<close>: QJsonDocument::fromJson of the UTF-8 text, \<open>None\<close> on a parse error;
    \<open>x_fromJson\<close>: the same of the bytes of a payload;
  \<^item> \<open>x_sqlTime\<close>, \<open>x_isoTime\<close>: a time as the text of SQLite's datetime and of Qt's ISO format;
  \<^item> \<open>x_hkdf key salt info\<close>: 32 bytes of HKDF-SHA256, \<open>None\<close> when a call fails;
  \<^item> \<open>x_gcmSeal key iv plaintext\<close>: AES-256-GCM ciphertext followed by the 16-byte tag;
    \<open>x_gcmOpen\<close> gives \<open>None\<close> when the tag does not verify;
  \<^item> \<open>x_x25519 private peer\<close>: the shared secret of EVP_PKEY_derive, \<open>x_x25519Public\<close> the public
    key of a private one; \<open>None\<close> when OpenSSL refuses;
  \<^item> \<open>x_edSign\<close>, \<open>x_edVerify\<close>: Ed25519.
\<close>

section \<open>Documented behaviour, as named hypotheses\<close>

definition base64_inverts :: "ext \<Rightarrow> bytes \<Rightarrow> bool" where
  "base64_inverts X b \<longleftrightarrow> x_fromBase64 X (x_toBase64 X b) = b"

definition json_inverts :: "ext \<Rightarrow> json \<Rightarrow> bool" where
  "json_inverts X j \<longleftrightarrow> x_parse X (x_compact X j) = Some j"

definition hkdf_32 :: "ext \<Rightarrow> bool" where
  "hkdf_32 X \<longleftrightarrow> (\<forall>k s i. \<exists>d. x_hkdf X k s i = Some d \<and> length d = 32)"

definition gcm_inverts :: "ext \<Rightarrow> bool" where
  "gcm_inverts X \<longleftrightarrow> (\<forall>k iv p. \<exists>c. x_gcmSeal X k iv p = Some c \<and> length c = length p + 16
      \<and> x_gcmOpen X k iv c = Some p)"

definition ed_signs :: "ext \<Rightarrow> bytes \<Rightarrow> bytes \<Rightarrow> bool" where
  "ed_signs X priv pub \<longleftrightarrow> (\<forall>m. \<exists>s. x_edSign X priv m = Some s \<and> length s = 64 \<and> x_edVerify X pub m s)"

definition pbkdf2_32 :: "ext \<Rightarrow> bool" where
  "pbkdf2_32 X \<longleftrightarrow> (\<forall>p s i. length (x_pbkdf2 X p s i) = 32)"

definition utf8_inverts :: "ext \<Rightarrow> string \<Rightarrow> bool" where
  "utf8_inverts X s \<longleftrightarrow> x_fromUtf8 X (x_utf8 X s) = s \<and> (x_utf8 X s = [] \<longleftrightarrow> s = [])"

definition base64_lax_inverts :: "ext \<Rightarrow> bytes \<Rightarrow> bool" where
  "base64_lax_inverts X b \<longleftrightarrow> x_fromBase64Lax X (x_toBase64 X b) = b"

definition protect_inverts :: "ext \<Rightarrow> bool" where
  "protect_inverts X \<longleftrightarrow> (\<forall>b. b \<noteq> [] \<longrightarrow> x_protect X b \<noteq> [] \<and> x_unprotect X (x_protect X b) = b)
     \<and> x_unprotect X [] = []"

text \<open>The text of an object reads back as the object.\<close>

definition json_text_inverts :: "ext \<Rightarrow> jobj \<Rightarrow> bool" where
  "json_text_inverts X ob \<longleftrightarrow> x_utf8 X (x_compact X (JObj ob)) \<noteq> []
     \<and> x_fromJson X (x_utf8 X (x_compact X (JObj ob))) = Some (JObj ob)"

section \<open>An instance for concrete runs\<close>

definition chars_of :: "bytes \<Rightarrow> string" where
  "chars_of bs = map (\<lambda>b. char_of (unat b)) bs"

definition bytes_of :: "string \<Rightarrow> bytes" where
  "bytes_of s = map (\<lambda>c. word_of_nat (of_char c)) s"

lemma chars_of_bytes_of [simp]: "chars_of (bytes_of s) = s"
proof -
  have "char_of (unat (word_of_nat (of_char c) :: byte)) = c" for c :: char
  proof -
    have "of_char c < (256 :: nat)" by simp
    then have "unat (word_of_nat (of_char c) :: byte) = of_char c" by (simp add: unat_of_nat)
    then show ?thesis by simp
  qed
  then show ?thesis by (simp add: chars_of_def bytes_of_def o_def)
qed

lemma bytes_of_chars_of [simp]: "bytes_of (chars_of bs) = bs"
proof -
  have "word_of_nat (of_char (char_of (unat b) :: char)) = (b :: byte)" for b :: byte
  proof -
    have "unat b < 2 ^ LENGTH(8)" by (rule unsigned_less)
    then have "unat b < 256" by simp
    then show ?thesis by simp
  qed
  then show ?thesis by (simp add: bytes_of_def chars_of_def o_def)
qed

definition sample_ext :: ext where
  "sample_ext = \<lparr>x_utf8 = bytes_of, x_sha256 = id, x_pbkdf2 = (\<lambda>p s i. take 32 (p @ s @ replicate 32 0)),
     x_toBase64 = chars_of, x_fromBase64 = bytes_of, x_fromBase64Lax = bytes_of,
     x_fromUtf8 = chars_of, x_protect = id, x_unprotect = id,
     x_parse = (\<lambda>s. None), x_fromJson = (\<lambda>b. None), x_compact = (\<lambda>j. ''{}''),
     x_sqlTime = number, x_isoTime = number,
     x_hkdf = (\<lambda>k s i. Some (take 32 (k @ replicate 32 0))),
     x_gcmSeal = (\<lambda>k iv p. Some (p @ replicate 16 0)),
     x_gcmOpen = (\<lambda>k iv c. Some (take (length c - 16) c)),
     x_x25519 = (\<lambda>a b. Some (take 32 (a @ replicate 32 0))), x_x25519Public = Some,
     x_edSign = (\<lambda>k m. Some (replicate 64 0)), x_edVerify = (\<lambda>p m s. True)\<rparr>"

lemma sample_ext_ok:
  "hkdf_32 sample_ext" "gcm_inverts sample_ext" "ed_signs sample_ext priv pub"
  "base64_inverts sample_ext b" "pbkdf2_32 sample_ext" "utf8_inverts sample_ext s"
  "base64_lax_inverts sample_ext b" "protect_inverts sample_ext"
  by (simp_all add: sample_ext_def hkdf_32_def gcm_inverts_def ed_signs_def base64_inverts_def
      pbkdf2_32_def utf8_inverts_def base64_lax_inverts_def protect_inverts_def min_def)
    (simp add: bytes_of_def)

section \<open>QMap with integer keys\<close>

text \<open>Entries in ascending key order.\<close>

type_synonym qmap = "(int \<times> bytes) list"

fun qinsert :: "int \<Rightarrow> bytes \<Rightarrow> qmap \<Rightarrow> qmap" where
  "qinsert k v [] = [(k, v)]"
| "qinsert k v ((j, w) # m) =
     (if k < j then (k, v) # (j, w) # m
      else if k = j then (k, v) # m
      else (j, w) # qinsert k v m)"

definition qerase :: "int \<Rightarrow> qmap \<Rightarrow> qmap" where
  "qerase k m = filter (\<lambda>(j, _). j \<noteq> k) m"

definition qinsert_all :: "qmap \<Rightarrow> qmap \<Rightarrow> qmap" where
  "qinsert_all new m = fold (\<lambda>(k, v) a. qinsert k v a) new m"

definition qsorted :: "qmap \<Rightarrow> bool" where
  "qsorted m \<longleftrightarrow> sorted_wrt (<) (map fst m)"

lemma qsorted_Nil [simp]: "qsorted []"
  by (simp add: qsorted_def)

lemma keys_qinsert: "fst ` set (qinsert k v m) = insert k (fst ` set m)"
  by (induction m rule: qinsert.induct) auto

lemma qinsert_sorted: "qsorted m \<Longrightarrow> qsorted (qinsert k v m)"
proof (induction k v m rule: qinsert.induct)
  case (2 k v j w m)
  have "\<forall>x\<in>fst ` set (qinsert k v m). j < x" if "\<not> k < j" "k \<noteq> j"
    using 2(2) that by (auto simp: keys_qinsert qsorted_def)
  with 2 show ?case by (auto simp: qsorted_def)
qed (simp add: qsorted_def)

lemma map_of_qinsert: "qsorted m \<Longrightarrow> map_of (qinsert k v m) = (map_of m)(k \<mapsto> v)"
  by (induction k v m rule: qinsert.induct) (auto simp: qsorted_def fun_eq_iff)

lemma qerase_sorted: "qsorted m \<Longrightarrow> qsorted (qerase k m)"
  unfolding qsorted_def qerase_def by (induction m) auto

lemma map_of_qerase: "map_of (qerase k m) = (map_of m)(k := None)"
  by (induction m) (auto simp: qerase_def fun_eq_iff)

lemma qinsert_all_sorted: "qsorted m \<Longrightarrow> qsorted (qinsert_all new m)"
  unfolding qinsert_all_def
  by (induction new arbitrary: m) (auto simp: qinsert_sorted)

lemma map_of_qinsert_all:
  assumes "qsorted m" and "distinct (map fst new)"
  shows "map_of (qinsert_all new m) = map_of m ++ map_of new"
  using assms
proof (induction new arbitrary: m)
  case (Cons p new)
  obtain k v where p: "p = (k, v)" by force
  from Cons.prems p have "k \<notin> dom (map_of new)" by (simp add: dom_map_of_conv_image_fst)
  then have "(map_of m)(k \<mapsto> v) ++ map_of new = (map_of m ++ map_of new)(k \<mapsto> v)"
    by (rule map_add_upd_left)
  moreover have "map_of (qinsert_all new (qinsert k v m)) = map_of (qinsert k v m) ++ map_of new"
    using Cons.prems p by (intro Cons.IH) (auto simp: qinsert_sorted)
  moreover have "map_of (qinsert k v m) = (map_of m)(k \<mapsto> v)"
    using Cons.prems by (intro map_of_qinsert) simp
  moreover have "map_of (p # new) = (map_of new)(k \<mapsto> v)"
    by (simp add: p)
  moreover have "qinsert_all (p # new) m = qinsert_all new (qinsert k v m)"
    by (simp add: p qinsert_all_def)
  ultimately show ?case by (simp only: map_add_upd)
qed (simp add: qinsert_all_def)

lemma qsorted_distinct: "qsorted m \<Longrightarrow> distinct (map fst m)"
  by (simp add: qsorted_def strict_sorted_iff)

lemma qsorted_length: "qsorted m \<Longrightarrow> length m = card (dom (map_of m))"
  by (metis dom_map_of_conv_image_fst distinct_card length_map list.set_map qsorted_distinct)

end
