(* ===== verification/Database_Core.thy ===== *)
theory Database_Core
  imports External
begin

text \<open>
  The relational state behind Chat-Server/database/DatabaseManager.cpp: one record of rows per
  table of the version 9 schema, the database with its AUTOINCREMENT counters, the execution of a
  statement, and the invariant that the schema's constraints express.

  A row holds the columns the program reads. A time column is Unix seconds (the texts of
  \<open>datetime('now')\<close> compare as the times do); a column the program tests for NULL is an option,
  and NULL in another text column is the empty string that \<open>QVariant::toString\<close> makes of it.
\<close>

section \<open>Rows\<close>

record user_row =
  ur_id :: ident
  ur_username :: string
  ur_email :: string
  ur_phone :: string
  ur_passwordHash :: string
  ur_createdAt :: time

text \<open>\<open>expires_at\<close> is ISO text written by the program; \<open>None\<close> stands for text that does not parse.\<close>

record session_row =
  se_id :: ident
  se_userId :: ident
  se_deviceId :: string
  se_tokenHash :: string
  se_loginIp :: string
  se_createdAt :: time
  se_lastActiveAt :: time
  se_expiresAt :: "time option"

record audit_row =
  au_userId :: ident
  au_ip :: string
  au_success :: bool
  au_reason :: string
  au_createdAt :: time

record device_row =
  dv_userId :: ident
  dv_deviceId :: string
  dv_name :: string
  dv_platform :: string
  dv_createdAt :: time
  dv_lastSeenAt :: time

record contact_row =
  ct_userId :: ident
  ct_contactUserId :: ident
  ct_createdAt :: time

record conv_row =
  cv_id :: ident
  cv_type :: string
  cv_name :: string
  cv_createdAt :: time
  cv_updatedAt :: time

record member_row =
  mb_convId :: ident
  mb_userId :: ident
  mb_role :: string
  mb_joinedAt :: time
  mb_lastRead :: ident
  mb_pinned :: bool
  mb_muted :: bool

record msg_row =
  ms_id :: ident
  ms_convId :: ident
  ms_senderId :: ident
  ms_content :: string
  ms_contentType :: string
  ms_status :: string
  ms_createdAt :: time
  ms_clientId :: "string option"
  ms_senderDevice :: "string option"
  ms_editedAt :: "time option"
  ms_deleted :: bool

record receipt_row =
  rp_msgId :: ident
  rp_userId :: ident
  rp_deviceId :: string
  rp_deliveredAt :: "time option"
  rp_readAt :: "time option"

record event_row =
  ev_seq :: ident
  ev_userId :: ident
  ev_type :: string
  ev_payload :: string
  ev_createdAt :: time

record idkey_row =
  ik_userId :: ident
  ik_deviceId :: string
  ik_pub :: string

datatype prekey_status = Unused | Claimed | Used

record prekey_row =
  py_id :: ident
  py_userId :: ident
  py_deviceId :: string
  py_pub :: string
  py_status :: prekey_status
  py_claimedAt :: "time option"

section \<open>The database\<close>

text \<open>
  \<open>db_faults\<close> says of the write statements to come which ones the engine fails (a locked or full
  database): the first element belongs to the next one, and past its end none fails.
\<close>

record db =
  db_users :: "user_row list"
  db_sessions :: "session_row list"
  db_audit :: "audit_row list"
  db_devices :: "device_row list"
  db_contacts :: "contact_row list"
  db_convs :: "conv_row list"
  db_members :: "member_row list"
  db_msgs :: "msg_row list"
  db_receipts :: "receipt_row list"
  db_events :: "event_row list"
  db_idkeys :: "idkey_row list"
  db_prekeys :: "prekey_row list"
  db_userSeq :: ident
  db_sessionSeq :: ident
  db_convSeq :: ident
  db_msgSeq :: ident
  db_eventSeq :: ident
  db_prekeySeq :: ident
  db_prunedBelow :: ident
  db_faults :: "bool list"

definition empty_db :: db where
  "empty_db = \<lparr>db_users = [], db_sessions = [], db_audit = [], db_devices = [], db_contacts = [],
     db_convs = [], db_members = [], db_msgs = [], db_receipts = [], db_events = [],
     db_idkeys = [], db_prekeys = [], db_userSeq = 0, db_sessionSeq = 0, db_convSeq = 0,
     db_msgSeq = 0, db_eventSeq = 0, db_prekeySeq = 0, db_prunedBelow = 0, db_faults = []\<rparr>"

definition next_fault :: "db \<Rightarrow> bool \<times> db" where
  "next_fault d = (case db_faults d of [] \<Rightarrow> (False, d) | b # bs \<Rightarrow> (b, d\<lparr>db_faults := bs\<rparr>))"

text \<open>One write statement: it fails on a fault or when a constraint is violated, and then changes
  nothing.\<close>

definition exec_stmt :: "(db \<Rightarrow> bool) \<Rightarrow> (db \<Rightarrow> db) \<Rightarrow> db \<Rightarrow> bool \<times> db" where
  "exec_stmt allowed f d =
     (let (fault, d1) = next_fault d
      in if fault \<or> \<not> allowed d1 then (False, d1) else (True, f d1))"

abbreviation unconstrained :: "db \<Rightarrow> bool" where
  "unconstrained \<equiv> \<lambda>_. True"

text \<open>Transactions. A rollback restores every table and counter; the faults that were met stay met.\<close>

definition beginTransaction :: "db \<Rightarrow> bool \<times> db" where
  "beginTransaction d = exec_stmt unconstrained id d"

definition commitTransaction :: "db \<Rightarrow> bool \<times> db" where
  "commitTransaction d = exec_stmt unconstrained id d"

definition rollbackTransaction :: "db \<Rightarrow> db \<Rightarrow> db" where
  "rollbackTransaction saved d = saved\<lparr>db_faults := db_faults d\<rparr>"

section \<open>The invariant of the schema\<close>

definition user_ids :: "db \<Rightarrow> ident set" where
  "user_ids d = ur_id ` set (db_users d)"

definition conv_ids :: "db \<Rightarrow> ident set" where
  "conv_ids d = cv_id ` set (db_convs d)"

definition msg_ids :: "db \<Rightarrow> ident set" where
  "msg_ids d = ms_id ` set (db_msgs d)"

text \<open>A foreign key as a test on the referenced table, for the statements that check it.\<close>

definition has_user :: "ident \<Rightarrow> db \<Rightarrow> bool" where
  "has_user u d = exists_where (\<lambda>r. ur_id r = u) (db_users d)"

definition has_conv :: "ident \<Rightarrow> db \<Rightarrow> bool" where
  "has_conv c d = exists_where (\<lambda>r. cv_id r = c) (db_convs d)"

definition has_msg :: "ident \<Rightarrow> db \<Rightarrow> bool" where
  "has_msg m d = exists_where (\<lambda>r. ms_id r = m) (db_msgs d)"

lemma has_iff: "has_user u d \<longleftrightarrow> u \<in> user_ids d" "has_conv c d \<longleftrightarrow> c \<in> conv_ids d"
  "has_msg m d \<longleftrightarrow> m \<in> msg_ids d"
  by (auto simp: has_user_def has_conv_def has_msg_def user_ids_def conv_ids_def msg_ids_def
      exists_where_iff)

definition users_ok :: "user_row list \<Rightarrow> ident \<Rightarrow> bool" where
  "users_ok us n \<longleftrightarrow> keys_ok ur_id us n \<and> distinct (map ur_username us)"

definition sessions_ok :: "ident set \<Rightarrow> session_row list \<Rightarrow> ident \<Rightarrow> bool" where
  "sessions_ok U ss n \<longleftrightarrow> keys_ok se_id ss n \<and> distinct (map se_tokenHash ss)
     \<and> (\<forall>s\<in>set ss. se_userId s \<in> U)"

definition devices_ok :: "ident set \<Rightarrow> device_row list \<Rightarrow> bool" where
  "devices_ok U ds \<longleftrightarrow> distinct (map (\<lambda>r. (dv_userId r, dv_deviceId r)) ds)
     \<and> (\<forall>r\<in>set ds. dv_userId r \<in> U)"

definition contacts_ok :: "ident set \<Rightarrow> contact_row list \<Rightarrow> bool" where
  "contacts_ok U cs \<longleftrightarrow> distinct (map (\<lambda>r. (ct_userId r, ct_contactUserId r)) cs)
     \<and> (\<forall>r\<in>set cs. ct_userId r \<in> U \<and> ct_contactUserId r \<in> U)"

definition conv_types :: "string set" where
  "conv_types = {''private'', ''group''}"

lemma conv_types_mem [simp]: "''private'' \<in> conv_types" "''group'' \<in> conv_types"
  by (simp_all add: conv_types_def)

definition convs_ok :: "conv_row list \<Rightarrow> ident \<Rightarrow> bool" where
  "convs_ok cs n \<longleftrightarrow> keys_ok cv_id cs n \<and> (\<forall>c\<in>set cs. cv_type c \<in> conv_types)"

definition group_roles :: "string set" where
  "group_roles = {''owner'', ''admin'', ''member''}"

lemma group_roles_mem [simp]:
  "''owner'' \<in> group_roles" "''admin'' \<in> group_roles" "''member'' \<in> group_roles"
  by (simp_all add: group_roles_def)

definition members_ok :: "ident set \<Rightarrow> ident set \<Rightarrow> member_row list \<Rightarrow> bool" where
  "members_ok U C ms \<longleftrightarrow> distinct (map (\<lambda>r. (mb_convId r, mb_userId r)) ms)
     \<and> (\<forall>r\<in>set ms. mb_userId r \<in> U \<and> mb_convId r \<in> C
          \<and> mb_role r \<in> group_roles)"

text \<open>The partial unique index over messages that carry an idempotency key.\<close>

definition client_key :: "msg_row \<Rightarrow> (ident \<times> string \<times> string) option" where
  "client_key m = (case (ms_senderDevice m, ms_clientId m) of
     (Some dev, Some cid) \<Rightarrow> if cid = [] then None else Some (ms_senderId m, dev, cid) | _ \<Rightarrow> None)"

definition client_keys_ok :: "msg_row list \<Rightarrow> bool" where
  "client_keys_ok ms \<longleftrightarrow> (\<forall>a\<in>set ms. \<forall>b\<in>set ms. client_key a \<noteq> None \<longrightarrow> client_key a = client_key b
     \<longrightarrow> ms_id a = ms_id b)"

definition msgs_ok :: "ident set \<Rightarrow> ident set \<Rightarrow> msg_row list \<Rightarrow> ident \<Rightarrow> bool" where
  "msgs_ok U C ms n \<longleftrightarrow> keys_ok ms_id ms n \<and> client_keys_ok ms
     \<and> (\<forall>m\<in>set ms. ms_senderId m \<in> U \<and> ms_convId m \<in> C)"

definition receipts_ok :: "ident set \<Rightarrow> ident set \<Rightarrow> receipt_row list \<Rightarrow> bool" where
  "receipts_ok U M rs \<longleftrightarrow> distinct (map (\<lambda>r. (rp_msgId r, rp_userId r, rp_deviceId r)) rs)
     \<and> (\<forall>r\<in>set rs. rp_userId r \<in> U \<and> rp_msgId r \<in> M)"

definition events_ok :: "ident set \<Rightarrow> event_row list \<Rightarrow> ident \<Rightarrow> ident \<Rightarrow> bool" where
  "events_ok U es n p \<longleftrightarrow> keys_ok ev_seq es n \<and> sorted_wrt (<) (map ev_seq es) \<and> 0 \<le> p \<and> p \<le> n
     \<and> (\<forall>e\<in>set es. ev_userId e \<in> U)"

definition idkeys_ok :: "ident set \<Rightarrow> idkey_row list \<Rightarrow> bool" where
  "idkeys_ok U ks \<longleftrightarrow> distinct (map (\<lambda>r. (ik_userId r, ik_deviceId r)) ks)
     \<and> (\<forall>r\<in>set ks. ik_userId r \<in> U)"

definition prekeys_ok :: "ident set \<Rightarrow> prekey_row list \<Rightarrow> ident \<Rightarrow> bool" where
  "prekeys_ok U ps n \<longleftrightarrow> keys_ok py_id ps n \<and> (\<forall>p\<in>set ps. py_userId p \<in> U)"

definition db_inv :: "db \<Rightarrow> bool" where
  "db_inv d \<longleftrightarrow> users_ok (db_users d) (db_userSeq d)
     \<and> sessions_ok (user_ids d) (db_sessions d) (db_sessionSeq d)
     \<and> devices_ok (user_ids d) (db_devices d)
     \<and> contacts_ok (user_ids d) (db_contacts d)
     \<and> convs_ok (db_convs d) (db_convSeq d)
     \<and> members_ok (user_ids d) (conv_ids d) (db_members d)
     \<and> msgs_ok (user_ids d) (conv_ids d) (db_msgs d) (db_msgSeq d)
     \<and> receipts_ok (user_ids d) (msg_ids d) (db_receipts d)
     \<and> events_ok (user_ids d) (db_events d) (db_eventSeq d) (db_prunedBelow d)
     \<and> idkeys_ok (user_ids d) (db_idkeys d)
     \<and> prekeys_ok (user_ids d) (db_prekeys d) (db_prekeySeq d)"

lemma empty_db_inv: "db_inv empty_db"
  by (simp add: db_inv_def empty_db_def users_ok_def sessions_ok_def devices_ok_def contacts_ok_def
      convs_ok_def members_ok_def msgs_ok_def receipts_ok_def events_ok_def idkeys_ok_def
      prekeys_ok_def client_keys_ok_def)

lemmas tables_ok_defs = users_ok_def sessions_ok_def devices_ok_def contacts_ok_def convs_ok_def
  members_ok_def msgs_ok_def receipts_ok_def events_ok_def idkeys_ok_def prekeys_ok_def

lemma image_update_where:
  "(\<And>r. k (f r) = k r) \<Longrightarrow> k ` set (update_where P f rs) = k ` set rs"
  using map_update_where [of k f P rs] by (metis list.set_map)

section \<open>Statements preserve what is not theirs\<close>

lemma ids_update [simp]:
  "user_ids (d\<lparr>db_faults := x1\<rparr>) = user_ids d" "user_ids (d\<lparr>db_sessions := x2\<rparr>) = user_ids d"
  "user_ids (d\<lparr>db_audit := x3\<rparr>) = user_ids d" "user_ids (d\<lparr>db_devices := x4\<rparr>) = user_ids d"
  "user_ids (d\<lparr>db_contacts := x5\<rparr>) = user_ids d" "user_ids (d\<lparr>db_convs := x6\<rparr>) = user_ids d"
  "user_ids (d\<lparr>db_members := x7\<rparr>) = user_ids d" "user_ids (d\<lparr>db_msgs := x8\<rparr>) = user_ids d"
  "user_ids (d\<lparr>db_receipts := x9\<rparr>) = user_ids d" "user_ids (d\<lparr>db_events := x10\<rparr>) = user_ids d"
  "user_ids (d\<lparr>db_idkeys := x11\<rparr>) = user_ids d" "user_ids (d\<lparr>db_prekeys := x12\<rparr>) = user_ids d"
  "user_ids (d\<lparr>db_userSeq := x13\<rparr>) = user_ids d" "user_ids (d\<lparr>db_sessionSeq := x14\<rparr>) = user_ids d"
  "user_ids (d\<lparr>db_convSeq := x15\<rparr>) = user_ids d" "user_ids (d\<lparr>db_msgSeq := x16\<rparr>) = user_ids d"
  "user_ids (d\<lparr>db_eventSeq := x17\<rparr>) = user_ids d" "user_ids (d\<lparr>db_prekeySeq := x18\<rparr>) = user_ids d"
  "user_ids (d\<lparr>db_prunedBelow := x19\<rparr>) = user_ids d"
  by (simp_all add: user_ids_def)

lemma conv_ids_update [simp]:
  "conv_ids (d\<lparr>db_faults := x1\<rparr>) = conv_ids d" "conv_ids (d\<lparr>db_sessions := x2\<rparr>) = conv_ids d"
  "conv_ids (d\<lparr>db_audit := x3\<rparr>) = conv_ids d" "conv_ids (d\<lparr>db_devices := x4\<rparr>) = conv_ids d"
  "conv_ids (d\<lparr>db_contacts := x5\<rparr>) = conv_ids d" "conv_ids (d\<lparr>db_users := x6\<rparr>) = conv_ids d"
  "conv_ids (d\<lparr>db_members := x7\<rparr>) = conv_ids d" "conv_ids (d\<lparr>db_msgs := x8\<rparr>) = conv_ids d"
  "conv_ids (d\<lparr>db_receipts := x9\<rparr>) = conv_ids d" "conv_ids (d\<lparr>db_events := x10\<rparr>) = conv_ids d"
  "conv_ids (d\<lparr>db_idkeys := x11\<rparr>) = conv_ids d" "conv_ids (d\<lparr>db_prekeys := x12\<rparr>) = conv_ids d"
  "conv_ids (d\<lparr>db_userSeq := x13\<rparr>) = conv_ids d" "conv_ids (d\<lparr>db_sessionSeq := x14\<rparr>) = conv_ids d"
  "conv_ids (d\<lparr>db_convSeq := x15\<rparr>) = conv_ids d" "conv_ids (d\<lparr>db_msgSeq := x16\<rparr>) = conv_ids d"
  "conv_ids (d\<lparr>db_eventSeq := x17\<rparr>) = conv_ids d" "conv_ids (d\<lparr>db_prekeySeq := x18\<rparr>) = conv_ids d"
  "conv_ids (d\<lparr>db_prunedBelow := x19\<rparr>) = conv_ids d"
  by (simp_all add: conv_ids_def)

lemma msg_ids_update [simp]:
  "msg_ids (d\<lparr>db_faults := x1\<rparr>) = msg_ids d" "msg_ids (d\<lparr>db_sessions := x2\<rparr>) = msg_ids d"
  "msg_ids (d\<lparr>db_audit := x3\<rparr>) = msg_ids d" "msg_ids (d\<lparr>db_devices := x4\<rparr>) = msg_ids d"
  "msg_ids (d\<lparr>db_contacts := x5\<rparr>) = msg_ids d" "msg_ids (d\<lparr>db_users := x6\<rparr>) = msg_ids d"
  "msg_ids (d\<lparr>db_members := x7\<rparr>) = msg_ids d" "msg_ids (d\<lparr>db_convs := x8\<rparr>) = msg_ids d"
  "msg_ids (d\<lparr>db_receipts := x9\<rparr>) = msg_ids d" "msg_ids (d\<lparr>db_events := x10\<rparr>) = msg_ids d"
  "msg_ids (d\<lparr>db_idkeys := x11\<rparr>) = msg_ids d" "msg_ids (d\<lparr>db_prekeys := x12\<rparr>) = msg_ids d"
  "msg_ids (d\<lparr>db_userSeq := x13\<rparr>) = msg_ids d" "msg_ids (d\<lparr>db_sessionSeq := x14\<rparr>) = msg_ids d"
  "msg_ids (d\<lparr>db_convSeq := x15\<rparr>) = msg_ids d" "msg_ids (d\<lparr>db_msgSeq := x16\<rparr>) = msg_ids d"
  "msg_ids (d\<lparr>db_eventSeq := x17\<rparr>) = msg_ids d" "msg_ids (d\<lparr>db_prekeySeq := x18\<rparr>) = msg_ids d"
  "msg_ids (d\<lparr>db_prunedBelow := x19\<rparr>) = msg_ids d"
  by (simp_all add: msg_ids_def)

lemma db_inv_faults [simp]: "db_inv (d\<lparr>db_faults := x\<rparr>) = db_inv d"
  by (simp add: db_inv_def)

lemma db_inv_audit [simp]: "db_inv (d\<lparr>db_audit := x\<rparr>) = db_inv d"
  by (simp add: db_inv_def)

lemma next_fault_cases: "\<exists>fs. snd (next_fault d) = d\<lparr>db_faults := fs\<rparr>"
proof (cases "db_faults d")
  case Nil
  then have "snd (next_fault d) = d\<lparr>db_faults := db_faults d\<rparr>"
    by (simp add: next_fault_def)
  then show ?thesis by blast
next
  case (Cons b bs)
  then have "snd (next_fault d) = d\<lparr>db_faults := bs\<rparr>"
    by (simp add: next_fault_def)
  then show ?thesis by blast
qed

text \<open>Every statement either leaves the tables alone or performs its update on them.\<close>

lemma exec_stmt_cases:
  obtains fs where "exec_stmt allowed f d = (False, d\<lparr>db_faults := fs\<rparr>)"
  | fs where "exec_stmt allowed f d = (True, f (d\<lparr>db_faults := fs\<rparr>))" "allowed (d\<lparr>db_faults := fs\<rparr>)"
proof -
  obtain fs where fs: "snd (next_fault d) = d\<lparr>db_faults := fs\<rparr>"
    using next_fault_cases by blast
  show ?thesis
  proof (cases "fst (next_fault d) \<or> \<not> allowed (d\<lparr>db_faults := fs\<rparr>)")
    case True
    then have "exec_stmt allowed f d = (False, d\<lparr>db_faults := fs\<rparr>)"
      unfolding exec_stmt_def split_beta Let_def fs by (simp only: if_True)
    then show ?thesis by (rule that(1))
  next
    case False
    then have "exec_stmt allowed f d = (True, f (d\<lparr>db_faults := fs\<rparr>))"
      unfolding exec_stmt_def split_beta Let_def fs by (simp only: if_False)
    with False show ?thesis using that(2) by blast
  qed
qed

lemma exec_stmt_inv:
  assumes "I d" and "\<And>d fs. I (d\<lparr>db_faults := fs\<rparr>) = I d"
    and "\<And>d. I d \<Longrightarrow> allowed d \<Longrightarrow> I (f d)"
  shows "I (snd (exec_stmt allowed f d))"
proof (rule exec_stmt_cases [of allowed f d])
  fix fs
  have I: "I (d\<lparr>db_faults := fs\<rparr>)" using assms(1,2) by (simp only:)
  show "I (snd (exec_stmt allowed f d))" if "exec_stmt allowed f d = (False, d\<lparr>db_faults := fs\<rparr>)"
    unfolding that snd_conv by (rule I)
  show "I (snd (exec_stmt allowed f d))"
    if "exec_stmt allowed f d = (True, f (d\<lparr>db_faults := fs\<rparr>))" "allowed (d\<lparr>db_faults := fs\<rparr>)"
    unfolding that(1) snd_conv by (rule assms(3) [OF I that(2)])
qed

lemma exec_stmt_db_inv [inv_intros]:
  assumes "db_inv d" and "\<And>d. db_inv d \<Longrightarrow> allowed d \<Longrightarrow> db_inv (f d)"
  shows "db_inv (snd (exec_stmt allowed f d))"
  by (rule exec_stmt_inv [of db_inv, OF assms(1) db_inv_faults assms(2)])

lemma exec_stmt_frame:
  assumes "\<And>d fs. F (d\<lparr>db_faults := fs\<rparr>) = F d" and "\<And>d. F (f d) = F d"
  shows "F (snd (exec_stmt allowed f d)) = F d"
  using exec_stmt_inv [of "\<lambda>x. F x = F d" d allowed f] assms by simp

lemma exec_stmt_no_fault: "db_faults d = [] \<Longrightarrow> exec_stmt allowed f d = (if allowed d then (True, f d) else (False, d))"
  by (simp add: exec_stmt_def next_fault_def)

lemma transaction_inv [inv_intros]:
  "db_inv d \<Longrightarrow> db_inv (snd (beginTransaction d))"
  "db_inv d \<Longrightarrow> db_inv (snd (commitTransaction d))"
  "db_inv saved \<Longrightarrow> db_inv (rollbackTransaction saved d)"
  by (auto simp: beginTransaction_def commitTransaction_def rollbackTransaction_def
      intro!: exec_stmt_db_inv)

text \<open>More users, conversations or messages keep every reference valid.\<close>

lemma tables_ok_mono:
  "sessions_ok U ss n \<Longrightarrow> U \<subseteq> V \<Longrightarrow> sessions_ok V ss n"
  "devices_ok U ds \<Longrightarrow> U \<subseteq> V \<Longrightarrow> devices_ok V ds"
  "contacts_ok U cs \<Longrightarrow> U \<subseteq> V \<Longrightarrow> contacts_ok V cs"
  "members_ok U C ms \<Longrightarrow> U \<subseteq> V \<Longrightarrow> C \<subseteq> D \<Longrightarrow> members_ok V D ms"
  "msgs_ok U C gs n \<Longrightarrow> U \<subseteq> V \<Longrightarrow> C \<subseteq> D \<Longrightarrow> msgs_ok V D gs n"
  "receipts_ok U M rs \<Longrightarrow> U \<subseteq> V \<Longrightarrow> M \<subseteq> N \<Longrightarrow> receipts_ok V N rs"
  "events_ok U es n p \<Longrightarrow> U \<subseteq> V \<Longrightarrow> events_ok V es n p"
  "idkeys_ok U ks \<Longrightarrow> U \<subseteq> V \<Longrightarrow> idkeys_ok V ks"
  "prekeys_ok U ps n \<Longrightarrow> U \<subseteq> V \<Longrightarrow> prekeys_ok V ps n"
  by (auto simp: tables_ok_defs)

lemma db_inv_users:
  assumes "db_inv d" "users_ok us n" "user_ids d \<subseteq> ur_id ` set us"
  shows "db_inv (d\<lparr>db_users := us, db_userSeq := n\<rparr>)"
proof -
  have u: "user_ids (d\<lparr>db_users := us, db_userSeq := n\<rparr>) = ur_id ` set us"
    by (simp add: user_ids_def)
  show ?thesis
    using assms(1,2) unfolding db_inv_def u
    by (auto intro: tables_ok_mono [OF _ assms(3)] tables_ok_mono(4-6) [OF _ assms(3) subset_refl])
qed

lemma db_inv_convs:
  assumes "db_inv d" "convs_ok cs n" "conv_ids d \<subseteq> cv_id ` set cs"
  shows "db_inv (d\<lparr>db_convs := cs, db_convSeq := n\<rparr>)"
proof -
  have c: "conv_ids (d\<lparr>db_convs := cs, db_convSeq := n\<rparr>) = cv_id ` set cs"
    by (simp add: conv_ids_def)
  show ?thesis
    using assms(1,2) unfolding db_inv_def c
    by (auto intro: tables_ok_mono(4,5) [OF _ subset_refl assms(3)])
qed

lemma db_inv_msgs:
  assumes "db_inv d" "msgs_ok (user_ids d) (conv_ids d) ms n" "msg_ids d \<subseteq> ms_id ` set ms"
  shows "db_inv (d\<lparr>db_msgs := ms, db_msgSeq := n\<rparr>)"
proof -
  have m: "msg_ids (d\<lparr>db_msgs := ms, db_msgSeq := n\<rparr>) = ms_id ` set ms"
    by (simp add: msg_ids_def)
  show ?thesis
    using assms(1,2) unfolding db_inv_def m
    by (auto intro: tables_ok_mono(6) [OF _ subset_refl assms(3)])
qed

end
