(* ===== verification/Database_Accounts.thy ===== *)
theory Database_Accounts
  imports Database_Core
begin

text \<open>
  DatabaseManager.cpp: users, sessions, the login audit, devices, the user search and contacts. Every
  operation is a function of the database; a write is a statement that may fail, and \<open>now\<close> is
  the time of \<open>datetime('now')\<close>.
\<close>

section \<open>Users\<close>

definition userExists :: "string \<Rightarrow> db \<Rightarrow> bool" where
  "userExists username d = (count_where (\<lambda>r. ur_username r = username) (db_users d) > 0)"

definition getUserByUsername :: "string \<Rightarrow> db \<Rightarrow> user_row option" where
  "getUserByUsername username d = find (\<lambda>r. ur_username r = username) (db_users d)"

definition find_user :: "ident \<Rightarrow> db \<Rightarrow> user_row option" where
  "find_user u d = find (\<lambda>r. ur_id r = u) (db_users d)"

definition usernameById :: "ident \<Rightarrow> db \<Rightarrow> string" where
  "usernameById userId d = (case find_user userId d of None \<Rightarrow> [] | Some r \<Rightarrow> ur_username r)"

definition mk_user :: "ident \<Rightarrow> string \<times> string \<times> string \<times> string \<times> time \<Rightarrow> db \<Rightarrow> user_row" where
  "mk_user i = (\<lambda>(username, email, phone, pw, now) d.
     \<lparr>ur_id = i, ur_username = username, ur_email = email, ur_phone = phone, ur_passwordHash = pw,
      ur_createdAt = now\<rparr>)"

definition insert_user :: "string \<times> string \<times> string \<times> string \<times> time \<Rightarrow> db \<Rightarrow> db" where
  "insert_user a d = d\<lparr>db_users := db_users d @ [mk_user (db_userSeq d + 1) a d],
     db_userSeq := db_userSeq d + 1\<rparr>"

definition registerUser :: "string \<Rightarrow> string \<Rightarrow> string \<Rightarrow> string \<Rightarrow> time \<Rightarrow> db \<Rightarrow> ident \<times> db" where
  "registerUser username email phone passwordHash now d =
     (let (ok, d1) = exec_stmt (\<lambda>d. \<not> exists_where (\<lambda>r. ur_username r = username) (db_users d))
                       (insert_user (username, email, phone, passwordHash, now)) d
      in if ok then (db_userSeq d1, d1) else (-1, d1))"

interpretation usersT: auto_table db_users db_userSeq ur_id mk_user insert_user
  by unfold_locales (auto simp: insert_user_def mk_user_def)

section \<open>Sessions\<close>

definition mk_session ::
  "ident \<Rightarrow> ident \<times> string \<times> string \<times> string \<times> time \<times> int \<Rightarrow> db \<Rightarrow> session_row" where
  "mk_session i = (\<lambda>(userId, deviceId, tokenHash, loginIp, now, ttl) d.
     \<lparr>se_id = i, se_userId = userId, se_deviceId = deviceId, se_tokenHash = tokenHash,
      se_loginIp = loginIp, se_createdAt = now, se_lastActiveAt = now, se_expiresAt = Some (now + ttl)\<rparr>)"

definition insert_session :: "ident \<times> string \<times> string \<times> string \<times> time \<times> int \<Rightarrow> db \<Rightarrow> db" where
  "insert_session a d = d\<lparr>db_sessions := db_sessions d @ [mk_session (db_sessionSeq d + 1) a d],
     db_sessionSeq := db_sessionSeq d + 1\<rparr>"

definition createSession ::
  "ident \<Rightarrow> string \<Rightarrow> string \<Rightarrow> string \<Rightarrow> int \<Rightarrow> time \<Rightarrow> db \<Rightarrow> ident \<times> db" where
  "createSession userId deviceId tokenHash loginIp ttlSeconds now d =
     (let (ok, d1) = exec_stmt (\<lambda>d. has_user userId d
                         \<and> \<not> exists_where (\<lambda>s. se_tokenHash s = tokenHash) (db_sessions d))
                       (insert_session (userId, deviceId, tokenHash, loginIp, now, ttlSeconds)) d
      in if ok then (db_sessionSeq d1, d1) else (-1, d1))"

definition default_session_ttl :: int where
  "default_session_ttl = 86400 * 7"

interpretation sessionsT: auto_table db_sessions db_sessionSeq se_id mk_session insert_session
  by unfold_locales (auto simp: insert_session_def mk_session_def)

definition getSessionByTokenHash :: "string \<Rightarrow> db \<Rightarrow> session_row option" where
  "getSessionByTokenHash tokenHash d = find (\<lambda>s. se_tokenHash s = tokenHash) (db_sessions d)"

definition updateSessionLastActive :: "ident \<Rightarrow> time \<Rightarrow> db \<Rightarrow> bool \<times> db" where
  "updateSessionLastActive sessionId now d =
     exec_stmt unconstrained
       (\<lambda>d. d\<lparr>db_sessions := update_where (\<lambda>s. se_id s = sessionId)
                              (\<lambda>s. s\<lparr>se_lastActiveAt := now\<rparr>) (db_sessions d)\<rparr>) d"

definition getSessionById :: "ident \<Rightarrow> db \<Rightarrow> session_row option" where
  "getSessionById sessionId d = find (\<lambda>s. se_id s = sessionId) (db_sessions d)"

definition deleteSession :: "ident \<Rightarrow> db \<Rightarrow> bool \<times> db" where
  "deleteSession sessionId d =
     exec_stmt unconstrained
       (\<lambda>d. d\<lparr>db_sessions := delete_where (\<lambda>s. se_id s = sessionId) (db_sessions d)\<rparr>) d"

definition deleteSessionsByUserId :: "ident \<Rightarrow> db \<Rightarrow> bool \<times> db" where
  "deleteSessionsByUserId userId d =
     exec_stmt unconstrained
       (\<lambda>d. d\<lparr>db_sessions := delete_where (\<lambda>s. se_userId s = userId) (db_sessions d)\<rparr>) d"

definition getSessionsByUserId :: "ident \<Rightarrow> db \<Rightarrow> session_row list" where
  "getSessionsByUserId userId d =
     sort_key (\<lambda>s. - se_createdAt s) (filter (\<lambda>s. se_userId s = userId) (db_sessions d))"

section \<open>Login audit\<close>

definition recordLoginAttempt :: "ident \<Rightarrow> string \<Rightarrow> bool \<Rightarrow> string \<Rightarrow> time \<Rightarrow> db \<Rightarrow> db" where
  "recordLoginAttempt userId ipAddress success failureReason now d =
     snd (exec_stmt unconstrained
       (\<lambda>d. d\<lparr>db_audit := db_audit d @ [\<lparr>au_userId = userId, au_ip = ipAddress,
               au_success = success, au_reason = failureReason, au_createdAt = now\<rparr>]\<rparr>) d)"

definition recentFailedLoginCount :: "string \<Rightarrow> int \<Rightarrow> time \<Rightarrow> db \<Rightarrow> nat" where
  "recentFailedLoginCount ipAddress windowSeconds now d =
     count_where (\<lambda>a. au_ip a = ipAddress \<and> \<not> au_success a \<and> au_createdAt a \<ge> now - windowSeconds)
       (db_audit d)"

definition recentFailedLoginCountForUser :: "ident \<Rightarrow> int \<Rightarrow> time \<Rightarrow> db \<Rightarrow> nat" where
  "recentFailedLoginCountForUser userId windowSeconds now d =
     count_where (\<lambda>a. au_userId a = userId \<and> \<not> au_success a \<and> au_createdAt a \<ge> now - windowSeconds)
       (db_audit d)"

section \<open>Devices\<close>

text \<open>INSERT ... ON CONFLICT(user_id, device_id) DO UPDATE.\<close>

definition upsert_device :: "ident \<Rightarrow> string \<Rightarrow> string \<Rightarrow> string \<Rightarrow> time \<Rightarrow> db \<Rightarrow> db" where
  "upsert_device userId deviceId deviceName platform now d =
     (let same = (\<lambda>r. dv_userId r = userId \<and> dv_deviceId r = deviceId)
      in d\<lparr>db_devices :=
           (if exists_where same (db_devices d)
            then update_where same
                   (\<lambda>r. r\<lparr>dv_lastSeenAt := now, dv_name := deviceName, dv_platform := platform\<rparr>)
                   (db_devices d)
            else db_devices d @ [\<lparr>dv_userId = userId, dv_deviceId = deviceId, dv_name = deviceName,
                   dv_platform = platform, dv_createdAt = now, dv_lastSeenAt = now\<rparr>])\<rparr>)"

definition registerDevice :: "ident \<Rightarrow> string \<Rightarrow> string \<Rightarrow> string \<Rightarrow> time \<Rightarrow> db \<Rightarrow> bool \<times> db" where
  "registerDevice userId deviceId deviceName platform now d =
     exec_stmt (has_user userId) (upsert_device userId deviceId deviceName platform now) d"

definition getDevicesByUserId :: "ext \<Rightarrow> ident \<Rightarrow> db \<Rightarrow> jobj list" where
  "getDevicesByUserId X userId d =
     map (\<lambda>r. [(''deviceId'', JStr (dv_deviceId r)), (''deviceName'', JStr (dv_name r)),
               (''platform'', JStr (dv_platform r)), (''createdAt'', JStr (x_sqlTime X (dv_createdAt r))),
               (''lastSeenAt'', JStr (x_sqlTime X (dv_lastSeenAt r)))])
       (sort_key (\<lambda>r. - dv_lastSeenAt r) (filter (\<lambda>r. dv_userId r = userId) (db_devices d)))"

section \<open>Search\<close>

text \<open>LIKE: case-insensitive for ASCII letters, \<open>%\<close> any text, \<open>_\<close> any character. The
  query is bound as it is, so its own \<open>%\<close> and \<open>_\<close> are wildcards.\<close>

definition ascii_lower :: "char \<Rightarrow> char" where
  "ascii_lower c = (let n = of_char c :: nat in if 65 \<le> n \<and> n \<le> 90 then char_of (n + 32) else c)"

function like :: "string \<Rightarrow> string \<Rightarrow> bool" where
  "like [] s = (s = [])"
| "like (p # ps) s =
     (if p = CHR ''%'' then like ps s \<or> (case s of [] \<Rightarrow> False | c # cs \<Rightarrow> like (p # ps) cs)
      else case s of [] \<Rightarrow> False
           | c # cs \<Rightarrow> (p = CHR ''_'' \<or> ascii_lower p = ascii_lower c) \<and> like ps cs)"
  by pat_completeness auto
termination
  by (relation "measure (\<lambda>(p, s). length p + length s)") auto

definition limit_rows :: "int \<Rightarrow> 'a list \<Rightarrow> 'a list" where
  "limit_rows n xs = (if n < 0 then xs else take (nat n) xs)"

definition db_searchUsers :: "string \<Rightarrow> int \<Rightarrow> db \<Rightarrow> user_row list" where
  "db_searchUsers query limit d =
     limit_rows limit (filter (\<lambda>r. like (query @ ''%'') (ur_username r)) (db_users d))"

section \<open>Contacts\<close>

text \<open>INSERT OR IGNORE skips a duplicate pair; a missing user still fails the statement.\<close>

definition insert_contact :: "ident \<Rightarrow> ident \<Rightarrow> time \<Rightarrow> db \<Rightarrow> db" where
  "insert_contact a b now d =
     (if exists_where (\<lambda>r. ct_userId r = a \<and> ct_contactUserId r = b) (db_contacts d) then d
      else d\<lparr>db_contacts := db_contacts d @ [\<lparr>ct_userId = a, ct_contactUserId = b, ct_createdAt = now\<rparr>]\<rparr>)"

definition insert_contact_stmt :: "ident \<Rightarrow> ident \<Rightarrow> time \<Rightarrow> db \<Rightarrow> bool \<times> db" where
  "insert_contact_stmt a b now d =
     exec_stmt (\<lambda>d. has_user a d \<and> has_user b d) (insert_contact a b now) d"

definition db_addContact :: "ident \<Rightarrow> ident \<Rightarrow> time \<Rightarrow> db \<Rightarrow> bool \<times> db" where
  "db_addContact userId contactUserId now d =
     (if userId = contactUserId then (False, d)
      else
        let (ok, d1) = insert_contact_stmt userId contactUserId now d
        in if \<not> ok then (False, d1) else insert_contact_stmt contactUserId userId now d1)"

definition removeContact :: "ident \<Rightarrow> ident \<Rightarrow> db \<Rightarrow> bool \<times> db" where
  "removeContact userId contactUserId d =
     exec_stmt unconstrained
       (\<lambda>d. d\<lparr>db_contacts := delete_where
          (\<lambda>r. (ct_userId r = userId \<and> ct_contactUserId r = contactUserId)
             \<or> (ct_userId r = contactUserId \<and> ct_contactUserId r = userId)) (db_contacts d)\<rparr>) d"

text \<open>The rows joined with their user's name.\<close>

definition db_getContacts :: "ident \<Rightarrow> db \<Rightarrow> (contact_row \<times> string) list" where
  "db_getContacts userId d =
     sort_key (\<lambda>(r, _). - ct_createdAt r)
       (List.map_filter (\<lambda>r. if ct_userId r = userId
             then map_option (\<lambda>u. (r, ur_username u)) (find_user (ct_contactUserId r) d) else None)
          (db_contacts d))"

definition isContact :: "ident \<Rightarrow> ident \<Rightarrow> db \<Rightarrow> bool" where
  "isContact userId contactUserId d =
     (count_where (\<lambda>r. ct_userId r = userId \<and> ct_contactUserId r = contactUserId) (db_contacts d) > 0)"

section \<open>The invariant is preserved\<close>

lemma insert_user_inv:
  assumes "db_inv d" and "\<not> exists_where (\<lambda>r. ur_username r = fst a) (db_users d)"
  shows "db_inv (insert_user a d)"
  unfolding insert_user_def
proof (rule db_inv_users [OF assms(1)])
  show "users_ok (db_users d @ [mk_user (db_userSeq d + 1) a d]) (db_userSeq d + 1)"
    using assms usersT.ins_keys_ok [of d a]
    by (cases a) (auto simp: db_inv_def users_ok_def insert_user_def mk_user_def exists_where_iff)
qed (auto simp: user_ids_def)

lemma registerUser_inv [inv_intros]: "db_inv d \<Longrightarrow> db_inv (snd (registerUser un em ph pw now d))"
  by (auto simp: registerUser_def split_beta Let_def
      intro!: exec_stmt_db_inv insert_user_inv)

lemma insert_session_inv:
  assumes "db_inv d" "has_user u d" "\<not> exists_where (\<lambda>s. se_tokenHash s = h) (db_sessions d)"
  shows "db_inv (insert_session (u, dev, h, ip, now, ttl) d)"
  using assms sessionsT.ins_keys_ok [of d "(u, dev, h, ip, now, ttl)"]
  by (auto simp: db_inv_def sessions_ok_def insert_session_def mk_session_def has_iff
      exists_where_iff)

lemma createSession_inv [inv_intros]:
  "db_inv d \<Longrightarrow> db_inv (snd (createSession u dev h ip ttl now d))"
  by (auto simp: createSession_def split_beta Let_def intro!: exec_stmt_db_inv insert_session_inv)

lemma sessions_delete_inv [inv_intros]:
  "db_inv d \<Longrightarrow> db_inv (d\<lparr>db_sessions := delete_where P (db_sessions d)\<rparr>)"
  by (auto simp: db_inv_def sessions_ok_def keys_ok_delete distinct_map_delete_where)

lemma sessions_touch_inv [inv_intros]:
  "db_inv d \<Longrightarrow> db_inv (d\<lparr>db_sessions := update_where P (\<lambda>s. s\<lparr>se_lastActiveAt := t\<rparr>) (db_sessions d)\<rparr>)"
  by (auto simp: db_inv_def sessions_ok_def keys_ok_update map_update_where in_update_where)

lemma session_ops_inv [inv_intros]:
  "db_inv d \<Longrightarrow> db_inv (snd (updateSessionLastActive s now d))"
  "db_inv d \<Longrightarrow> db_inv (snd (deleteSession s d))"
  "db_inv d \<Longrightarrow> db_inv (snd (deleteSessionsByUserId u d))"
  "db_inv d \<Longrightarrow> db_inv (recordLoginAttempt u ip ok why now d)"
  by (auto simp: updateSessionLastActive_def deleteSession_def deleteSessionsByUserId_def
      recordLoginAttempt_def intro!: exec_stmt_db_inv inv_intros)

lemma upsert_device_inv:
  "db_inv d \<Longrightarrow> has_user u d \<Longrightarrow> db_inv (upsert_device u dev nm pf now d)"
  by (auto simp: db_inv_def devices_ok_def upsert_device_def has_iff exists_where_iff Let_def
      map_update_where in_update_where)

lemma registerDevice_inv [inv_intros]:
  "db_inv d \<Longrightarrow> db_inv (snd (registerDevice u dev nm pf now d))"
  by (auto simp: registerDevice_def intro!: exec_stmt_db_inv upsert_device_inv)

lemma insert_contact_inv:
  "db_inv d \<Longrightarrow> has_user a d \<Longrightarrow> has_user b d \<Longrightarrow> db_inv (insert_contact a b now d)"
  by (auto simp: db_inv_def contacts_ok_def insert_contact_def has_iff exists_where_iff)

lemma insert_contact_stmt_inv [inv_intros]:
  "db_inv d \<Longrightarrow> db_inv (snd (insert_contact_stmt a b now d))"
  by (auto simp: insert_contact_stmt_def intro!: exec_stmt_db_inv insert_contact_inv)

lemma contacts_delete_inv:
  "db_inv d \<Longrightarrow> db_inv (d\<lparr>db_contacts := delete_where P (db_contacts d)\<rparr>)"
  by (auto simp: db_inv_def contacts_ok_def distinct_map_delete_where)

lemma contact_ops_inv [inv_intros]:
  "db_inv d \<Longrightarrow> db_inv (snd (db_addContact a b now d))"
  "db_inv d \<Longrightarrow> db_inv (snd (removeContact a b d))"
  by (auto simp: db_addContact_def removeContact_def split_beta Let_def
      intro!: insert_contact_stmt_inv exec_stmt_db_inv contacts_delete_inv)

end
