(* ===== verification/Database_Chat.thy ===== *)
theory Database_Chat
  imports Database_Accounts
begin

text \<open>
  DatabaseManager.cpp: conversations and their members, messages with the client's idempotency
  key, editing and soft deletion, read cursors, receipts and conversation preferences.
\<close>

section \<open>Conversations and members\<close>

definition mk_conv :: "ident \<Rightarrow> string \<times> string \<times> time \<Rightarrow> db \<Rightarrow> conv_row" where
  "mk_conv i = (\<lambda>(ty, name, now) d.
     \<lparr>cv_id = i, cv_type = ty, cv_name = name, cv_createdAt = now, cv_updatedAt = now\<rparr>)"

definition insert_conv :: "string \<times> string \<times> time \<Rightarrow> db \<Rightarrow> db" where
  "insert_conv a d = d\<lparr>db_convs := db_convs d @ [mk_conv (db_convSeq d + 1) a d],
     db_convSeq := db_convSeq d + 1\<rparr>"

interpretation convsT: auto_table db_convs db_convSeq cv_id mk_conv insert_conv
  by unfold_locales (auto simp: insert_conv_def mk_conv_def)

definition is_member_row :: "ident \<Rightarrow> ident \<Rightarrow> member_row \<Rightarrow> bool" where
  "is_member_row c u r \<longleftrightarrow> mb_convId r = c \<and> mb_userId r = u"

definition insert_member_row :: "ident \<Rightarrow> ident \<Rightarrow> string \<Rightarrow> time \<Rightarrow> db \<Rightarrow> db" where
  "insert_member_row c u role now d = d\<lparr>db_members := db_members d @
     [\<lparr>mb_convId = c, mb_userId = u, mb_role = role, mb_joinedAt = now, mb_lastRead = 0,
       mb_pinned = False, mb_muted = False\<rparr>]\<rparr>"

definition insertMember :: "ident \<Rightarrow> ident \<Rightarrow> string \<Rightarrow> time \<Rightarrow> db \<Rightarrow> bool \<times> db" where
  "insertMember conversationId userId role now d =
     exec_stmt (\<lambda>d. has_conv conversationId d \<and> has_user userId d
          \<and> \<not> exists_where (is_member_row conversationId userId) (db_members d))
       (insert_member_row conversationId userId role now) d"

definition is_private :: "ident \<Rightarrow> db \<Rightarrow> bool" where
  "is_private c d = exists_where (\<lambda>r. cv_id r = c \<and> cv_type r = ''private'') (db_convs d)"

definition find_private :: "ident \<Rightarrow> ident \<Rightarrow> db \<Rightarrow> ident option" where
  "find_private u1 u2 d = map_option mb_convId
     (find (\<lambda>m. mb_userId m = u1 \<and> exists_where (is_member_row (mb_convId m) u2) (db_members d)
            \<and> is_private (mb_convId m) d) (db_members d))"

definition getOrCreatePrivateConversation :: "ident \<Rightarrow> ident \<Rightarrow> time \<Rightarrow> db \<Rightarrow> ident \<times> db" where
  "getOrCreatePrivateConversation userId1 userId2 now d =
     (if userId1 = userId2 then (-1, d)
      else case find_private userId1 userId2 d of
        Some c \<Rightarrow> (c, d)
      | None \<Rightarrow>
          let (ok, d1) = exec_stmt unconstrained (insert_conv (''private'', [], now)) d
          in if \<not> ok then (-1, d1)
             else
               let convId = db_convSeq d1;
                   d2 = snd (insertMember convId userId1 ''member'' now d1);
                   d3 = snd (insertMember convId userId2 ''member'' now d2)
               in (convId, d3))"

record conversation_info =
  ci_id :: ident
  ci_type :: string
  ci_createdAt :: time
  ci_updatedAt :: time
  ci_peerUserId :: ident
  ci_peerUsername :: string
  ci_lastMessage :: string
  ci_lastMessageId :: ident
  ci_lastMessageAt :: "time option"
  ci_unreadCount :: nat
  ci_name :: string
  ci_memberCount :: nat
  ci_pinned :: bool
  ci_muted :: bool

definition find_conv :: "ident \<Rightarrow> db \<Rightarrow> conv_row option" where
  "find_conv c d = find (\<lambda>r. cv_id r = c) (db_convs d)"

definition max_msg_id :: "ident \<Rightarrow> db \<Rightarrow> ident" where
  "max_msg_id c d = max_key (map ms_id (filter (\<lambda>m. ms_convId m = c) (db_msgs d)))"

definition last_message :: "ident \<Rightarrow> db \<Rightarrow> msg_row option" where
  "last_message c d = find (\<lambda>m. ms_id m = max_msg_id c d \<and> ms_convId m = c) (db_msgs d)"

definition member_count :: "ident \<Rightarrow> db \<Rightarrow> nat" where
  "member_count c d = count_where (\<lambda>r. mb_convId r = c) (db_members d)"

definition conversation_row :: "ident \<Rightarrow> db \<Rightarrow> member_row \<Rightarrow> conversation_info option" where
  "conversation_row userId d cm =
     (case find_conv (mb_convId cm) d of
        None \<Rightarrow> None
      | Some c \<Rightarrow>
          let m = last_message (cv_id c) d
          in Some \<lparr>ci_id = cv_id c, ci_type = cv_type c, ci_createdAt = cv_createdAt c,
               ci_updatedAt = cv_updatedAt c, ci_peerUserId = 0, ci_peerUsername = [],
               ci_lastMessage = (case m of None \<Rightarrow> [] | Some r \<Rightarrow> ms_content r),
               ci_lastMessageId = (case m of None \<Rightarrow> 0 | Some r \<Rightarrow> ms_id r),
               ci_lastMessageAt = map_option ms_createdAt m,
               ci_unreadCount = count_where (\<lambda>r. ms_convId r = cv_id c \<and> ms_id r > mb_lastRead cm
                                     \<and> ms_senderId r \<noteq> userId) (db_msgs d),
               ci_name = cv_name c, ci_memberCount = 0,
               ci_pinned = mb_pinned cm, ci_muted = mb_muted cm\<rparr>)"

definition fill_peer :: "ident \<Rightarrow> db \<Rightarrow> conversation_info \<Rightarrow> conversation_info" where
  "fill_peer userId d ci =
     (if ci_type ci = ''private'' then
        (case List.map_filter (\<lambda>m. if mb_convId m = ci_id ci \<and> mb_userId m \<noteq> userId
                  then find_user (mb_userId m) d else None) (db_members d) of
           [] \<Rightarrow> ci
         | u # _ \<Rightarrow> ci\<lparr>ci_peerUserId := ur_id u, ci_peerUsername := ur_username u\<rparr>)
      else if ci_type ci = ''group'' then ci\<lparr>ci_memberCount := member_count (ci_id ci) d\<rparr>
      else ci)"

definition getConversationsForUser :: "ident \<Rightarrow> db \<Rightarrow> conversation_info list" where
  "getConversationsForUser userId d =
     map (fill_peer userId d)
       (sort_key (\<lambda>ci. - (case ci_lastMessageAt ci of None \<Rightarrow> ci_updatedAt ci | Some t \<Rightarrow> t))
         (List.map_filter (\<lambda>cm. if mb_userId cm = userId then conversation_row userId d cm else None)
           (db_members d)))"

definition getConversation :: "ident \<Rightarrow> db \<Rightarrow> conversation_info option" where
  "getConversation conversationId d =
     map_option (\<lambda>c. \<lparr>ci_id = cv_id c, ci_type = cv_type c, ci_createdAt = cv_createdAt c,
         ci_updatedAt = cv_updatedAt c, ci_peerUserId = 0, ci_peerUsername = [], ci_lastMessage = [],
         ci_lastMessageId = 0, ci_lastMessageAt = None, ci_unreadCount = 0, ci_name = cv_name c,
         ci_memberCount = (if cv_type c = ''group'' then member_count conversationId d else 0),
         ci_pinned = False, ci_muted = False\<rparr>)
       (find_conv conversationId d)"

definition isConversationMember :: "ident \<Rightarrow> ident \<Rightarrow> db \<Rightarrow> bool" where
  "isConversationMember conversationId userId d =
     (count_where (is_member_row conversationId userId) (db_members d) > 0)"

definition canAccessMessage :: "ident \<Rightarrow> ident \<Rightarrow> db \<Rightarrow> bool" where
  "canAccessMessage messageId userId d =
     exists_where (\<lambda>m. ms_id m = messageId
        \<and> exists_where (is_member_row (ms_convId m) userId) (db_members d)) (db_msgs d)"

section \<open>Messages\<close>

record message_info =
  mi_id :: ident
  mi_conversationId :: ident
  mi_senderId :: ident
  mi_senderUsername :: string
  mi_content :: string
  mi_contentType :: string
  mi_status :: string
  mi_createdAt :: time
  mi_clientMessageId :: string
  mi_editedAt :: "time option"
  mi_deleted :: bool

definition message_of :: "db \<Rightarrow> msg_row \<Rightarrow> message_info option" where
  "message_of d r = map_option (\<lambda>u. \<lparr>mi_id = ms_id r, mi_conversationId = ms_convId r,
       mi_senderId = ms_senderId r, mi_senderUsername = ur_username u, mi_content = ms_content r,
       mi_contentType = ms_contentType r, mi_status = ms_status r, mi_createdAt = ms_createdAt r,
       mi_clientMessageId = [], mi_editedAt = ms_editedAt r, mi_deleted = ms_deleted r\<rparr>)
     (find_user (ms_senderId r) d)"

text \<open>A comparison with a NULL column is never true.\<close>

definition getMessageByClientKey :: "ident \<Rightarrow> string \<Rightarrow> string \<Rightarrow> db \<Rightarrow> message_info option" where
  "getMessageByClientKey senderId senderDeviceId clientMessageId d =
     (if clientMessageId = [] then None
      else map_option (\<lambda>r. \<lparr>mi_id = ms_id r, mi_conversationId = ms_convId r, mi_senderId = senderId,
               mi_senderUsername = [], mi_content = ms_content r, mi_contentType = ms_contentType r,
               mi_status = ms_status r, mi_createdAt = ms_createdAt r,
               mi_clientMessageId = clientMessageId, mi_editedAt = None, mi_deleted = False\<rparr>)
             (find (\<lambda>r. ms_senderId r = senderId \<and> ms_senderDevice r = Some senderDeviceId
                     \<and> ms_clientId r = Some clientMessageId) (db_msgs d)))"

definition null_if_empty :: "string \<Rightarrow> string option" where
  "null_if_empty s = (if s = [] then None else Some s)"

definition mk_msg ::
  "ident \<Rightarrow> ident \<times> ident \<times> string \<times> string \<times> string \<times> string \<times> time \<Rightarrow> db \<Rightarrow> msg_row" where
  "mk_msg i = (\<lambda>(c, s, content, contentType, cid, dev, now) d.
     \<lparr>ms_id = i, ms_convId = c, ms_senderId = s, ms_content = content, ms_contentType = contentType,
      ms_status = ''sent'', ms_createdAt = now, ms_clientId = null_if_empty cid,
      ms_senderDevice = null_if_empty dev, ms_editedAt = None, ms_deleted = False\<rparr>)"

definition insert_msg :: "ident \<times> ident \<times> string \<times> string \<times> string \<times> string \<times> time \<Rightarrow> db \<Rightarrow> db" where
  "insert_msg a d = d\<lparr>db_msgs := db_msgs d @ [mk_msg (db_msgSeq d + 1) a d],
     db_msgSeq := db_msgSeq d + 1\<rparr>"

interpretation msgsT: auto_table db_msgs db_msgSeq ms_id mk_msg insert_msg
  by unfold_locales (auto simp: insert_msg_def mk_msg_def)

text \<open>The unique index refuses a second row with the same sender, device and client id.\<close>

definition client_key_free :: "ident \<Rightarrow> string \<Rightarrow> string \<Rightarrow> db \<Rightarrow> bool" where
  "client_key_free s cid dev d \<longleftrightarrow> cid = [] \<or> dev = []
     \<or> \<not> exists_where (\<lambda>r. ms_senderId r = s \<and> ms_senderDevice r = Some dev
           \<and> ms_clientId r = Some cid) (db_msgs d)"

definition touch_conv :: "ident \<Rightarrow> time \<Rightarrow> db \<Rightarrow> bool \<times> db" where
  "touch_conv c now d = exec_stmt unconstrained
     (\<lambda>d. d\<lparr>db_convs := update_where (\<lambda>r. cv_id r = c) (\<lambda>r. r\<lparr>cv_updatedAt := now\<rparr>) (db_convs d)\<rparr>) d"

definition db_sendMessage ::
  "ident \<Rightarrow> ident \<Rightarrow> string \<Rightarrow> string \<Rightarrow> string \<Rightarrow> string \<Rightarrow> time \<Rightarrow> db \<Rightarrow> ident \<times> db" where
  "db_sendMessage conversationId senderId content contentType clientMessageId senderDeviceId now d =
     (case getMessageByClientKey senderId senderDeviceId clientMessageId d of
        Some existing \<Rightarrow> (mi_id existing, d)
      | None \<Rightarrow>
          let (ok, d1) = exec_stmt
                (\<lambda>d. has_conv conversationId d \<and> has_user senderId d
                   \<and> client_key_free senderId clientMessageId senderDeviceId d)
                (insert_msg (conversationId, senderId, content, contentType, clientMessageId,
                   senderDeviceId, now)) d
          in if \<not> ok then
               (case getMessageByClientKey senderId senderDeviceId clientMessageId d1 of
                  Some existing \<Rightarrow> (mi_id existing, d1)
                | None \<Rightarrow> (-1, d1))
             else (db_msgSeq d1, snd (touch_conv conversationId now d1)))"

definition find_msg :: "ident \<Rightarrow> db \<Rightarrow> msg_row option" where
  "find_msg i d = find (\<lambda>r. ms_id r = i) (db_msgs d)"

definition getMessage :: "ident \<Rightarrow> db \<Rightarrow> message_info option" where
  "getMessage messageId d =
     (case find_msg messageId d of None \<Rightarrow> None | Some r \<Rightarrow> message_of d r)"

definition joined_messages :: "(msg_row \<Rightarrow> bool) \<Rightarrow> db \<Rightarrow> message_info list" where
  "joined_messages P d = List.map_filter (\<lambda>r. if P r then message_of d r else None) (db_msgs d)"

definition getMessages :: "ident \<Rightarrow> ident \<Rightarrow> int \<Rightarrow> db \<Rightarrow> message_info list" where
  "getMessages conversationId beforeId limit d =
     rev (limit_rows limit (sort_key (\<lambda>m. - mi_id m)
       (joined_messages (\<lambda>r. ms_convId r = conversationId \<and> (beforeId > 0 \<longrightarrow> ms_id r < beforeId)) d)))"

definition db_syncMessages :: "ident \<Rightarrow> ident \<Rightarrow> int \<Rightarrow> db \<Rightarrow> message_info list" where
  "db_syncMessages conversationId afterId limit d =
     limit_rows limit (sort_key mi_id
       (joined_messages (\<lambda>r. ms_convId r = conversationId \<and> ms_id r > afterId) d))"

text \<open>UPDATE messages ... WHERE: the rows' keys, references and idempotency keys never change.\<close>

definition update_msgs :: "(msg_row \<Rightarrow> bool) \<Rightarrow> (msg_row \<Rightarrow> msg_row) \<Rightarrow> db \<Rightarrow> bool \<times> db" where
  "update_msgs P f d = exec_stmt unconstrained (\<lambda>d. d\<lparr>db_msgs := update_where P f (db_msgs d)\<rparr>) d"

definition updateMessageStatus :: "ident \<Rightarrow> string \<Rightarrow> db \<Rightarrow> bool \<times> db" where
  "updateMessageStatus messageId status d =
     update_msgs (\<lambda>r. ms_id r = messageId) (\<lambda>r. r\<lparr>ms_status := status\<rparr>) d"

definition db_editMessage :: "ident \<Rightarrow> string \<Rightarrow> string \<Rightarrow> time \<Rightarrow> db \<Rightarrow> bool \<times> db" where
  "db_editMessage messageId content contentType now d =
     (if messageId \<le> 0 \<or> content = [] \<or> contentType = [] then (False, d)
      else
        let P = (\<lambda>r. ms_id r = messageId \<and> \<not> ms_deleted r);
            (ok, d1) = update_msgs P (\<lambda>r. r\<lparr>ms_content := content, ms_contentType := contentType,
                          ms_editedAt := Some now\<rparr>) d
        in (ok \<and> count_where P (db_msgs d) > 0, d1))"

definition db_deleteMessage :: "ident \<Rightarrow> db \<Rightarrow> bool \<times> db" where
  "db_deleteMessage messageId d =
     (if messageId \<le> 0 then (False, d)
      else update_msgs (\<lambda>r. ms_id r = messageId) (\<lambda>r. r\<lparr>ms_deleted := True, ms_content := []\<rparr>) d)"

definition update_members :: "(member_row \<Rightarrow> bool) \<Rightarrow> (member_row \<Rightarrow> member_row) \<Rightarrow> db \<Rightarrow> bool \<times> db" where
  "update_members P f d =
     exec_stmt unconstrained (\<lambda>d. d\<lparr>db_members := update_where P f (db_members d)\<rparr>) d"

definition updateMessagesReadStatus :: "ident \<Rightarrow> ident \<Rightarrow> db \<Rightarrow> bool \<times> db" where
  "updateMessagesReadStatus conversationId readerId d =
     (let (ok, d1) = update_msgs (\<lambda>r. ms_convId r = conversationId \<and> ms_senderId r \<noteq> readerId
                         \<and> ms_status r \<noteq> ''read'') (\<lambda>r. r\<lparr>ms_status := ''read''\<rparr>) d
      in if \<not> ok then (False, d1)
         else (True, snd (update_members (is_member_row conversationId readerId)
                (\<lambda>r. r\<lparr>mb_lastRead := max_msg_id conversationId d1\<rparr>) d1)))"

definition getUnreadCount :: "ident \<Rightarrow> ident \<Rightarrow> db \<Rightarrow> nat" where
  "getUnreadCount conversationId userId d =
     count_where (\<lambda>r. ms_convId r = conversationId \<and> ms_senderId r \<noteq> userId \<and> ms_status r \<noteq> ''read'')
       (db_msgs d)"

section \<open>Receipts\<close>

definition coalesce :: "time option \<Rightarrow> time \<Rightarrow> time option" where
  "coalesce a b = (case a of None \<Rightarrow> Some b | Some t \<Rightarrow> Some t)"

definition upsert_receipt :: "ident \<Rightarrow> ident \<Rightarrow> string \<Rightarrow> bool \<Rightarrow> time \<Rightarrow> db \<Rightarrow> db" where
  "upsert_receipt m u dev is_read now d =
     (let same = (\<lambda>r. rp_msgId r = m \<and> rp_userId r = u \<and> rp_deviceId r = dev)
      in d\<lparr>db_receipts :=
           (if exists_where same (db_receipts d)
            then update_where same
                   (\<lambda>r. r\<lparr>rp_deliveredAt := coalesce (rp_deliveredAt r) now,
                          rp_readAt := (if is_read then coalesce (rp_readAt r) now else rp_readAt r)\<rparr>)
                   (db_receipts d)
            else db_receipts d @ [\<lparr>rp_msgId = m, rp_userId = u, rp_deviceId = dev,
                   rp_deliveredAt = Some now, rp_readAt = (if is_read then Some now else None)\<rparr>])\<rparr>)"

definition recordMessageReceipt :: "ident \<Rightarrow> ident \<Rightarrow> string \<Rightarrow> string \<Rightarrow> time \<Rightarrow> db \<Rightarrow> bool \<times> db" where
  "recordMessageReceipt messageId userId deviceId status now d =
     (if status \<noteq> ''delivered'' \<and> status \<noteq> ''read'' then (False, d)
      else exec_stmt (\<lambda>d. has_msg messageId d \<and> has_user userId d)
             (upsert_receipt messageId userId deviceId (status = ''read'') now) d)"

definition receipt_counts :: "string \<Rightarrow> receipt_row \<Rightarrow> bool" where
  "receipt_counts status r =
     (if status = ''read'' then rp_readAt r \<noteq> None
      else rp_deliveredAt r \<noteq> None \<or> rp_readAt r \<noteq> None)"

definition receiptCount :: "ident \<Rightarrow> string \<Rightarrow> db \<Rightarrow> nat" where
  "receiptCount messageId status d =
     count_where (\<lambda>r. rp_msgId r = messageId \<and> receipt_counts status r) (db_receipts d)"

definition receiptUserCount :: "ident \<Rightarrow> string \<Rightarrow> db \<Rightarrow> nat" where
  "receiptUserCount messageId status d =
     length (remdups (map rp_userId
       (filter (\<lambda>r. rp_msgId r = messageId \<and> receipt_counts status r) (db_receipts d))))"

definition updateMemberReadCursor :: "ident \<Rightarrow> ident \<Rightarrow> ident \<Rightarrow> db \<Rightarrow> bool \<times> db" where
  "updateMemberReadCursor conversationId userId messageId d =
     update_members (\<lambda>r. is_member_row conversationId userId r \<and> mb_lastRead r < messageId)
       (\<lambda>r. r\<lparr>mb_lastRead := messageId\<rparr>) d"

section \<open>Preferences\<close>

definition db_setConversationPrefs :: "ident \<Rightarrow> ident \<Rightarrow> bool \<Rightarrow> bool \<Rightarrow> db \<Rightarrow> bool \<times> db" where
  "db_setConversationPrefs conversationId userId pinned muted d =
     (if conversationId \<le> 0 \<or> userId \<le> 0 then (False, d)
      else
        let (ok, d1) = update_members (is_member_row conversationId userId)
               (\<lambda>r. r\<lparr>mb_pinned := pinned, mb_muted := muted\<rparr>) d
        in (ok \<and> count_where (is_member_row conversationId userId) (db_members d) > 0, d1))"

definition getConversationPrefs :: "ident \<Rightarrow> ident \<Rightarrow> db \<Rightarrow> bool \<times> bool" where
  "getConversationPrefs conversationId userId d =
     (case find (is_member_row conversationId userId) (db_members d) of
        Some r \<Rightarrow> (mb_pinned r, mb_muted r) | None \<Rightarrow> (False, False))"

section \<open>The invariant is preserved\<close>

lemma insert_conv_inv:
  "db_inv d \<Longrightarrow> ty \<in> conv_types \<Longrightarrow> db_inv (insert_conv (ty, name, now) d)"
  unfolding insert_conv_def
  by (rule db_inv_convs)
    (use convsT.ins_keys_ok [of d "(ty, name, now)"] in
      \<open>auto simp: db_inv_def convs_ok_def conv_ids_def insert_conv_def mk_conv_def\<close>)

lemma insert_member_row_inv:
  assumes "db_inv d" "has_conv c d" "has_user u d" "\<not> exists_where (is_member_row c u) (db_members d)"
    and "role \<in> group_roles"
  shows "db_inv (insert_member_row c u role now d)"
  using assms
  by (auto simp: db_inv_def members_ok_def insert_member_row_def has_iff exists_where_iff
      is_member_row_def)

lemma insertMember_inv [inv_intros]:
  "db_inv d \<Longrightarrow> role \<in> group_roles \<Longrightarrow> db_inv (snd (insertMember c u role now d))"
  unfolding insertMember_def by (rule exec_stmt_db_inv) (auto intro: insert_member_row_inv)

lemma getOrCreatePrivate_inv [inv_intros]:
  "db_inv d \<Longrightarrow> db_inv (snd (getOrCreatePrivateConversation a b now d))"
  by (auto simp: getOrCreatePrivateConversation_def split_beta Let_def split: option.splits
      intro!: insertMember_inv exec_stmt_db_inv insert_conv_inv)

lemma members_update_inv:
  assumes "db_inv d" and "\<And>r. mb_convId (f r) = mb_convId r" "\<And>r. mb_userId (f r) = mb_userId r"
    and "\<And>r. mb_role r \<in> group_roles \<Longrightarrow> P r \<Longrightarrow>
      mb_role (f r) \<in> group_roles"
  shows "db_inv (d\<lparr>db_members := update_where P f (db_members d)\<rparr>)"
proof -
  have "members_ok (user_ids d) (conv_ids d) (update_where P f (db_members d))"
    using assms unfolding db_inv_def members_ok_def
    by (auto simp: map_update_where in_update_where)
  with assms(1) show ?thesis by (simp add: db_inv_def)
qed

lemma update_members_inv:
  assumes "db_inv d" and "\<And>r. mb_convId (f r) = mb_convId r" "\<And>r. mb_userId (f r) = mb_userId r"
    and "\<And>r. mb_role r \<in> group_roles \<Longrightarrow> P r \<Longrightarrow>
      mb_role (f r) \<in> group_roles"
  shows "db_inv (snd (update_members P f d))"
  unfolding update_members_def
  by (rule exec_stmt_db_inv [OF assms(1)], rule members_update_inv) (use assms(2-4) in auto)

lemma client_key_fields [simp]:
  "client_key (r\<lparr>ms_status := s\<rparr>) = client_key r"
  "client_key (r\<lparr>ms_content := s\<rparr>) = client_key r"
  "client_key (r\<lparr>ms_contentType := s\<rparr>) = client_key r"
  "client_key (r\<lparr>ms_editedAt := t\<rparr>) = client_key r"
  "client_key (r\<lparr>ms_deleted := b\<rparr>) = client_key r"
  by (auto simp: client_key_def split: option.splits)

lemma client_keys_update:
  assumes "client_keys_ok ms" and "\<And>r. ms_id (f r) = ms_id r" "\<And>r. client_key (f r) = client_key r"
  shows "client_keys_ok (update_where P f ms)"
proof -
  have "\<exists>s\<in>set ms. ms_id r = ms_id s \<and> client_key r = client_key s" if "r \<in> set (update_where P f ms)" for r
    using that assms(2,3) by (force simp: in_update_where)
  with assms(1) show ?thesis unfolding client_keys_ok_def by metis
qed

lemma update_msgs_inv:
  assumes "db_inv d" and f: "\<And>r. ms_id (f r) = ms_id r" "\<And>r. client_key (f r) = client_key r"
    "\<And>r. ms_senderId (f r) = ms_senderId r" "\<And>r. ms_convId (f r) = ms_convId r"
  shows "db_inv (snd (update_msgs P f d))"
  unfolding update_msgs_def
proof (rule exec_stmt_db_inv [OF assms(1)])
  fix d assume d: "db_inv d"
  let ?ms = "update_where P f (db_msgs d)"
  have "msgs_ok (user_ids d) (conv_ids d) ?ms (db_msgSeq d)"
    using d f unfolding db_inv_def msgs_ok_def
    by (auto simp: keys_ok_update client_keys_update in_update_where)
  moreover have "ms_id ` set ?ms = msg_ids d"
    using f(1) by (simp add: msg_ids_def image_update_where)
  ultimately have "db_inv (d\<lparr>db_msgs := ?ms, db_msgSeq := db_msgSeq d\<rparr>)"
    using d by (intro db_inv_msgs) auto
  then show "db_inv (d\<lparr>db_msgs := ?ms\<rparr>)" by simp
qed

lemma touch_conv_inv [inv_intros]:
  assumes "db_inv d"
  shows "db_inv (snd (touch_conv c now d))"
  unfolding touch_conv_def
proof (rule exec_stmt_db_inv [OF assms])
  fix d assume d: "db_inv d"
  let ?cs = "update_where (\<lambda>r. cv_id r = c) (\<lambda>r. r\<lparr>cv_updatedAt := now\<rparr>) (db_convs d)"
  have "db_inv (d\<lparr>db_convs := ?cs, db_convSeq := db_convSeq d\<rparr>)"
  proof (rule db_inv_convs [OF d])
    show "convs_ok ?cs (db_convSeq d)"
      using d by (auto simp: db_inv_def convs_ok_def keys_ok_update in_update_where split: if_splits)
    show "conv_ids d \<subseteq> cv_id ` set ?cs"
      by (simp add: conv_ids_def image_update_where)
  qed
  then show "db_inv (d\<lparr>db_convs := ?cs\<rparr>)" by simp
qed

lemma insert_msg_inv:
  assumes "db_inv d" "has_conv c d" "has_user s d" "client_key_free s cid dev d"
  shows "db_inv (insert_msg (c, s, content, ct, cid, dev, now) d)"
  unfolding insert_msg_def
proof (rule db_inv_msgs [OF assms(1)])
  let ?m = "mk_msg (db_msgSeq d + 1) (c, s, content, ct, cid, dev, now) d"
  have k: "client_key m \<noteq> client_key ?m" if "m \<in> set (db_msgs d)" "client_key ?m \<noteq> None" for m
    using assms(4) that
    by (auto simp: client_key_free_def client_key_def mk_msg_def null_if_empty_def exists_where_iff
        split: option.splits if_splits)
  then have "client_keys_ok (db_msgs d @ [?m])"
    using assms(1) unfolding db_inv_def msgs_ok_def client_keys_ok_def
    by (metis (no_types, lifting) Un_iff empty_iff list.set(1) list.simps(15) insert_iff set_append)
  then show "msgs_ok (user_ids d) (conv_ids d) (db_msgs d @ [?m]) (db_msgSeq d + 1)"
    using assms msgsT.ins_keys_ok [of d "(c, s, content, ct, cid, dev, now)"]
    by (auto simp: db_inv_def msgs_ok_def insert_msg_def has_iff mk_msg_def)
qed (auto simp: msg_ids_def)

lemma db_sendMessage_inv [inv_intros]:
  "db_inv d \<Longrightarrow> db_inv (snd (db_sendMessage c s content ct cid dev now d))"
  by (auto simp: db_sendMessage_def split_beta Let_def split: option.splits
      intro!: touch_conv_inv exec_stmt_db_inv insert_msg_inv)

lemma message_ops_inv [inv_intros]:
  "db_inv d \<Longrightarrow> db_inv (snd (updateMessageStatus m st d))"
  "db_inv d \<Longrightarrow> db_inv (snd (db_editMessage m content ct now d))"
  "db_inv d \<Longrightarrow> db_inv (snd (db_deleteMessage m d))"
  "db_inv d \<Longrightarrow> db_inv (snd (updateMessagesReadStatus c u d))"
  by (auto simp: updateMessageStatus_def db_editMessage_def db_deleteMessage_def
      updateMessagesReadStatus_def split_beta Let_def
      intro!: update_msgs_inv update_members_inv)

lemma upsert_receipt_inv:
  "db_inv d \<Longrightarrow> has_msg m d \<Longrightarrow> has_user u d \<Longrightarrow> db_inv (upsert_receipt m u dev rd now d)"
  by (auto simp: db_inv_def receipts_ok_def upsert_receipt_def has_iff exists_where_iff Let_def
      map_update_where in_update_where)

lemma member_ops_inv [inv_intros]:
  "db_inv d \<Longrightarrow> db_inv (snd (recordMessageReceipt m u dev st now d))"
  "db_inv d \<Longrightarrow> db_inv (snd (updateMemberReadCursor c u m d))"
  "db_inv d \<Longrightarrow> db_inv (snd (db_setConversationPrefs c u p mu d))"
  by (auto simp: recordMessageReceipt_def updateMemberReadCursor_def db_setConversationPrefs_def
      split_beta Let_def intro!: exec_stmt_db_inv upsert_receipt_inv update_members_inv)

end
