(* ===== verification/Database_Sync.thy ===== *)
theory Database_Sync
  imports Database_Chat
begin

text \<open>
  DatabaseManager.cpp: the account-level event stream, its pruning and the watermark below which
  events may be gone. The locale \<open>event_log\<close> states what a reader may rely on, and the stream of
  the database is an interpretation of it.
\<close>

section \<open>The operations\<close>

definition mk_event :: "ident \<Rightarrow> ident \<times> string \<times> string \<times> time \<Rightarrow> db \<Rightarrow> event_row" where
  "mk_event i = (\<lambda>(userId, eventType, payload, now) d.
     \<lparr>ev_seq = i, ev_userId = userId, ev_type = eventType, ev_payload = payload, ev_createdAt = now\<rparr>)"

definition insert_event :: "ident \<times> string \<times> string \<times> time \<Rightarrow> db \<Rightarrow> db" where
  "insert_event a d = d\<lparr>db_events := db_events d @ [mk_event (db_eventSeq d + 1) a d],
     db_eventSeq := db_eventSeq d + 1\<rparr>"

interpretation eventsT: auto_table db_events db_eventSeq ev_seq mk_event insert_event
  by unfold_locales (auto simp: insert_event_def mk_event_def)

definition appendSyncEvent :: "ident \<Rightarrow> string \<Rightarrow> string \<Rightarrow> time \<Rightarrow> db \<Rightarrow> ident \<times> db" where
  "appendSyncEvent userId eventType payloadJson now d =
     (let payload = (if payloadJson = [] then ''{}'' else payloadJson);
          (ok, d1) = exec_stmt (has_user userId) (insert_event (userId, eventType, payload, now)) d
      in if ok then (db_eventSeq d1, d1) else (-1, d1))"

definition getSyncEvents :: "ident \<Rightarrow> ident \<Rightarrow> int \<Rightarrow> db \<Rightarrow> event_row list" where
  "getSyncEvents userId afterSeq limit d =
     limit_rows limit (sort_key ev_seq
       (filter (\<lambda>e. ev_userId e = userId \<and> ev_seq e > afterSeq) (db_events d)))"

definition expired_event :: "time \<Rightarrow> int \<Rightarrow> event_row \<Rightarrow> bool" where
  "expired_event now days e \<longleftrightarrow> ev_createdAt e < now - days * 86400"

definition pruneSyncEvents :: "int \<Rightarrow> time \<Rightarrow> db \<Rightarrow> nat \<times> db" where
  "pruneSyncEvents retentionDays now d =
     (if retentionDays \<le> 0 then (0, d)
      else
        let cutoffSeq = max_key (map ev_seq (filter (expired_event now retentionDays) (db_events d)))
        in if cutoffSeq \<le> 0 then (0, d)
           else
             let (ok, d1) = exec_stmt unconstrained
                   (\<lambda>d. d\<lparr>db_events := delete_where (expired_event now retentionDays) (db_events d)\<rparr>) d
             in if \<not> ok then (0, d1)
                else
                  let removed = count_where (expired_event now retentionDays) (db_events d);
                      d2 = snd (exec_stmt unconstrained
                             (\<lambda>d. if db_prunedBelow d < cutoffSeq then d\<lparr>db_prunedBelow := cutoffSeq\<rparr>
                                  else d) d1)
                  in (removed, d2))"

definition prunedBelowSeq :: "db \<Rightarrow> ident" where
  "prunedBelowSeq d = db_prunedBelow d"

definition maxSyncEventSeq :: "db \<Rightarrow> ident" where
  "maxSyncEventSeq d = max_key (map ev_seq (db_events d))"

section \<open>The contract of an event log\<close>

text \<open>
  \<open>healthy\<close>: no statement fails from here on. An entry that is gone lies at or below the mark, and
  the mark only advances, so a reader whose cursor is at least the mark misses nothing.
\<close>

locale event_log =
  fixes entries :: "'s \<Rightarrow> 'e list"
    and seq :: "'e \<Rightarrow> int"
    and mark :: "'s \<Rightarrow> int"
    and healthy :: "'s \<Rightarrow> bool"
    and append :: "'a \<Rightarrow> 's \<Rightarrow> 's"
    and prune :: "'p \<Rightarrow> 's \<Rightarrow> 's"
  assumes append_healthy: "healthy s \<Longrightarrow> healthy (append a s)"
    and prune_healthy: "healthy s \<Longrightarrow> healthy (prune p s)"
    and append_keeps: "set (entries s) \<subseteq> set (entries (append a s))"
    and append_mark: "mark (append a s) = mark s"
    and prune_mark: "mark s \<le> mark (prune p s)"
    and prune_keeps: "healthy s \<Longrightarrow> e \<in> set (entries s) \<Longrightarrow> mark (prune p s) < seq e
          \<Longrightarrow> e \<in> set (entries (prune p s))"
begin

fun steps :: "('a + 'p) list \<Rightarrow> 's \<Rightarrow> 's" where
  "steps [] s = s"
| "steps (Inl a # xs) s = steps xs (append a s)"
| "steps (Inr p # xs) s = steps xs (prune p s)"

lemma mark_mono: "mark s \<le> mark (steps xs s)"
proof (induction xs s rule: steps.induct)
  case (3 p xs s)
  then show ?case using prune_mark [of s p] by simp
qed (simp_all add: append_mark)

lemma nothing_lost:
  assumes "healthy s" and "e \<in> set (entries s)" and "mark (steps xs s) < seq e"
  shows "e \<in> set (entries (steps xs s))"
  using assms
proof (induction xs s rule: steps.induct)
  case (2 a xs s)
  then show ?case using append_keeps [of s a] by (auto simp: append_healthy)
next
  case (3 p xs s)
  then have "mark (prune p s) < seq e"
    using mark_mono [of "prune p s" xs] by simp
  with 3 show ?case by (simp add: prune_healthy prune_keeps)
qed simp

end

section \<open>The stream of the database satisfies it\<close>

definition event_append :: "ident \<times> string \<times> string \<times> time \<Rightarrow> db \<Rightarrow> db" where
  "event_append = (\<lambda>(u, ty, pl, now) d. snd (appendSyncEvent u ty pl now d))"

definition event_prune :: "int \<times> time \<Rightarrow> db \<Rightarrow> db" where
  "event_prune = (\<lambda>(days, now) d. snd (pruneSyncEvents days now d))"

definition fault_free :: "db \<Rightarrow> bool" where
  "fault_free d \<longleftrightarrow> db_faults d = []"

lemma appendSyncEvent_events:
  "db_events (snd (appendSyncEvent u ty pl now d)) = db_events d
   \<or> (\<exists>e. db_events (snd (appendSyncEvent u ty pl now d)) = db_events d @ [e]
        \<and> ev_userId e = u \<and> ev_seq e = db_eventSeq d + 1)"
  unfolding appendSyncEvent_def Let_def split_beta
  by (rule exec_stmt_cases [of "has_user u"
        "insert_event (u, ty, if pl = [] then ''{}'' else pl, now)" d])
    (simp_all add: insert_event_def mk_event_def)

lemma appendSyncEvent_frame:
  "db_prunedBelow (snd (appendSyncEvent u ty pl now d)) = db_prunedBelow d"
  "db_faults d = [] \<Longrightarrow> db_faults (snd (appendSyncEvent u ty pl now d)) = []"
  unfolding appendSyncEvent_def Let_def split_beta
  by (rule exec_stmt_cases [of "has_user u"
        "insert_event (u, ty, if pl = [] then ''{}'' else pl, now)" d],
      simp_all add: insert_event_def exec_stmt_no_fault)

lemma prune_cutoff:
  "e \<in> set (db_events d) \<Longrightarrow> expired_event now days e
   \<Longrightarrow> ev_seq e \<le> max_key (map ev_seq (filter (expired_event now days) (db_events d)))"
  by (rule max_key_ge) auto

lemma pruneSyncEvents_mark:
  "db_prunedBelow d \<le> db_prunedBelow (snd (pruneSyncEvents days now d))"
proof -
  let ?c = "max_key (map ev_seq (filter (expired_event now days) (db_events d)))"
  define d1 where "d1 = snd (exec_stmt unconstrained
      (\<lambda>d. d\<lparr>db_events := delete_where (expired_event now days) (db_events d)\<rparr>) d)"
  define d2 where "d2 = snd (exec_stmt unconstrained
      (\<lambda>d. if db_prunedBelow d < ?c then d\<lparr>db_prunedBelow := ?c\<rparr> else d) d1)"
  have d1: "db_prunedBelow d1 = db_prunedBelow d"
    unfolding d1_def by (rule exec_stmt_frame) simp_all
  have d2: "db_prunedBelow d \<le> db_prunedBelow d2"
    unfolding d2_def by (rule exec_stmt_inv) (auto simp: d1)
  have "snd (pruneSyncEvents days now d) \<in> {d, d1, d2}"
    by (simp add: pruneSyncEvents_def Let_def split_beta d1_def d2_def)
  with d1 d2 show ?thesis by auto
qed

lemma pruneSyncEvents_calm:
  assumes "db_faults d = []"
  shows "db_faults (snd (pruneSyncEvents days now d)) = []"
    and "e \<in> set (db_events d) \<Longrightarrow> db_prunedBelow (snd (pruneSyncEvents days now d)) < ev_seq e
      \<Longrightarrow> e \<in> set (db_events (snd (pruneSyncEvents days now d)))"
proof -
  show "db_faults (snd (pruneSyncEvents days now d)) = []"
    using assms by (simp add: pruneSyncEvents_def Let_def exec_stmt_no_fault)
  show "e \<in> set (db_events (snd (pruneSyncEvents days now d)))"
    if "e \<in> set (db_events d)" "db_prunedBelow (snd (pruneSyncEvents days now d)) < ev_seq e"
    using assms that prune_cutoff [of e d now days]
    by (auto simp: pruneSyncEvents_def Let_def exec_stmt_no_fault split: if_splits)
qed

interpretation evlog: event_log db_events ev_seq db_prunedBelow fault_free event_append event_prune
proof unfold_locales
  fix d :: db and a :: "ident \<times> string \<times> string \<times> time" and p :: "int \<times> time" and e :: event_row
  obtain u ty pl now where a: "a = (u, ty, pl, now)" by (cases a)
  obtain days now' where p: "p = (days, now')" by (cases p)
  show "fault_free d \<Longrightarrow> fault_free (event_append a d)"
    using appendSyncEvent_frame(2) by (simp add: a fault_free_def event_append_def)
  show "fault_free d \<Longrightarrow> fault_free (event_prune p d)"
    using pruneSyncEvents_calm(1) by (simp add: p fault_free_def event_prune_def)
  show "set (db_events d) \<subseteq> set (db_events (event_append a d))"
    using appendSyncEvent_events [of u ty pl now d] by (auto simp: a event_append_def)
  show "db_prunedBelow (event_append a d) = db_prunedBelow d"
    by (simp add: a event_append_def appendSyncEvent_frame)
  show "db_prunedBelow d \<le> db_prunedBelow (event_prune p d)"
    by (simp add: p event_prune_def pruneSyncEvents_mark)
  show "fault_free d \<Longrightarrow> e \<in> set (db_events d) \<Longrightarrow> db_prunedBelow (event_prune p d) < ev_seq e
      \<Longrightarrow> e \<in> set (db_events (event_prune p d))"
    using pruneSyncEvents_calm(2) by (simp add: p event_prune_def fault_free_def)
qed

section \<open>The invariant is preserved\<close>

lemma insert_event_inv:
  assumes "db_inv d" "has_user u d"
  shows "db_inv (insert_event (u, ty, pl, now) d)"
proof -
  have "\<forall>k\<in>set (map ev_seq (db_events d)). k < db_eventSeq d + 1"
    using assms(1) by (auto simp: db_inv_def events_ok_def keys_ok_def)
  then show ?thesis
    using assms eventsT.ins_keys_ok [of d "(u, ty, pl, now)"]
    by (auto simp: db_inv_def events_ok_def insert_event_def mk_event_def has_iff sorted_wrt_append)
qed

lemma appendSyncEvent_inv [inv_intros]:
  "db_inv d \<Longrightarrow> db_inv (snd (appendSyncEvent u ty pl now d))"
  by (auto simp: appendSyncEvent_def split_beta Let_def intro!: exec_stmt_db_inv insert_event_inv)

lemma sorted_wrt_delete_where:
  "sorted_wrt R (map k rs) \<Longrightarrow> sorted_wrt R (map k (delete_where P rs))"
  by (induction rs) auto

lemma events_delete_inv:
  "db_inv d \<Longrightarrow> db_inv (d\<lparr>db_events := delete_where P (db_events d)\<rparr>)"
  by (auto simp: db_inv_def events_ok_def keys_ok_delete sorted_wrt_delete_where)

lemma events_mark_inv:
  "db_inv d \<Longrightarrow> 0 \<le> c \<Longrightarrow> c \<le> db_eventSeq d \<Longrightarrow> db_inv (d\<lparr>db_prunedBelow := c\<rparr>)"
  by (auto simp: db_inv_def events_ok_def)

lemma pruneSyncEvents_inv [inv_intros]:
  assumes "db_inv d"
  shows "db_inv (snd (pruneSyncEvents days now d))"
proof -
  let ?c = "max_key (map ev_seq (filter (expired_event now days) (db_events d)))"
  let ?I = "\<lambda>d'. db_inv d' \<and> db_eventSeq d' = db_eventSeq d"
  have c: "0 \<le> ?c" "?c \<le> db_eventSeq d"
    using assms by (auto simp: db_inv_def events_ok_def keys_ok_def intro!: max_key_le)
  define d1 where "d1 = snd (exec_stmt unconstrained
      (\<lambda>d. d\<lparr>db_events := delete_where (expired_event now days) (db_events d)\<rparr>) d)"
  have d1: "?I d1"
    unfolding d1_def by (rule exec_stmt_inv [of ?I]) (use assms in \<open>auto intro: events_delete_inv\<close>)
  have "?I (snd (exec_stmt unconstrained
      (\<lambda>d. if db_prunedBelow d < ?c then d\<lparr>db_prunedBelow := ?c\<rparr> else d) d1))"
    by (rule exec_stmt_inv [of ?I]) (use d1 c in \<open>auto intro: events_mark_inv\<close>)
  with d1 assms show ?thesis
    by (auto simp: pruneSyncEvents_def Let_def split_beta d1_def)
qed

end
