(* ===== verification/Database_Keys.thy ===== *)
theory Database_Keys
  imports Database_Sync
begin

text \<open>
  DatabaseManager.cpp: identity keys and one-time prekeys of the end-to-end encryption. A prekey is
  unused, then claimed by a sender, then used; a claim that is not consumed within 600 seconds is
  taken back.
\<close>

section \<open>Identity keys\<close>

definition is_device :: "ident \<Rightarrow> string \<Rightarrow> prekey_row \<Rightarrow> bool" where
  "is_device u dev r \<longleftrightarrow> py_userId r = u \<and> py_deviceId r = dev"

definition is_idkey :: "ident \<Rightarrow> string \<Rightarrow> idkey_row \<Rightarrow> bool" where
  "is_idkey u dev r \<longleftrightarrow> ik_userId r = u \<and> ik_deviceId r = dev"

definition delete_prekeys :: "(prekey_row \<Rightarrow> bool) \<Rightarrow> db \<Rightarrow> bool \<times> db" where
  "delete_prekeys P d =
     exec_stmt unconstrained (\<lambda>d. d\<lparr>db_prekeys := delete_where P (db_prekeys d)\<rparr>) d"

definition upsert_idkey :: "ident \<Rightarrow> string \<Rightarrow> string \<Rightarrow> db \<Rightarrow> db" where
  "upsert_idkey u dev pub d = d\<lparr>db_idkeys :=
     (if exists_where (is_idkey u dev) (db_idkeys d)
      then update_where (is_idkey u dev) (\<lambda>r. r\<lparr>ik_pub := pub\<rparr>) (db_idkeys d)
      else db_idkeys d @ [\<lparr>ik_userId = u, ik_deviceId = dev, ik_pub = pub\<rparr>])\<rparr>"

text \<open>A changed identity key drops the prekeys that belong to the old one; a failure of that
  statement is only logged.\<close>

definition upsertIdentityKey :: "ident \<Rightarrow> string \<Rightarrow> string \<Rightarrow> db \<Rightarrow> bool \<times> db" where
  "upsertIdentityKey userId deviceId identityPub d =
     (if deviceId = [] \<or> identityPub = [] then (False, d)
      else
        let d1 = (case find (is_idkey userId deviceId) (db_idkeys d) of
                    None \<Rightarrow> d
                  | Some old \<Rightarrow>
                      if ik_pub old \<noteq> identityPub
                      then snd (delete_prekeys (\<lambda>r. is_device userId deviceId r
                                  \<and> (py_status r = Unused \<or> py_status r = Claimed)) d)
                      else d)
        in exec_stmt (has_user userId) (upsert_idkey userId deviceId identityPub) d1)"

definition getIdentityKeysByUser :: "ident \<Rightarrow> db \<Rightarrow> idkey_row list" where
  "getIdentityKeysByUser userId d = filter (\<lambda>r. ik_userId r = userId) (db_idkeys d)"

section \<open>Uploading prekeys\<close>

definition mk_prekey :: "ident \<Rightarrow> ident \<times> string \<times> string \<Rightarrow> db \<Rightarrow> prekey_row" where
  "mk_prekey i = (\<lambda>(u, dev, pub) d.
     \<lparr>py_id = i, py_userId = u, py_deviceId = dev, py_pub = pub, py_status = Unused, py_claimedAt = None\<rparr>)"

definition insert_prekey :: "ident \<times> string \<times> string \<Rightarrow> db \<Rightarrow> db" where
  "insert_prekey a d = d\<lparr>db_prekeys := db_prekeys d @ [mk_prekey (db_prekeySeq d + 1) a d],
     db_prekeySeq := db_prekeySeq d + 1\<rparr>"

interpretation prekeysT: auto_table db_prekeys db_prekeySeq py_id mk_prekey insert_prekey
  by unfold_locales (auto simp: insert_prekey_def mk_prekey_def)

fun upload_loop :: "ident \<Rightarrow> string \<Rightarrow> string list \<Rightarrow> int \<Rightarrow> db \<Rightarrow> bool \<times> int \<times> db" where
  "upload_loop u dev [] inserted d = (True, inserted, d)"
| "upload_loop u dev (pub # pubs) inserted d =
     (if pub = [] then upload_loop u dev pubs inserted d
      else
        let (ok, d1) = exec_stmt (has_user u) (insert_prekey (u, dev, pub)) d
        in if \<not> ok then (False, inserted, d1) else upload_loop u dev pubs (inserted + 1) d1)"

definition uploadPrekeys :: "ident \<Rightarrow> string \<Rightarrow> string list \<Rightarrow> db \<Rightarrow> int \<times> db" where
  "uploadPrekeys userId deviceId prekeyPubs d =
     (if deviceId = [] \<or> prekeyPubs = [] then (-1, d)
      else
        let (begun, d1) = beginTransaction d
        in if \<not> begun then (-1, d1)
           else
             let (ok, inserted, d2) = upload_loop userId deviceId prekeyPubs 0 d1
             in if \<not> ok then (-1, rollbackTransaction d1 d2)
                else
                  let (committed, d3) = commitTransaction d2
                  in if \<not> committed then (-1, rollbackTransaction d1 d3) else (inserted, d3))"

definition prekeyCount :: "ident \<Rightarrow> string \<Rightarrow> db \<Rightarrow> nat" where
  "prekeyCount userId deviceId d =
     count_where (\<lambda>r. is_device userId deviceId r \<and> py_status r = Unused) (db_prekeys d)"

section \<open>Claiming\<close>

record claimed_prekey =
  ck_deviceId :: string
  ck_prekeyId :: ident
  ck_prekeyPub :: string

definition update_prekeys :: "(prekey_row \<Rightarrow> bool) \<Rightarrow> (prekey_row \<Rightarrow> prekey_row) \<Rightarrow> db \<Rightarrow> bool \<times> db" where
  "update_prekeys P f d =
     exec_stmt unconstrained (\<lambda>d. d\<lparr>db_prekeys := update_where P f (db_prekeys d)\<rparr>) d"

definition claim_expired :: "time \<Rightarrow> prekey_row \<Rightarrow> bool" where
  "claim_expired now r \<longleftrightarrow> py_status r = Claimed
     \<and> (case py_claimedAt r of None \<Rightarrow> False | Some t \<Rightarrow> t \<le> now - 600)"

definition reclaim :: "time \<Rightarrow> db \<Rightarrow> db" where
  "reclaim now d = snd (update_prekeys (claim_expired now)
     (\<lambda>r. r\<lparr>py_status := Unused, py_claimedAt := None\<rparr>) d)"

definition first_unused :: "ident \<Rightarrow> string \<Rightarrow> db \<Rightarrow> prekey_row option" where
  "first_unused u dev d =
     (case sort_key py_id (filter (\<lambda>r. is_device u dev r \<and> py_status r = Unused) (db_prekeys d)) of
        [] \<Rightarrow> None | r # _ \<Rightarrow> Some r)"

definition claim_one :: "time \<Rightarrow> prekey_row \<Rightarrow> db \<Rightarrow> bool \<times> db" where
  "claim_one now r d =
     (let P = (\<lambda>s. py_id s = py_id r \<and> py_status s = Unused);
          (ok, d1) = update_prekeys P (\<lambda>s. s\<lparr>py_status := Claimed, py_claimedAt := Some now\<rparr>) d
      in (ok \<and> count_where P (db_prekeys d) = 1, d1))"

fun claim_loop :: "ident \<Rightarrow> time \<Rightarrow> string list \<Rightarrow> db \<Rightarrow> claimed_prekey list \<times> db" where
  "claim_loop u now [] d = ([], d)"
| "claim_loop u now (dev # devs) d =
     (case first_unused u dev d of
        None \<Rightarrow> claim_loop u now devs d
      | Some r \<Rightarrow>
          let (ok, d1) = claim_one now r d
          in if \<not> ok then claim_loop u now devs d1
             else
               let (rest, d2) = claim_loop u now devs d1
               in (\<lparr>ck_deviceId = dev, ck_prekeyId = py_id r, ck_prekeyPub = py_pub r\<rparr> # rest, d2))"

definition stocked_devices :: "ident \<Rightarrow> db \<Rightarrow> string list" where
  "stocked_devices u d =
     remdups (map py_deviceId (filter (\<lambda>r. py_userId r = u \<and> py_status r = Unused) (db_prekeys d)))"

definition claimPrekeys :: "ident \<Rightarrow> time \<Rightarrow> db \<Rightarrow> claimed_prekey list \<times> db" where
  "claimPrekeys userId now d =
     (let (begun, d1) = beginTransaction d
      in if \<not> begun then ([], d1)
         else
           let d2 = reclaim now d1;
               (claimed, d3) = claim_loop userId now (stocked_devices userId d2) d2;
               (committed, d4) = commitTransaction d3
           in if \<not> committed then ([], rollbackTransaction d1 d4) else (claimed, d4))"

section \<open>Using and removing\<close>

definition validateClaimedPrekey :: "ident \<Rightarrow> string \<Rightarrow> ident \<Rightarrow> db \<Rightarrow> bool" where
  "validateClaimedPrekey userId deviceId prekeyId d =
     (count_where (\<lambda>r. py_id r = prekeyId \<and> is_device userId deviceId r \<and> py_status r = Claimed)
        (db_prekeys d) > 0)"

fun consume_loop :: "ident list \<Rightarrow> nat \<Rightarrow> db \<Rightarrow> nat \<times> db" where
  "consume_loop [] consumed d = (consumed, d)"
| "consume_loop (i # is) consumed d =
     (let P = (\<lambda>r. py_id r = i \<and> py_status r = Claimed);
          (ok, d1) = update_prekeys P (\<lambda>r. r\<lparr>py_status := Used\<rparr>) d
      in consume_loop is (if ok \<and> count_where P (db_prekeys d) = 1 then consumed + 1 else consumed) d1)"

definition consumePrekeys :: "ident list \<Rightarrow> db \<Rightarrow> nat \<times> db" where
  "consumePrekeys prekeyIds d = (if prekeyIds = [] then (0, d) else consume_loop prekeyIds 0 d)"

definition removeDeviceKeys :: "ident \<Rightarrow> string \<Rightarrow> db \<Rightarrow> bool \<times> db" where
  "removeDeviceKeys userId deviceId d =
     (let (ok, d1) = exec_stmt unconstrained
            (\<lambda>d. d\<lparr>db_idkeys := delete_where (is_idkey userId deviceId) (db_idkeys d)\<rparr>) d
      in if \<not> ok then (False, d1) else delete_prekeys (is_device userId deviceId) d1)"

definition removeDevice :: "ident \<Rightarrow> string \<Rightarrow> db \<Rightarrow> bool \<times> db" where
  "removeDevice userId deviceId d =
     (let (ok, d1) = exec_stmt unconstrained
            (\<lambda>d. d\<lparr>db_devices := delete_where
                     (\<lambda>r. dv_userId r = userId \<and> dv_deviceId r = deviceId) (db_devices d)\<rparr>) d
      in if \<not> ok then (False, d1) else removeDeviceKeys userId deviceId d1)"

section \<open>The invariant is preserved\<close>

lemma delete_prekeys_inv [inv_intros]: "db_inv d \<Longrightarrow> db_inv (snd (delete_prekeys P d))"
  unfolding delete_prekeys_def
  by (rule exec_stmt_db_inv) (auto simp: db_inv_def prekeys_ok_def keys_ok_delete)

lemma upsert_idkey_inv: "db_inv d \<Longrightarrow> has_user u d \<Longrightarrow> db_inv (upsert_idkey u dev pub d)"
  by (auto simp: db_inv_def idkeys_ok_def upsert_idkey_def has_iff exists_where_iff
      map_update_where in_update_where is_idkey_def)

lemma upsertIdentityKey_inv [inv_intros]:
  "db_inv d \<Longrightarrow> db_inv (snd (upsertIdentityKey u dev pub d))"
  by (auto simp: upsertIdentityKey_def Let_def split: option.splits
      intro!: exec_stmt_db_inv upsert_idkey_inv delete_prekeys_inv)

lemma insert_prekey_inv: "db_inv d \<Longrightarrow> has_user u d \<Longrightarrow> db_inv (insert_prekey (u, dev, pub) d)"
  using prekeysT.ins_keys_ok [of d "(u, dev, pub)"]
  by (auto simp: db_inv_def prekeys_ok_def insert_prekey_def mk_prekey_def has_iff)

lemma upload_loop_inv: "db_inv d \<Longrightarrow> db_inv (snd (snd (upload_loop u dev pubs n d)))"
  by (induction pubs arbitrary: n d)
    (auto simp: split_beta Let_def intro!: exec_stmt_db_inv insert_prekey_inv)

lemma uploadPrekeys_inv [inv_intros]: "db_inv d \<Longrightarrow> db_inv (snd (uploadPrekeys u dev pubs d))"
  by (auto simp: uploadPrekeys_def split_beta Let_def intro!: transaction_inv upload_loop_inv)

lemma update_prekeys_inv:
  assumes "db_inv d" and "\<And>r. py_id (f r) = py_id r" "\<And>r. py_userId (f r) = py_userId r"
  shows "db_inv (snd (update_prekeys P f d))"
  unfolding update_prekeys_def
  by (rule exec_stmt_db_inv [OF assms(1)])
    (use assms(2,3) in \<open>auto simp: db_inv_def prekeys_ok_def keys_ok_update in_update_where\<close>)

lemma reclaim_inv [inv_intros]: "db_inv d \<Longrightarrow> db_inv (reclaim now d)"
  by (auto simp: reclaim_def intro!: update_prekeys_inv)

lemma claim_one_inv [inv_intros]: "db_inv d \<Longrightarrow> db_inv (snd (claim_one now r d))"
  by (auto simp: claim_one_def split_beta Let_def intro!: update_prekeys_inv)

lemma claim_loop_inv: "db_inv d \<Longrightarrow> db_inv (snd (claim_loop u now devs d))"
  by (induction devs arbitrary: d) (auto simp: split_beta Let_def claim_one_inv split: option.splits)

lemma claimPrekeys_inv [inv_intros]: "db_inv d \<Longrightarrow> db_inv (snd (claimPrekeys u now d))"
  by (auto simp: claimPrekeys_def split_beta Let_def intro!: transaction_inv claim_loop_inv reclaim_inv)

lemma consume_loop_inv: "db_inv d \<Longrightarrow> db_inv (snd (consume_loop is n d))"
  by (induction "is" arbitrary: n d) (simp_all add: split_beta Let_def update_prekeys_inv)

lemma key_ops_inv [inv_intros]:
  "db_inv d \<Longrightarrow> db_inv (snd (consumePrekeys is d))"
  "db_inv d \<Longrightarrow> db_inv (snd (removeDeviceKeys u dev d))"
proof -
  show "db_inv d \<Longrightarrow> db_inv (snd (consumePrekeys is d))"
    by (simp add: consumePrekeys_def consume_loop_inv)
  have "db_inv d \<Longrightarrow> db_inv (d\<lparr>db_idkeys := delete_where P (db_idkeys d)\<rparr>)" for P d
    by (auto simp: db_inv_def idkeys_ok_def distinct_map_delete_where)
  then show "db_inv d \<Longrightarrow> db_inv (snd (removeDeviceKeys u dev d))"
    by (auto simp: removeDeviceKeys_def split_beta Let_def intro!: delete_prekeys_inv exec_stmt_db_inv)
qed

lemma removeDevice_inv [inv_intros]: "db_inv d \<Longrightarrow> db_inv (snd (removeDevice u dev d))"
proof -
  have "db_inv d \<Longrightarrow> db_inv (d\<lparr>db_devices := delete_where P (db_devices d)\<rparr>)" for P d
    by (auto simp: db_inv_def devices_ok_def distinct_map_delete_where)
  then show "db_inv d \<Longrightarrow> db_inv (snd (removeDevice u dev d))"
    by (auto simp: removeDevice_def split_beta Let_def intro!: key_ops_inv(2) exec_stmt_db_inv)
qed

end
