(* ===== verification/Database_Groups.thy ===== *)
theory Database_Groups
  imports Database_Keys
begin

text \<open>
  DatabaseManager.cpp: groups and their members with a role. The data layer leaves permissions to
  its callers; it guarantees the size limit of a group and that a group that was created has one
  owner, the creator.
\<close>

section \<open>The operations\<close>

definition MaxGroupMembers :: nat where "MaxGroupMembers = 200"
definition MaxInviteBatch :: nat where "MaxInviteBatch = 100"

lemma group_limits [simp]: "MaxGroupMembers = 200" "MaxInviteBatch = 100"
  by (simp_all add: MaxGroupMembers_def MaxInviteBatch_def)

text \<open>The loop over the initial members; \<open>added\<close> is the set of the users inserted so far.\<close>

fun add_initial :: "ident \<Rightarrow> ident list \<Rightarrow> ident list \<Rightarrow> time \<Rightarrow> db \<Rightarrow> bool \<times> db" where
  "add_initial c [] added now d = (True, d)"
| "add_initial c (m # ms) added now d =
     (if length added \<ge> MaxGroupMembers then (True, d)
      else if m \<le> 0 \<or> m \<in> set added then add_initial c ms added now d
      else
        let (ok, d1) = insertMember c m ''member'' now d
        in if \<not> ok then (False, d1) else add_initial c ms (m # added) now d1)"

definition db_createGroup :: "ident \<Rightarrow> string \<Rightarrow> ident list \<Rightarrow> time \<Rightarrow> db \<Rightarrow> ident \<times> db" where
  "db_createGroup ownerId name memberIds now d =
     (let groupName = trimmed name
      in if ownerId \<le> 0 \<or> groupName = [] then (-1, d)
         else
           let (begun, d1) = beginTransaction d
           in if \<not> begun then (-1, d1)
              else
                let (ok, d2) = exec_stmt unconstrained (insert_conv (''group'', groupName, now)) d1
                in if \<not> ok then (-1, rollbackTransaction d1 d2)
                   else
                     let convId = db_convSeq d2;
                         (owner_ok, d3) = insertMember convId ownerId ''owner'' now d2
                     in if \<not> owner_ok then (-1, rollbackTransaction d1 d3)
                        else
                          let (members_ok, d4) = add_initial convId memberIds [ownerId] now d3
                          in if \<not> members_ok then (-1, rollbackTransaction d1 d4)
                             else
                               let (committed, d5) = commitTransaction d4
                               in if \<not> committed then (-1, rollbackTransaction d1 d5)
                                  else (convId, d5))"

fun add_members :: "ident \<Rightarrow> ident list \<Rightarrow> ident list \<Rightarrow> time \<Rightarrow> db \<Rightarrow> bool \<times> db" where
  "add_members c [] seen now d = (True, d)"
| "add_members c (u # us) seen now d =
     (if u \<le> 0 \<or> u \<in> set seen then add_members c us seen now d
      else if isConversationMember c u d then add_members c us (u # seen) now d
      else if member_count c d \<ge> MaxGroupMembers then (True, d)
      else
        let (ok, d1) = insertMember c u ''member'' now d
        in if \<not> ok then (False, d1) else add_members c us (u # seen) now d1)"

definition addGroupMembers :: "ident \<Rightarrow> ident list \<Rightarrow> time \<Rightarrow> db \<Rightarrow> bool \<times> db" where
  "addGroupMembers conversationId userIds now d = add_members conversationId userIds [] now d"

definition removeGroupMember :: "ident \<Rightarrow> ident \<Rightarrow> db \<Rightarrow> bool \<times> db" where
  "removeGroupMember conversationId userId d =
     (let (ok, d1) = exec_stmt unconstrained
            (\<lambda>d. d\<lparr>db_members := delete_where (is_member_row conversationId userId) (db_members d)\<rparr>) d
      in (ok \<and> count_where (is_member_row conversationId userId) (db_members d) > 0, d1))"

definition updateMemberRole :: "ident \<Rightarrow> ident \<Rightarrow> string \<Rightarrow> db \<Rightarrow> bool \<times> db" where
  "updateMemberRole conversationId userId role d =
     (if role \<noteq> ''owner'' \<and> role \<noteq> ''admin'' \<and> role \<noteq> ''member'' then (False, d)
      else
        let (ok, d1) = update_members (is_member_row conversationId userId) (\<lambda>r. r\<lparr>mb_role := role\<rparr>) d
        in (ok \<and> count_where (is_member_row conversationId userId) (db_members d) > 0, d1))"

definition groupRole :: "ident \<Rightarrow> ident \<Rightarrow> db \<Rightarrow> string" where
  "groupRole conversationId userId d =
     (case find (is_member_row conversationId userId) (db_members d) of
        Some r \<Rightarrow> mb_role r | None \<Rightarrow> [])"

text \<open>ORDER BY joined_at, user_id.\<close>

definition members_in_order :: "ident \<Rightarrow> db \<Rightarrow> member_row list" where
  "members_in_order c d =
     sort_key mb_joinedAt (sort_key mb_userId (filter (\<lambda>r. mb_convId r = c) (db_members d)))"

definition getGroupMembers :: "ext \<Rightarrow> ident \<Rightarrow> db \<Rightarrow> jobj list" where
  "getGroupMembers X conversationId d =
     List.map_filter (\<lambda>r. map_option (\<lambda>u.
         [(''userId'', JNum (mb_userId r)), (''username'', JStr (ur_username u)),
          (''role'', JStr (mb_role r)), (''joinedAt'', JStr (x_sqlTime X (mb_joinedAt r)))])
       (find_user (mb_userId r) d)) (members_in_order conversationId d)"

definition setGroupName :: "ident \<Rightarrow> string \<Rightarrow> time \<Rightarrow> db \<Rightarrow> bool \<times> db" where
  "setGroupName conversationId name now d =
     (let groupName = trimmed name
      in if groupName = [] then (False, d)
         else
           let P = (\<lambda>r. cv_id r = conversationId \<and> cv_type r = ''group'');
               (ok, d1) = exec_stmt unconstrained
                 (\<lambda>d. d\<lparr>db_convs := update_where P (\<lambda>r. r\<lparr>cv_name := groupName, cv_updatedAt := now\<rparr>)
                                       (db_convs d)\<rparr>) d
           in (ok \<and> count_where P (db_convs d) > 0, d1))"

definition getGroupMemberIds :: "ident \<Rightarrow> db \<Rightarrow> ident list" where
  "getGroupMemberIds conversationId d = map mb_userId (members_in_order conversationId d)"

definition memberCountExcluding :: "ident \<Rightarrow> ident \<Rightarrow> db \<Rightarrow> nat" where
  "memberCountExcluding conversationId excludeUserId d =
     count_where (\<lambda>r. mb_convId r = conversationId \<and> mb_userId r \<noteq> excludeUserId) (db_members d)"

definition getConversationMemberIds :: "ident \<Rightarrow> db \<Rightarrow> ident list" where
  "getConversationMemberIds conversationId d = map mb_userId (members_in_order conversationId d)"

section \<open>The invariant is preserved\<close>

lemma add_initial_inv: "db_inv d \<Longrightarrow> db_inv (snd (add_initial c ms added now d))"
  by (induction ms arbitrary: added d) (simp_all add: split_beta Let_def insertMember_inv)

lemma db_createGroup_inv [inv_intros]: "db_inv d \<Longrightarrow> db_inv (snd (db_createGroup u name ms now d))"
  by (auto simp: db_createGroup_def split_beta Let_def
      intro!: transaction_inv add_initial_inv insertMember_inv exec_stmt_db_inv insert_conv_inv)

lemma add_members_inv: "db_inv d \<Longrightarrow> db_inv (snd (add_members c us seen now d))"
  by (induction us arbitrary: seen d) (simp_all add: split_beta Let_def insertMember_inv)

lemma members_delete_inv:
  "db_inv d \<Longrightarrow> db_inv (d\<lparr>db_members := delete_where P (db_members d)\<rparr>)"
  by (auto simp: db_inv_def members_ok_def distinct_map_delete_where)

lemma setGroupName_inv [inv_intros]:
  assumes "db_inv d"
  shows "db_inv (snd (setGroupName c name now d))"
proof -
  let ?P = "\<lambda>r. cv_id r = c \<and> cv_type r = ''group''"
  have "db_inv (d\<lparr>db_convs := update_where ?P (\<lambda>r. r\<lparr>cv_name := nm, cv_updatedAt := now\<rparr>) (db_convs d)\<rparr>)"
    if d: "db_inv d" for d nm
  proof -
    let ?cs = "update_where ?P (\<lambda>r. r\<lparr>cv_name := nm, cv_updatedAt := now\<rparr>) (db_convs d)"
    have "db_inv (d\<lparr>db_convs := ?cs, db_convSeq := db_convSeq d\<rparr>)"
    proof (rule db_inv_convs [OF d])
      show "convs_ok ?cs (db_convSeq d)"
        using d by (auto simp: db_inv_def convs_ok_def keys_ok_update in_update_where split: if_splits)
      show "conv_ids d \<subseteq> cv_id ` set ?cs"
        by (simp add: conv_ids_def image_update_where)
    qed
    then show ?thesis by simp
  qed
  with assms show ?thesis
    by (auto simp: setGroupName_def split_beta Let_def intro!: exec_stmt_db_inv)
qed

lemma group_ops_inv [inv_intros]:
  "db_inv d \<Longrightarrow> db_inv (snd (addGroupMembers c us now d))"
  "db_inv d \<Longrightarrow> db_inv (snd (removeGroupMember c u d))"
  "db_inv d \<Longrightarrow> db_inv (snd (updateMemberRole c u role d))"
  by (auto simp: addGroupMembers_def removeGroupMember_def updateMemberRole_def split_beta Let_def
      intro!: add_members_inv exec_stmt_db_inv members_delete_inv update_members_inv)

end
