(* ===== verification/Encryption_Manager.thy ===== *)
theory Encryption_Manager
  imports External
begin

text \<open>
  CommonModule/encryption/EncryptionManager.cpp: the password hash format
  \<open>v1:iterations:salt-hex:hash-hex\<close>, its verification with a constant-time comparison, and the
  token helpers. Random bytes are arguments; SHA-256 and PBKDF2 are fields of \<open>ext\<close>.
\<close>

unbundle bit_operations_syntax

section \<open>The operations\<close>

definition encryptPassword :: "ext \<Rightarrow> string \<Rightarrow> string" where
  "encryptPassword X password = to_hex (x_sha256 X (x_utf8 X password))"

definition defaultIterations :: int where
  "defaultIterations = 100000"

definition hashPasswordWithSalt :: "ext \<Rightarrow> bytes \<Rightarrow> string \<Rightarrow> int \<Rightarrow> string" where
  "hashPasswordWithSalt X salt password iterations =
     ''v1:'' @ number iterations @ '':'' @ to_hex salt @ '':''
       @ to_hex (x_pbkdf2 X (x_utf8 X password) salt iterations)"

text \<open>The comparison loop accumulates the differing bits of all 32 bytes before it decides.\<close>

definition diff_bits :: "bytes \<Rightarrow> bytes \<Rightarrow> byte" where
  "diff_bits xs ys = foldl (\<lambda>d (a, b). d OR (a XOR b)) 0 (zip xs ys)"

definition verifyPassword :: "ext \<Rightarrow> string \<Rightarrow> string \<Rightarrow> bool" where
  "verifyPassword X password storedHash =
     (let parts = split_on CHR '':'' storedHash
      in if length parts \<noteq> 4 \<or> parts ! 0 \<noteq> ''v1'' then False
         else case parse_int 32 (parts ! 1) of
           None \<Rightarrow> False
         | Some iterations \<Rightarrow>
             if iterations \<le> 0 then False
             else
               let saltBytes = from_hex (parts ! 2);
                   expectedHash = from_hex (parts ! 3)
               in if saltBytes = [] \<or> expectedHash = [] then False
                  else
                    let derivedBytes = x_pbkdf2 X (x_utf8 X password) saltBytes iterations
                    in if length derivedBytes \<noteq> length expectedHash then False
                       else diff_bits derivedBytes expectedHash = 0)"

definition generateToken :: "bytes \<Rightarrow> string" where
  "generateToken random = to_hex random"

definition hashToken :: "ext \<Rightarrow> string \<Rightarrow> string" where
  "hashToken X token = encryptPassword X token"

section \<open>The constant-time comparison decides equality\<close>

lemma diff_bits_acc:
  assumes "length xs = length ys"
  shows "foldl (\<lambda>d (a, b). d OR (a XOR b)) d (zip xs ys) = (0 :: byte) \<longleftrightarrow> d = 0 \<and> xs = ys"
  using assms
proof (induction xs ys arbitrary: d rule: list_induct2)
  case (Cons x xs y ys)
  have "d OR (x XOR y) = 0 \<longleftrightarrow> d = 0 \<and> x = y"
    by (metis or_eq_0_iff word_bw_lcs(3) xor_self_eq xor.right_neutral)
  with Cons.IH [of "d OR (x XOR y)"] show ?case by auto
qed simp

lemma diff_bits_eq: "length xs = length ys \<Longrightarrow> diff_bits xs ys = 0 \<longleftrightarrow> xs = ys"
  by (simp add: diff_bits_def diff_bits_acc)

section \<open>Verification\<close>

lemma split_hash:
  "split_on CHR '':'' (hashPasswordWithSalt X salt pw n)
   = [''v1'', number n, to_hex salt, to_hex (x_pbkdf2 X (x_utf8 X pw) salt n)]"
proof -
  have "hashPasswordWithSalt X salt pw n = ''v1'' @ CHR '':'' # (number n @ CHR '':'' #
      (to_hex salt @ CHR '':'' # to_hex (x_pbkdf2 X (x_utf8 X pw) salt n)))"
    by (simp add: hashPasswordWithSalt_def)
  moreover have "CHR '':'' \<notin> set ''v1''" by simp
  ultimately show ?thesis
    by (simp only: split_on_append number_no_colon to_hex_no_colon split_on_no_sep simp_thms
        not_False_eq_True)
qed

text \<open>What a stored hash of this format accepts: exactly the passwords with the same derived key.\<close>

lemma verify_hash_iff:
  assumes "pbkdf2_32 X" and "salt \<noteq> []" and "0 < n" "n < 2 ^ 31"
  shows "verifyPassword X q (hashPasswordWithSalt X salt pw n)
    \<longleftrightarrow> x_pbkdf2 X (x_utf8 X q) salt n = x_pbkdf2 X (x_utf8 X pw) salt n"
proof -
  let ?h = "x_pbkdf2 X (x_utf8 X pw) salt n"
  have "length (x_pbkdf2 X (x_utf8 X q) salt n) = 32" "length ?h = 32"
    using assms(1) by (simp_all add: pbkdf2_32_def)
  moreover from this have "?h \<noteq> []" by auto
  moreover have "parse_int 32 (number n) = Some n"
    using assms(3,4) by (intro parse_number) simp_all
  ultimately show ?thesis
    using assms(2,3) by (simp add: verifyPassword_def split_hash diff_bits_eq)
qed

text \<open>A text of another format (such as the bare SHA-256 digest of old accounts) never verifies.\<close>

lemma verify_legacy: "CHR '':'' \<notin> set h \<Longrightarrow> \<not> verifyPassword X pw h"
  by (simp add: verifyPassword_def split_on_no_sep)

section \<open>Properties\<close>

text \<open>
  A stored hash verifies exactly the passwords whose derived key is the same: the password it
  was made from always verifies, and the byte-wise comparison lets no other derived key through.
\<close>

lemma password_verification:
  assumes "pbkdf2_32 X" and "salt \<noteq> []" and "0 < n" "n < 2 ^ 31"
  shows "verifyPassword X pw (hashPasswordWithSalt X salt pw n)
    \<and> (verifyPassword X q (hashPasswordWithSalt X salt pw n)
       \<longleftrightarrow> x_pbkdf2 X (x_utf8 X q) salt n = x_pbkdf2 X (x_utf8 X pw) salt n)"
  using verify_hash_iff [OF assms] by simp

lemma password_verification_witness:
  "verifyPassword sample_ext ''secret'' (hashPasswordWithSalt sample_ext [1, 2] ''secret'' 100000)
   \<and> \<not> verifyPassword sample_ext ''other'' (hashPasswordWithSalt sample_ext [1, 2] ''secret'' 100000)"
  using password_verification [of sample_ext "[1, 2]" 100000 "''secret''" "''other''"] sample_ext_ok(5)
  by (simp add: sample_ext_def bytes_of_def)

end
