(* ===== verification/E2ee_Crypto.thy ===== *)
theory E2ee_Crypto
  imports External
begin

text \<open>
  CommonModule/encryption/E2eeCrypto.cpp: the guards around the X25519, HKDF and AES-256-GCM calls,
  and the pairwise envelope, its JSON encoding and its validating decoder. The random bytes and the
  freshly generated keys of OpenSSL are arguments (\<open>None\<close> when the call fails).
\<close>

section \<open>Keys\<close>

definition X25519KeySize :: nat where "X25519KeySize = 32"
definition GcmIvSize :: nat where "GcmIvSize = 12"
definition GcmTagSize :: nat where "GcmTagSize = 16"
definition EnvelopeVersion :: int where "EnvelopeVersion = 1"

lemma crypto_sizes [simp]: "X25519KeySize = 32" "GcmIvSize = 12" "GcmTagSize = 16" "EnvelopeVersion = 1"
  by (simp_all add: X25519KeySize_def GcmIvSize_def GcmTagSize_def EnvelopeVersion_def)

record key_pair =
  kp_publicKey :: bytes
  kp_privateKey :: bytes
  kp_valid :: bool

definition invalid_pair :: key_pair where
  "invalid_pair = \<lparr>kp_publicKey = [], kp_privateKey = [], kp_valid = False\<rparr>"

text \<open>\<open>generated\<close>: the raw public and private keys of EVP_PKEY_keygen.\<close>

definition generateX25519KeyPair :: "(bytes \<times> bytes) option \<Rightarrow> key_pair" where
  "generateX25519KeyPair generated =
     (case generated of
        None \<Rightarrow> invalid_pair
      | Some (pub, priv) \<Rightarrow>
          if length pub \<noteq> X25519KeySize \<or> length priv \<noteq> X25519KeySize then invalid_pair
          else \<lparr>kp_publicKey = pub, kp_privateKey = priv, kp_valid = True\<rparr>)"

definition keyPairFromPrivateKey :: "ext \<Rightarrow> bytes \<Rightarrow> key_pair" where
  "keyPairFromPrivateKey X priv =
     (if length priv \<noteq> X25519KeySize then invalid_pair
      else case x_x25519Public X priv of
        None \<Rightarrow> invalid_pair
      | Some pub \<Rightarrow>
          if length pub \<noteq> X25519KeySize then invalid_pair
          else \<lparr>kp_publicKey = pub, kp_privateKey = priv, kp_valid = True\<rparr>)"

definition generateRandomBytes :: "int \<Rightarrow> bytes option \<Rightarrow> bytes" where
  "generateRandomBytes len random =
     (if len \<le> 0 then [] else case random of None \<Rightarrow> [] | Some bs \<Rightarrow> take (nat len) bs)"

definition ecdh :: "ext \<Rightarrow> bytes \<Rightarrow> bytes \<Rightarrow> bytes" where
  "ecdh X privateKey peerPublicKey =
     (if length privateKey \<noteq> X25519KeySize \<or> length peerPublicKey \<noteq> X25519KeySize then []
      else case x_x25519 X privateKey peerPublicKey of
        None \<Rightarrow> []
      | Some shared \<Rightarrow> if length shared = X25519KeySize then shared else [])"

definition e2ee_deriveMessageKey :: "ext \<Rightarrow> bytes \<Rightarrow> bytes" where
  "e2ee_deriveMessageKey X sharedSecret =
     (if sharedSecret = [] then []
      else case x_hkdf X sharedSecret (bytes_of ''xychat-e2ee-v1'') [] of
        None \<Rightarrow> []
      | Some derived \<Rightarrow> if length derived = 32 then derived else [])"

definition publicKeyFingerprint :: "ext \<Rightarrow> bytes \<Rightarrow> string" where
  "publicKeyFingerprint X publicKey =
     (if publicKey = [] then [] else to_hex (take 16 (x_sha256 X publicKey)))"

section \<open>AES-256-GCM\<close>

record gcm_result =
  gr_iv :: bytes
  gr_ciphertext :: bytes
  gr_valid :: bool

definition gcm_failed :: gcm_result where
  "gcm_failed = \<lparr>gr_iv = [], gr_ciphertext = [], gr_valid = False\<rparr>"

text \<open>\<open>random\<close>: the twelve bytes of RAND_bytes.\<close>

definition aesGcmEncrypt :: "ext \<Rightarrow> bytes option \<Rightarrow> bytes \<Rightarrow> bytes \<Rightarrow> gcm_result" where
  "aesGcmEncrypt X random key plaintext =
     (if length key \<noteq> 32 then gcm_failed
      else case random of
        None \<Rightarrow> gcm_failed
      | Some iv \<Rightarrow>
          (case x_gcmSeal X key iv plaintext of
             None \<Rightarrow> gcm_failed
           | Some ct \<Rightarrow> \<lparr>gr_iv = iv, gr_ciphertext = ct, gr_valid = True\<rparr>))"

definition aesGcmDecrypt :: "ext \<Rightarrow> bytes \<Rightarrow> bytes \<Rightarrow> bytes \<Rightarrow> bytes" where
  "aesGcmDecrypt X key iv ciphertext =
     (if length key \<noteq> 32 \<or> length iv \<noteq> GcmIvSize \<or> length ciphertext < GcmTagSize then []
      else case x_gcmOpen X key iv ciphertext of None \<Rightarrow> [] | Some plaintext \<Rightarrow> plaintext)"

lemma aesGcm_inverts:
  assumes "gcm_inverts X" and "length key = 32" "length iv = 12"
  shows "\<exists>ct. aesGcmEncrypt X (Some iv) key pt = \<lparr>gr_iv = iv, gr_ciphertext = ct, gr_valid = True\<rparr>
    \<and> length ct = length pt + 16 \<and> aesGcmDecrypt X key iv ct = pt"
proof -
  obtain c where "x_gcmSeal X key iv pt = Some c" "length c = length pt + 16"
    "x_gcmOpen X key iv c = Some pt"
    using assms(1) unfolding gcm_inverts_def by blast
  with assms show ?thesis by (simp add: aesGcmEncrypt_def aesGcmDecrypt_def)
qed

section \<open>Envelopes\<close>

record envelope_entry =
  ee_deviceId :: string
  ee_prekeyId :: int
  ee_eph :: bytes
  ee_iv :: bytes
  ee_ciphertext :: bytes

text \<open>The prekey id of the copy for the sender's own device.\<close>

definition SelfCopyPrekeyId :: int where "SelfCopyPrekeyId = 0"

definition encode_entry :: "ext \<Rightarrow> envelope_entry \<Rightarrow> json" where
  "encode_entry X e = JObj
     [(''deviceId'', JStr (ee_deviceId e)), (''prekeyId'', JNum (ee_prekeyId e)),
      (''eph'', JStr (x_toBase64 X (ee_eph e))), (''iv'', JStr (x_toBase64 X (ee_iv e))),
      (''ct'', JStr (x_toBase64 X (ee_ciphertext e)))]"

definition encodeEnvelope :: "ext \<Rightarrow> envelope_entry list \<Rightarrow> jobj" where
  "encodeEnvelope X entries =
     [(''v'', JNum EnvelopeVersion), (''devices'', JArr (map (encode_entry X) entries))]"

definition read_entry :: "ext \<Rightarrow> jobj \<Rightarrow> envelope_entry" where
  "read_entry X ob =
     \<lparr>ee_deviceId = jstr (jget ob ''deviceId''), ee_prekeyId = jdouble (jget ob ''prekeyId''),
      ee_eph = x_fromBase64 X (jstr (jget ob ''eph'')), ee_iv = x_fromBase64 X (jstr (jget ob ''iv'')),
      ee_ciphertext = x_fromBase64 X (jstr (jget ob ''ct''))\<rparr>"

text \<open>The checks of an entry; the decoder returns early on the first one that fails them.\<close>

definition entry_ok :: "envelope_entry \<Rightarrow> bool" where
  "entry_ok e \<longleftrightarrow> \<not> (ee_deviceId e = [] \<or> ee_prekeyId e < 0
     \<or> length (ee_eph e) \<noteq> X25519KeySize \<or> length (ee_iv e) \<noteq> GcmIvSize
     \<or> length (ee_ciphertext e) < GcmTagSize)"

fun decode_entries :: "ext \<Rightarrow> json list \<Rightarrow> envelope_entry list option" where
  "decode_entries X [] = Some []"
| "decode_entries X (v # vs) =
     (if \<not> is_JObj v then None
      else
        let e = read_entry X (jobject v)
        in if \<not> entry_ok e then None
           else map_option (Cons e) (decode_entries X vs))"

text \<open>\<open>None\<close> is the failure: an empty list with \<open>ok\<close> false.\<close>

definition decodeEnvelope :: "ext \<Rightarrow> string \<Rightarrow> envelope_entry list option" where
  "decodeEnvelope X content =
     (case x_parse X content of
        Some (JObj root) \<Rightarrow>
          if jint_or (-1) (jget root ''v'') \<noteq> EnvelopeVersion \<or> \<not> is_JArr (jget root ''devices'')
          then None
          else
            let devices = jarr (jget root ''devices'')
            in if devices = [] then None else decode_entries X devices
      | _ \<Rightarrow> None)"

definition looksLikeEnvelope :: "ext \<Rightarrow> string \<Rightarrow> bool" where
  "looksLikeEnvelope X content =
     (if content = [] \<or> hd content \<noteq> CHR ''{'' then False
      else case x_parse X content of
        Some (JObj root) \<Rightarrow>
          jint_or (-1) (jget root ''v'') = EnvelopeVersion \<and> jhas root ''devices''
      | _ \<Rightarrow> False)"

section \<open>Encoder and decoder agree\<close>

definition entry_base64 :: "ext \<Rightarrow> envelope_entry \<Rightarrow> bool" where
  "entry_base64 X e \<longleftrightarrow> base64_inverts X (ee_eph e) \<and> base64_inverts X (ee_iv e)
     \<and> base64_inverts X (ee_ciphertext e)"

lemma read_encode_entry:
  "entry_base64 X e \<Longrightarrow> read_entry X (jobject (encode_entry X e)) = e"
  by (simp add: encode_entry_def read_entry_def entry_base64_def base64_inverts_def)

lemma decode_entries_encode:
  assumes "\<forall>e\<in>set es. entry_ok e \<and> entry_base64 X e"
  shows "decode_entries X (map (encode_entry X) es) = Some es"
  using assms
proof (induction es)
  case (Cons e es)
  then have "read_entry X (jobject (encode_entry X e)) = e" "entry_ok e"
    by (simp_all add: read_encode_entry)
  moreover have "is_JObj (encode_entry X e)" by (simp add: encode_entry_def)
  ultimately show ?case using Cons by simp
qed simp

lemma decodeEnvelope_encode:
  assumes "\<forall>e\<in>set es. entry_ok e \<and> entry_base64 X e" and "es \<noteq> []"
    and "x_parse X s = Some (JObj (encodeEnvelope X es))"
  shows "decodeEnvelope X s = Some es"
  using assms by (simp add: decodeEnvelope_def encodeEnvelope_def decode_entries_encode)

text \<open>Whatever is decoded satisfies the checks.\<close>

lemma decode_entries_ok: "decode_entries X vs = Some es \<Longrightarrow> \<forall>e\<in>set es. entry_ok e"
  by (induction vs arbitrary: es) (auto simp: Let_def split: if_splits)

lemma decode_entries_length: "decode_entries X vs = Some es \<Longrightarrow> length es = length vs"
  by (induction vs arbitrary: es) (auto simp: Let_def split: if_splits)

lemma decodeEnvelope_ok:
  "decodeEnvelope X s = Some es \<Longrightarrow> es \<noteq> [] \<and> (\<forall>e\<in>set es. entry_ok e)"
  by (auto simp: decodeEnvelope_def Let_def dest: decode_entries_ok decode_entries_length
      split: option.splits json.splits if_splits)

lemma decodeEnvelope_looks_like:
  assumes "decodeEnvelope X s = Some es" and "s \<noteq> []" "hd s = CHR ''{''"
  shows "looksLikeEnvelope X s"
proof -
  have "jhas root k" if "is_JArr (jget root k)" for root k
    using that by (auto simp: jget_def jhas_def split: option.splits)
  with assms show ?thesis
    by (auto simp: decodeEnvelope_def looksLikeEnvelope_def Let_def
        split: option.splits json.splits if_splits)
qed

end
