(* ===== verification/Group_E2ee.thy ===== *)
theory Group_E2ee
  imports E2ee_Crypto
begin

text \<open>
  CommonModule/encryption/GroupE2eeCrypto.cpp: Sender Keys. A sender ratchets its chain key once
  per message; a receiver follows the chain, keeps the keys of the messages it skipped, and uses
  each of them once. Also the JSON forms of the key distribution and of a group message.
\<close>

section \<open>Keys and signatures\<close>

definition MaxRatchetSteps :: int where "MaxRatchetSteps = 2000"
definition MaxMessageIteration :: int where "MaxMessageIteration = 100000000"
definition MaxSkippedMessageKeys :: nat where "MaxSkippedMessageKeys = 1000"
definition Ed25519KeySize :: nat where "Ed25519KeySize = 32"
definition Ed25519SigSize :: nat where "Ed25519SigSize = 64"
definition ChainKeySize :: nat where "ChainKeySize = 32"

lemma group_sizes [simp]:
  "MaxRatchetSteps = 2000" "MaxMessageIteration = 100000000" "MaxSkippedMessageKeys = 1000"
  "Ed25519KeySize = 32" "Ed25519SigSize = 64" "ChainKeySize = 32"
  by (simp_all add: MaxRatchetSteps_def MaxMessageIteration_def MaxSkippedMessageKeys_def
      Ed25519KeySize_def Ed25519SigSize_def ChainKeySize_def)

definition ChainHkdfSalt :: bytes where "ChainHkdfSalt = bytes_of ''xychat-grp-chain''"
definition MessageHkdfInfo :: bytes where "MessageHkdfInfo = bytes_of ''xychat-grp-msg''"

definition hkdfSingle :: "ext \<Rightarrow> bytes \<Rightarrow> bytes \<Rightarrow> bytes \<Rightarrow> bytes" where
  "hkdfSingle X key salt info =
     (case x_hkdf X key salt info of None \<Rightarrow> []
      | Some derived \<Rightarrow> if length derived = 32 then derived else [])"

record sender_key =
  sk_keyId :: string
  sk_chainKey :: bytes
  sk_publicSigningKey :: bytes
  sk_privateSigningKey :: bytes
  sk_iteration :: int
  sk_valid :: bool

definition no_sender_key :: sender_key where
  "no_sender_key = \<lparr>sk_keyId = [], sk_chainKey = [], sk_publicSigningKey = [],
     sk_privateSigningKey = [], sk_iteration = 0, sk_valid = False\<rparr>"

definition generateSenderKey :: "ext \<Rightarrow> (bytes \<times> bytes) option \<Rightarrow> bytes option \<Rightarrow> sender_key" where
  "generateSenderKey X generated random =
     (case generated of
        None \<Rightarrow> no_sender_key
      | Some (pub, priv) \<Rightarrow>
          if length pub \<noteq> Ed25519KeySize \<or> length priv \<noteq> Ed25519KeySize then no_sender_key
          else
            let ck = generateRandomBytes (int ChainKeySize) random
            in if length ck \<noteq> ChainKeySize then no_sender_key
               else \<lparr>sk_keyId = to_hex (take 16 (x_sha256 X pub)), sk_chainKey = ck,
                      sk_publicSigningKey = pub, sk_privateSigningKey = priv,
                      sk_iteration = 0, sk_valid = True\<rparr>)"

definition ratchetChainKey :: "ext \<Rightarrow> bytes \<Rightarrow> bytes" where
  "ratchetChainKey X chainKey =
     (if length chainKey \<noteq> ChainKeySize then [] else hkdfSingle X chainKey ChainHkdfSalt [])"

definition deriveMessageKey :: "ext \<Rightarrow> bytes \<Rightarrow> int \<Rightarrow> bytes" where
  "deriveMessageKey X chainKey iteration =
     (if length chainKey \<noteq> ChainKeySize \<or> iteration < 0 then []
      else hkdfSingle X chainKey ChainHkdfSalt (MessageHkdfInfo @ bytes_of (number iteration)))"

definition sign :: "ext \<Rightarrow> bytes \<Rightarrow> bytes \<Rightarrow> bytes" where
  "sign X privateSigningKey message =
     (if length privateSigningKey \<noteq> Ed25519KeySize \<or> message = [] then []
      else case x_edSign X privateSigningKey message of None \<Rightarrow> []
        | Some signature \<Rightarrow> if length signature = Ed25519SigSize then signature else [])"

definition verify :: "ext \<Rightarrow> bytes \<Rightarrow> bytes \<Rightarrow> bytes \<Rightarrow> bool" where
  "verify X publicSigningKey message signature =
     (if length publicSigningKey \<noteq> Ed25519KeySize \<or> length signature \<noteq> Ed25519SigSize
        \<or> message = [] then False
      else x_edVerify X publicSigningKey message signature)"

section \<open>Encrypting\<close>

record encrypted_message =
  em_keyId :: string
  em_iteration :: int
  em_iv :: bytes
  em_ciphertext :: bytes
  em_signature :: bytes
  em_valid :: bool

definition no_message :: encrypted_message where
  "no_message = \<lparr>em_keyId = [], em_iteration = 0, em_iv = [], em_ciphertext = [],
     em_signature = [], em_valid = False\<rparr>"

text \<open>The chain moves as soon as the next chain key exists, whatever fails afterwards.\<close>

definition encryptMessage ::
  "ext \<Rightarrow> bytes option \<Rightarrow> sender_key \<Rightarrow> bytes \<Rightarrow> encrypted_message \<times> sender_key" where
  "encryptMessage X random key plaintext =
     (if \<not> sk_valid key \<or> plaintext = [] then (no_message, key)
      else
        let newChainKey = ratchetChainKey X (sk_chainKey key)
        in if newChainKey = [] then (no_message, key)
           else
             let key1 = key\<lparr>sk_chainKey := newChainKey, sk_iteration := sk_iteration key + 1\<rparr>;
                 messageKey = deriveMessageKey X (sk_chainKey key1) (sk_iteration key1)
             in if messageKey = [] then (no_message, key1)
                else
                  let gcm = aesGcmEncrypt X random messageKey plaintext
                  in if \<not> gr_valid gcm then (no_message, key1)
                     else
                       let signature = sign X (sk_privateSigningKey key1) (gr_iv gcm @ gr_ciphertext gcm)
                       in if signature = [] then (no_message, key1)
                          else (\<lparr>em_keyId = sk_keyId key1, em_iteration = sk_iteration key1,
                                  em_iv = gr_iv gcm, em_ciphertext = gr_ciphertext gcm,
                                  em_signature = signature, em_valid = True\<rparr>, key1))"

section \<open>Decrypting\<close>

text \<open>The receiver's arguments passed by reference; \<open>rc_skipped\<close> is \<open>None\<close> for a null pointer.\<close>

record receiver =
  rc_chainKey :: bytes
  rc_iteration :: int
  rc_skipped :: "qmap option"

text \<open>The ratchet loop: the keys of the skipped iterations go to \<open>pending\<close>.\<close>

function advance ::
  "ext \<Rightarrow> bool \<Rightarrow> int \<Rightarrow> bytes \<Rightarrow> int \<Rightarrow> qmap \<Rightarrow> (bytes \<times> int \<times> qmap) option" where
  "advance X keep target ck it pending =
     (if it < target then
        let next = ratchetChainKey X ck
        in if next = [] then None
           else if it + 1 < target \<and> keep then
             let skippedKey = deriveMessageKey X next (it + 1)
             in if skippedKey = [] then None
                else advance X keep target next (it + 1) (qinsert (it + 1) skippedKey pending)
           else advance X keep target next (it + 1) pending
      else Some (ck, it, pending))"
  by pat_completeness auto
termination
  by (relation "measure (\<lambda>(X, keep, target, ck, it, pending). nat (target - it))") auto

declare advance.simps [simp del]

text \<open>The capacity loop drops the entry of the lowest iteration.\<close>

fun evict :: "qmap \<Rightarrow> qmap" where
  "evict [] = []"
| "evict (p # m) = (if length (p # m) > MaxSkippedMessageKeys then evict m else p # m)"

definition decryptMessage ::
  "ext \<Rightarrow> bytes \<Rightarrow> encrypted_message \<Rightarrow> receiver \<Rightarrow> bytes \<times> receiver" where
  "decryptMessage X publicSigningKey msg rc =
     (if \<not> em_valid msg \<or> length (em_iv msg) \<noteq> GcmIvSize
        \<or> length (em_ciphertext msg) < GcmTagSize \<or> length (em_signature msg) \<noteq> Ed25519SigSize
        \<or> em_iteration msg \<le> 0 \<or> length (rc_chainKey rc) \<noteq> ChainKeySize \<or> rc_iteration rc < 0
      then ([], rc)
      else
        let signedPayload = em_iv msg @ em_ciphertext msg;
            cached = (case rc_skipped rc of None \<Rightarrow> None | Some m \<Rightarrow> map_of m (em_iteration msg))
        in case cached of
          Some cachedKey \<Rightarrow>
            (let plaintext = aesGcmDecrypt X cachedKey (em_iv msg) (em_ciphertext msg)
             in if plaintext = [] then ([], rc)
                else if \<not> verify X publicSigningKey signedPayload (em_signature msg) then ([], rc)
                else (plaintext, rc\<lparr>rc_skipped := map_option (qerase (em_iteration msg)) (rc_skipped rc)\<rparr>))
        | None \<Rightarrow>
            if em_iteration msg \<le> rc_iteration rc then ([], rc)
            else if em_iteration msg - rc_iteration rc > MaxRatchetSteps then ([], rc)
            else
              (case advance X (rc_skipped rc \<noteq> None) (em_iteration msg) (rc_chainKey rc)
                      (rc_iteration rc) [] of
                 None \<Rightarrow> ([], rc)
               | Some (currentChainKey, currentIteration, pending) \<Rightarrow>
                   let messageKey = deriveMessageKey X currentChainKey currentIteration
                   in if messageKey = [] then ([], rc)
                      else
                        let plaintext = aesGcmDecrypt X messageKey (em_iv msg) (em_ciphertext msg)
                        in if plaintext = [] then ([], rc)
                           else if \<not> verify X publicSigningKey signedPayload (em_signature msg)
                           then ([], rc)
                           else (plaintext,
                                 \<lparr>rc_chainKey = currentChainKey, rc_iteration = currentIteration,
                                  rc_skipped = map_option (\<lambda>m. evict (qinsert_all pending m))
                                    (rc_skipped rc)\<rparr>)))"

section \<open>Distribution of a sender key\<close>

record distribution_entry =
  de_userId :: int
  de_deviceId :: string
  de_envelope :: envelope_entry

definition DistributionVersion :: int where "DistributionVersion = 1"
definition GroupMessageVersion :: int where "GroupMessageVersion = 1"

lemma group_versions [simp]: "DistributionVersion = 1" "GroupMessageVersion = 1"
  by (simp_all add: DistributionVersion_def GroupMessageVersion_def)

definition encode_distribution_entry :: "ext \<Rightarrow> distribution_entry \<Rightarrow> json" where
  "encode_distribution_entry X e = JObj
     [(''userId'', JNum (de_userId e)), (''deviceId'', JStr (de_deviceId e)),
      (''prekeyId'', JNum (ee_prekeyId (de_envelope e))),
      (''eph'', JStr (x_toBase64 X (ee_eph (de_envelope e)))),
      (''iv'', JStr (x_toBase64 X (ee_iv (de_envelope e)))),
      (''ct'', JStr (x_toBase64 X (ee_ciphertext (de_envelope e))))]"

definition encodeDistribution ::
  "ext \<Rightarrow> int \<Rightarrow> int \<Rightarrow> string \<Rightarrow> sender_key \<Rightarrow> distribution_entry list \<Rightarrow> jobj" where
  "encodeDistribution X groupId senderUserId senderDeviceId key entries =
     [(''v'', JNum DistributionVersion), (''type'', JStr ''sender_key_distribution''),
      (''groupId'', JNum groupId), (''senderUserId'', JNum senderUserId),
      (''senderDeviceId'', JStr senderDeviceId), (''keyId'', JStr (sk_keyId key)),
      (''publicSigningKey'', JStr (x_toBase64 X (sk_publicSigningKey key))),
      (''devices'', JArr (map (encode_distribution_entry X) entries))]"

definition read_distribution_entry :: "ext \<Rightarrow> jobj \<Rightarrow> distribution_entry" where
  "read_distribution_entry X ob =
     \<lparr>de_userId = jlonglong (jget ob ''userId''), de_deviceId = jstr (jget ob ''deviceId''),
      de_envelope = read_entry X ob\<rparr>"

definition distribution_entry_ok :: "distribution_entry \<Rightarrow> bool" where
  "distribution_entry_ok e \<longleftrightarrow> \<not> (de_userId e \<le> 0 \<or> de_deviceId e = []
     \<or> ee_prekeyId (de_envelope e) < 0 \<or> length (ee_eph (de_envelope e)) \<noteq> 32
     \<or> length (ee_iv (de_envelope e)) \<noteq> GcmIvSize
     \<or> length (ee_ciphertext (de_envelope e)) < GcmTagSize)"

text \<open>Unlike an envelope, a distribution skips the entries that fail the checks.\<close>

fun decode_distribution_entries :: "ext \<Rightarrow> json list \<Rightarrow> distribution_entry list" where
  "decode_distribution_entries X [] = []"
| "decode_distribution_entries X (v # vs) =
     (if \<not> is_JObj v then decode_distribution_entries X vs
      else
        let e = read_distribution_entry X (jobject v)
        in if \<not> distribution_entry_ok e then decode_distribution_entries X vs
           else e # decode_distribution_entries X vs)"

record distribution =
  di_groupId :: int
  di_senderUserId :: int
  di_senderDeviceId :: string
  di_key :: sender_key
  di_entries :: "distribution_entry list"

definition no_distribution :: distribution where
  "no_distribution = \<lparr>di_groupId = 0, di_senderUserId = 0, di_senderDeviceId = [],
     di_key = no_sender_key, di_entries = []\<rparr>"

definition decodeDistribution :: "ext \<Rightarrow> string \<Rightarrow> bool \<times> distribution" where
  "decodeDistribution X content =
     (case x_parse X content of
        Some (JObj root) \<Rightarrow>
          if jint_or (-1) (jget root ''v'') \<noteq> DistributionVersion
            \<or> jstr (jget root ''type'') \<noteq> ''sender_key_distribution'' then (False, no_distribution)
          else
            let keyId = jstr (jget root ''keyId'');
                pub = x_fromBase64 X (jstr (jget root ''publicSigningKey''));
                valid = (keyId \<noteq> [] \<and> length pub = Ed25519KeySize)
            in (valid,
                \<lparr>di_groupId = jlonglong (jget root ''groupId''),
                 di_senderUserId = jlonglong (jget root ''senderUserId''),
                 di_senderDeviceId = jstr (jget root ''senderDeviceId''),
                 di_key = no_sender_key\<lparr>sk_keyId := keyId, sk_publicSigningKey := pub, sk_valid := valid\<rparr>,
                 di_entries = decode_distribution_entries X (jarr (jget root ''devices''))\<rparr>)
      | _ \<Rightarrow> (False, no_distribution))"

definition looksLikeDistribution :: "ext \<Rightarrow> string \<Rightarrow> bool" where
  "looksLikeDistribution X content =
     (if content = [] \<or> hd content \<noteq> CHR ''{'' then False
      else case x_parse X content of
        Some (JObj root) \<Rightarrow> jint_or (-1) (jget root ''v'') = DistributionVersion
          \<and> jstr (jget root ''type'') = ''sender_key_distribution''
      | _ \<Rightarrow> False)"

section \<open>Group messages as JSON\<close>

definition encodeGroupMessage :: "ext \<Rightarrow> encrypted_message \<Rightarrow> string \<Rightarrow> jobj" where
  "encodeGroupMessage X msg senderDeviceId =
     [(''v'', JNum GroupMessageVersion), (''type'', JStr ''group_e2ee''),
      (''keyId'', JStr (em_keyId msg)), (''iteration'', JNum (em_iteration msg)),
      (''senderDeviceId'', JStr senderDeviceId), (''iv'', JStr (x_toBase64 X (em_iv msg))),
      (''ct'', JStr (x_toBase64 X (em_ciphertext msg))),
      (''sig'', JStr (x_toBase64 X (em_signature msg)))]"

text \<open>The result, the message filled in, and the sender's device when the header was right.\<close>

definition decodeGroupMessage :: "ext \<Rightarrow> string \<Rightarrow> bool \<times> encrypted_message \<times> string option" where
  "decodeGroupMessage X content =
     (case x_parse X content of
        Some (JObj root) \<Rightarrow>
          if jint_or (-1) (jget root ''v'') \<noteq> GroupMessageVersion
            \<or> jstr (jget root ''type'') \<noteq> ''group_e2ee'' then (False, no_message, None)
          else
            let keyId = jstr (jget root ''keyId'');
                iteration = jint_or 0 (jget root ''iteration'');
                iv = x_fromBase64 X (jstr (jget root ''iv''));
                ct = x_fromBase64 X (jstr (jget root ''ct''));
                sig = x_fromBase64 X (jstr (jget root ''sig''));
                valid = (keyId \<noteq> [] \<and> iteration > 0 \<and> iteration \<le> MaxMessageIteration
                  \<and> length iv = GcmIvSize \<and> length ct \<ge> GcmTagSize \<and> length sig = Ed25519SigSize)
            in (valid, \<lparr>em_keyId = keyId, em_iteration = iteration, em_iv = iv, em_ciphertext = ct,
                        em_signature = sig, em_valid = valid\<rparr>,
                Some (jstr (jget root ''senderDeviceId'')))
      | _ \<Rightarrow> (False, no_message, None))"

definition looksLikeGroupMessage :: "ext \<Rightarrow> string \<Rightarrow> bool" where
  "looksLikeGroupMessage X content =
     (if content = [] \<or> hd content \<noteq> CHR ''{'' then False
      else case x_parse X content of
        Some (JObj root) \<Rightarrow> jint_or (-1) (jget root ''v'') = GroupMessageVersion
          \<and> jstr (jget root ''type'') = ''group_e2ee''
      | _ \<Rightarrow> False)"

end
