(* ===== verification/Packet_Codec.thy ===== *)
theory Packet_Codec
  imports XY_Prelude
begin

text \<open>
  The frame protocol of CommonModule/protocol: the constants, message types and error codes of
  Packet.h, and the encoder, the incremental decoder and the receive loop over them
  (PacketCodec.cpp and the loop of RequestHandler::onReadyRead). Integers keep their width.
\<close>

section \<open>Packet.h\<close>

definition Magic :: "32 word" where "Magic = 0x58594350"
definition CurrentVersion :: "16 word" where "CurrentVersion = 1"
definition HeaderSize :: "32 word" where "HeaderSize = 4 + 2 + 2 + 8 + 4"
definition MaxPayloadSize :: "32 word" where "MaxPayloadSize = 4 * 1024 * 1024"

datatype message_type =
    LoginRequest | LoginResponse | Ping | Pong | ErrorPacket
  | RegisterRequest | RegisterResponse | LogoutRequest | LogoutResponse
  | TokenRenewRequest | TokenRenewResponse | ForceLogoutRequest | ForceLogoutResponse
  | SearchUsersRequest | SearchUsersResponse | AddContactRequest | AddContactResponse
  | GetContactsRequest | GetContactsResponse
  | GetConversationsRequest | GetConversationsResponse | SendMessageRequest | SendMessageResponse
  | NewMessageNotification | AckMessageRequest | AckMessageResponse
  | SyncMessagesRequest | SyncMessagesResponse | MessageStatusUpdate
  | SyncEventsRequest | SyncEventsResponse
  | RegisterKeysRequest | RegisterKeysResponse | FetchKeysRequest | FetchKeysResponse
  | CreateGroupRequest | CreateGroupResponse | InviteGroupMembersRequest | InviteGroupMembersResponse
  | LeaveGroupRequest | LeaveGroupResponse | KickGroupMemberRequest | KickGroupMemberResponse
  | GetGroupInfoRequest | GetGroupInfoResponse | GroupChangedNotification
  | FetchGroupKeysRequest | FetchGroupKeysResponse
  | ReadCursorNotification
  | SetConversationPrefsRequest | SetConversationPrefsResponse | ConversationPrefsNotification
  | EditMessageRequest | EditMessageResponse | DeleteMessageRequest | DeleteMessageResponse

text \<open>The enumerators' values. A packet carries the 16-bit value itself: the decoder casts any
  value to the enumeration without a check.\<close>

primrec mt_code :: "message_type \<Rightarrow> 16 word" where
  "mt_code LoginRequest = 1" | "mt_code LoginResponse = 2" | "mt_code Ping = 3" | "mt_code Pong = 4"
| "mt_code ErrorPacket = 5" | "mt_code RegisterRequest = 10" | "mt_code RegisterResponse = 11"
| "mt_code LogoutRequest = 12" | "mt_code LogoutResponse = 13" | "mt_code TokenRenewRequest = 14"
| "mt_code TokenRenewResponse = 15" | "mt_code ForceLogoutRequest = 16"
| "mt_code ForceLogoutResponse = 17" | "mt_code SearchUsersRequest = 20"
| "mt_code SearchUsersResponse = 21" | "mt_code AddContactRequest = 22"
| "mt_code AddContactResponse = 23" | "mt_code GetContactsRequest = 24"
| "mt_code GetContactsResponse = 25" | "mt_code GetConversationsRequest = 30"
| "mt_code GetConversationsResponse = 31" | "mt_code SendMessageRequest = 32"
| "mt_code SendMessageResponse = 33" | "mt_code NewMessageNotification = 34"
| "mt_code AckMessageRequest = 35" | "mt_code AckMessageResponse = 36"
| "mt_code SyncMessagesRequest = 37" | "mt_code SyncMessagesResponse = 38"
| "mt_code MessageStatusUpdate = 39" | "mt_code SyncEventsRequest = 40"
| "mt_code SyncEventsResponse = 41" | "mt_code RegisterKeysRequest = 50"
| "mt_code RegisterKeysResponse = 51" | "mt_code FetchKeysRequest = 52"
| "mt_code FetchKeysResponse = 53" | "mt_code CreateGroupRequest = 60"
| "mt_code CreateGroupResponse = 61" | "mt_code InviteGroupMembersRequest = 62"
| "mt_code InviteGroupMembersResponse = 63" | "mt_code LeaveGroupRequest = 64"
| "mt_code LeaveGroupResponse = 65" | "mt_code KickGroupMemberRequest = 66"
| "mt_code KickGroupMemberResponse = 67" | "mt_code GetGroupInfoRequest = 68"
| "mt_code GetGroupInfoResponse = 69" | "mt_code GroupChangedNotification = 70"
| "mt_code FetchGroupKeysRequest = 71" | "mt_code FetchGroupKeysResponse = 72"
| "mt_code ReadCursorNotification = 80" | "mt_code SetConversationPrefsRequest = 81"
| "mt_code SetConversationPrefsResponse = 82" | "mt_code ConversationPrefsNotification = 83"
| "mt_code EditMessageRequest = 84" | "mt_code EditMessageResponse = 85"
| "mt_code DeleteMessageRequest = 86" | "mt_code DeleteMessageResponse = 87"

datatype error_code =
    Ok | InvalidRequest | UnsupportedVersion | ReplayRejected | RateLimited
  | AuthenticationFailed | AccountAlreadyExists | AccountNotFound | SessionExpired
  | SessionInvalid | LoginRateLimited | TooManyDevices
  | ContactAlreadyExists | ContactNotFound | ConversationNotFound | MessageNotFound
  | CannotSendToSelf | PermissionDenied | KeyBundleUnavailable | E2eeInvalidEnvelope
  | GroupLimitExceeded | MemberAlreadyExists | MemberNotFound | NotGroupOwner
  | Timeout | InternalError

primrec error_num :: "error_code \<Rightarrow> int" where
  "error_num Ok = 0" | "error_num InvalidRequest = 1000" | "error_num UnsupportedVersion = 1001"
| "error_num ReplayRejected = 1002" | "error_num RateLimited = 1003"
| "error_num AuthenticationFailed = 2001" | "error_num AccountAlreadyExists = 2002"
| "error_num AccountNotFound = 2003" | "error_num SessionExpired = 2004"
| "error_num SessionInvalid = 2005" | "error_num LoginRateLimited = 2006"
| "error_num TooManyDevices = 2007" | "error_num ContactAlreadyExists = 3001"
| "error_num ContactNotFound = 3002" | "error_num ConversationNotFound = 3003"
| "error_num MessageNotFound = 3004" | "error_num CannotSendToSelf = 3005"
| "error_num PermissionDenied = 3006" | "error_num KeyBundleUnavailable = 3007"
| "error_num E2eeInvalidEnvelope = 3008" | "error_num GroupLimitExceeded = 3009"
| "error_num MemberAlreadyExists = 3010" | "error_num MemberNotFound = 3011"
| "error_num NotGroupOwner = 3012" | "error_num Timeout = 9001" | "error_num InternalError = 9002"

record packet =
  pk_version :: "16 word"
  pk_type :: "16 word"
  pk_reqid :: "64 word"
  pk_payload :: bytes

text \<open>A packet the server builds: the struct's default version.\<close>

definition mk_packet :: "message_type \<Rightarrow> 64 word \<Rightarrow> bytes \<Rightarrow> packet" where
  "mk_packet mt rid pl = \<lparr>pk_version = CurrentVersion, pk_type = mt_code mt, pk_reqid = rid, pk_payload = pl\<rparr>"

section \<open>Big-endian integers (QDataStream)\<close>

fun be_nat :: "nat \<Rightarrow> nat \<Rightarrow> bytes" where
  "be_nat 0 n = []"
| "be_nat (Suc k) n = be_nat k (n div 256) @ [word_of_nat n]"

definition be_bytes :: "nat \<Rightarrow> 'a::len word \<Rightarrow> bytes" where
  "be_bytes k w = be_nat k (unat w)"

definition be_read :: "bytes \<Rightarrow> nat" where
  "be_read bs = foldl (\<lambda>a b. 256 * a + unat b) 0 bs"

lemma length_be_nat [simp]: "length (be_nat k n) = k"
  by (induction k arbitrary: n) auto

lemma length_be_bytes [simp]: "length (be_bytes k w) = k"
  by (simp add: be_bytes_def)

lemma be_read_be_nat: "be_read (be_nat k n) = n mod 256 ^ k"
proof (induction k arbitrary: n)
  case (Suc k)
  have "be_read (be_nat (Suc k) n) = 256 * (n div 256 mod 256 ^ k) + n mod 256"
    using Suc by (simp add: be_read_def unat_of_nat)
  also have "\<dots> = n mod (256 * 256 ^ k)"
    by (rule mod_mult2_eq [symmetric])
  finally show ?case by simp
qed (simp add: be_read_def)

lemma be_read_be_bytes:
  assumes "LENGTH('a::len) = 8 * k"
  shows "word_of_nat (be_read (be_bytes k (w :: 'a word))) = w"
proof -
  have "(256 :: nat) ^ k = 2 ^ LENGTH('a)"
    by (simp add: assms power_mult)
  moreover have "unat w < 2 ^ LENGTH('a)" by simp
  ultimately have "be_read (be_bytes k w) = unat w"
    by (simp add: be_bytes_def be_read_be_nat)
  then show ?thesis by simp
qed

section \<open>PacketCodec\<close>

definition encode :: "packet \<Rightarrow> bytes" where
  "encode p =
     (if length (pk_payload p) > unat MaxPayloadSize then []
      else be_bytes 4 Magic @ be_bytes 2 (pk_version p) @ be_bytes 2 (pk_type p)
           @ be_bytes 8 (pk_reqid p)
           @ be_bytes 4 (word_of_nat (length (pk_payload p)) :: 32 word) @ pk_payload p)"

datatype decode_status = NeedMoreData | PacketReady packet | InvalidData string

definition appendData :: "bytes \<Rightarrow> bytes \<Rightarrow> bytes" where
  "appendData buf d = buf @ d"

text \<open>\<open>nextPacket\<close> works on the buffer \<open>m_buffer\<close> and returns it updated. The sum of the
  header size and the declared length is a quint32.\<close>

definition nextPacket :: "bytes \<Rightarrow> decode_status \<times> bytes" where
  "nextPacket buf =
     (if length buf < unat HeaderSize then (NeedMoreData, buf)
      else
        let magic = (word_of_nat (be_read (take 4 buf)) :: 32 word);
            version = (word_of_nat (be_read (take 2 (drop 4 buf))) :: 16 word);
            messageType = (word_of_nat (be_read (take 2 (drop 6 buf))) :: 16 word);
            requestId = (word_of_nat (be_read (take 8 (drop 8 buf))) :: 64 word);
            payloadLength = (word_of_nat (be_read (take 4 (drop 16 buf))) :: 32 word)
        in if magic \<noteq> Magic then (InvalidData ''Invalid packet magic'', [])
           else if version \<noteq> CurrentVersion then (InvalidData ''Unsupported protocol version'', [])
           else if payloadLength > MaxPayloadSize then (InvalidData ''Payload too large'', [])
           else
             let packetLength = unat (HeaderSize + payloadLength)
             in if length buf < packetLength then (NeedMoreData, buf)
                else (PacketReady \<lparr>pk_version = version, pk_type = messageType, pk_reqid = requestId,
                        pk_payload = take (unat payloadLength) (drop (unat HeaderSize) buf)\<rparr>,
                      drop packetLength buf))"

definition codec_reset :: "bytes \<Rightarrow> bytes" where
  "codec_reset buf = []"

definition bufferedSize :: "bytes \<Rightarrow> nat" where
  "bufferedSize buf = length buf"

text \<open>Named sizes evaluate.\<close>

lemma size_consts [simp]:
  "unat HeaderSize = 20" "unat MaxPayloadSize = 4194304"
  by (simp_all add: HeaderSize_def MaxPayloadSize_def)

lemma packet_length:
  assumes "(n :: 32 word) \<le> MaxPayloadSize"
  shows "unat (HeaderSize + n) = 20 + unat n"
proof -
  have "unat n \<le> 4194304"
    using assms by (simp add: word_le_nat_alt)
  then show ?thesis
    by (simp add: unat_word_ariths HeaderSize_def)
qed

text \<open>What a ready packet consumed: at least a header.\<close>

lemma nextPacket_ready_length:
  assumes "nextPacket buf = (PacketReady p, rest)"
  shows "length buf = 20 + length (pk_payload p) + length rest"
proof -
  let ?n = "word_of_nat (be_read (take 4 (drop 16 buf))) :: 32 word"
  from assms have n: "?n \<le> MaxPayloadSize" and len: "unat (HeaderSize + ?n) \<le> length buf"
    and rest: "rest = drop (unat (HeaderSize + ?n)) buf"
    and p: "pk_payload p = take (unat ?n) (drop 20 buf)"
    by (auto simp: nextPacket_def Let_def split: if_splits)
  from n have "unat (HeaderSize + ?n) = 20 + unat ?n" by (rule packet_length)
  with len rest p show ?thesis by simp
qed

text \<open>The decoder gives back what the encoder wrote and leaves the rest of the stream.\<close>

lemma nextPacket_encode:
  assumes "length (pk_payload p) \<le> unat MaxPayloadSize" and "pk_version p = CurrentVersion"
  shows "nextPacket (encode p @ rest) = (PacketReady (p\<lparr>pk_version := pk_version p\<rparr>), rest)"
proof -
  let ?n = "word_of_nat (length (pk_payload p)) :: 32 word"
  have n: "unat ?n = length (pk_payload p)"
    using assms(1) by (simp add: unat_of_nat)
  then have le: "?n \<le> MaxPayloadSize"
    using assms(1) by (simp add: word_le_nat_alt)
  have w: "word_of_nat (be_read (be_bytes 4 Magic)) = Magic"
    "word_of_nat (be_read (be_bytes 2 (pk_version p))) = pk_version p"
    "word_of_nat (be_read (be_bytes 2 (pk_type p))) = pk_type p"
    "word_of_nat (be_read (be_bytes 8 (pk_reqid p))) = pk_reqid p"
    "word_of_nat (be_read (be_bytes 4 ?n)) = ?n"
    by (rule be_read_be_bytes, simp)+
  show ?thesis
    using assms le w(2)
    by (simp add: nextPacket_def encode_def Let_def w n packet_length not_less)
qed

lemma nextPacket_encode':
  assumes "length (pk_payload p) \<le> unat MaxPayloadSize" and "pk_version p = CurrentVersion"
  shows "nextPacket (encode p @ rest) = (PacketReady p, rest)"
  using nextPacket_encode [OF assms] by simp

text \<open>More input never changes a packet that is already complete, nor a refusal.\<close>

lemma nextPacket_mono:
  assumes "nextPacket buf = (PacketReady p, rest)"
  shows "nextPacket (buf @ sfx) = (PacketReady p, rest @ sfx)"
proof -
  let ?n = "word_of_nat (be_read (take 4 (drop 16 buf))) :: 32 word"
  from assms have n: "?n \<le> MaxPayloadSize" and len: "unat (HeaderSize + ?n) \<le> length buf"
    by (auto simp: nextPacket_def Let_def split: if_splits)
  note pl = packet_length [OF n]
  show ?thesis
    using assms n len pl by (auto simp: nextPacket_def Let_def split: if_splits)
qed

lemma nextPacket_mono_invalid:
  assumes "nextPacket buf = (InvalidData e, rest)"
  shows "nextPacket (buf @ sfx) = (InvalidData e, [])"
  using assms by (auto simp: nextPacket_def Let_def split: if_splits)

lemma nextPacket_need: "nextPacket buf = (NeedMoreData, rest) \<Longrightarrow> rest = buf"
  by (auto simp: nextPacket_def Let_def split: if_splits)

section \<open>The receive loop\<close>

text \<open>
  \<open>onReadyRead\<close> appends what the socket has and takes packets until the buffer holds no whole one
  (\<open>NeedMoreData\<close>: the loop ends, the rest stays buffered) or the data is invalid (the
  connection is closed). \<open>drain\<close> is that loop: the packets it hands on, the error if there
  was one, and the buffer left.
\<close>

function drain :: "bytes \<Rightarrow> packet list \<times> string option \<times> bytes" where
  "drain buf =
     (case nextPacket buf of
        (NeedMoreData, b) \<Rightarrow> ([], None, b)
      | (InvalidData e, b) \<Rightarrow> ([], Some e, b)
      | (PacketReady p, b) \<Rightarrow> (let (ps, e, b') = drain b in (p # ps, e, b')))"
  by pat_completeness auto
termination
  by (relation "measure length") (auto dest!: nextPacket_ready_length [OF sym])

declare drain.simps [simp del]

text \<open>A connection fed chunk after chunk: after an error it is closed and reads nothing more.\<close>

fun receive :: "bytes \<Rightarrow> bytes list \<Rightarrow> packet list \<times> string option \<times> bytes" where
  "receive buf [] = ([], None, buf)"
| "receive buf (c # cs) =
     (case drain (appendData buf c) of
        (ps, Some e, b) \<Rightarrow> (ps, Some e, b)
      | (ps, None, b) \<Rightarrow> (let (qs, e, b') = receive b cs in (ps @ qs, e, b')))"

lemma drain_append:
  "drain (buf @ sfx) =
     (case drain buf of
        (ps, Some e, b) \<Rightarrow> (ps, Some e, [])
      | (ps, None, b) \<Rightarrow> (let (qs, e, b') = drain (b @ sfx) in (ps @ qs, e, b')))"
proof (induction buf rule: drain.induct)
  case (1 buf)
  show ?case
  proof (cases "nextPacket buf")
    case (Pair st b)
    show ?thesis
    proof (cases st)
      case NeedMoreData
      with Pair nextPacket_need [of buf b] have "drain buf = ([], None, buf)"
        by (simp add: drain.simps [of buf])
      then show ?thesis by (simp split: prod.splits)
    next
      case (InvalidData e)
      with Pair have "drain buf = ([], Some e, b)"
        by (simp add: drain.simps [of buf])
      moreover have "drain (buf @ sfx) = ([], Some e, [])"
        using nextPacket_mono_invalid [of buf e b sfx] Pair InvalidData
        by (simp add: drain.simps [of "buf @ sfx"])
      ultimately show ?thesis by simp
    next
      case (PacketReady p)
      note IH = "1.IH" [OF Pair [symmetric] PacketReady]
      have "nextPacket (buf @ sfx) = (PacketReady p, b @ sfx)"
        using nextPacket_mono Pair PacketReady by simp
      then show ?thesis
        using IH Pair PacketReady
        by (simp add: drain.simps [of buf] drain.simps [of "buf @ sfx"]
              split: prod.splits option.splits)
    qed
  qed
qed

lemma drain_invalid_clears: "drain buf = (ps, Some e, b) \<Longrightarrow> b = []"
  using drain_append [of buf "[]"] by auto

lemma drain_idle:
  assumes "drain buf = (ps, None, b)"
  shows "drain b = ([], None, b)"
  using assms
proof (induction buf arbitrary: ps b rule: drain.induct)
  case (1 buf)
  obtain st r where n: "nextPacket buf = (st, r)" by force
  show ?case
  proof (cases st)
    case NeedMoreData
    then have "r = buf" using n nextPacket_need by simp
    then show ?thesis
      using n NeedMoreData "1.prems" by (auto simp: drain.simps [of buf] drain.simps [of b])
  next
    case (PacketReady p)
    then obtain qs e b' where d: "drain r = (qs, e, b')" by (cases "drain r") blast
    then have "drain r = (qs, None, b)"
      using n PacketReady "1.prems" by (simp add: drain.simps [of buf])
    then show ?thesis by (rule "1.IH" [OF n [symmetric] PacketReady])
  qed (use n "1.prems" in \<open>simp add: drain.simps [of buf]\<close>)
qed

text \<open>Cutting the stream into chunks makes no difference.\<close>

lemma receive_drain:
  assumes "drain buf = ([], None, buf)"
  shows "receive buf cs = drain (buf @ concat cs)"
  using assms
proof (induction cs arbitrary: buf)
  case (Cons c cs)
  show ?case
  proof (cases "drain (buf @ c)")
    case (fields ps e b)
    show ?thesis
    proof (cases e)
      case None
      with fields have idle: "drain b = ([], None, b)" using drain_idle by blast
      show ?thesis
        using fields None Cons.IH [OF idle] drain_append [of "buf @ c" "concat cs"]
        by (simp add: appendData_def)
    next
      case (Some e')
      with fields drain_invalid_clears have "b = []" by blast
      then show ?thesis
        using fields Some drain_append [of "buf @ c" "concat cs"] by (simp add: appendData_def)
    qed
  qed
qed simp

lemma drain_encodes:
  assumes "\<forall>p\<in>set ps. length (pk_payload p) \<le> unat MaxPayloadSize \<and> pk_version p = CurrentVersion"
  shows "drain (concat (map encode ps)) = (ps, None, [])"
  using assms
proof (induction ps)
  case Nil
  have "nextPacket [] = (NeedMoreData, [])" by (simp add: nextPacket_def)
  then show ?case by (simp add: drain.simps)
next
  case (Cons p ps)
  then have "nextPacket (encode p @ concat (map encode ps)) = (PacketReady p, concat (map encode ps))"
    by (intro nextPacket_encode') auto
  with Cons show ?case by (simp add: drain.simps [of "encode p @ _"])
qed

lemma drain_empty: "drain [] = ([], None, [])"
  using drain_encodes [of "[]"] by simp

text \<open>What stays buffered is less than one packet.\<close>

lemma idle_bounded:
  assumes "drain b = ([], None, b)"
  shows "length b < unat HeaderSize + unat MaxPayloadSize"
proof -
  obtain st r where n: "nextPacket b = (st, r)" by force
  have "st = NeedMoreData"
    using assms n by (cases st) (auto simp: drain.simps [of b] split: prod.splits)
  with n have "nextPacket b = (NeedMoreData, r)" by simp
  then show ?thesis
    using packet_length by (auto simp: nextPacket_def Let_def word_le_nat_alt not_less split: if_splits)
qed

section \<open>Properties\<close>

text \<open>
  C2: a stream of encoded packets, cut into chunks in any way, is received as exactly these packets
  in their order, without an error and with nothing left in the buffer.
\<close>

theorem stream_roundtrip:
  assumes "\<forall>p\<in>set ps. length (pk_payload p) \<le> unat MaxPayloadSize \<and> pk_version p = CurrentVersion"
    and "concat chunks = concat (map encode ps)"
  shows "receive [] chunks = (ps, None, [])"
  using receive_drain [OF drain_empty] drain_encodes assms by simp

theorem stream_roundtrip_witness:
  "receive [] [take 5 (encode (mk_packet Ping 7 [1, 2])), drop 5 (encode (mk_packet Ping 7 [1, 2]))]
   = ([mk_packet Ping 7 [1, 2]], None, [])"
  by (rule stream_roundtrip) (simp_all add: mk_packet_def)

text \<open>
  C3: whatever bytes arrive and however they are cut into chunks, the receive loop gives the same
  packets and the same error as on the whole stream at once, and as long as there is no error it
  never keeps a whole packet: fewer bytes than a header and the largest payload stay buffered.
\<close>

theorem receive_any_chunking:
  "receive [] chunks = drain (concat chunks)
   \<and> (case receive [] chunks of
        (ps, None, b) \<Rightarrow> bufferedSize b < unat HeaderSize + unat MaxPayloadSize
      | (ps, Some e, b) \<Rightarrow> b = [])"
proof -
  have r: "receive [] chunks = drain (concat chunks)"
    using receive_drain [OF drain_empty, of chunks] by simp
  have "bufferedSize b < unat HeaderSize + unat MaxPayloadSize"
    if "drain (concat chunks) = (ps, None, b)" for ps b
    using idle_bounded [OF drain_idle [OF that]] by (simp add: bufferedSize_def)
  then show ?thesis
    unfolding r by (auto split: prod.splits option.splits dest: drain_invalid_clears)
qed

end
