(* ===== verification/Rate_Window.thy ===== *)
theory Rate_Window
  imports XY_Prelude
begin

text \<open>
  The fixed-window limiter of Chat-Server/core/RateWindow.h, and the contract of a window
  limiter as a locale: what one decision does to the window, and what follows for a whole run of
  requests. The limiter of the code is an interpretation of it.
\<close>

section \<open>The class RateWindow\<close>

record rate_window =
  rw_maxCount :: int
  rw_windowSeconds :: int
  rw_windowStart :: time
  rw_count :: int
  rw_initialized :: bool

definition new_window :: "int \<Rightarrow> int \<Rightarrow> rate_window" where
  "new_window m s = \<lparr>rw_maxCount = m, rw_windowSeconds = s, rw_windowStart = 0, rw_count = 0,
     rw_initialized = False\<rparr>"

definition allow :: "time \<Rightarrow> rate_window \<Rightarrow> bool \<times> rate_window" where
  "allow nowSecs w =
     (let w1 = (if \<not> rw_initialized w \<or> nowSecs - rw_windowStart w \<ge> rw_windowSeconds w
                then w\<lparr>rw_windowStart := nowSecs, rw_count := 0, rw_initialized := True\<rparr> else w)
      in if rw_count w1 \<ge> rw_maxCount w1 then (False, w1)
         else (True, w1\<lparr>rw_count := rw_count w1 + 1\<rparr>))"

definition window_reset :: "rate_window \<Rightarrow> rate_window" where
  "window_reset w = w\<lparr>rw_windowStart := 0, rw_count := 0, rw_initialized := False\<rparr>"

text \<open>A connection's requests at the given times: the decisions, in order.\<close>

fun allow_run :: "time list \<Rightarrow> rate_window \<Rightarrow> bool list \<times> rate_window" where
  "allow_run [] w = ([], w)"
| "allow_run (t # ts) w =
     (let (b, w1) = allow t w; (bs, w2) = allow_run ts w1 in (b # bs, w2))"

section \<open>The contract of a window limiter\<close>

text \<open>
  \<open>live t s\<close>: the current window of \<open>s\<close> covers time \<open>t\<close>. Inside it a decision is
  positive while the quota lasts and costs one; outside it a new window opens at \<open>t\<close>.
\<close>

locale window_limiter =
  fixes decide :: "time \<Rightarrow> 's \<Rightarrow> bool \<times> 's"
    and live :: "time \<Rightarrow> 's \<Rightarrow> bool"
    and quota :: "'s \<Rightarrow> int"
    and width :: "'s \<Rightarrow> int"
    and used :: "'s \<Rightarrow> int"
    and opened :: "'s \<Rightarrow> time"
  assumes quota_decide: "quota (snd (decide t s)) = quota s"
    and width_decide: "width (snd (decide t s)) = width s"
    and live_yes: "live t s \<Longrightarrow> fst (decide t s) = (used s < quota s)"
    and live_used: "live t s \<Longrightarrow> used (snd (decide t s)) = (if used s < quota s then used s + 1 else used s)"
    and live_live: "live t s \<Longrightarrow> live u (snd (decide t s)) = live u s"
    and dead_yes: "\<not> live t s \<Longrightarrow> fst (decide t s) = (0 < quota s)"
    and dead_used: "\<not> live t s \<Longrightarrow> used (snd (decide t s)) = (if 0 < quota s then 1 else 0)"
    and dead_live: "\<not> live t s \<Longrightarrow> live u (snd (decide t s)) = (u - t < width s)"
begin

fun run :: "time list \<Rightarrow> 's \<Rightarrow> bool list" where
  "run [] s = []"
| "run (t # ts) s = fst (decide t s) # run ts (snd (decide t s))"

abbreviation granted :: "bool list \<Rightarrow> int" where
  "granted bs \<equiv> int (length (filter (\<lambda>b. b) bs))"

text \<open>Inside one window no more than what is left of the quota is granted.\<close>

lemma granted_live:
  assumes "\<forall>t\<in>set ts. live t s" and "used s \<le> quota s"
  shows "granted (run ts s) \<le> quota s - used s"
  using assms
proof (induction ts arbitrary: s)
  case (Cons t ts)
  let ?s = "snd (decide t s)"
  have t: "live t s" using Cons.prems by simp
  have "granted (run ts ?s) \<le> quota ?s - used ?s"
    using Cons.prems t by (intro Cons.IH) (auto simp: live_live live_used quota_decide)
  then show ?case
    using t by (auto simp: live_yes live_used quota_decide)
qed simp

text \<open>Over any interval shorter than the window, at most two windows grant: twice the quota.\<close>

lemma granted_interval:
  assumes "\<forall>t\<in>set ts. a \<le> t \<and> t < a + width s"
    and "0 \<le> used s" "used s \<le> quota s" "0 \<le> quota s"
  shows "granted (run ts s) \<le> 2 * quota s - used s"
  using assms
proof (induction ts arbitrary: s)
  case (Cons t ts)
  let ?s = "snd (decide t s)"
  show ?case
  proof (cases "live t s")
    case True
    then have "granted (run ts ?s) \<le> 2 * quota ?s - used ?s"
      using Cons.prems by (intro Cons.IH) (auto simp: live_used quota_decide width_decide)
    with True show ?thesis
      by (auto simp: live_yes live_used quota_decide)
  next
    case False
    have "granted (run ts ?s) \<le> quota ?s - used ?s"
      using Cons.prems False by (intro granted_live) (auto simp: dead_live dead_used quota_decide)
    with False Cons.prems show ?thesis
      by (auto simp: dead_yes dead_used quota_decide)
  qed
qed simp

end

section \<open>RateWindow satisfies it\<close>

definition window_live :: "time \<Rightarrow> rate_window \<Rightarrow> bool" where
  "window_live t w \<longleftrightarrow> rw_initialized w \<and> t - rw_windowStart w < rw_windowSeconds w"

definition window_ok :: "rate_window \<Rightarrow> bool" where
  "window_ok w \<longleftrightarrow> 0 \<le> rw_count w \<and> rw_count w \<le> rw_maxCount w"

interpretation rw: window_limiter allow window_live rw_maxCount rw_windowSeconds rw_count rw_windowStart
  by unfold_locales (auto simp: allow_def window_live_def Let_def)

lemma allow_run_decisions: "fst (allow_run ts w) = rw.run ts w"
  by (induction ts arbitrary: w) (auto simp: split_beta Let_def)

lemma allow_ok: "window_ok w \<Longrightarrow> window_ok (snd (allow t w))"
  by (auto simp: window_ok_def allow_def Let_def)

lemma allow_keeps_limits:
  "rw_maxCount (snd (allow t w)) = rw_maxCount w"
  "rw_windowSeconds (snd (allow t w)) = rw_windowSeconds w"
  by (simp_all add: allow_def Let_def)

lemma new_window_ok: "0 \<le> m \<Longrightarrow> window_ok (new_window m s)"
  by (simp add: window_ok_def new_window_def)

lemma window_reset_ok: "0 \<le> rw_maxCount w \<Longrightarrow> window_ok (window_reset w)"
  by (simp add: window_ok_def window_reset_def)

lemma allow_run_ok: "window_ok w \<Longrightarrow> window_ok (snd (allow_run ts w))"
  by (induction ts arbitrary: w) (auto simp: split_beta Let_def dest: allow_ok)

lemma allow_run_limits:
  "rw_maxCount (snd (allow_run ts w)) = rw_maxCount w"
  "rw_windowSeconds (snd (allow_run ts w)) = rw_windowSeconds w"
  by (induction ts arbitrary: w) (auto simp: split_beta Let_def allow_keeps_limits)

section \<open>Properties\<close>

text \<open>
  C11: a connection's limiter never lets more than its quota through in one window, and never more
  than twice the quota in any interval as long as a window, whatever the request times are.
\<close>

theorem rate_window_bound:
  assumes "window_ok w" and "\<forall>t\<in>set ts. a \<le> t \<and> t < a + rw_windowSeconds w"
  shows "int (length (filter (\<lambda>b. b) (fst (allow_run ts w)))) \<le> 2 * rw_maxCount w
    \<and> ((\<forall>t\<in>set ts. window_live t w)
       \<longrightarrow> int (length (filter (\<lambda>b. b) (fst (allow_run ts w)))) \<le> rw_maxCount w - rw_count w)"
  using rw.granted_interval [of ts a w] rw.granted_live [of ts w] assms
  by (auto simp: allow_run_decisions window_ok_def)

theorem rate_window_bound_witness:
  "int (length (filter (\<lambda>b. b) (fst (allow_run [100, 105, 109] (new_window 2 10))))) \<le> 2 * 2"
  using rate_window_bound [of "new_window 2 10" "[100, 105, 109]" 100]
  by (simp add: window_ok_def new_window_def)

end
