(* ===== verification/Nonce_Cache.thy ===== *)
theory Nonce_Cache
  imports XY_Prelude
begin

text \<open>
  The process-wide replay cache of Chat-Server/core/NonceCache.cpp, and the contract a replay
  cache gives its clients as a locale: a nonce that was registered stays refused for the whole
  lifetime of its entry, as long as the cache is not crowded. The mutex makes each operation
  atomic, so an operation is one function of the state.
\<close>

section \<open>The class NonceCache\<close>

text \<open>The hash table is a list of entries with distinct keys; its order is never observed.\<close>

record nonce_cache =
  nc_nonces :: "(string \<times> time) list"
  nc_ttlSeconds :: int
  nc_maxEntries :: int

definition new_nonce_cache :: "int \<Rightarrow> int \<Rightarrow> nonce_cache" where
  "new_nonce_cache ttl m = \<lparr>nc_nonces = [], nc_ttlSeconds = ttl, nc_maxEntries = m\<rparr>"

text \<open>The default arguments of the constructor, the ones the server uses.\<close>

definition server_nonce_cache :: nonce_cache where
  "server_nonce_cache = new_nonce_cache 600 100000"

definition drop_expired :: "time \<Rightarrow> int \<Rightarrow> (string \<times> time) list \<Rightarrow> (string \<times> time) list" where
  "drop_expired now ttl es = delete_where (\<lambda>(n, t). now - t > ttl) es"

definition lazy_clean :: "time \<Rightarrow> nonce_cache \<Rightarrow> (string \<times> time) list" where
  "lazy_clean now c =
     (if int (length (nc_nonces c)) > nc_maxEntries c div 2
      then drop_expired now (nc_ttlSeconds c) (nc_nonces c) else nc_nonces c)"

definition put_nonce :: "string \<Rightarrow> time \<Rightarrow> (string \<times> time) list \<Rightarrow> (string \<times> time) list" where
  "put_nonce n t es = (n, t) # delete_where (\<lambda>(m, _). m = n) es"

definition checkAndInsert :: "string \<Rightarrow> time \<Rightarrow> nonce_cache \<Rightarrow> bool \<times> nonce_cache" where
  "checkAndInsert nonce now c =
     (if nonce = [] then (False, c)
      else
        let es1 = lazy_clean now c;
            seen = (case map_of es1 nonce of None \<Rightarrow> False | Some t \<Rightarrow> now - t \<le> nc_ttlSeconds c)
        in if seen then (False, c\<lparr>nc_nonces := es1\<rparr>)
           else
             let cutoff = now - nc_ttlSeconds c div 2;
                 es2 = (if int (length es1) \<ge> nc_maxEntries c
                        then delete_where (\<lambda>(n, t). t < cutoff) es1 else es1)
             in (True, c\<lparr>nc_nonces := put_nonce nonce now es2\<rparr>))"

definition purgeExpired :: "time \<Rightarrow> nonce_cache \<Rightarrow> nonce_cache" where
  "purgeExpired now c = c\<lparr>nc_nonces := drop_expired now (nc_ttlSeconds c) (nc_nonces c)\<rparr>"

definition nonce_cache_size :: "nonce_cache \<Rightarrow> nat" where
  "nonce_cache_size c = length (nc_nonces c)"

text \<open>The hard limit is reached even after the lazy cleaning.\<close>

definition crowded :: "time \<Rightarrow> nonce_cache \<Rightarrow> bool" where
  "crowded now c \<longleftrightarrow> int (length (lazy_clean now c)) \<ge> nc_maxEntries c"

definition knows :: "nonce_cache \<Rightarrow> string \<Rightarrow> time \<Rightarrow> bool" where
  "knows c n t \<longleftrightarrow> n \<noteq> [] \<and> map_of (nc_nonces c) n = Some t"

section \<open>The contract of a replay cache\<close>

locale replay_cache =
  fixes check :: "string \<Rightarrow> time \<Rightarrow> 'c \<Rightarrow> bool \<times> 'c"
    and recorded :: "'c \<Rightarrow> string \<Rightarrow> time \<Rightarrow> bool"
    and full :: "time \<Rightarrow> 'c \<Rightarrow> bool"
    and ttl :: "'c \<Rightarrow> int"
  assumes ttl_check: "ttl (snd (check n t c)) = ttl c"
    and accept_records: "fst (check n t c) \<Longrightarrow> recorded (snd (check n t c)) n t"
    and recorded_refused: "recorded c n t0 \<Longrightarrow> t - t0 \<le> ttl c \<Longrightarrow> \<not> fst (check n t c)"
    and recorded_kept: "recorded c n t0 \<Longrightarrow> t - t0 \<le> ttl c \<Longrightarrow> \<not> full t c
          \<Longrightarrow> recorded (snd (check m t c)) n t0"
begin

text \<open>A run of checks, each with its nonce and its time; \<open>calm\<close>: never full on the way.\<close>

fun checks :: "(string \<times> time) list \<Rightarrow> 'c \<Rightarrow> 'c" where
  "checks [] c = c"
| "checks ((n, t) # xs) c = checks xs (snd (check n t c))"

fun calm :: "(string \<times> time) list \<Rightarrow> 'c \<Rightarrow> bool" where
  "calm [] c \<longleftrightarrow> True"
| "calm ((n, t) # xs) c \<longleftrightarrow> \<not> full t c \<and> calm xs (snd (check n t c))"

lemma recorded_run:
  assumes "recorded c n t0" and "\<forall>(m, t)\<in>set xs. t - t0 \<le> ttl c" and "calm xs c"
  shows "recorded (checks xs c) n t0 \<and> ttl (checks xs c) = ttl c"
  using assms
  by (induction xs c rule: checks.induct) (auto simp: ttl_check intro: recorded_kept)

text \<open>An accepted nonce is refused ever after, within the lifetime of its entry.\<close>

lemma accepted_then_refused:
  assumes "fst (check n t0 c)" and "\<forall>(m, t)\<in>set xs. t - t0 \<le> ttl c"
    and "calm xs (snd (check n t0 c))" and "t1 - t0 \<le> ttl c"
  shows "\<not> fst (check n t1 (checks xs (snd (check n t0 c))))"
proof -
  have "recorded (checks xs (snd (check n t0 c))) n t0 \<and> ttl (checks xs (snd (check n t0 c))) = ttl c"
    using recorded_run [OF accept_records [OF assms(1)], of xs] assms(2,3) by (simp add: ttl_check)
  with assms(4) show ?thesis by (auto dest: recorded_refused)
qed

end

section \<open>NonceCache satisfies it\<close>

lemma map_of_delete_where_keep:
  "map_of es n = Some t \<Longrightarrow> \<not> P (n, t) \<Longrightarrow> map_of (delete_where P es) n = Some t"
  by (induction es) (auto split: if_splits)

lemma map_of_delete_where:
  "distinct (map fst es) \<Longrightarrow> map_of (delete_where P es) n
    = (case map_of es n of None \<Rightarrow> None | Some u \<Rightarrow> if P (n, u) then None else Some u)"
proof (induction es)
  case (Cons e es)
  then have "map_of es (fst e) = None" by (simp add: map_of_eq_None_iff)
  with Cons show ?case by (cases e) (auto split: option.splits)
qed simp

lemma map_of_delete_where_key:
  "map_of (delete_where (\<lambda>(m, _). m = k) es) n = (if n = k then None else map_of es n)"
  by (induction es) auto

lemma map_of_put_nonce: "map_of (put_nonce k t es) n = (if n = k then Some t else map_of es n)"
  by (simp add: put_nonce_def map_of_delete_where_key)

lemma lazy_clean_keeps:
  "map_of (nc_nonces c) n = Some t0 \<Longrightarrow> now - t0 \<le> nc_ttlSeconds c
   \<Longrightarrow> map_of (lazy_clean now c) n = Some t0"
  by (auto simp: lazy_clean_def drop_expired_def intro: map_of_delete_where_keep)

interpretation nc: replay_cache checkAndInsert knows crowded nc_ttlSeconds
proof unfold_locales
  fix n m :: string and t t0 :: time and c :: nonce_cache
  show "nc_ttlSeconds (snd (checkAndInsert n t c)) = nc_ttlSeconds c"
    by (simp add: checkAndInsert_def Let_def)
  show "fst (checkAndInsert n t c) \<Longrightarrow> knows (snd (checkAndInsert n t c)) n t"
    by (auto simp: checkAndInsert_def Let_def knows_def map_of_put_nonce split: if_splits)
  show "knows c n t0 \<Longrightarrow> t - t0 \<le> nc_ttlSeconds c \<Longrightarrow> \<not> fst (checkAndInsert n t c)"
    by (auto simp: checkAndInsert_def Let_def knows_def dest: lazy_clean_keeps)
  assume k: "knows c n t0" "t - t0 \<le> nc_ttlSeconds c" and nf: "\<not> crowded t c"
  then have keep: "map_of (lazy_clean t c) n = Some t0"
    by (auto simp: knows_def intro: lazy_clean_keeps)
  with k nf show "knows (snd (checkAndInsert m t c)) n t0"
    by (auto simp: checkAndInsert_def Let_def knows_def crowded_def map_of_put_nonce)
qed

text \<open>Entries have distinct keys, so the list is the hash table.\<close>

definition nonces_ok :: "nonce_cache \<Rightarrow> bool" where
  "nonces_ok c \<longleftrightarrow> distinct (map fst (nc_nonces c))"

lemma put_nonce_distinct:
  "distinct (map fst es) \<Longrightarrow> distinct (map fst (put_nonce n t es))"
  by (auto simp: put_nonce_def distinct_map_delete_where)

lemma checkAndInsert_ok: "nonces_ok c \<Longrightarrow> nonces_ok (snd (checkAndInsert n t c))"
  by (auto simp: nonces_ok_def checkAndInsert_def Let_def lazy_clean_def drop_expired_def
      intro!: put_nonce_distinct distinct_map_delete_where)

lemma purgeExpired_ok: "nonces_ok c \<Longrightarrow> nonces_ok (purgeExpired t c)"
  by (auto simp: nonces_ok_def purgeExpired_def drop_expired_def distinct_map_delete_where)

lemma length_delete_where: "length (delete_where P xs) \<le> length xs"
  by (simp add: delete_where_def)

lemma put_nonce_length: "length (put_nonce n t es) \<le> Suc (length es)"
  by (simp add: put_nonce_def length_delete_where)

lemma lazy_clean_length: "length (lazy_clean t c) \<le> length (nc_nonces c)"
  by (simp add: lazy_clean_def drop_expired_def length_delete_where)

lemma checkAndInsert_size:
  "length (nc_nonces (snd (checkAndInsert n t c))) \<le> Suc (length (nc_nonces c))"
  using lazy_clean_length [of t c]
    order_trans [OF put_nonce_length [of n t "lazy_clean t c"]]
    order_trans [OF put_nonce_length
      [of n t "delete_where (\<lambda>(n, u). u < t - nc_ttlSeconds c div 2) (lazy_clean t c)"]]
    length_delete_where [of "\<lambda>(n, u). u < t - nc_ttlSeconds c div 2" "lazy_clean t c"]
  by (auto simp: checkAndInsert_def Let_def)

section \<open>Properties\<close>

text \<open>
  C10: a nonce the cache accepted is refused at every later check within the lifetime of its entry,
  whatever other nonces are checked in between, unless the hard limit of entries was reached.
\<close>

theorem nonce_accepted_once:
  assumes "fst (checkAndInsert n t0 c)"
    and "\<forall>(m, t)\<in>set xs. t - t0 \<le> nc_ttlSeconds c"
    and "nc.calm xs (snd (checkAndInsert n t0 c))"
    and "t1 - t0 \<le> nc_ttlSeconds c"
  shows "\<not> fst (checkAndInsert n t1 (nc.checks xs (snd (checkAndInsert n t0 c))))"
  using assms by (rule nc.accepted_then_refused)

theorem nonce_accepted_once_witness:
  "\<not> fst (checkAndInsert ''n1'' 700
     (nc.checks [(''n2'', 200)] (snd (checkAndInsert ''n1'' 100 server_nonce_cache))))"
  by (rule nonce_accepted_once)
    (simp_all add: checkAndInsert_def server_nonce_cache_def new_nonce_cache_def lazy_clean_def
      crowded_def put_nonce_def)

text \<open>
  The hard limit gives entries up early. At the limit, an accepted check drops entries that are
  older than half the lifetime, so the nonce of one of them is accepted again although its lifetime
  has not ended.
\<close>

lemma nonce_limit_forgets:
  assumes "int (length (lazy_clean t c)) \<ge> nc_maxEntries c" and "t - nc_ttlSeconds c div 2 > t0"
    and "nonces_ok c" "knows c n t0" "fst (checkAndInsert m t c)" "m \<noteq> n"
  shows "fst (checkAndInsert n t (snd (checkAndInsert m t c)))"
proof -
  let ?old = "\<lambda>(k, u). u < t - nc_ttlSeconds c div 2"
  have d: "distinct (map fst (lazy_clean t c))"
    using assms(3) by (simp add: nonces_ok_def lazy_clean_def drop_expired_def distinct_map_delete_where)
  have "map_of (lazy_clean t c) n = Some t0 \<or> map_of (lazy_clean t c) n = None"
  proof -
    have "map_of (nc_nonces c) n = Some t0" "distinct (map fst (nc_nonces c))"
      using assms(3,4) unfolding knows_def nonces_ok_def by blast+
    then show ?thesis
      unfolding lazy_clean_def drop_expired_def by (auto simp only: map_of_delete_where split: if_splits option.splits)
  qed
  then have g: "map_of (delete_where ?old (lazy_clean t c)) n = None"
    using assms(2) by (auto simp: map_of_delete_where [OF d])
  have s: "snd (checkAndInsert m t c)
      = c\<lparr>nc_nonces := put_nonce m t (delete_where ?old (lazy_clean t c))\<rparr>"
    using assms(1,5) by (auto simp: checkAndInsert_def Let_def split: if_splits)
  have "map_of (put_nonce m t (delete_where ?old (lazy_clean t c))) n = None"
    using g assms(6) by (simp add: map_of_put_nonce)
  then have "map_of (lazy_clean t (snd (checkAndInsert m t c))) n = None"
    unfolding s lazy_clean_def drop_expired_def by (auto simp: map_of_eq_None_iff image_iff)
  then show ?thesis
    using assms(4) by (auto simp: checkAndInsert_def [of n] Let_def knows_def)
qed

lemma nonce_limit_forgets_witness:
  "fst (checkAndInsert ''n1'' 200 (snd (checkAndInsert ''n2'' 200
     \<lparr>nc_nonces = [(''n1'', 100)], nc_ttlSeconds = 100, nc_maxEntries = 1\<rparr>)))"
  using nonce_limit_forgets [of "\<lparr>nc_nonces = [(''n1'', 100)], nc_ttlSeconds = 100, nc_maxEntries = 1\<rparr>"
      200 100 "''n1''" "''n2''"]
  by (simp add: lazy_clean_def nonces_ok_def knows_def checkAndInsert_def put_nonce_def
      drop_expired_def)

end
