(* ===== verification/Log_Sanitizer.thy ===== *)
theory Log_Sanitizer
  imports Qt_Text
begin

text \<open>
  CommonModule/security: the masking functions of LogSanitizer.cpp and the structured log record of
  StructuredLogger.cpp. The lemmas say what a log line may depend on: a masked value is a function
  of the kept prefix alone (and of which length class the value falls into).
\<close>

section \<open>LogSanitizer\<close>

definition maskPassword :: "string \<Rightarrow> string" where
  "maskPassword password =
     (if password = [] then ''[empty]''
      else if length password \<le> 2 then ''***''
      else take 2 password @ ''***'')"

definition maskToken :: "string \<Rightarrow> string" where
  "maskToken token =
     (if token = [] then ''[empty]''
      else if length token \<le> 8 then ''[token]''
      else take 8 token @ ''...'')"

definition maskMessageContent :: "string \<Rightarrow> string" where
  "maskMessageContent content =
     (if content = [] then ''[empty]''
      else if length content \<le> 20 then take 10 content @ ''...''
      else take 20 content @ ''...'')"

definition maskIpAddress :: "string \<Rightarrow> string" where
  "maskIpAddress ip =
     (let parts = split_on CHR ''.'' ip
      in if length parts = 4 then parts ! 0 @ ''.'' @ parts ! 1 @ ''.*.*''
         else if length ip > 8 then take 8 ip @ ''...''
         else ip)"

text \<open>\<open>indexOf\<close>: the first position of a character, \<open>-1\<close> if there is none.\<close>

fun indexOf :: "char \<Rightarrow> string \<Rightarrow> int" where
  "indexOf c [] = -1"
| "indexOf c (x # xs) = (if x = c then 0 else (let i = indexOf c xs in if i < 0 then -1 else i + 1))"

definition maskEmail :: "string \<Rightarrow> string" where
  "maskEmail email =
     (let atPos = indexOf CHR ''@'' email
      in if atPos \<le> 1 then ''[email]''
         else take 2 email @ ''***'' @ drop (nat atPos) email)"

definition mask :: "string \<Rightarrow> int \<Rightarrow> string" where
  "mask sensitive keepChars =
     (if sensitive = [] then ''[empty]''
      else if int (length sensitive) \<le> keepChars then ''[masked]''
      else (if keepChars < 0 then sensitive else take (nat keepChars) sensitive) @ ''...'')"

section \<open>StructuredLogger\<close>

datatype LogLevel = Debug | Info | Warning | Critical

primrec levelName :: "LogLevel \<Rightarrow> string" where
  "levelName Debug = ''debug''"
| "levelName Info = ''info''"
| "levelName Warning = ''warning''"
| "levelName Critical = ''critical''"

record structured_logger =
  sl_level :: LogLevel
  sl_event :: string
  sl_fields :: jobj

definition log_event :: "LogLevel \<Rightarrow> string \<Rightarrow> structured_logger" where
  "log_event level ev = \<lparr>sl_level = level, sl_event = ev, sl_fields = []\<rparr>"

text \<open>\<open>QJsonObject::insert\<close> replaces the member of that name.\<close>

definition jinsert :: "string \<Rightarrow> json \<Rightarrow> jobj \<Rightarrow> jobj" where
  "jinsert k v ob = (k, v) # delete_where (\<lambda>(j, _). j = k) ob"

definition log_put :: "string \<Rightarrow> json \<Rightarrow> structured_logger \<Rightarrow> structured_logger" where
  "log_put k v l = l\<lparr>sl_fields := jinsert k v (sl_fields l)\<rparr>"

definition log_requestId :: "int \<Rightarrow> structured_logger \<Rightarrow> structured_logger" where
  "log_requestId i = log_put ''requestId'' (JNum i)"

definition log_userId :: "int \<Rightarrow> structured_logger \<Rightarrow> structured_logger" where
  "log_userId i = log_put ''userId'' (JNum i)"

definition log_deviceId :: "string \<Rightarrow> structured_logger \<Rightarrow> structured_logger" where
  "log_deviceId s = log_put ''deviceId'' (JStr s)"

definition log_errorCode :: "int \<Rightarrow> structured_logger \<Rightarrow> structured_logger" where
  "log_errorCode i = log_put ''code'' (JNum i)"

definition log_durationMs :: "int \<Rightarrow> structured_logger \<Rightarrow> structured_logger" where
  "log_durationMs i = log_put ''durationMs'' (JNum i)"

definition log_field :: "string \<Rightarrow> string \<Rightarrow> structured_logger \<Rightarrow> structured_logger" where
  "log_field k s = log_put k (JStr s)"

definition log_field_int :: "string \<Rightarrow> int \<Rightarrow> structured_logger \<Rightarrow> structured_logger" where
  "log_field_int k i = log_put k (JNum i)"

definition tokenField :: "string \<Rightarrow> string \<Rightarrow> structured_logger \<Rightarrow> structured_logger" where
  "tokenField k token = log_put k (JStr (maskToken token))"

definition ipField :: "string \<Rightarrow> string \<Rightarrow> structured_logger \<Rightarrow> structured_logger" where
  "ipField k ip = log_put k (JStr (maskIpAddress ip))"

definition contentField :: "string \<Rightarrow> string \<Rightarrow> structured_logger \<Rightarrow> structured_logger" where
  "contentField k content = log_put k (JStr (maskMessageContent content))"

text \<open>The object that is written; \<open>ts\<close> is the formatted current time.\<close>

definition log_object :: "string \<Rightarrow> structured_logger \<Rightarrow> jobj" where
  "log_object ts l =
     jinsert ''event'' (JStr (sl_event l))
       (jinsert ''level'' (JStr (levelName (sl_level l)))
         (jinsert ''ts'' (JStr ts) (sl_fields l)))"

section \<open>What a masked value reveals\<close>

lemma maskPassword_prefix:
  assumes "take 2 p = take 2 q" and "(p = []) = (q = [])" and "(length p \<le> 2) = (length q \<le> 2)"
  shows "maskPassword p = maskPassword q"
  using assms by (simp add: maskPassword_def)

lemma maskToken_prefix:
  assumes "take 8 s = take 8 t" and "length s > 8" "length t > 8"
  shows "maskToken s = maskToken t"
  using assms by (auto simp: maskToken_def)

lemma maskToken_short: "s \<noteq> [] \<Longrightarrow> length s \<le> 8 \<Longrightarrow> maskToken s = ''[token]''"
  by (simp add: maskToken_def)

lemma maskMessageContent_prefix:
  assumes "take 20 s = take 20 t" and "length s > 20" "length t > 20"
  shows "maskMessageContent s = maskMessageContent t"
  using assms by (auto simp: maskMessageContent_def)

lemma jget_jinsert: "jget (jinsert k v ob) j = (if j = k then v else jget ob j)"
proof -
  have "map_of (delete_where (\<lambda>(i, _). i = k) ob) j = (if j = k then None else map_of ob j)"
    by (induction ob) auto
  then show ?thesis by (simp add: jinsert_def jget_def)
qed

lemma jget_log_put:
  "jget (sl_fields (log_put k v l)) j = (if j = k then v else jget (sl_fields l) j)"
  by (simp add: log_put_def jget_jinsert)

text \<open>The three sensitive fields store nothing but a masked value.\<close>

lemma log_object_fields:
  assumes "k \<noteq> ''event''" "k \<noteq> ''level''" "k \<noteq> ''ts''"
  shows "jget (log_object ts l) k = jget (sl_fields l) k"
  using assms by (simp add: log_object_def jget_jinsert)

end
