(* ===== verification/Handler_Core.thy ===== *)
theory Handler_Core
  imports Database_Groups Encryption_Manager Group_E2ee Packet_Codec Rate_Window Nonce_Cache
    Log_Sanitizer
begin

text \<open>
  Chat-Server/core/RequestHandler.cpp, the common part: the state of a connection together with what
  it shares (database and nonce cache), what a handler emits, responses and notifications, and the
  three gates in front of the handlers: replay protection, session validation, login rate limit.
\<close>

section \<open>Environment and state\<close>

text \<open>What a request reads from outside: the library functions, the clock, the peer's address and
  the random bytes of a token and of a salt.\<close>

record env =
  e_ext :: ext
  e_now :: time
  e_peer :: string
  e_token :: bytes
  e_salt :: bytes

text \<open>
  What a handler emits, in order: a response on the connection, the signal \<open>messageForUser\<close> with the
  notification's type and JSON payload, the session signals, and the closing of the connection.
\<close>

datatype out =
    Reply "64 word" message_type error_code string jobj
  | PongReply "64 word"
  | MessageFor ident message_type jobj
  | UserLoggedIn ident ident string
  | UserLoggedOut ident ident
  | SessionTerminated ident
  | CloseConnection

record world =
  w_db :: db
  w_nonces :: "nonce_cache option"
  w_userId :: ident
  w_sessionId :: ident
  w_deviceId :: string
  w_fetchKeysWindow :: rate_window
  w_sendWindow :: rate_window
  w_searchWindow :: rate_window
  w_buffer :: bytes
  w_outs :: "out list"

definition MaxFailedLoginsPerIP :: nat where "MaxFailedLoginsPerIP = 10"
definition MaxFailedLoginsPerUser :: nat where "MaxFailedLoginsPerUser = 5"
definition RateLimitWindowSeconds :: int where "RateLimitWindowSeconds = 300"
definition ReplayTimestampToleranceSecs :: int where "ReplayTimestampToleranceSecs = 300"
definition MaxPrekeysPerBatch :: nat where "MaxPrekeysPerBatch = 100"
definition MaxPrekeysPerDevice :: nat where "MaxPrekeysPerDevice = 500"
definition MaxFetchKeysPerWindow :: int where "MaxFetchKeysPerWindow = 20"
definition FetchKeysWindowSeconds :: int where "FetchKeysWindowSeconds = 60"
definition MaxSendMessagesPerWindow :: int where "MaxSendMessagesPerWindow = 30"
definition SendMessageWindowSeconds :: int where "SendMessageWindowSeconds = 10"
definition MaxSearchesPerWindow :: int where "MaxSearchesPerWindow = 20"
definition SearchWindowSeconds :: int where "SearchWindowSeconds = 60"
definition MaxGroupMessageLength :: nat where "MaxGroupMessageLength = 16384"
definition MaxGroupNameLength :: nat where "MaxGroupNameLength = 64"

lemmas handler_limits = MaxFailedLoginsPerIP_def MaxFailedLoginsPerUser_def
  RateLimitWindowSeconds_def ReplayTimestampToleranceSecs_def MaxPrekeysPerBatch_def
  MaxPrekeysPerDevice_def MaxGroupMessageLength_def MaxGroupNameLength_def

lemmas connection_limits = MaxFetchKeysPerWindow_def FetchKeysWindowSeconds_def
  MaxSendMessagesPerWindow_def SendMessageWindowSeconds_def MaxSearchesPerWindow_def
  SearchWindowSeconds_def

definition new_connection :: "db \<Rightarrow> nonce_cache option \<Rightarrow> world" where
  "new_connection d c = \<lparr>w_db = d, w_nonces = c, w_userId = 0, w_sessionId = 0, w_deviceId = [],
     w_fetchKeysWindow = new_window MaxFetchKeysPerWindow FetchKeysWindowSeconds,
     w_sendWindow = new_window MaxSendMessagesPerWindow SendMessageWindowSeconds,
     w_searchWindow = new_window MaxSearchesPerWindow SearchWindowSeconds,
     w_buffer = [], w_outs = []\<rparr>"

section \<open>Emitting\<close>

definition emit :: "out \<Rightarrow> world \<Rightarrow> world" where
  "emit x w = w\<lparr>w_outs := w_outs w @ [x]\<rparr>"

definition sendResponse ::
  "64 word \<Rightarrow> message_type \<Rightarrow> error_code \<Rightarrow> string \<Rightarrow> jobj \<Rightarrow> world \<Rightarrow> world" where
  "sendResponse requestId mt code message data w = emit (Reply requestId mt code message data) w"

definition response_object :: "error_code \<Rightarrow> string \<Rightarrow> jobj \<Rightarrow> jobj" where
  "response_object code message data =
     [(''code'', JNum (error_num code)), (''message'', JStr message), (''data'', JObj data)]"

text \<open>The bytes an output puts on the wire (of this connection, or through the server of another):
  nothing when the encoder refuses the payload.\<close>

fun wire :: "ext \<Rightarrow> out \<Rightarrow> bytes" where
  "wire X (Reply rid mt code msg data) =
     encode (mk_packet mt rid (x_utf8 X (x_compact X (JObj (response_object code msg data)))))"
| "wire X (PongReply rid) = encode (mk_packet Pong rid [])"
| "wire X (MessageFor u mt ob) = encode (mk_packet mt 0 (x_utf8 X (x_compact X (JObj ob))))"
| "wire X _ = []"

definition on_db :: "(db \<Rightarrow> 'a \<times> db) \<Rightarrow> world \<Rightarrow> 'a \<times> world" where
  "on_db f w = (let (a, d) = f (w_db w) in (a, w\<lparr>w_db := d\<rparr>))"

definition append_event :: "env \<Rightarrow> ident \<Rightarrow> string \<Rightarrow> jobj \<Rightarrow> world \<Rightarrow> world" where
  "append_event E u ty ob w =
     snd (on_db (appendSyncEvent u ty (x_compact (e_ext E) (JObj ob)) (e_now E)) w)"

section \<open>Replay protection\<close>

definition checkReplayProtection :: "env \<Rightarrow> jobj \<Rightarrow> world \<Rightarrow> bool \<times> world" where
  "checkReplayProtection E request w =
     (if \<not> jhas request ''timestamp'' \<or> \<not> is_JNum (jget request ''timestamp'') then (False, w)
      else
        let timestamp = jlonglong (jget request ''timestamp'')
        in if timestamp \<le> 0 then (False, w)
           else if \<bar>e_now E - timestamp\<bar> > ReplayTimestampToleranceSecs then (False, w)
           else
             let nonce = trimmed (jstr (jget request ''nonce''))
             in if nonce = [] \<or> length nonce > 128 then (False, w)
                else (case w_nonces w of
                    None \<Rightarrow> (False, w)
                  | Some c \<Rightarrow>
                      let (fresh, c') = checkAndInsert nonce (e_now E) c
                      in (fresh, w\<lparr>w_nonces := Some c'\<rparr>)))"

section \<open>Session validation\<close>

definition validateSession :: "env \<Rightarrow> jobj \<Rightarrow> world \<Rightarrow> bool" where
  "validateSession E request w =
     (if w_sessionId w \<le> 0 \<or> w_userId w \<le> 0 then False
      else case getSessionById (w_sessionId w) (w_db w) of
        None \<Rightarrow> False
      | Some session \<Rightarrow>
          if se_userId session \<noteq> w_userId w then False
          else case se_expiresAt session of
            None \<Rightarrow> False
          | Some expiresAt \<Rightarrow>
              let isRenew = (jstr (jget request ''type'') = ''token_renew'')
              in if \<not> isRenew \<and> expiresAt < e_now E then False
                 else
                   let suppliedToken = jstr (jget request ''token'')
                   in if suppliedToken = [] then False
                      else hashToken (e_ext E) suppliedToken = se_tokenHash session)"

section \<open>Login rate limit\<close>

definition checkRateLimit :: "env \<Rightarrow> ident \<Rightarrow> db \<Rightarrow> bool" where
  "checkRateLimit E userId d =
     (if recentFailedLoginCount (e_peer E) RateLimitWindowSeconds (e_now E) d \<ge> MaxFailedLoginsPerIP
      then True
      else if userId > 0 then
        recentFailedLoginCountForUser userId RateLimitWindowSeconds (e_now E) d \<ge> MaxFailedLoginsPerUser
      else False)"

section \<open>What these do to the state\<close>

lemma emit_frame [simp]:
  "w_db (emit x w) = w_db w" "w_nonces (emit x w) = w_nonces w" "w_userId (emit x w) = w_userId w"
  "w_sessionId (emit x w) = w_sessionId w" "w_deviceId (emit x w) = w_deviceId w"
  "w_fetchKeysWindow (emit x w) = w_fetchKeysWindow w" "w_sendWindow (emit x w) = w_sendWindow w"
  "w_searchWindow (emit x w) = w_searchWindow w" "w_buffer (emit x w) = w_buffer w"
  "w_outs (emit x w) = w_outs w @ [x]"
  by (simp_all add: emit_def)

lemma sendResponse_frame [simp]:
  "w_db (sendResponse r mt c m d w) = w_db w" "w_nonces (sendResponse r mt c m d w) = w_nonces w"
  "w_userId (sendResponse r mt c m d w) = w_userId w"
  "w_sessionId (sendResponse r mt c m d w) = w_sessionId w"
  "w_deviceId (sendResponse r mt c m d w) = w_deviceId w"
  "w_fetchKeysWindow (sendResponse r mt c m d w) = w_fetchKeysWindow w"
  "w_sendWindow (sendResponse r mt c m d w) = w_sendWindow w"
  "w_searchWindow (sendResponse r mt c m d w) = w_searchWindow w"
  "w_buffer (sendResponse r mt c m d w) = w_buffer w"
  "w_outs (sendResponse r mt c m d w) = w_outs w @ [Reply r mt c m d]"
  by (simp_all add: sendResponse_def)

lemma on_db_simps [simp]:
  "fst (on_db f w) = fst (f (w_db w))" "snd (on_db f w) = w\<lparr>w_db := snd (f (w_db w))\<rparr>"
  by (simp_all add: on_db_def split_beta)

lemma append_event_frame [simp]:
  "w_db (append_event E u ty ob w)
     = snd (appendSyncEvent u ty (x_compact (e_ext E) (JObj ob)) (e_now E) (w_db w))"
  "w_nonces (append_event E u ty ob w) = w_nonces w" "w_userId (append_event E u ty ob w) = w_userId w"
  "w_sessionId (append_event E u ty ob w) = w_sessionId w"
  "w_deviceId (append_event E u ty ob w) = w_deviceId w"
  "w_fetchKeysWindow (append_event E u ty ob w) = w_fetchKeysWindow w"
  "w_sendWindow (append_event E u ty ob w) = w_sendWindow w"
  "w_searchWindow (append_event E u ty ob w) = w_searchWindow w"
  "w_buffer (append_event E u ty ob w) = w_buffer w" "w_outs (append_event E u ty ob w) = w_outs w"
  by (simp_all add: append_event_def)

definition world_inv :: "world \<Rightarrow> bool" where
  "world_inv w \<longleftrightarrow> db_inv (w_db w) \<and> window_ok (w_fetchKeysWindow w) \<and> window_ok (w_sendWindow w)
     \<and> window_ok (w_searchWindow w)"

lemma world_inv_emit [simp]:
  "world_inv (emit x w) = world_inv w" "world_inv (sendResponse r mt c m d w) = world_inv w"
  by (simp_all add: world_inv_def)

lemma world_inv_outs [simp]: "world_inv (w\<lparr>w_outs := x1\<rparr>) = world_inv w"
  "world_inv (w\<lparr>w_nonces := x2\<rparr>) = world_inv w" "world_inv (w\<lparr>w_userId := x3\<rparr>) = world_inv w"
  "world_inv (w\<lparr>w_sessionId := x4\<rparr>) = world_inv w" "world_inv (w\<lparr>w_deviceId := x5\<rparr>) = world_inv w"
  "world_inv (w\<lparr>w_buffer := x6\<rparr>) = world_inv w"
  by (simp_all add: world_inv_def)

lemma world_inv_db: "world_inv w \<Longrightarrow> (db_inv (w_db w) \<Longrightarrow> db_inv d) \<Longrightarrow> world_inv (w\<lparr>w_db := d\<rparr>)"
  by (simp add: world_inv_def)

lemma world_inv_window:
  "world_inv w \<Longrightarrow> world_inv (w\<lparr>w_fetchKeysWindow := snd (allow t (w_fetchKeysWindow w))\<rparr>)"
  "world_inv w \<Longrightarrow> world_inv (w\<lparr>w_sendWindow := snd (allow t (w_sendWindow w))\<rparr>)"
  "world_inv w \<Longrightarrow> world_inv (w\<lparr>w_searchWindow := snd (allow t (w_searchWindow w))\<rparr>)"
  by (simp_all add: world_inv_def allow_ok)

lemma append_event_inv [inv_intros]: "world_inv w \<Longrightarrow> world_inv (append_event E u ty ob w)"
  by (simp add: world_inv_def appendSyncEvent_inv)

lemma checkReplayProtection_inv: "world_inv w \<Longrightarrow> world_inv (snd (checkReplayProtection E rq w))"
  by (simp add: checkReplayProtection_def Let_def split_beta split: option.splits)

lemma checkReplayProtection_frame:
  "w_db (snd (checkReplayProtection E rq w)) = w_db w"
  "w_userId (snd (checkReplayProtection E rq w)) = w_userId w"
  "w_sessionId (snd (checkReplayProtection E rq w)) = w_sessionId w"
  "w_deviceId (snd (checkReplayProtection E rq w)) = w_deviceId w"
  "w_outs (snd (checkReplayProtection E rq w)) = w_outs w"
  by (simp_all add: checkReplayProtection_def Let_def split_beta split: option.splits)

text \<open>Rules that walk through a handler without unfolding what it emits.\<close>

lemma world_inv_walk:
  "(b \<Longrightarrow> world_inv v) \<Longrightarrow> (\<not> b \<Longrightarrow> world_inv w) \<Longrightarrow> world_inv (if b then v else w)"
  "world_inv w \<Longrightarrow> (\<And>x. world_inv (f x)) \<Longrightarrow> world_inv (case opt of None \<Rightarrow> w | Some x \<Rightarrow> f x)"
  "(\<And>e. world_inv (g e)) \<Longrightarrow> (\<And>x. world_inv (f x)) \<Longrightarrow> world_inv (case res of Inl e \<Rightarrow> g e | Inr x \<Rightarrow> f x)"
  "world_inv w \<Longrightarrow> world_inv (sendResponse r mt c m d w)"
  "world_inv w \<Longrightarrow> (\<And>d. db_inv d \<Longrightarrow> db_inv (snd (h d))) \<Longrightarrow> world_inv (snd (on_db h w))"
  by (auto simp: world_inv_def split: option.splits sum.splits)

end
