(* ===== verification/Handler_Keys.thy ===== *)
theory Handler_Keys
  imports Handler_Core
begin

text \<open>
  RequestHandler.cpp: registration of a device's identity key and prekeys, and the key bundles of a
  user or of every member of a group, each with one claimed prekey per device.
\<close>

section \<open>Registering keys\<close>

text \<open>The loop over the uploaded prekeys: \<open>None\<close> when one is not 32 bytes of Base64.\<close>

fun read_prekeys :: "ext \<Rightarrow> json list \<Rightarrow> string list option" where
  "read_prekeys X [] = Some []"
| "read_prekeys X (v # vs) =
     (let pub = trimmed (jstr v)
      in if length (x_fromBase64 X pub) \<noteq> 32 then None
         else map_option (\<lambda>pubs. pub # pubs) (read_prekeys X vs))"

definition keys_registered :: "int \<Rightarrow> packet \<Rightarrow> world \<Rightarrow> world" where
  "keys_registered uploaded packet w =
     sendResponse (pk_reqid packet) RegisterKeysResponse Ok ''Keys registered''
       [(''deviceId'', JStr (w_deviceId w)), (''uploadedPrekeys'', JNum uploaded),
        (''remainingPrekeys'', JNum (int (prekeyCount (w_userId w) (w_deviceId w) (w_db w))))] w"

definition processRegisterKeysRequest :: "env \<Rightarrow> packet \<Rightarrow> jobj \<Rightarrow> world \<Rightarrow> world" where
  "processRegisterKeysRequest E packet request w =
     (let rid = pk_reqid packet; me = w_userId w; dev = w_deviceId w;
          identityPub = trimmed (jstr (jget request ''identityPub''))
      in if identityPub = [] \<or> length (x_fromBase64 (e_ext E) identityPub) \<noteq> 32 then
           sendResponse rid RegisterKeysResponse InvalidRequest
             ''identityPub must be a 32-byte Base64 X25519 public key'' [] w
         else
           let (stored, w1) = on_db (upsertIdentityKey me dev identityPub) w;
               prekeyArray = jarr (jget request ''prekeys'')
           in if \<not> stored then
                sendResponse rid RegisterKeysResponse InternalError ''Failed to store identity key'' [] w1
              else if prekeyArray = [] then keys_registered 0 packet w1
              else if length prekeyArray > MaxPrekeysPerBatch then
                sendResponse rid RegisterKeysResponse InvalidRequest
                  (''At most '' @ number (int MaxPrekeysPerBatch) @ '' prekeys per batch'') [] w1
              else if prekeyCount me dev (w_db w1) + length prekeyArray > MaxPrekeysPerDevice then
                sendResponse rid RegisterKeysResponse InvalidRequest
                  (''Prekey quota exceeded ('' @ number (int MaxPrekeysPerDevice)
                     @ '' unused allowed)'') [] w1
              else (case read_prekeys (e_ext E) prekeyArray of
                  None \<Rightarrow> sendResponse rid RegisterKeysResponse InvalidRequest
                            ''Each prekey must be a 32-byte Base64 X25519 public key'' [] w1
                | Some pubs \<Rightarrow>
                    let (uploaded, w2) = on_db (uploadPrekeys me dev pubs) w1
                    in if uploaded < 0 then
                         sendResponse rid RegisterKeysResponse InternalError
                           ''Failed to store prekeys'' [] w2
                       else keys_registered uploaded packet w2))"

section \<open>Key bundles\<close>

text \<open>QHash: the last insertion for a device is the one that is found.\<close>

definition identity_of :: "idkey_row list \<Rightarrow> string \<Rightarrow> string" where
  "identity_of ks dev = (case find (\<lambda>k. ik_deviceId k = dev) (rev ks) of
     None \<Rightarrow> [] | Some k \<Rightarrow> ik_pub k)"

definition bundle_json :: "string \<Rightarrow> claimed_prekey \<Rightarrow> jobj" where
  "bundle_json identityPub c =
     [(''deviceId'', JStr (ck_deviceId c)), (''identityPub'', JStr identityPub),
      (''prekeyId'', JNum (ck_prekeyId c)), (''prekeyPub'', JStr (ck_prekeyPub c))]"

definition bundles_of :: "ident \<Rightarrow> claimed_prekey list \<Rightarrow> db \<Rightarrow> jobj list" where
  "bundles_of userId claimed d = List.map_filter (\<lambda>c.
     let identityPub = identity_of (getIdentityKeysByUser userId d) (ck_deviceId c)
     in if identityPub = [] then None else Some (bundle_json identityPub c)) claimed"

definition processFetchKeysRequest :: "env \<Rightarrow> packet \<Rightarrow> jobj \<Rightarrow> world \<Rightarrow> world" where
  "processFetchKeysRequest E packet request w =
     (let rid = pk_reqid packet;
          targetUserId = jlonglong (jget request ''userId'')
      in if targetUserId \<le> 0 \<or> targetUserId = w_userId w then
           sendResponse rid FetchKeysResponse CannotSendToSelf ''Invalid target user'' [] w
         else
           let (allowed, win) = allow (e_now E) (w_fetchKeysWindow w);
               w1 = w\<lparr>w_fetchKeysWindow := win\<rparr>
           in if \<not> allowed then
                sendResponse rid FetchKeysResponse RateLimited
                  ''Too many key bundle requests, please slow down'' [] w1
              else if getDevicesByUserId (e_ext E) targetUserId (w_db w1) = [] then
                sendResponse rid FetchKeysResponse AccountNotFound
                  ''Target user has no registered devices'' [] w1
              else
                let (claimed, w2) = on_db (claimPrekeys targetUserId (e_now E)) w1
                in if claimed = [] then
                     sendResponse rid FetchKeysResponse KeyBundleUnavailable
                       ''Target user has no available prekeys'' [] w2
                   else
                     let bundles = bundles_of targetUserId claimed (w_db w2)
                     in if bundles = [] then
                          sendResponse rid FetchKeysResponse KeyBundleUnavailable
                            ''Target user devices have no identity keys'' [] w2
                        else
                          sendResponse rid FetchKeysResponse Ok ''OK''
                            [(''userId'', JNum targetUserId),
                             (''bundles'', JArr (map JObj bundles))] w2)"

text \<open>The loop over the members of a group; a member without bundles has no entry.\<close>

fun group_bundles :: "time \<Rightarrow> ident list \<Rightarrow> db \<Rightarrow> jobj \<times> db" where
  "group_bundles now [] d = ([], d)"
| "group_bundles now (u # us) d =
     (let (claimed, d1) = claimPrekeys u now d;
          bundles = bundles_of u claimed d1;
          (rest, d2) = group_bundles now us d1
      in (if claimed = [] \<or> bundles = [] then rest
          else (number u, JArr (map JObj bundles)) # rest, d2))"

definition is_group :: "conversation_info option \<Rightarrow> bool" where
  "is_group conv = (case conv of None \<Rightarrow> False | Some c \<Rightarrow> ci_type c = ''group'')"

definition processFetchGroupKeysRequest :: "env \<Rightarrow> packet \<Rightarrow> jobj \<Rightarrow> world \<Rightarrow> world" where
  "processFetchGroupKeysRequest E packet request w =
     (let rid = pk_reqid packet;
          convId = jlonglong (jget request ''conversationId'')
      in if convId \<le> 0 then
           sendResponse rid FetchGroupKeysResponse InvalidRequest ''Invalid conversationId'' [] w
         else if \<not> is_group (getConversation convId (w_db w)) then
           sendResponse rid FetchGroupKeysResponse ConversationNotFound ''Group not found'' [] w
         else if \<not> isConversationMember convId (w_userId w) (w_db w) then
           sendResponse rid FetchGroupKeysResponse PermissionDenied ''Not a member of this group'' [] w
         else
           let (allowed, win) = allow (e_now E) (w_fetchKeysWindow w);
               w1 = w\<lparr>w_fetchKeysWindow := win\<rparr>
           in if \<not> allowed then
                sendResponse rid FetchGroupKeysResponse RateLimited
                  ''Too many key bundle requests, please slow down'' [] w1
              else
                let (bundles, w2) = on_db (group_bundles (e_now E)
                                      (getGroupMemberIds convId (w_db w1))) w1
                in sendResponse rid FetchGroupKeysResponse Ok ''OK''
                     [(''conversationId'', JNum convId), (''bundles'', JObj bundles)] w2)"

section \<open>The invariant\<close>

lemma group_bundles_inv [inv_intros]: "db_inv d \<Longrightarrow> db_inv (snd (group_bundles now us d))"
  by (induction us arbitrary: d) (simp_all add: split_beta Let_def claimPrekeys_inv)

lemma keys_registered_inv [simp]: "world_inv (keys_registered n p w) = world_inv w"
  by (simp add: keys_registered_def)

lemma key_handlers_inv [inv_intros]:
  assumes "world_inv w"
  shows "world_inv (processRegisterKeysRequest E p rq w)"
    and "world_inv (processFetchKeysRequest E p rq w)"
    and "world_inv (processFetchGroupKeysRequest E p rq w)"
proof -
  show "world_inv (processRegisterKeysRequest E p rq w)"
    using assms by (auto simp: processRegisterKeysRequest_def Let_def split_beta
        split: option.splits intro!: world_inv_db inv_intros)
  show "world_inv (processFetchKeysRequest E p rq w)"
    using assms by (auto simp: processFetchKeysRequest_def Let_def split_beta
        intro!: world_inv_db world_inv_window inv_intros)
  show "world_inv (processFetchGroupKeysRequest E p rq w)"
    using assms by (auto simp: processFetchGroupKeysRequest_def Let_def split_beta
        intro!: world_inv_db world_inv_window inv_intros)
qed

end
