(* ===== verification/Handler_Account.thy ===== *)
theory Handler_Account
  imports Handler_Core
begin

text \<open>
  RequestHandler.cpp: login, registration, logout, token renewal, termination of another session of
  the same user, the user search, contacts and the list of conversations.
\<close>

section \<open>Login and registration\<close>

definition processLoginRequest :: "env \<Rightarrow> packet \<Rightarrow> jobj \<Rightarrow> world \<Rightarrow> world" where
  "processLoginRequest E packet request w =
     (let rid = pk_reqid packet;
          username = trimmed (jstr (jget request ''username''));
          clientPassword = jstr (jget request ''password'');
          deviceId = jstr (jget request ''deviceId'');
          platform = jstr (jget request ''platform'');
          ipAddr = e_peer E
      in if username = [] \<or> clientPassword = [] then
           sendResponse rid LoginResponse InvalidRequest ''Username and password are required'' [] w
         else case getUserByUsername username (w_db w) of
           None \<Rightarrow>
             sendResponse rid LoginResponse AuthenticationFailed ''Invalid username or password'' []
               (w\<lparr>w_db := recordLoginAttempt 0 ipAddr False ''User not found'' (e_now E) (w_db w)\<rparr>)
         | Some user \<Rightarrow>
             if checkRateLimit E (ur_id user) (w_db w) then
               sendResponse rid LoginResponse LoginRateLimited
                 ''Too many failed login attempts. Please try again later.'' [] w
             else if \<not> verifyPassword (e_ext E) clientPassword (ur_passwordHash user) then
               sendResponse rid LoginResponse AuthenticationFailed ''Invalid username or password'' []
                 (w\<lparr>w_db := recordLoginAttempt (ur_id user) ipAddr False ''Wrong password'' (e_now E)
                             (w_db w)\<rparr>)
             else
               let token = generateToken (e_token E);
                   tokenHash = hashToken (e_ext E) token;
                   w1 = snd (on_db (registerDevice (ur_id user) deviceId
                               (''Device-'' @ take 8 deviceId) platform (e_now E)) w);
                   (sessionId, w2) = on_db (createSession (ur_id user) deviceId tokenHash ipAddr
                               default_session_ttl (e_now E)) w1
               in if sessionId < 0 then
                    sendResponse rid LoginResponse InternalError ''Failed to create session'' [] w2
                  else
                    let w3 = w2\<lparr>w_db := recordLoginAttempt (ur_id user) ipAddr True [] (e_now E) (w_db w2)\<rparr>;
                        w4 = w3\<lparr>w_userId := ur_id user, w_sessionId := sessionId, w_deviceId := deviceId\<rparr>;
                        data = [(''username'', JStr (ur_username user)), (''userId'', JNum (ur_id user)),
                                (''token'', JStr token),
                                (''expiresAt'', JStr (x_isoTime (e_ext E) (e_now E + 86400 * 7)))]
                    in sendResponse rid LoginResponse Ok ''OK'' data
                         (emit (UserLoggedIn (ur_id user) sessionId deviceId) w4))"

definition processRegisterRequest :: "env \<Rightarrow> packet \<Rightarrow> jobj \<Rightarrow> world \<Rightarrow> world" where
  "processRegisterRequest E packet request w =
     (let rid = pk_reqid packet;
          username = trimmed (jstr (jget request ''username''));
          password = jstr (jget request ''password'');
          email = trimmed (jstr (jget request ''email''));
          phone = trimmed (jstr (jget request ''phone''))
      in if username = [] \<or> password = [] then
           sendResponse rid RegisterResponse InvalidRequest ''Username and password are required'' [] w
         else if length username < 3 \<or> length username > 32 then
           sendResponse rid RegisterResponse InvalidRequest ''Username must be 3-32 characters'' [] w
         else if length password < 6 then
           sendResponse rid RegisterResponse InvalidRequest ''Password must be at least 6 characters'' [] w
         else if userExists username (w_db w) then
           sendResponse rid RegisterResponse AccountAlreadyExists ''Username already exists'' [] w
         else
           let passwordHash = hashPasswordWithSalt (e_ext E) (e_salt E) password defaultIterations;
               (userId, w1) = on_db (registerUser username email phone passwordHash (e_now E)) w
           in if userId < 0 then
                sendResponse rid RegisterResponse InternalError ''Failed to create account'' [] w1
              else
                sendResponse rid RegisterResponse Ok ''Account created successfully''
                  [(''userId'', JNum userId), (''username'', JStr username)] w1)"

section \<open>Sessions\<close>

definition processLogoutRequest :: "env \<Rightarrow> packet \<Rightarrow> world \<Rightarrow> world" where
  "processLogoutRequest E packet w =
     (let sessionId = w_sessionId w; userId = w_userId w;
          w1 = snd (on_db (deleteSession sessionId) w);
          w2 = emit (UserLoggedOut userId sessionId) w1;
          w3 = sendResponse (pk_reqid packet) LogoutResponse Ok ''Logged out'' [] w2
      in w3\<lparr>w_userId := 0, w_sessionId := 0\<rparr>)"

definition processTokenRenewRequest :: "env \<Rightarrow> packet \<Rightarrow> jobj \<Rightarrow> world \<Rightarrow> world" where
  "processTokenRenewRequest E packet request w =
     (let rid = pk_reqid packet;
          oldSessionId = w_sessionId w; userId = w_userId w;
          suppliedToken = jstr (jget request ''token'')
      in if suppliedToken = [] then
           sendResponse rid TokenRenewResponse InvalidRequest ''Token is required'' [] w
         else case getSessionById oldSessionId (w_db w) of
           None \<Rightarrow> sendResponse rid TokenRenewResponse SessionExpired ''Session no longer exists'' [] w
         | Some session \<Rightarrow>
             if hashToken (e_ext E) suppliedToken \<noteq> se_tokenHash session then
               sendResponse rid TokenRenewResponse SessionInvalid
                 ''Supplied token does not match session'' [] w
             else
               let newToken = generateToken (e_token E);
                   newTokenHash = hashToken (e_ext E) newToken;
                   w1 = snd (on_db (deleteSession oldSessionId) w);
                   (newSessionId, w2) = on_db (createSession userId (w_deviceId w) newTokenHash
                               (e_peer E) default_session_ttl (e_now E)) w1
               in if newSessionId < 0 then
                    sendResponse rid TokenRenewResponse InternalError ''Failed to renew token'' [] w2
                  else
                    sendResponse rid TokenRenewResponse Ok ''Token renewed''
                      [(''token'', JStr newToken),
                       (''expiresAt'', JStr (x_isoTime (e_ext E) (e_now E + 86400 * 7)))]
                      (w2\<lparr>w_sessionId := newSessionId\<rparr>))"

definition processTerminateSessionRequest :: "env \<Rightarrow> packet \<Rightarrow> jobj \<Rightarrow> world \<Rightarrow> world" where
  "processTerminateSessionRequest E packet request w =
     (let rid = pk_reqid packet
      in if jhas request ''userId'' \<and> jlonglong (jget request ''userId'') \<noteq> w_userId w then
           sendResponse rid ForceLogoutResponse PermissionDenied
             ''Cannot terminate sessions of another user'' [] w
         else
           let targetSessionId = jlonglong (jget request ''sessionId'');
               targetDeviceId = jstr (jget request ''deviceId'')
           in if targetSessionId \<le> 0 \<and> targetDeviceId = [] then
                sendResponse rid ForceLogoutResponse InvalidRequest
                  ''sessionId or deviceId is required'' [] w
              else if targetSessionId = w_sessionId w then
                sendResponse rid ForceLogoutResponse InvalidRequest
                  ''Cannot terminate current session, use logout instead'' [] w
              else
                let sessions = getSessionsByUserId (w_userId w) (w_db w);
                    hit = find (\<lambda>s. (targetSessionId > 0 \<and> se_id s = targetSessionId)
                                 \<or> (targetDeviceId \<noteq> [] \<and> se_deviceId s = targetDeviceId)) sessions;
                    resolvedSessionId = (case hit of None \<Rightarrow> 0 | Some s \<Rightarrow> se_id s)
                in if resolvedSessionId \<le> 0 then
                     sendResponse rid ForceLogoutResponse PermissionDenied
                       ''Target session not found among your own sessions'' [] w
                   else
                     let w1 = snd (on_db (deleteSession resolvedSessionId) w);
                         w2 = emit (UserLoggedOut (w_userId w) resolvedSessionId) w1;
                         w3 = emit (SessionTerminated resolvedSessionId) w2
                     in sendResponse rid ForceLogoutResponse Ok ''Session terminated''
                          [(''terminatedSessionId'', JNum resolvedSessionId)] w3)"

section \<open>Search, contacts, conversations\<close>

definition processSearchUsersRequest :: "env \<Rightarrow> packet \<Rightarrow> jobj \<Rightarrow> world \<Rightarrow> world" where
  "processSearchUsersRequest E packet request w =
     (let rid = pk_reqid packet;
          query = trimmed (jstr (jget request ''query''))
      in if query = [] then
           sendResponse rid SearchUsersResponse InvalidRequest ''Query is required'' [] w
         else
           let (allowed, win) = allow (e_now E) (w_searchWindow w);
               w1 = w\<lparr>w_searchWindow := win\<rparr>
           in if \<not> allowed then
                sendResponse rid SearchUsersResponse RateLimited
                  ''Too many search requests, please slow down'' [] w1
              else
                let users = filter (\<lambda>u. ur_id u \<noteq> w_userId w1) (db_searchUsers query 20 (w_db w1))
                in sendResponse rid SearchUsersResponse Ok ''OK''
                     [(''users'', JArr (map (\<lambda>u. JObj [(''userId'', JNum (ur_id u)),
                         (''username'', JStr (ur_username u))]) users))] w1)"

definition processAddContactRequest :: "env \<Rightarrow> packet \<Rightarrow> jobj \<Rightarrow> world \<Rightarrow> world" where
  "processAddContactRequest E packet request w =
     (let rid = pk_reqid packet;
          contactUserId = jlonglong (jget request ''userId'')
      in if contactUserId \<le> 0 \<or> contactUserId = w_userId w then
           sendResponse rid AddContactResponse CannotSendToSelf ''Invalid contact'' [] w
         else if list_ex (\<lambda>(c, _). ct_contactUserId c = contactUserId)
                   (db_getContacts (w_userId w) (w_db w)) then
           sendResponse rid AddContactResponse ContactAlreadyExists ''Contact already exists'' [] w
         else
           let (ok, w1) = on_db (db_addContact (w_userId w) contactUserId (e_now E)) w
           in if \<not> ok then
                sendResponse rid AddContactResponse InternalError ''Failed to add contact'' [] w1
              else
                let w2 = append_event E (w_userId w) ''contact_added''
                           [(''contactUserId'', JNum contactUserId)] w1;
                    w3 = append_event E contactUserId ''contact_added''
                           [(''contactUserId'', JNum (w_userId w))] w2
                in sendResponse rid AddContactResponse Ok ''Contact added''
                     [(''contactUserId'', JNum contactUserId)] w3)"

definition processGetContactsRequest :: "env \<Rightarrow> packet \<Rightarrow> world \<Rightarrow> world" where
  "processGetContactsRequest E packet w =
     sendResponse (pk_reqid packet) GetContactsResponse Ok ''OK''
       [(''contacts'', JArr (map (\<lambda>(c, name). JObj [(''userId'', JNum (ct_contactUserId c)),
           (''username'', JStr name), (''addedAt'', JStr (x_sqlTime (e_ext E) (ct_createdAt c)))])
         (db_getContacts (w_userId w) (w_db w))))] w"

definition conversation_json :: "ext \<Rightarrow> conversation_info \<Rightarrow> jobj" where
  "conversation_json X c =
     [(''conversationId'', JNum (ci_id c)), (''type'', JStr (ci_type c)),
      (''peerUserId'', JNum (ci_peerUserId c)), (''peerUsername'', JStr (ci_peerUsername c)),
      (''lastMessage'', JStr (ci_lastMessage c)), (''lastMessageId'', JNum (ci_lastMessageId c)),
      (''lastMessageAt'', JStr (case ci_lastMessageAt c of None \<Rightarrow> [] | Some t \<Rightarrow> x_sqlTime X t)),
      (''unreadCount'', JNum (int (ci_unreadCount c))),
      (''pinned'', JBool (ci_pinned c)), (''muted'', JBool (ci_muted c))]
     @ (if ci_type c = ''group''
        then [(''name'', JStr (ci_name c)), (''memberCount'', JNum (int (ci_memberCount c)))] else [])"

definition processGetConversationsRequest :: "env \<Rightarrow> packet \<Rightarrow> world \<Rightarrow> world" where
  "processGetConversationsRequest E packet w =
     sendResponse (pk_reqid packet) GetConversationsResponse Ok ''OK''
       [(''conversations'', JArr (map (\<lambda>c. JObj (conversation_json (e_ext E) c))
          (getConversationsForUser (w_userId w) (w_db w))))] w"

section \<open>The invariant\<close>

lemma account_handlers_inv [inv_intros]:
  assumes "world_inv w"
  shows "world_inv (processLoginRequest E p rq w)"
    and "world_inv (processRegisterRequest E p rq w)"
    and "world_inv (processLogoutRequest E p w)"
    and "world_inv (processTokenRenewRequest E p rq w)"
    and "world_inv (processTerminateSessionRequest E p rq w)"
    and "world_inv (processSearchUsersRequest E p rq w)"
    and "world_inv (processAddContactRequest E p rq w)"
    and "world_inv (processGetContactsRequest E p w)"
    and "world_inv (processGetConversationsRequest E p w)"
proof -
  show "world_inv (processLoginRequest E p rq w)"
    using assms by (auto simp: processLoginRequest_def Let_def split_beta world_inv_def
        split: option.splits intro!: inv_intros)
  show "world_inv (processRegisterRequest E p rq w)"
    using assms by (auto simp: processRegisterRequest_def Let_def split_beta world_inv_def
        intro!: inv_intros)
  show "world_inv (processLogoutRequest E p w)"
    using assms by (auto simp: processLogoutRequest_def Let_def world_inv_def intro!: inv_intros)
  show "world_inv (processTokenRenewRequest E p rq w)"
    using assms by (auto simp: processTokenRenewRequest_def Let_def split_beta world_inv_def
        split: option.splits intro!: inv_intros)
  show "world_inv (processTerminateSessionRequest E p rq w)"
    using assms by (auto simp: processTerminateSessionRequest_def Let_def split_beta world_inv_def
        intro!: inv_intros)
  show "world_inv (processSearchUsersRequest E p rq w)"
    using assms by (auto simp: processSearchUsersRequest_def Let_def split_beta
        intro!: world_inv_window)
  show "world_inv (processAddContactRequest E p rq w)"
    using assms by (auto simp: processAddContactRequest_def Let_def split_beta world_inv_def
        intro!: inv_intros)
  show "world_inv (processGetContactsRequest E p w)"
    using assms by (simp add: processGetContactsRequest_def)
  show "world_inv (processGetConversationsRequest E p w)"
    using assms by (simp add: processGetConversationsRequest_def)
qed

end
