(* ===== verification/Handler_Chat.thy ===== *)
theory Handler_Chat
  imports Handler_Account
begin

text \<open>
  RequestHandler.cpp: private messages with their envelope checks, acknowledgements and aggregated
  status, message and event synchronisation, conversation preferences, editing and deletion.
\<close>

section \<open>Sending a private message\<close>


text \<open>
  The loop over the envelope's entries: no device twice, a copy for the sender's own device is not a
  delivery, every other entry refers to a prekey claimed from the recipient. The result is the
  error text or the prekeys to consume.
\<close>

fun check_entries ::
  "ident \<Rightarrow> string \<Rightarrow> db \<Rightarrow> envelope_entry list \<Rightarrow> string list \<Rightarrow> bool \<Rightarrow> ident list \<Rightarrow> string + ident list" where
  "check_entries target ownDevice d [] seen seenSelf ids = Inr ids"
| "check_entries target ownDevice d (e # es) seen seenSelf ids =
     (if ee_deviceId e = ownDevice \<and> ee_prekeyId e = SelfCopyPrekeyId then
        (if seenSelf then Inl ''Duplicate device entry in envelope''
         else check_entries target ownDevice d es seen True ids)
      else if ee_deviceId e \<in> set seen then Inl ''Duplicate device entry in envelope''
      else if \<not> validateClaimedPrekey target (ee_deviceId e) (ee_prekeyId e) d then
        Inl ''Envelope references invalid or unconsumable prekey''
      else check_entries target ownDevice d es (ee_deviceId e # seen) seenSelf (ids @ [ee_prekeyId e]))"

text \<open>When BEGIN failed there is no transaction: COMMIT fails and ROLLBACK changes nothing.\<close>

definition end_commit :: "bool \<Rightarrow> db \<Rightarrow> bool \<times> db" where
  "end_commit begun d = (if begun then commitTransaction d else (False, d))"

definition end_rollback :: "bool \<Rightarrow> db \<Rightarrow> db \<Rightarrow> db" where
  "end_rollback begun saved d = (if begun then rollbackTransaction saved d else d)"

definition reused_data :: "message_info \<Rightarrow> string \<Rightarrow> jobj" where
  "reused_data existing clientMessageId =
     [(''messageId'', JNum (mi_id existing)), (''conversationId'', JNum (mi_conversationId existing)),
      (''clientMessageId'', JStr clientMessageId), (''status'', JStr (mi_status existing)),
      (''reused'', JBool True)]"

definition sent_data :: "ident \<Rightarrow> ident \<Rightarrow> string \<Rightarrow> jobj" where
  "sent_data msgId convId clientMessageId =
     [(''messageId'', JNum msgId), (''conversationId'', JNum convId),
      (''clientMessageId'', JStr clientMessageId), (''status'', JStr ''sent'')]"

definition send_private :: "env \<Rightarrow> packet \<Rightarrow> jobj \<Rightarrow> string \<Rightarrow> world \<Rightarrow> world" where
  "send_private E packet request clientMessageId w =
     (let rid = pk_reqid packet; X = e_ext E; me = w_userId w;
          targetUserId = jlonglong (jget request ''toUserId'');
          content = jstr (jget request ''content'');
          contentType = jstr_or ''text'' (jget request ''contentType'')
      in if targetUserId \<le> 0 \<or> targetUserId = me then
           sendResponse rid SendMessageResponse CannotSendToSelf ''Invalid recipient'' [] w
         else if content = [] then
           sendResponse rid SendMessageResponse InvalidRequest ''Message content is empty'' [] w
         else case getMessageByClientKey me (w_deviceId w) clientMessageId (w_db w) of
           Some existing \<Rightarrow>
             sendResponse rid SendMessageResponse Ok ''Message sent''
               (reused_data existing clientMessageId) w
         | None \<Rightarrow>
         (case decodeEnvelope X content of
            None \<Rightarrow> sendResponse rid SendMessageResponse E2eeInvalidEnvelope
                      ''Message content must be a valid E2EE envelope'' [] w
          | Some entries \<Rightarrow>
          (case check_entries targetUserId (w_deviceId w) (w_db w) entries [] False [] of
             Inl err \<Rightarrow> sendResponse rid SendMessageResponse E2eeInvalidEnvelope err [] w
           | Inr prekeyIds \<Rightarrow>
             if prekeyIds = [] then
               sendResponse rid SendMessageResponse E2eeInvalidEnvelope
                 ''Envelope has no recipient device entry'' [] w
             else
               let (convId, w1) = on_db (getOrCreatePrivateConversation me targetUserId (e_now E)) w
               in if convId < 0 then
                    sendResponse rid SendMessageResponse InternalError ''Failed to create conversation'' [] w1
                  else
                    let (begun, w2) = on_db beginTransaction w1;
                        (msgId, w3) = on_db (db_sendMessage convId me content contentType
                                        clientMessageId (w_deviceId w) (e_now E)) w2
                    in if msgId < 0 then
                         sendResponse rid SendMessageResponse InternalError ''Failed to send message'' []
                           (w3\<lparr>w_db := end_rollback begun (w_db w2) (w_db w3)\<rparr>)
                       else
                         let w4 = snd (on_db (consumePrekeys prekeyIds) w3);
                             (committed, w5) = on_db (end_commit begun) w4
                         in if \<not> committed then
                              sendResponse rid SendMessageResponse InternalError ''Failed to send message'' []
                                (w5\<lparr>w_db := end_rollback begun (w_db w2) (w_db w5)\<rparr>)
                            else
                              let createdAt = JStr (x_isoTime X (e_now E));
                                  ev = [(''messageId'', JNum msgId), (''conversationId'', JNum convId),
                                        (''senderId'', JNum me), (''content'', JStr content),
                                        (''contentType'', JStr contentType),
                                        (''clientMessageId'', JStr clientMessageId),
                                        (''createdAt'', createdAt)];
                                  w6 = append_event E targetUserId ''message'' ev w5;
                                  w7 = append_event E me ''message'' ev w6;
                                  notify = [(''messageId'', JNum msgId), (''conversationId'', JNum convId),
                                        (''senderId'', JNum me), (''content'', JStr content),
                                        (''contentType'', JStr contentType), (''createdAt'', createdAt)];
                                  w8 = emit (MessageFor targetUserId NewMessageNotification notify) w7
                              in sendResponse rid SendMessageResponse Ok ''Message sent''
                                   (sent_data msgId convId clientMessageId) w8)))"

section \<open>Acknowledging\<close>

definition aggregated_status :: "nat \<Rightarrow> nat \<Rightarrow> nat \<Rightarrow> string" where
  "aggregated_status expected readCount deliveredCount =
     (if expected > 0 \<and> readCount \<ge> expected then ''read''
      else if expected > 0 \<and> deliveredCount \<ge> expected then ''delivered'' else [])"

definition processAckMessageRequest :: "env \<Rightarrow> packet \<Rightarrow> jobj \<Rightarrow> world \<Rightarrow> world" where
  "processAckMessageRequest E packet request w =
     (let rid = pk_reqid packet; me = w_userId w;
          messageId = jlonglong (jget request ''messageId'');
          status = jstr_or ''delivered'' (jget request ''status'')
      in if messageId \<le> 0 then
           sendResponse rid AckMessageResponse InvalidRequest ''Invalid messageId'' [] w
         else if status \<noteq> ''delivered'' \<and> status \<noteq> ''read'' then
           sendResponse rid AckMessageResponse InvalidRequest
             (''Status must be '' @ [CHR 0x27] @ ''delivered'' @ [CHR 0x27] @ '' or '' @ [CHR 0x27] @ ''read'' @ [CHR 0x27]) [] w
         else case getMessage messageId (w_db w) of
           None \<Rightarrow> sendResponse rid AckMessageResponse MessageNotFound ''Message not found'' [] w
         | Some msg \<Rightarrow>
             if \<not> isConversationMember (mi_conversationId msg) me (w_db w) then
               sendResponse rid AckMessageResponse PermissionDenied
                 ''Not a member of this conversation'' [] w
             else
               let conv = mi_conversationId msg;
                   w1 = snd (on_db (recordMessageReceipt messageId me (w_deviceId w) status (e_now E)) w);
                   w2 = (if status = ''read'' then
                           let wa = snd (on_db (updateMemberReadCursor conv me messageId) w1);
                               readEv = [(''conversationId'', JNum conv), (''readMessageId'', JNum messageId)];
                               wb = append_event E me ''read_cursor'' readEv wa
                           in emit (MessageFor me ReadCursorNotification readEv) wb
                         else w1);
                   expectedRecipients = memberCountExcluding conv (mi_senderId msg) (w_db w2);
                   readCount = receiptUserCount messageId ''read'' (w_db w2);
                   deliveredCount = receiptUserCount messageId ''delivered'' (w_db w2);
                   aggregated = aggregated_status expectedRecipients readCount deliveredCount;
                   w3 = (if aggregated \<noteq> [] \<and> aggregated \<noteq> mi_status msg then
                           let wa = snd (on_db (updateMessageStatus messageId aggregated) w2);
                               wb = emit (MessageFor (mi_senderId msg) MessageStatusUpdate
                                      [(''messageId'', JNum messageId), (''conversationId'', JNum conv),
                                       (''status'', JStr aggregated),
                                       (''deliveredCount'', JNum (int deliveredCount)),
                                       (''readCount'', JNum (int readCount))]) wa
                           in append_event E (mi_senderId msg) ''receipt''
                                [(''messageId'', JNum messageId), (''conversationId'', JNum conv),
                                 (''status'', JStr aggregated), (''byUserId'', JNum me),
                                 (''deliveredCount'', JNum (int deliveredCount)),
                                 (''readCount'', JNum (int readCount))] wb
                         else w2)
               in sendResponse rid AckMessageResponse Ok ''OK''
                    [(''messageId'', JNum messageId), (''status'', JStr status)] w3)"

section \<open>Synchronising\<close>

definition message_json :: "ext \<Rightarrow> message_info \<Rightarrow> jobj" where
  "message_json X m =
     [(''messageId'', JNum (mi_id m)), (''conversationId'', JNum (mi_conversationId m)),
      (''senderId'', JNum (mi_senderId m)), (''senderUsername'', JStr (mi_senderUsername m)),
      (''content'', JStr (mi_content m)), (''contentType'', JStr (mi_contentType m)),
      (''status'', JStr (mi_status m)), (''createdAt'', JStr (x_sqlTime X (mi_createdAt m))),
      (''deleted'', JBool (mi_deleted m))]
     @ (case mi_editedAt m of None \<Rightarrow> []
        | Some t \<Rightarrow> [(''edited'', JBool True), (''editedAt'', JStr (x_sqlTime X t))])"

definition processSyncMessagesRequest :: "env \<Rightarrow> packet \<Rightarrow> jobj \<Rightarrow> world \<Rightarrow> world" where
  "processSyncMessagesRequest E packet request w =
     (let rid = pk_reqid packet; me = w_userId w;
          conversationId = jlonglong (jget request ''conversationId'');
          afterId = jlonglong (jget request ''afterId'');
          limit = jint_or 100 (jget request ''limit'')
      in if conversationId \<le> 0 then
           sendResponse rid SyncMessagesResponse InvalidRequest ''Invalid conversationId'' [] w
         else if \<not> isConversationMember conversationId me (w_db w) then
           sendResponse rid SyncMessagesResponse PermissionDenied ''Not a member of this conversation'' [] w
         else
           let messages = db_syncMessages conversationId afterId limit (w_db w);
               w1 = (if messages \<noteq> [] then
                       snd (on_db (updateMemberReadCursor conversationId me (mi_id (last messages))) w)
                     else w)
           in sendResponse rid SyncMessagesResponse Ok ''OK''
                [(''conversationId'', JNum conversationId),
                 (''messages'', JArr (map (\<lambda>m. JObj (message_json (e_ext E) m)) messages)),
                 (''hasMore'', JBool (int (length messages) \<ge> limit))] w1)"

definition event_json :: "ext \<Rightarrow> event_row \<Rightarrow> jobj" where
  "event_json X e =
     [(''seq'', JNum (ev_seq e)), (''type'', JStr (ev_type e)),
      (''payload'', JObj (case x_parse X (ev_payload e) of Some (JObj ob) \<Rightarrow> ob | _ \<Rightarrow> [])),
      (''createdAt'', JStr (x_sqlTime X (ev_createdAt e)))]"

definition processSyncEventsRequest :: "env \<Rightarrow> packet \<Rightarrow> jobj \<Rightarrow> world \<Rightarrow> world" where
  "processSyncEventsRequest E packet request w =
     (let rid = pk_reqid packet;
          afterSeq = jlonglong (jget request ''afterSeq'');
          limit0 = jint_or 200 (jget request ''limit'')
      in if afterSeq < 0 then
           sendResponse rid SyncEventsResponse InvalidRequest ''Invalid afterSeq'' [] w
         else
           let limit = (if limit0 \<le> 0 \<or> limit0 > 1000 then 200 else limit0);
               prunedBelow = prunedBelowSeq (w_db w)
           in if afterSeq > 0 \<and> afterSeq < prunedBelow then
                sendResponse rid SyncEventsResponse Ok ''OK''
                  [(''events'', JArr []), (''lastSeq'', JNum afterSeq), (''hasMore'', JBool False),
                   (''needsFullSync'', JBool True),
                   (''fullSyncSeq'', JNum (max (maxSyncEventSeq (w_db w)) prunedBelow))] w
              else
                let events = getSyncEvents (w_userId w) afterSeq limit (w_db w)
                in sendResponse rid SyncEventsResponse Ok ''OK''
                     [(''events'', JArr (map (\<lambda>e. JObj (event_json (e_ext E) e)) events)),
                      (''lastSeq'', JNum (if events = [] then afterSeq else ev_seq (last events))),
                      (''hasMore'', JBool (int (length events) \<ge> limit)),
                      (''needsFullSync'', JBool False)] w)"

section \<open>Preferences\<close>

definition processSetConversationPrefsRequest :: "env \<Rightarrow> packet \<Rightarrow> jobj \<Rightarrow> world \<Rightarrow> world" where
  "processSetConversationPrefsRequest E packet request w =
     (let rid = pk_reqid packet; me = w_userId w;
          conversationId = jlonglong (jget request ''conversationId'')
      in if conversationId \<le> 0 then
           sendResponse rid SetConversationPrefsResponse InvalidRequest ''Invalid conversationId'' [] w
         else
           let pinnedVal = jget request ''pinned''; mutedVal = jget request ''muted'';
               hasPinned = (is_JBool pinnedVal \<or> is_JNum pinnedVal);
               hasMuted = (is_JBool mutedVal \<or> is_JNum mutedVal)
           in if \<not> hasPinned \<or> \<not> hasMuted then
                sendResponse rid SetConversationPrefsResponse InvalidRequest
                  ''pinned and muted must be boolean'' [] w
              else
                let pinned = jbool pinnedVal; muted = jbool mutedVal
                in if \<not> isConversationMember conversationId me (w_db w) then
                     sendResponse rid SetConversationPrefsResponse PermissionDenied
                       ''Not a member of this conversation'' [] w
                   else
                     let (ok, w1) = on_db (db_setConversationPrefs conversationId me pinned muted) w
                     in if \<not> ok then
                          sendResponse rid SetConversationPrefsResponse InternalError
                            ''Failed to update conversation preferences'' [] w1
                        else
                          let payload = [(''conversationId'', JNum conversationId),
                                         (''pinned'', JBool pinned), (''muted'', JBool muted)];
                              w2 = append_event E me ''conversation_prefs'' payload w1;
                              w3 = emit (MessageFor me ConversationPrefsNotification payload) w2
                          in sendResponse rid SetConversationPrefsResponse Ok ''OK'' payload w3)"

section \<open>Editing and deleting\<close>

text \<open>The loop that tells the members: an event for each, and a notification.\<close>

fun tell_members :: "env \<Rightarrow> ident list \<Rightarrow> string \<Rightarrow> message_type \<Rightarrow> jobj \<Rightarrow> world \<Rightarrow> world" where
  "tell_members E [] ty mt ev w = w"
| "tell_members E (m # ms) ty mt ev w =
     tell_members E ms ty mt ev (emit (MessageFor m mt ev) (append_event E m ty ev w))"

text \<open>The structural check of an edited content, by its type: \<open>None\<close> when it passes.\<close>

definition edit_refused :: "env \<Rightarrow> string \<Rightarrow> string \<Rightarrow> string \<Rightarrow> string option" where
  "edit_refused E deviceId contentType content =
     (if contentType = ''e2ee_group'' then
        (let (ok, probe, dev) = decodeGroupMessage (e_ext E) content;
             senderDeviceId = (case dev of None \<Rightarrow> [] | Some s \<Rightarrow> s)
         in if \<not> ok \<or> senderDeviceId \<noteq> deviceId
            then Some ''Edited group e2ee content is not a valid envelope'' else None)
      else if contentType = ''text'' then
        (case decodeEnvelope (e_ext E) content of
           None \<Rightarrow> Some ''Edited content must be a valid E2EE envelope'' | Some _ \<Rightarrow> None)
      else None)"

definition processEditMessageRequest :: "env \<Rightarrow> packet \<Rightarrow> jobj \<Rightarrow> world \<Rightarrow> world" where
  "processEditMessageRequest E packet request w =
     (let rid = pk_reqid packet; me = w_userId w;
          messageId = jlonglong (jget request ''messageId'');
          content = jstr (jget request ''content'');
          contentType = jstr (jget request ''contentType'')
      in if messageId \<le> 0 then
           sendResponse rid EditMessageResponse InvalidRequest ''Invalid messageId'' [] w
         else if content = [] \<or> contentType = [] then
           sendResponse rid EditMessageResponse InvalidRequest ''content and contentType are required'' [] w
         else case getMessage messageId (w_db w) of
           None \<Rightarrow> sendResponse rid EditMessageResponse MessageNotFound ''Message not found'' [] w
         | Some msg \<Rightarrow>
             if mi_senderId msg \<noteq> me then
               sendResponse rid EditMessageResponse PermissionDenied
                 ''Only the sender can edit this message'' [] w
             else if mi_deleted msg then
               sendResponse rid EditMessageResponse MessageNotFound ''Message has been deleted'' [] w
             else if mi_contentType msg = ''system'' then
               sendResponse rid EditMessageResponse PermissionDenied
                 ''System messages cannot be edited'' [] w
             else if length content > MaxGroupMessageLength then
               sendResponse rid EditMessageResponse InvalidRequest ''Message content too long'' [] w
             else if contentType \<noteq> mi_contentType msg then
               sendResponse rid EditMessageResponse InvalidRequest
                 ''contentType must match the original message'' [] w
             else (case edit_refused E (w_deviceId w) contentType content of
               Some err \<Rightarrow> sendResponse rid EditMessageResponse E2eeInvalidEnvelope err [] w
             | None \<Rightarrow>
                 let (ok, w1) = on_db (db_editMessage messageId content contentType (e_now E)) w
                 in if \<not> ok then
                      sendResponse rid EditMessageResponse InternalError ''Failed to edit message'' [] w1
                    else
                      let ev = [(''messageId'', JNum messageId),
                                (''conversationId'', JNum (mi_conversationId msg)),
                                (''senderId'', JNum me), (''originDeviceId'', JStr (w_deviceId w)),
                                (''content'', JStr content), (''contentType'', JStr contentType),
                                (''editedAt'', JStr (x_isoTime (e_ext E) (e_now E)))];
                          w2 = tell_members E (getConversationMemberIds (mi_conversationId msg) (w_db w1))
                                 ''message_edited'' EditMessageResponse ev w1
                      in sendResponse rid EditMessageResponse Ok ''OK'' ev w2))"

definition processDeleteMessageRequest :: "env \<Rightarrow> packet \<Rightarrow> jobj \<Rightarrow> world \<Rightarrow> world" where
  "processDeleteMessageRequest E packet request w =
     (let rid = pk_reqid packet; me = w_userId w;
          messageId = jlonglong (jget request ''messageId'')
      in if messageId \<le> 0 then
           sendResponse rid DeleteMessageResponse InvalidRequest ''Invalid messageId'' [] w
         else case getMessage messageId (w_db w) of
           None \<Rightarrow> sendResponse rid DeleteMessageResponse MessageNotFound ''Message not found'' [] w
         | Some msg \<Rightarrow>
             if mi_senderId msg \<noteq> me then
               sendResponse rid DeleteMessageResponse PermissionDenied
                 ''Only the sender can delete this message'' [] w
             else if mi_contentType msg = ''system'' then
               sendResponse rid DeleteMessageResponse PermissionDenied
                 ''System messages cannot be deleted'' [] w
             else
               let (ok, w1) = on_db (db_deleteMessage messageId) w
               in if \<not> ok then
                    sendResponse rid DeleteMessageResponse InternalError ''Failed to delete message'' [] w1
                  else
                    let ev = [(''messageId'', JNum messageId),
                              (''conversationId'', JNum (mi_conversationId msg)),
                              (''senderId'', JNum me), (''originDeviceId'', JStr (w_deviceId w)),
                              (''deletedAt'', JStr (x_isoTime (e_ext E) (e_now E)))];
                        w2 = tell_members E (getConversationMemberIds (mi_conversationId msg) (w_db w1))
                               ''message_deleted'' DeleteMessageResponse ev w1
                    in sendResponse rid DeleteMessageResponse Ok ''OK'' ev w2)"

section \<open>The invariant\<close>

lemma tell_members_inv [inv_intros]:
  "world_inv w \<Longrightarrow> world_inv (tell_members E ms ty mt ev w)"
  by (induction ms arbitrary: w) (simp_all add: append_event_inv)

lemma end_transaction_inv [inv_intros]:
  "db_inv d \<Longrightarrow> db_inv (snd (end_commit b d))"
  "db_inv d \<Longrightarrow> db_inv saved \<Longrightarrow> db_inv (end_rollback b saved d)"
  by (simp_all add: end_commit_def end_rollback_def transaction_inv)

lemma send_private_inv [inv_intros]:
  "world_inv w \<Longrightarrow> world_inv (send_private E p rq cid w)"
  unfolding send_private_def Let_def split_beta
  by (intro world_inv_walk inv_intros) (auto simp: world_inv_def simp del: split_paired_All intro!: inv_intros)

lemma ack_inv [inv_intros]: "world_inv w \<Longrightarrow> world_inv (processAckMessageRequest E p rq w)"
  by (auto simp: processAckMessageRequest_def Let_def world_inv_def
      split: option.splits intro!: inv_intros)

lemma sync_inv [inv_intros]:
  "world_inv w \<Longrightarrow> world_inv (processSyncMessagesRequest E p rq w)"
  "world_inv w \<Longrightarrow> world_inv (processSyncEventsRequest E p rq w)"
  by (auto simp: processSyncMessagesRequest_def processSyncEventsRequest_def Let_def world_inv_def
      intro!: inv_intros)

lemma prefs_inv [inv_intros]:
  "world_inv w \<Longrightarrow> world_inv (processSetConversationPrefsRequest E p rq w)"
  by (auto simp: processSetConversationPrefsRequest_def Let_def split_beta world_inv_def
      intro!: inv_intros)

lemma edit_delete_inv [inv_intros]:
  assumes "world_inv w"
  shows "world_inv (processEditMessageRequest E p rq w)"
    and "world_inv (processDeleteMessageRequest E p rq w)"
proof -
  have "world_inv (w\<lparr>w_db := snd (db_editMessage m c ct now (w_db w))\<rparr>)"
    "world_inv (w\<lparr>w_db := snd (db_deleteMessage m (w_db w))\<rparr>)" for m c ct now
    using assms by (auto simp: world_inv_def intro: inv_intros)
  with assms show "world_inv (processEditMessageRequest E p rq w)"
    and "world_inv (processDeleteMessageRequest E p rq w)"
    by (simp_all add: processEditMessageRequest_def processDeleteMessageRequest_def Let_def split_beta
        tell_members_inv split: option.splits)
qed

end
