(* ===== verification/Handler_Groups.thy ===== *)
theory Handler_Groups
  imports Handler_Keys Handler_Chat
begin

text \<open>
  RequestHandler.cpp: system messages and change notifications of a group, and the group requests:
  create, invite, leave (with the transfer of the ownership), kick, information and sending.
\<close>

section \<open>Telling the members\<close>

text \<open>The fan-out of a message: an event for every member, a push to all but the operator.\<close>

fun fan_out :: "env \<Rightarrow> ident \<Rightarrow> ident list \<Rightarrow> jobj \<Rightarrow> jobj \<Rightarrow> world \<Rightarrow> world" where
  "fan_out E operatorId [] ev notify w = w"
| "fan_out E operatorId (m # ms) ev notify w =
     (let w1 = append_event E m ''message'' ev w;
          w2 = (if m \<noteq> operatorId then emit (MessageFor m NewMessageNotification notify) w1 else w1)
      in fan_out E operatorId ms ev notify w2)"

definition postGroupSystemMessage :: "env \<Rightarrow> ident \<Rightarrow> ident \<Rightarrow> jobj \<Rightarrow> world \<Rightarrow> world" where
  "postGroupSystemMessage E conversationId operatorId payload w =
     (let content = x_compact (e_ext E) (JObj payload);
          (msgId, w1) = on_db (db_sendMessage conversationId operatorId content ''system'' [] []
                          (e_now E)) w
      in if msgId < 0 then w1
         else
           let ev = [(''messageId'', JNum msgId), (''conversationId'', JNum conversationId),
                     (''senderId'', JNum operatorId), (''content'', JStr content),
                     (''contentType'', JStr ''system''),
                     (''createdAt'', JStr (x_isoTime (e_ext E) (e_now E)))];
               notify = ev @ [(''senderUsername'', JStr (usernameById operatorId (w_db w1)))]
           in fan_out E operatorId (getGroupMemberIds conversationId (w_db w1)) ev notify w1)"

fun tell_changed :: "env \<Rightarrow> ident list \<Rightarrow> jobj \<Rightarrow> world \<Rightarrow> world" where
  "tell_changed E [] payload w = w"
| "tell_changed E (m # ms) payload w =
     tell_changed E ms payload
       (emit (MessageFor m GroupChangedNotification payload)
         (append_event E m ''group_changed'' payload w))"

definition notifyGroupChanged :: "env \<Rightarrow> ident \<Rightarrow> string \<Rightarrow> ident \<Rightarrow> ident \<Rightarrow> world \<Rightarrow> world" where
  "notifyGroupChanged E conversationId changeType operatorId targetUserId w =
     (let members = getGroupMemberIds conversationId (w_db w);
          payload = [(''conversationId'', JNum conversationId), (''changeType'', JStr changeType),
                     (''operatorId'', JNum operatorId)]
                    @ (if targetUserId > 0 then [(''targetUserId'', JNum targetUserId)] else [])
                    @ [(''memberCount'', JNum (int (length members)))]
      in tell_changed E members payload w)"

section \<open>Creating a group\<close>

text \<open>The requested members: positive ids, without the creator, each once, in order.\<close>

fun clean_ids :: "ident \<Rightarrow> json list \<Rightarrow> ident list \<Rightarrow> ident list" where
  "clean_ids me [] seen = []"
| "clean_ids me (v # vs) seen =
     (let i = jlonglong v
      in if i \<le> 0 \<or> i = me \<or> i \<in> set seen then clean_ids me vs seen
         else i # clean_ids me vs (i # seen))"

definition processCreateGroupRequest :: "env \<Rightarrow> packet \<Rightarrow> jobj \<Rightarrow> world \<Rightarrow> world" where
  "processCreateGroupRequest E packet request w =
     (let rid = pk_reqid packet; me = w_userId w;
          name = trimmed (jstr (jget request ''name''));
          memberArray = jarr (jget request ''memberIds'');
          memberIds = clean_ids me memberArray []
      in if name = [] \<or> length name > MaxGroupNameLength then
           sendResponse rid CreateGroupResponse InvalidRequest
             (''Group name must be 1-'' @ number (int MaxGroupNameLength) @ '' characters'') [] w
         else if length memberArray > MaxInviteBatch then
           sendResponse rid CreateGroupResponse GroupLimitExceeded
             (''At most '' @ number (int MaxInviteBatch) @ '' members per invite'') [] w
         else if length memberIds + 1 > MaxGroupMembers then
           sendResponse rid CreateGroupResponse GroupLimitExceeded
             (''Group members limited to '' @ number (int MaxGroupMembers)) [] w
         else case find (\<lambda>i. usernameById i (w_db w) = []) memberIds of
           Some i \<Rightarrow> sendResponse rid CreateGroupResponse AccountNotFound
                       (''User '' @ number i @ '' does not exist'') [] w
         | None \<Rightarrow>
             let (convId, w1) = on_db (db_createGroup me name memberIds (e_now E)) w
             in if convId < 0 then
                  sendResponse rid CreateGroupResponse InternalError ''Failed to create group'' [] w1
                else
                  let w2 = postGroupSystemMessage E convId me
                             [(''event'', JStr ''group_created''), (''operatorId'', JNum me),
                              (''name'', JStr name)] w1;
                      w3 = notifyGroupChanged E convId ''group_created'' me 0 w2
                  in sendResponse rid CreateGroupResponse Ok ''Group created''
                       [(''conversationId'', JNum convId), (''name'', JStr name),
                        (''memberCount'', JNum (int (length (getGroupMemberIds convId (w_db w3)))))] w3)"

section \<open>Inviting\<close>

text \<open>The loop that checks the invited users: an error, or the users to add.\<close>

fun check_invited ::
  "ident \<Rightarrow> ident \<Rightarrow> db \<Rightarrow> nat \<Rightarrow> json list \<Rightarrow> ident list \<Rightarrow> ident list \<Rightarrow> (error_code \<times> string) + ident list" where
  "check_invited me convId d currentCount [] seen toAdd = Inr toAdd"
| "check_invited me convId d currentCount (v # vs) seen toAdd =
     (let i = jlonglong v
      in if i \<le> 0 \<or> i = me \<or> i \<in> set seen then check_invited me convId d currentCount vs seen toAdd
         else if usernameById i d = [] then
           Inl (AccountNotFound, ''User '' @ number i @ '' does not exist'')
         else if isConversationMember convId i d then
           Inl (MemberAlreadyExists, ''User '' @ number i @ '' is already in the group'')
         else if currentCount + length toAdd + 1 > MaxGroupMembers then
           Inl (GroupLimitExceeded, ''Group members limited to '' @ number (int MaxGroupMembers))
         else check_invited me convId d currentCount vs (i # seen) (toAdd @ [i]))"

definition processInviteGroupMembersRequest :: "env \<Rightarrow> packet \<Rightarrow> jobj \<Rightarrow> world \<Rightarrow> world" where
  "processInviteGroupMembersRequest E packet request w =
     (let rid = pk_reqid packet; me = w_userId w;
          convId = jlonglong (jget request ''conversationId'')
      in if convId \<le> 0 then
           sendResponse rid InviteGroupMembersResponse InvalidRequest ''Invalid conversationId'' [] w
         else if \<not> is_group (getConversation convId (w_db w)) then
           sendResponse rid InviteGroupMembersResponse ConversationNotFound ''Group not found'' [] w
         else if \<not> isConversationMember convId me (w_db w) then
           sendResponse rid InviteGroupMembersResponse PermissionDenied
             ''Not a member of this group'' [] w
         else
           let userArray = jarr (jget request ''userIds'')
           in if userArray = [] then
                sendResponse rid InviteGroupMembersResponse InvalidRequest ''userIds is required'' [] w
              else if length userArray > MaxInviteBatch then
                sendResponse rid InviteGroupMembersResponse GroupLimitExceeded
                  (''At most '' @ number (int MaxInviteBatch) @ '' members per invite'') [] w
              else (case check_invited me convId (w_db w)
                           (length (getGroupMemberIds convId (w_db w))) userArray [] [] of
                  Inl (code, err) \<Rightarrow> sendResponse rid InviteGroupMembersResponse code err [] w
                | Inr toAdd \<Rightarrow>
                    if toAdd = [] then
                      sendResponse rid InviteGroupMembersResponse InvalidRequest
                        ''No valid users to invite'' [] w
                    else
                      let (ok, w1) = on_db (addGroupMembers convId toAdd (e_now E)) w
                      in if \<not> ok then
                           sendResponse rid InviteGroupMembersResponse InternalError
                             ''Failed to add members'' [] w1
                         else
                           let addedArray = JArr (map JNum toAdd);
                               w2 = postGroupSystemMessage E convId me
                                      [(''event'', JStr ''member_added''), (''operatorId'', JNum me),
                                       (''targetUserIds'', addedArray)] w1;
                               w3 = notifyGroupChanged E convId ''member_added'' me (hd toAdd) w2
                           in sendResponse rid InviteGroupMembersResponse Ok ''Members invited''
                                [(''conversationId'', JNum convId), (''added'', addedArray),
                                 (''memberCount'',
                                    JNum (int (length (getGroupMemberIds convId (w_db w3)))))] w3))"

section \<open>Leaving and kicking\<close>

text \<open>The first other member in the order of getGroupMembers, 0 when there is none.\<close>

definition successor_of :: "ext \<Rightarrow> ident \<Rightarrow> ident \<Rightarrow> db \<Rightarrow> ident" where
  "successor_of X convId me d =
     (case find (\<lambda>i. i \<noteq> me)
            (map (\<lambda>m. jlonglong (jget m ''userId'')) (getGroupMembers X convId d)) of
        None \<Rightarrow> 0 | Some i \<Rightarrow> i)"

definition transfer_ownership :: "env \<Rightarrow> ident \<Rightarrow> world \<Rightarrow> world" where
  "transfer_ownership E convId w =
     (let me = w_userId w;
          successor = successor_of (e_ext E) convId me (w_db w)
      in if successor > 0 then
           let w1 = snd (on_db (updateMemberRole convId successor ''owner'') w);
               w2 = postGroupSystemMessage E convId me
                      [(''event'', JStr ''owner_transferred''), (''operatorId'', JNum me),
                       (''newOwnerId'', JNum successor)] w1
           in notifyGroupChanged E convId ''owner_transferred'' me successor w2
         else w)"

definition processLeaveGroupRequest :: "env \<Rightarrow> packet \<Rightarrow> jobj \<Rightarrow> world \<Rightarrow> world" where
  "processLeaveGroupRequest E packet request w =
     (let rid = pk_reqid packet; me = w_userId w;
          convId = jlonglong (jget request ''conversationId'')
      in if convId \<le> 0 then
           sendResponse rid LeaveGroupResponse InvalidRequest ''Invalid conversationId'' [] w
         else if \<not> is_group (getConversation convId (w_db w)) then
           sendResponse rid LeaveGroupResponse ConversationNotFound ''Group not found'' [] w
         else
           let role = groupRole convId me (w_db w)
           in if role = [] then
                sendResponse rid LeaveGroupResponse MemberNotFound ''Not a member of this group'' [] w
              else
                let w1 = (if role = ''owner'' then transfer_ownership E convId w else w);
                    (removed, w2) = on_db (removeGroupMember convId me) w1
                in if \<not> removed then
                     sendResponse rid LeaveGroupResponse InternalError ''Failed to leave group'' [] w2
                   else
                     let w3 = postGroupSystemMessage E convId me
                                [(''event'', JStr ''member_left''), (''operatorId'', JNum me)] w2;
                         w4 = notifyGroupChanged E convId ''member_left'' me me w3
                     in sendResponse rid LeaveGroupResponse Ok ''Left group''
                          [(''conversationId'', JNum convId)] w4)"

definition may_kick :: "string \<Rightarrow> string \<Rightarrow> bool" where
  "may_kick myRole targetRole \<longleftrightarrow> (myRole = ''owner'' \<and> targetRole \<noteq> ''owner'')
     \<or> (myRole = ''admin'' \<and> targetRole = ''member'')"

definition processKickGroupMemberRequest :: "env \<Rightarrow> packet \<Rightarrow> jobj \<Rightarrow> world \<Rightarrow> world" where
  "processKickGroupMemberRequest E packet request w =
     (let rid = pk_reqid packet; me = w_userId w;
          convId = jlonglong (jget request ''conversationId'');
          targetUserId = jlonglong (jget request ''userId'')
      in if convId \<le> 0 \<or> targetUserId \<le> 0 then
           sendResponse rid KickGroupMemberResponse InvalidRequest
             ''Invalid conversationId or userId'' [] w
         else if \<not> is_group (getConversation convId (w_db w)) then
           sendResponse rid KickGroupMemberResponse ConversationNotFound ''Group not found'' [] w
         else if targetUserId = me then
           sendResponse rid KickGroupMemberResponse InvalidRequest
             ''Cannot kick yourself, use leave_group'' [] w
         else
           let myRole = groupRole convId me (w_db w);
               targetRole = groupRole convId targetUserId (w_db w)
           in if targetRole = [] then
                sendResponse rid KickGroupMemberResponse MemberNotFound
                  ''Target is not a member of this group'' [] w
              else if \<not> may_kick myRole targetRole then
                sendResponse rid KickGroupMemberResponse NotGroupOwner
                  ''Insufficient role to remove this member'' [] w
              else
                let (removed, w1) = on_db (removeGroupMember convId targetUserId) w
                in if \<not> removed then
                     sendResponse rid KickGroupMemberResponse InternalError
                       ''Failed to remove member'' [] w1
                   else
                     let w2 = postGroupSystemMessage E convId me
                                [(''event'', JStr ''member_removed''), (''operatorId'', JNum me),
                                 (''targetUserId'', JNum targetUserId)] w1;
                         w3 = notifyGroupChanged E convId ''member_removed'' me targetUserId w2
                     in sendResponse rid KickGroupMemberResponse Ok ''Member removed''
                          [(''conversationId'', JNum convId),
                           (''removedUserId'', JNum targetUserId)] w3)"

section \<open>Information\<close>

definition processGetGroupInfoRequest :: "env \<Rightarrow> packet \<Rightarrow> jobj \<Rightarrow> world \<Rightarrow> world" where
  "processGetGroupInfoRequest E packet request w =
     (let rid = pk_reqid packet;
          convId = jlonglong (jget request ''conversationId'')
      in if convId \<le> 0 then
           sendResponse rid GetGroupInfoResponse InvalidRequest ''Invalid conversationId'' [] w
         else case getConversation convId (w_db w) of
           None \<Rightarrow> sendResponse rid GetGroupInfoResponse ConversationNotFound ''Group not found'' [] w
         | Some conv \<Rightarrow>
             if ci_type conv \<noteq> ''group'' then
               sendResponse rid GetGroupInfoResponse ConversationNotFound ''Group not found'' [] w
             else
               let myRole = groupRole convId (w_userId w) (w_db w)
               in if myRole = [] then
                    sendResponse rid GetGroupInfoResponse PermissionDenied
                      ''Not a member of this group'' [] w
                  else
                    let members = getGroupMembers (e_ext E) convId (w_db w)
                    in sendResponse rid GetGroupInfoResponse Ok ''OK''
                         [(''conversationId'', JNum convId), (''name'', JStr (ci_name conv)),
                          (''memberCount'', JNum (int (length members))),
                          (''myRole'', JStr myRole),
                          (''members'', JArr (map JObj members))] w)"

section \<open>Sending to a group\<close>

text \<open>The check of the content by its type: the error text, or the prekeys a distribution uses.\<close>

definition check_group_content :: "ext \<Rightarrow> ident \<Rightarrow> string \<Rightarrow> string \<Rightarrow> string + ident list" where
  "check_group_content X conversationId contentType content =
     (if contentType = ''e2ee_group'' then
        (let (ok, probe, dev) = decodeGroupMessage X content;
             senderDeviceId = (case dev of None \<Rightarrow> [] | Some s \<Rightarrow> s)
         in if \<not> ok \<or> senderDeviceId = []
            then Inl ''Group e2ee content is not a valid envelope'' else Inr [])
      else if contentType = ''sender_key_distribution'' then
        (let (ok, dist) = decodeDistribution X content
         in if \<not> ok \<or> di_entries dist = [] \<or> di_groupId dist \<noteq> conversationId
            then Inl ''sender_key_distribution content is not a valid envelope''
            else Inr (filter (\<lambda>i. i > 0) (map (\<lambda>e. ee_prekeyId (de_envelope e)) (di_entries dist))))
      else Inr [])"

definition processSendGroupMessage :: "env \<Rightarrow> packet \<Rightarrow> jobj \<Rightarrow> ident \<Rightarrow> string \<Rightarrow> world \<Rightarrow> world" where
  "processSendGroupMessage E packet request conversationId clientMessageId w =
     (let rid = pk_reqid packet; X = e_ext E; me = w_userId w;
          content = jstr (jget request ''content'');
          contentType = jstr_or ''text'' (jget request ''contentType'')
      in case getConversation conversationId (w_db w) of
           None \<Rightarrow> sendResponse rid SendMessageResponse ConversationNotFound ''Conversation not found'' [] w
         | Some conv \<Rightarrow>
         if ci_type conv \<noteq> ''group'' then
           sendResponse rid SendMessageResponse InvalidRequest
             ''conversationId refers to a private conversation, use toUserId'' [] w
         else if \<not> isConversationMember conversationId me (w_db w) then
           sendResponse rid SendMessageResponse PermissionDenied ''Not a member of this group'' [] w
         else if content = [] then
           sendResponse rid SendMessageResponse InvalidRequest ''Message content is empty'' [] w
         else if length content > MaxGroupMessageLength then
           sendResponse rid SendMessageResponse InvalidRequest ''Message content too long'' [] w
         else if contentType \<noteq> ''text'' \<and> contentType \<noteq> ''sender_key_distribution''
                 \<and> contentType \<noteq> ''e2ee_group'' then
           sendResponse rid SendMessageResponse InvalidRequest
             ''Unsupported group message content type'' [] w
         else (case check_group_content X conversationId contentType content of
           Inl err \<Rightarrow> sendResponse rid SendMessageResponse E2eeInvalidEnvelope err [] w
         | Inr distPrekeyIds \<Rightarrow>
         (case getMessageByClientKey me (w_deviceId w) clientMessageId (w_db w) of
            Some existing \<Rightarrow>
              sendResponse rid SendMessageResponse Ok ''Message sent''
                (reused_data existing clientMessageId) w
          | None \<Rightarrow>
              let (msgId, w1) = on_db (db_sendMessage conversationId me content contentType
                                  clientMessageId (w_deviceId w) (e_now E)) w
              in if msgId < 0 then
                   sendResponse rid SendMessageResponse InternalError ''Failed to send message'' [] w1
                 else
                   let w2 = (if distPrekeyIds \<noteq> [] then snd (on_db (consumePrekeys distPrekeyIds) w1)
                             else w1);
                       ev = [(''messageId'', JNum msgId), (''conversationId'', JNum conversationId),
                             (''senderId'', JNum me), (''content'', JStr content),
                             (''contentType'', JStr contentType),
                             (''clientMessageId'', JStr clientMessageId),
                             (''createdAt'', JStr (x_isoTime X (e_now E)))];
                       notify = ev @ [(''senderUsername'', JStr (usernameById me (w_db w2)))];
                       w3 = fan_out E me (getGroupMemberIds conversationId (w_db w2)) ev notify w2
                   in sendResponse rid SendMessageResponse Ok ''Message sent''
                        (sent_data msgId conversationId clientMessageId) w3)))"

section \<open>The invariant\<close>

lemma fan_out_inv [inv_intros]: "world_inv w \<Longrightarrow> world_inv (fan_out E op ms ev nt w)"
  by (induction ms arbitrary: w) (simp_all add: Let_def append_event_inv)

lemma tell_changed_inv [inv_intros]: "world_inv w \<Longrightarrow> world_inv (tell_changed E ms pl w)"
  by (induction ms arbitrary: w) (simp_all add: append_event_inv)

lemma group_messages_inv [inv_intros]:
  "world_inv w \<Longrightarrow> world_inv (postGroupSystemMessage E c u pl w)"
  "world_inv w \<Longrightarrow> world_inv (notifyGroupChanged E c ty u t w)"
  by (auto simp: postGroupSystemMessage_def notifyGroupChanged_def Let_def split_beta
      intro!: world_inv_db inv_intros)

lemma transfer_ownership_inv [inv_intros]:
  "world_inv w \<Longrightarrow> world_inv (transfer_ownership E c w)"
  by (auto simp: transfer_ownership_def Let_def intro!: world_inv_db inv_intros)

lemma group_handlers_inv [inv_intros]:
  assumes "world_inv w"
  shows "world_inv (processCreateGroupRequest E p rq w)"
    and "world_inv (processInviteGroupMembersRequest E p rq w)"
    and "world_inv (processLeaveGroupRequest E p rq w)"
    and "world_inv (processKickGroupMemberRequest E p rq w)"
    and "world_inv (processGetGroupInfoRequest E p rq w)"
    and "world_inv (processSendGroupMessage E p rq c cid w)"
proof -
  show "world_inv (processCreateGroupRequest E p rq w)"
    unfolding processCreateGroupRequest_def Let_def split_beta
    by (intro world_inv_walk assms inv_intros)
  show "world_inv (processInviteGroupMembersRequest E p rq w)"
    unfolding processInviteGroupMembersRequest_def Let_def split_beta
    by (intro world_inv_walk assms inv_intros)
  show "world_inv (processLeaveGroupRequest E p rq w)"
    unfolding processLeaveGroupRequest_def Let_def split_beta
    by (intro world_inv_walk assms inv_intros)
  show "world_inv (processKickGroupMemberRequest E p rq w)"
    unfolding processKickGroupMemberRequest_def Let_def split_beta
    by (intro world_inv_walk assms inv_intros)
  show "world_inv (processGetGroupInfoRequest E p rq w)"
    unfolding processGetGroupInfoRequest_def Let_def split_beta
    by (intro world_inv_walk assms inv_intros)
  show "world_inv (processSendGroupMessage E p rq c cid w)"
    unfolding processSendGroupMessage_def Let_def split_beta
    by (intro world_inv_walk assms inv_intros)
qed

end
