(* ===== verification/Handler_Dispatch.thy ===== *)
theory Handler_Dispatch
  imports Handler_Groups
begin

text \<open>
  RequestHandler.cpp: the dispatch of a packet to its handler behind the replay check and the
  session check, the receive loop of a connection, the idle timeout and the end of a connection.
\<close>

section \<open>The send request\<close>

definition processSendMessageRequest :: "env \<Rightarrow> packet \<Rightarrow> jobj \<Rightarrow> world \<Rightarrow> world" where
  "processSendMessageRequest E packet request w =
     (let rid = pk_reqid packet;
          clientMessageId = trimmed (jstr (jget request ''clientMessageId''))
      in if clientMessageId = [] \<or> length clientMessageId > 128 then
           sendResponse rid SendMessageResponse InvalidRequest ''clientMessageId is required'' [] w
         else
           let (allowed, win) = allow (e_now E) (w_sendWindow w);
               w1 = w\<lparr>w_sendWindow := win\<rparr>
           in if \<not> allowed then
                sendResponse rid SendMessageResponse RateLimited
                  ''Too many messages, please slow down'' [] w1
              else
                let groupConvId = jlonglong (jget request ''conversationId'')
                in if groupConvId > 0
                   then processSendGroupMessage E packet request groupConvId clientMessageId w1
                   else send_private E packet request clientMessageId w1)"

section \<open>Dispatch\<close>

text \<open>A request is recognised by the packet's type or by the \<open>type\<close> member of its JSON.\<close>

definition is_request :: "packet \<Rightarrow> jobj \<Rightarrow> message_type \<Rightarrow> string \<Rightarrow> bool" where
  "is_request packet json mt name \<longleftrightarrow>
     pk_type packet = mt_code mt \<or> jstr (jget json ''type'') = name"

definition dispatch :: "env \<Rightarrow> packet \<Rightarrow> jobj \<Rightarrow> world \<Rightarrow> world" where
  "dispatch E packet json w =
     (let is = is_request packet json
      in if is LogoutRequest ''logout'' then processLogoutRequest E packet w
         else if is TokenRenewRequest ''token_renew'' then processTokenRenewRequest E packet json w
         else if is ForceLogoutRequest ''force_logout''
              \<or> jstr (jget json ''type'') = ''terminate_session'' then
           processTerminateSessionRequest E packet json w
         else if is SearchUsersRequest ''search_users'' then processSearchUsersRequest E packet json w
         else if is AddContactRequest ''add_contact'' then processAddContactRequest E packet json w
         else if is GetContactsRequest ''get_contacts'' then processGetContactsRequest E packet w
         else if is GetConversationsRequest ''get_conversations'' then
           processGetConversationsRequest E packet w
         else if is SendMessageRequest ''send_message'' then processSendMessageRequest E packet json w
         else if is AckMessageRequest ''ack_message'' then processAckMessageRequest E packet json w
         else if is SyncMessagesRequest ''sync_messages'' then
           processSyncMessagesRequest E packet json w
         else if is SyncEventsRequest ''sync_events'' then processSyncEventsRequest E packet json w
         else if is RegisterKeysRequest ''register_keys'' then
           processRegisterKeysRequest E packet json w
         else if is FetchKeysRequest ''fetch_keys'' then processFetchKeysRequest E packet json w
         else if is CreateGroupRequest ''create_group'' then processCreateGroupRequest E packet json w
         else if is InviteGroupMembersRequest ''invite_group_members'' then
           processInviteGroupMembersRequest E packet json w
         else if is LeaveGroupRequest ''leave_group'' then processLeaveGroupRequest E packet json w
         else if is KickGroupMemberRequest ''kick_group_member'' then
           processKickGroupMemberRequest E packet json w
         else if is GetGroupInfoRequest ''get_group_info'' then
           processGetGroupInfoRequest E packet json w
         else if is FetchGroupKeysRequest ''fetch_group_keys'' then
           processFetchGroupKeysRequest E packet json w
         else if is SetConversationPrefsRequest ''set_conversation_prefs'' then
           processSetConversationPrefsRequest E packet json w
         else if is EditMessageRequest ''edit_message'' then processEditMessageRequest E packet json w
         else if is DeleteMessageRequest ''delete_message'' then
           processDeleteMessageRequest E packet json w
         else sendResponse (pk_reqid packet) ErrorPacket InvalidRequest
                (''Unknown request type: '' @ jstr (jget json ''type'')) [] w)"

definition processPacket :: "env \<Rightarrow> packet \<Rightarrow> world \<Rightarrow> world" where
  "processPacket E packet w =
     (let rid = pk_reqid packet
      in if pk_type packet = mt_code Ping then emit (PongReply rid) w
         else case x_fromJson (e_ext E) (pk_payload packet) of
           Some (JObj json) \<Rightarrow>
             let (fresh, w1) = (if pk_type packet \<noteq> mt_code Ping \<and> pk_type packet \<noteq> mt_code Pong
                                then checkReplayProtection E json w else (True, w))
             in if \<not> fresh then
                  sendResponse rid ErrorPacket ReplayRejected ''Replay protection check failed'' [] w1
                else if is_request packet json RegisterRequest ''register'' then
                  processRegisterRequest E packet json w1
                else if is_request packet json LoginRequest ''login'' then
                  processLoginRequest E packet json w1
                else if \<not> validateSession E json w1 then
                  sendResponse rid ErrorPacket SessionInvalid ''Authentication required'' [] w1
                else
                  dispatch E packet json
                    (snd (on_db (updateSessionLastActive (w_sessionId w1) (e_now E)) w1))
         | _ \<Rightarrow> sendResponse rid ErrorPacket InvalidRequest ''Invalid JSON payload'' [] w)"

section \<open>The connection\<close>

text \<open>\<open>es i\<close> is the environment of the \<open>i\<close>-th packet of a chunk.\<close>

fun process_all :: "(nat \<Rightarrow> env) \<Rightarrow> nat \<Rightarrow> packet list \<Rightarrow> world \<Rightarrow> world" where
  "process_all es i [] w = w"
| "process_all es i (p # ps) w = process_all es (i + 1) ps (processPacket (es i) p w)"

definition onReadyRead :: "(nat \<Rightarrow> env) \<Rightarrow> bytes \<Rightarrow> world \<Rightarrow> world" where
  "onReadyRead es data w =
     (let (packets, failure, rest) = drain (appendData (w_buffer w) data);
          w1 = (process_all es 0 packets w)\<lparr>w_buffer := rest\<rparr>
      in case failure of
           None \<Rightarrow> w1
         | Some errorMessage \<Rightarrow>
             emit CloseConnection (sendResponse 0 ErrorPacket InvalidRequest errorMessage [] w1))"

definition onIdleTimeout :: "world \<Rightarrow> world" where
  "onIdleTimeout w = emit CloseConnection (sendResponse 0 ErrorPacket Timeout ''Idle timeout'' [] w)"

definition end_of_run :: "world \<Rightarrow> world" where
  "end_of_run w =
     (if w_sessionId w > 0 then emit (UserLoggedOut (w_userId w) (w_sessionId w)) w else w)"

section \<open>The invariant\<close>

lemma processSendMessageRequest_inv [inv_intros]:
  assumes "world_inv w"
  shows "world_inv (processSendMessageRequest E p rq w)"
  unfolding processSendMessageRequest_def Let_def split_beta
  by (intro world_inv_walk assms send_private_inv group_handlers_inv world_inv_window)

lemma dispatch_inv: "world_inv w \<Longrightarrow> world_inv (dispatch E p js w)"
  unfolding dispatch_def Let_def
  by (intro world_inv_walk account_handlers_inv processSendMessageRequest_inv ack_inv sync_inv
      prefs_inv edit_delete_inv key_handlers_inv group_handlers_inv; assumption)

lemma processPacket_inv:
  assumes "world_inv w"
  shows "world_inv (processPacket E p w)"
proof -
  let ?check = "\<lambda>js. if pk_type p \<noteq> mt_code Ping \<and> pk_type p \<noteq> mt_code Pong
       then checkReplayProtection E js w else (True, w)"
  have check: "world_inv (snd (?check js))" for js
    using assms by (simp add: checkReplayProtection_inv)
  then show ?thesis
    unfolding processPacket_def Let_def split_beta
    by (auto intro!: world_inv_walk(1) account_handlers_inv dispatch_inv
        world_inv_walk(5) inv_intros simp del: on_db_simps simp: assms split: option.splits json.splits)
qed

lemma process_all_inv: "world_inv w \<Longrightarrow> world_inv (process_all es i ps w)"
  by (induction ps arbitrary: i w) (simp_all add: processPacket_inv)

lemma onReadyRead_inv: "world_inv w \<Longrightarrow> world_inv (onReadyRead es data w)"
  by (simp add: onReadyRead_def Let_def split_beta process_all_inv split: option.splits)

end
