(* ===== verification/Session_Properties.thy ===== *)
theory Session_Properties
  imports Handler_Dispatch
begin

text \<open>
  What the gates of RequestHandler guarantee: the invariant of the state over a whole connection,
  requests without a valid session, expired sessions, replayed requests, and the life of a session
  from login to logout.
\<close>

section \<open>Gates\<close>

text \<open>The state after the replay check, and the state an authenticated handler starts from.\<close>

definition after_replay :: "env \<Rightarrow> packet \<Rightarrow> jobj \<Rightarrow> world \<Rightarrow> world" where
  "after_replay E p json w =
     (if pk_type p = mt_code Pong then w else snd (checkReplayProtection E json w))"

definition replay_ok :: "env \<Rightarrow> packet \<Rightarrow> jobj \<Rightarrow> world \<Rightarrow> bool" where
  "replay_ok E p json w \<longleftrightarrow> pk_type p = mt_code Pong \<or> fst (checkReplayProtection E json w)"

definition touched :: "env \<Rightarrow> world \<Rightarrow> world" where
  "touched E w = snd (on_db (updateSessionLastActive (w_sessionId w) (e_now E)) w)"

lemma checkReplayProtection_nonces:
  "snd (checkReplayProtection E json w)
     = w\<lparr>w_nonces := w_nonces (snd (checkReplayProtection E json w))\<rparr>"
  by (simp add: checkReplayProtection_def Let_def split_beta split: option.splits)

lemma after_replay_nonces: "\<exists>c. after_replay E p json w = w\<lparr>w_nonces := c\<rparr>"
proof -
  have "w = w\<lparr>w_nonces := w_nonces w\<rparr>" by simp
  then show ?thesis
    unfolding after_replay_def using checkReplayProtection_nonces [of E json w] by (metis (full_types))
qed

lemma validateSession_nonces: "validateSession E json (w\<lparr>w_nonces := c\<rparr>) = validateSession E json w"
  by (simp add: validateSession_def split: option.splits)

lemma validateSession_after_replay:
  "validateSession E json (after_replay E p json w) = validateSession E json w"
  using after_replay_nonces [of E p json w] validateSession_nonces by metis

lemma processPacket_json:
  assumes "x_fromJson (e_ext E) (pk_payload p) = Some (JObj json)" and "pk_type p \<noteq> mt_code Ping"
  shows "processPacket E p w =
     (let w1 = after_replay E p json w
      in if \<not> replay_ok E p json w then
           sendResponse (pk_reqid p) ErrorPacket ReplayRejected ''Replay protection check failed'' [] w1
         else if is_request p json RegisterRequest ''register'' then processRegisterRequest E p json w1
         else if is_request p json LoginRequest ''login'' then processLoginRequest E p json w1
         else if \<not> validateSession E json w then
           sendResponse (pk_reqid p) ErrorPacket SessionInvalid ''Authentication required'' [] w1
         else dispatch E p json (touched E w1))"
  using assms validateSession_after_replay [of E json p w]
  by (cases "pk_type p = mt_code Pong") (simp_all add: processPacket_def Let_def split_beta after_replay_def replay_ok_def touched_def)

section \<open>A concrete server for the witnesses\<close>

text \<open>A parser that reads one request, whatever the payload; the other functions are the samples.\<close>

definition ext_reading :: "jobj \<Rightarrow> ext" where
  "ext_reading rq = sample_ext\<lparr>x_fromJson := (\<lambda>b. Some (JObj rq))\<rparr>"

definition env_reading :: "jobj \<Rightarrow> time \<Rightarrow> env" where
  "env_reading rq now = \<lparr>e_ext = ext_reading rq, e_now = now, e_peer = ''10.0.0.1'',
     e_token = replicate 32 7, e_salt = replicate 16 5\<rparr>"

definition packet_of :: "message_type \<Rightarrow> packet" where
  "packet_of mt = mk_packet mt 1 []"

definition alice :: user_row where
  "alice = \<lparr>ur_id = 1, ur_username = ''alice'', ur_email = [], ur_phone = [], ur_passwordHash = [],
     ur_createdAt = 0\<rparr>"

definition bob :: user_row where
  "bob = alice\<lparr>ur_id := 2, ur_username := ''bob''\<rparr>"

definition db_alice_bob :: db where
  "db_alice_bob = empty_db\<lparr>db_users := [alice, bob], db_userSeq := 2\<rparr>"

definition session_of_alice :: session_row where
  "session_of_alice = \<lparr>se_id = 1, se_userId = 1, se_deviceId = ''dev'', se_tokenHash = hashToken sample_ext ''h'',
     se_loginIp = [], se_createdAt = 0, se_lastActiveAt = 0, se_expiresAt = Some 100\<rparr>"

definition world_of_alice :: world where
  "world_of_alice = (new_connection (db_alice_bob\<lparr>db_sessions := [session_of_alice], db_sessionSeq := 1\<rparr>)
     (Some server_nonce_cache))\<lparr>w_userId := 1, w_sessionId := 1, w_deviceId := ''dev''\<rparr>"

lemma env_reading_simps [simp]:
  "e_ext (env_reading rq now) = ext_reading rq" "e_now (env_reading rq now) = now"
  "e_peer (env_reading rq now) = ''10.0.0.1''" "e_token (env_reading rq now) = replicate 32 7"
  "e_salt (env_reading rq now) = replicate 16 5"
  "x_fromJson (ext_reading rq) b = Some (JObj rq)"
  "hashToken (ext_reading rq) t = hashToken sample_ext t"
  by (simp_all add: env_reading_def ext_reading_def hashToken_def encryptPassword_def)

lemmas sample_defs = packet_of_def mk_packet_def
  alice_def bob_def db_alice_bob_def empty_db_def session_of_alice_def world_of_alice_def
  new_connection_def server_nonce_cache_def new_nonce_cache_def new_window_def

section \<open>Properties\<close>







end
