(* ===== verification/Account_Properties.thy ===== *)
theory Account_Properties
  imports Session_Properties
begin

text \<open>
  The life of an account and of its sessions through the handlers: registration and login, what a
  login makes valid, renewal, logout and termination, and the limit on failed logins.
\<close>

section \<open>Sessions in the database\<close>

definition new_session ::
  "ident \<Rightarrow> ident \<Rightarrow> string \<Rightarrow> string \<Rightarrow> string \<Rightarrow> int \<Rightarrow> time \<Rightarrow> session_row" where
  "new_session sid u dev h ip ttl now = \<lparr>se_id = sid, se_userId = u, se_deviceId = dev,
     se_tokenHash = h, se_loginIp = ip, se_createdAt = now, se_lastActiveAt = now,
     se_expiresAt = Some (now + ttl)\<rparr>"

lemma createSession_success:
  assumes "db_inv d" and "0 \<le> fst (createSession u dev h ip ttl now d)"
  defines "sid \<equiv> fst (createSession u dev h ip ttl now d)"
    and "d' \<equiv> snd (createSession u dev h ip ttl now d)"
  shows "0 < sid" "getSessionById sid d' = Some (new_session sid u dev h ip ttl now)"
    "u \<in> user_ids d" "db_sessions d' = db_sessions d @ [new_session sid u dev h ip ttl now]"
proof -
  let ?ok = "\<lambda>d. has_user u d \<and> \<not> exists_where (\<lambda>s. se_tokenHash s = h) (db_sessions d)"
  let ?ins = "insert_session (u, dev, h, ip, now, ttl)"
  have k: "keys_ok se_id (db_sessions d) (db_sessionSeq d)"
    using assms(1) by (simp add: db_inv_def sessions_ok_def)
  then have pos: "0 \<le> db_sessionSeq d" by (simp add: keys_ok_def)
  obtain fs where e: "exec_stmt ?ok ?ins d = (True, ?ins (d\<lparr>db_faults := fs\<rparr>))"
    and al: "?ok (d\<lparr>db_faults := fs\<rparr>)"
  proof (rule exec_stmt_cases [of ?ok ?ins d])
    fix fs assume "exec_stmt ?ok ?ins d = (False, d\<lparr>db_faults := fs\<rparr>)"
    with assms(2) show thesis by (simp add: createSession_def)
  qed (rule that)
  have sid: "sid = db_sessionSeq d + 1" and d': "d' = ?ins (d\<lparr>db_faults := fs\<rparr>)"
    using e by (simp_all add: sid_def d'_def createSession_def insert_session_def)
  show "0 < sid" using sid pos by simp
  have row: "mk_session sid (u, dev, h, ip, now, ttl) x = new_session sid u dev h ip ttl now" for x
    by (simp add: mk_session_def new_session_def)
  show "getSessionById sid d' = Some (new_session sid u dev h ip ttl now)"
    using sessionsT.find_new [of "d\<lparr>db_faults := fs\<rparr>" "(u, dev, h, ip, now, ttl)"] k
    by (simp add: getSessionById_def d' sid row [unfolded sid])
  show "db_sessions d' = db_sessions d @ [new_session sid u dev h ip ttl now]"
    by (simp add: d' insert_session_def row [unfolded sid] sid)
  show "u \<in> user_ids d"
    using al by (simp add: has_iff)
qed

lemma recordLoginAttempt_sessions [simp]:
  "db_sessions (recordLoginAttempt u ip ok why now d) = db_sessions d"
  "db_users (recordLoginAttempt u ip ok why now d) = db_users d"
  unfolding recordLoginAttempt_def by (rule exec_stmt_frame; simp)+

lemma getSessionById_frame: "db_sessions d = db_sessions d' \<Longrightarrow> getSessionById i d = getSessionById i d'"
  by (simp add: getSessionById_def)

text \<open>What a connection accepts whose session row is the one of a login at time \<open>now\<close>.\<close>

lemma validateSession_new:
  assumes "getSessionById (w_sessionId w) (w_db w) = Some (new_session sid u dev h ip ttl now)"
    and "0 < w_sessionId w" "0 < u" "w_userId w = u"
  shows "validateSession E rq w \<longleftrightarrow> jstr (jget rq ''token'') \<noteq> []
     \<and> hashToken (e_ext E) (jstr (jget rq ''token'')) = h
     \<and> (jstr (jget rq ''type'') = ''token_renew'' \<or> e_now E \<le> now + ttl)"
  using assms by (auto simp: validateSession_def Let_def new_session_def)

lemma login_success:
  assumes "db_inv (w_db w)"
    and "Reply rid LoginResponse Ok msg data
         \<in> set (w_outs (processLoginRequest E p rq (w\<lparr>w_outs := []\<rparr>)))"
  defines "w' \<equiv> processLoginRequest E p rq w"
  obtains user sid where
    "getUserByUsername (trimmed (jstr (jget rq ''username''))) (w_db w) = Some user"
    "verifyPassword (e_ext E) (jstr (jget rq ''password'')) (ur_passwordHash user)"
    "\<not> checkRateLimit E (ur_id user) (w_db w)"
    "w_userId w' = ur_id user" "w_sessionId w' = sid" "0 < sid" "0 < ur_id user"
    "w_deviceId w' = jstr (jget rq ''deviceId'')"
    "getSessionById sid (w_db w') = Some (new_session sid (ur_id user) (jstr (jget rq ''deviceId''))
        (hashToken (e_ext E) (generateToken (e_token E))) (e_peer E) default_session_ttl (e_now E))"
proof -
  let ?name = "trimmed (jstr (jget rq ''username''))" and ?pw = "jstr (jget rq ''password'')"
  let ?dev = "jstr (jget rq ''deviceId'')"
  obtain user where u: "getUserByUsername ?name (w_db w) = Some user"
    using assms(2) by (fastforce simp: processLoginRequest_def Let_def split_beta split: if_splits option.splits)
  let ?h = "hashToken (e_ext E) (generateToken (e_token E))"
  let ?d1 = "snd (registerDevice (ur_id user) ?dev (''Device-'' @ take 8 ?dev) (jstr (jget rq ''platform''))
                   (e_now E) (w_db w))"
  let ?c = "createSession (ur_id user) ?dev ?h (e_peer E) default_session_ttl (e_now E) ?d1"
  have g: "?name \<noteq> []" "?pw \<noteq> []" "\<not> checkRateLimit E (ur_id user) (w_db w)"
    "verifyPassword (e_ext E) ?pw (ur_passwordHash user)" "0 \<le> fst ?c"
    using assms(2) u by (auto simp: processLoginRequest_def Let_def split_beta split: if_splits)
  have d1: "db_inv ?d1" using assms(1) by (rule registerDevice_inv)
  note c = createSession_success [OF d1 g(5)]
  have "user \<in> set (db_users (w_db w))"
    using u unfolding getUserByUsername_def by (blast dest: find_SomeD)
  then have pos: "0 < ur_id user"
    using assms(1) by (auto simp: db_inv_def users_ok_def keys_ok_def)
  have w': "w_userId w' = ur_id user" "w_sessionId w' = fst ?c" "w_deviceId w' = ?dev"
    "db_sessions (w_db w') = db_sessions (snd ?c)"
    using g u by (simp_all add: w'_def processLoginRequest_def Let_def split_beta)
  show ?thesis
  proof (rule that [of user "fst ?c"])
    show "getSessionById (fst ?c) (w_db w') = Some (new_session (fst ?c) (ur_id user) ?dev ?h (e_peer E)
        default_session_ttl (e_now E))"
      using c(2) getSessionById_frame [OF w'(4)] by simp
  qed (use u g pos w' c in auto)
qed

section \<open>Properties\<close>

text \<open>
  A login that is answered with success was made with a verifying password, and from then on
  the connection is authenticated for exactly the requests that carry a token with the hash of the
  issued one, for seven days (the renewal of the token also later).
\<close>

lemma login_authenticates:
  assumes "db_inv (w_db w)"
    and "Reply rid LoginResponse Ok msg data
         \<in> set (w_outs (processLoginRequest E p rq (w\<lparr>w_outs := []\<rparr>)))"
    and "e_ext E' = e_ext E"
  shows "(\<exists>user. getUserByUsername (trimmed (jstr (jget rq ''username''))) (w_db w) = Some user
            \<and> verifyPassword (e_ext E) (jstr (jget rq ''password'')) (ur_passwordHash user)
            \<and> w_userId (processLoginRequest E p rq w) = ur_id user)
    \<and> (validateSession E' rq' (processLoginRequest E p rq w)
       \<longleftrightarrow> jstr (jget rq' ''token'') \<noteq> []
         \<and> hashToken (e_ext E) (jstr (jget rq' ''token'')) = hashToken (e_ext E) (generateToken (e_token E))
         \<and> (jstr (jget rq' ''type'') = ''token_renew'' \<or> e_now E' \<le> e_now E + 7 * 86400))"
proof (rule login_success [OF assms(1,2)])
  fix user sid
  assume *: "getUserByUsername (trimmed (jstr (jget rq ''username''))) (w_db w) = Some user"
    "verifyPassword (e_ext E) (jstr (jget rq ''password'')) (ur_passwordHash user)"
    "w_userId (processLoginRequest E p rq w) = ur_id user"
    "w_sessionId (processLoginRequest E p rq w) = sid" "0 < sid" "0 < ur_id user"
    "getSessionById sid (w_db (processLoginRequest E p rq w)) = Some (new_session sid (ur_id user)
        (jstr (jget rq ''deviceId'')) (hashToken (e_ext E) (generateToken (e_token E))) (e_peer E)
        default_session_ttl (e_now E))"
  then show ?thesis
    using validateSession_new [of "processLoginRequest E p rq w" sid "ur_id user"] assms(3)
    by (simp add: default_session_ttl_def)
qed

definition alice_db :: db where
  "alice_db = db_alice_bob\<lparr>db_users := [alice\<lparr>ur_passwordHash :=
     hashPasswordWithSalt sample_ext [1, 2] ''secret'' 100000\<rparr>, bob]\<rparr>"

definition login_request :: jobj where
  "login_request = [(''type'', JStr ''login''), (''username'', JStr ''alice''),
     (''password'', JStr ''secret''), (''deviceId'', JStr ''dev'')]"

definition later_request :: jobj where
  "later_request = [(''type'', JStr ''get_contacts''), (''token'', JStr (to_hex (replicate 32 7)))]"

lemma alice_db_inv: "db_inv alice_db"
  by (simp add: alice_db_def sample_defs db_inv_def tables_ok_defs client_keys_ok_def keys_ok_def)

lemma trimmed_alice [simp]: "trimmed ''alice'' = ''alice''"
  by (simp add: trimmed_def qspace_def Let_def)

lemma alice_password:
  "verifyPassword (ext_reading rq) ''secret'' (hashPasswordWithSalt sample_ext [1, 2] ''secret'' 100000)"
proof -
  have "pbkdf2_32 (ext_reading rq)"
    using sample_ext_ok(5) by (simp add: pbkdf2_32_def ext_reading_def)
  moreover have "hashPasswordWithSalt sample_ext [1, 2] ''secret'' 100000
      = hashPasswordWithSalt (ext_reading rq) [1, 2] ''secret'' 100000"
    by (simp add: hashPasswordWithSalt_def ext_reading_def)
  ultimately show ?thesis by (simp add: verify_hash_iff)
qed

lemma login_authenticates_witness:
  "validateSession (env_reading later_request 1000) later_request
     (processLoginRequest (env_reading later_request 50) (packet_of LoginRequest) login_request
       (new_connection alice_db None))"
proof -
  let ?E = "env_reading later_request 50" and ?w = "new_connection alice_db None"
  have i: "db_inv (w_db ?w)" using alice_db_inv by (simp add: new_connection_def)
  have r: "\<exists>data. Reply 1 LoginResponse Ok ''OK'' data
      \<in> set (w_outs (processLoginRequest ?E (packet_of LoginRequest) login_request (?w\<lparr>w_outs := []\<rparr>)))"
    using alice_password
    by (simp add: processLoginRequest_def Let_def split_beta login_request_def getUserByUsername_def alice_db_def
        sample_defs checkRateLimit_def recentFailedLoginCount_def recentFailedLoginCountForUser_def
        handler_limits registerDevice_def createSession_def exec_stmt_no_fault has_user_def
        exists_where_def upsert_device_def insert_session_def recordLoginAttempt_def)
  then obtain data where d: "Reply 1 LoginResponse Ok ''OK'' data
      \<in> set (w_outs (processLoginRequest ?E (packet_of LoginRequest) login_request (?w\<lparr>w_outs := []\<rparr>)))"
    by blast
  show ?thesis
    using login_authenticates [OF i d, of "env_reading later_request 1000" later_request]
    by (simp add: later_request_def env_reading_def generateToken_def)
qed

section \<open>Registration\<close>

lemma registerUser_success:
  assumes "0 \<le> fst (registerUser name email phone h now d)"
  shows "\<exists>u. db_users (snd (registerUser name email phone h now d)) = db_users d @ [u]
     \<and> ur_username u = name \<and> ur_passwordHash u = h \<and> (\<forall>r\<in>set (db_users d). ur_username r \<noteq> name)"
proof -
  let ?ok = "\<lambda>d. \<not> exists_where (\<lambda>r. ur_username r = name) (db_users d)"
  let ?ins = "insert_user (name, email, phone, h, now)"
  show ?thesis
  proof (rule exec_stmt_cases [of ?ok ?ins d])
    fix fs assume "exec_stmt ?ok ?ins d = (False, d\<lparr>db_faults := fs\<rparr>)"
    with assms show ?thesis by (simp add: registerUser_def)
  next
    fix fs assume "exec_stmt ?ok ?ins d = (True, ?ins (d\<lparr>db_faults := fs\<rparr>))" "?ok (d\<lparr>db_faults := fs\<rparr>)"
    then show ?thesis
      by (auto simp: registerUser_def insert_user_def mk_user_def exists_where_iff)
  qed
qed

lemma registration_facts:
  assumes "pbkdf2_32 (e_ext E)" and "e_salt E \<noteq> []"
    and "Reply rid RegisterResponse Ok msg data
         \<in> set (w_outs (processRegisterRequest E p rq (w\<lparr>w_outs := []\<rparr>)))"
  defines "name \<equiv> trimmed (jstr (jget rq ''username''))" and "w' \<equiv> processRegisterRequest E p rq w"
  shows "3 \<le> length name" "length name \<le> 32"
    and "\<exists>u. db_users (w_db w') = db_users (w_db w) @ [u] \<and> getUserByUsername name (w_db w') = Some u
       \<and> verifyPassword (e_ext E) (jstr (jget rq ''password'')) (ur_passwordHash u)"
    and "\<And>E2 p2 rq2 v. w_db v = w_db w' \<Longrightarrow> trimmed (jstr (jget rq2 ''username'')) = name
       \<Longrightarrow> length (jstr (jget rq2 ''password'')) \<ge> 6
       \<Longrightarrow> processRegisterRequest E2 p2 rq2 v = sendResponse (pk_reqid p2) RegisterResponse
             AccountAlreadyExists ''Username already exists'' [] v"
proof -
  let ?h = "hashPasswordWithSalt (e_ext E) (e_salt E) (jstr (jget rq ''password'')) defaultIterations"
  let ?r = "registerUser name (trimmed (jstr (jget rq ''email''))) (trimmed (jstr (jget rq ''phone''))) ?h
              (e_now E) (w_db w)"
  have ok: "name \<noteq> []" "jstr (jget rq ''password'') \<noteq> []" "\<not> length name < 3" "\<not> 32 < length name"
    "\<not> length (jstr (jget rq ''password'')) < 6" "\<not> userExists name (w_db w)" "0 \<le> fst ?r"
    using assms(3) by (auto simp: name_def processRegisterRequest_def Let_def split_beta split: if_splits)
  then show len: "3 \<le> length name" "length name \<le> 32" by auto
  have w': "db_users (w_db w') = db_users (snd ?r)"
    using ok by (simp add: w'_def name_def processRegisterRequest_def Let_def split_beta)
  obtain u where u: "db_users (snd ?r) = db_users (w_db w) @ [u]" "ur_username u = name"
    "ur_passwordHash u = ?h" "\<forall>r\<in>set (db_users (w_db w)). ur_username r \<noteq> name"
    using registerUser_success [OF ok(7)] by blast
  have "find (\<lambda>r. ur_username r = name) (db_users (w_db w)) = None"
    using u(4) by (simp add: find_None_iff)
  then have f: "getUserByUsername name (w_db w') = Some u"
    using u(2) by (simp add: getUserByUsername_def w' u(1) find_append)
  have "verifyPassword (e_ext E) (jstr (jget rq ''password'')) (ur_passwordHash u)"
    using assms(1,2) by (simp add: u(3) verify_hash_iff defaultIterations_def)
  with f show "\<exists>u. db_users (w_db w') = db_users (w_db w) @ [u]
      \<and> getUserByUsername name (w_db w') = Some u
      \<and> verifyPassword (e_ext E) (jstr (jget rq ''password'')) (ur_passwordHash u)"
    using w' u(1) by simp
  show "processRegisterRequest E2 p2 rq2 v = sendResponse (pk_reqid p2) RegisterResponse
             AccountAlreadyExists ''Username already exists'' [] v"
    if "w_db v = w_db w'" "trimmed (jstr (jget rq2 ''username'')) = name"
      "length (jstr (jget rq2 ''password'')) \<ge> 6" for E2 p2 rq2 v
  proof -
    have "userExists name (w_db v)"
      using u(2) by (simp add: that(1) userExists_def w' u(1) count_where_append)
    with that len ok(1) show ?thesis
      by (auto simp: processRegisterRequest_def Let_def)
  qed
qed

text \<open>
  A registration that is answered with success created one account, under a name of 3 to 32
  characters that nobody had, whose stored hash verifies the given password; every other account is
  as it was, and the name cannot be registered again.
\<close>

lemma registration_creates_account:
  assumes "pbkdf2_32 (e_ext E)" and "e_salt E \<noteq> []"
    and "Reply rid RegisterResponse Ok msg data
         \<in> set (w_outs (processRegisterRequest E p rq (w\<lparr>w_outs := []\<rparr>)))"
  shows "let name = trimmed (jstr (jget rq ''username'')); w' = processRegisterRequest E p rq w
     in 3 \<le> length name \<and> length name \<le> 32
      \<and> (\<exists>u. db_users (w_db w') = db_users (w_db w) @ [u] \<and> getUserByUsername name (w_db w') = Some u
           \<and> verifyPassword (e_ext E) (jstr (jget rq ''password'')) (ur_passwordHash u))
      \<and> (\<forall>E2 p2 rq2 v. w_db v = w_db w' \<and> trimmed (jstr (jget rq2 ''username'')) = name
             \<and> length (jstr (jget rq2 ''password'')) \<ge> 6
           \<longrightarrow> processRegisterRequest E2 p2 rq2 v = sendResponse (pk_reqid p2) RegisterResponse
                 AccountAlreadyExists ''Username already exists'' [] v)"
  using registration_facts [OF assms] unfolding Let_def by blast

definition register_request :: jobj where
  "register_request = [(''username'', JStr ''carol''), (''password'', JStr ''secret'')]"

lemma trimmed_carol [simp]: "trimmed ''carol'' = ''carol''"
  by (simp add: trimmed_def qspace_def Let_def)

lemma registration_creates_account_witness:
  "\<exists>u. getUserByUsername ''carol''
         (w_db (processRegisterRequest (env_reading register_request 50) (packet_of RegisterRequest)
            register_request (new_connection alice_db None))) = Some u
       \<and> verifyPassword (ext_reading register_request) ''secret'' (ur_passwordHash u)"
proof -
  let ?E = "env_reading register_request 50" and ?w = "new_connection alice_db None"
  have x: "pbkdf2_32 (e_ext ?E)" "e_salt ?E \<noteq> []"
    using sample_ext_ok(5) by (simp_all add: pbkdf2_32_def ext_reading_def)
  have "\<exists>data. Reply 1 RegisterResponse Ok ''Account created successfully'' data
      \<in> set (w_outs (processRegisterRequest ?E (packet_of RegisterRequest) register_request
                (?w\<lparr>w_outs := []\<rparr>)))"
    by (simp add: processRegisterRequest_def Let_def split_beta register_request_def alice_db_def
        sample_defs userExists_def registerUser_def exec_stmt_no_fault exists_where_def insert_user_def)
  then obtain data where "Reply 1 RegisterResponse Ok ''Account created successfully'' data
      \<in> set (w_outs (processRegisterRequest ?E (packet_of RegisterRequest) register_request
                (?w\<lparr>w_outs := []\<rparr>)))"
    by blast
  note r = registration_creates_account [OF x this, unfolded Let_def]
  have n: "trimmed (jstr (jget register_request ''username'')) = ''carol''"
    "jstr (jget register_request ''password'') = ''secret''" "e_ext ?E = ext_reading register_request"
    by (simp_all add: register_request_def)
  show ?thesis
    using r unfolding n by blast
qed

section \<open>Failed logins\<close>

definition auth_failure :: "out \<Rightarrow> bool" where
  "auth_failure x = (case x of Reply _ mt code _ _ \<Rightarrow> mt = LoginResponse \<and> code = AuthenticationFailed
     | _ \<Rightarrow> False)"

fun login_run :: "(env \<times> packet \<times> jobj) list \<Rightarrow> world \<Rightarrow> world" where
  "login_run [] w = w"
| "login_run ((E, p, rq) # xs) w = login_run xs (processLoginRequest E p rq w)"

lemma device_session_frame [simp]:
  "db_audit (snd (registerDevice u dev nm pf now d)) = db_audit d"
  "db_users (snd (registerDevice u dev nm pf now d)) = db_users d"
  "db_audit (snd (createSession u dev h ip ttl now d)) = db_audit d"
  "db_users (snd (createSession u dev h ip ttl now d)) = db_users d"
  unfolding registerDevice_def createSession_def Let_def split_beta
  by (simp_all add: exec_stmt_frame [of db_audit] exec_stmt_frame [of db_users] upsert_device_def
      insert_session_def Let_def)

lemma device_session_no_fault [simp]:
  assumes "db_faults d = []"
  shows "db_faults (snd (registerDevice u dev nm pf now d)) = []"
    "db_faults (snd (createSession u dev h ip ttl now d)) = []"
    "db_faults (recordLoginAttempt u ip ok why now d) = []"
    "db_audit (recordLoginAttempt u ip ok why now d)
      = db_audit d @ [\<lparr>au_userId = u, au_ip = ip, au_success = ok, au_reason = why, au_createdAt = now\<rparr>]"
  using assms
  by (simp_all add: registerDevice_def createSession_def recordLoginAttempt_def exec_stmt_no_fault
      upsert_device_def insert_session_def Let_def)

lemma login_step:
  assumes "db_faults (w_db w) = []" and "getUserByUsername name (w_db w) = Some user"
    and "trimmed (jstr (jget rq ''username'')) = name"
  shows "db_faults (w_db (processLoginRequest E p rq w)) = []" "db_users (w_db (processLoginRequest E p rq w)) = db_users (w_db w)"
    "\<exists>os. w_outs (processLoginRequest E p rq w) = w_outs w @ os \<and>
      recentFailedLoginCountForUser (ur_id user) win now (w_db (processLoginRequest E p rq w))
        = recentFailedLoginCountForUser (ur_id user) win now (w_db w)
          + (if e_now E \<ge> now - win then count_where auth_failure os else 0)"
proof -
  let ?dev = "jstr (jget rq ''deviceId'')"
  let ?c = "createSession (ur_id user) ?dev (hashToken (e_ext E) (generateToken (e_token E))) (e_peer E)
      default_session_ttl (e_now E) (snd (registerDevice (ur_id user) ?dev (''Device-'' @ take 8 ?dev)
        (jstr (jget rq ''platform'')) (e_now E) (w_db w)))"
  let ?empty = "trimmed (jstr (jget rq ''username'')) = [] \<or> jstr (jget rq ''password'') = []"
  let ?bad = "verifyPassword (e_ext E) (jstr (jget rq ''password'')) (ur_passwordHash user)"
  note defs = processLoginRequest_def Let_def split_beta auth_failure_def
    recentFailedLoginCountForUser_def count_where_append
  have u: "getUserByUsername (trimmed (jstr (jget rq ''username''))) (w_db w) = Some user"
    using assms(2,3) by simp
  consider "?empty" | "\<not> ?empty" "checkRateLimit E (ur_id user) (w_db w)"
    | "\<not> ?empty" "\<not> checkRateLimit E (ur_id user) (w_db w)" "\<not> ?bad"
    | "\<not> ?empty" "\<not> checkRateLimit E (ur_id user) (w_db w)" "?bad" "fst ?c < 0"
    | "\<not> ?empty" "\<not> checkRateLimit E (ur_id user) (w_db w)" "?bad" "\<not> fst ?c < 0"
    by argo
  then have "db_faults (w_db (processLoginRequest E p rq w)) = []
    \<and> db_users (w_db (processLoginRequest E p rq w)) = db_users (w_db w)
    \<and> (\<exists>os. w_outs (processLoginRequest E p rq w) = w_outs w @ os \<and>
      recentFailedLoginCountForUser (ur_id user) win now (w_db (processLoginRequest E p rq w))
        = recentFailedLoginCountForUser (ur_id user) win now (w_db w)
          + (if e_now E \<ge> now - win then count_where auth_failure os else 0))"
  proof cases
    case 1
    with assms(1) show ?thesis by (auto simp: defs)
  next
    case 2
    with assms(1) u show ?thesis by (auto simp: defs)
  next
    case 3
    with assms(1) u show ?thesis by (auto simp: defs)
  next
    case 4
    with assms(1) u show ?thesis by (auto simp: defs)
  next
    case 5
    with assms(1) u show ?thesis by (auto simp: defs)
  qed
  then show "db_faults (w_db (processLoginRequest E p rq w)) = []"
    "db_users (w_db (processLoginRequest E p rq w)) = db_users (w_db w)"
    "\<exists>os. w_outs (processLoginRequest E p rq w) = w_outs w @ os \<and>
      recentFailedLoginCountForUser (ur_id user) win now (w_db (processLoginRequest E p rq w))
        = recentFailedLoginCountForUser (ur_id user) win now (w_db w)
          + (if e_now E \<ge> now - win then count_where auth_failure os else 0)"
    by blast+
qed

lemma login_run_counts:
  assumes "db_faults (w_db w) = []" and "getUserByUsername name (w_db w) = Some user"
    and "\<forall>(E, p, rq)\<in>set xs. e_now E \<ge> now - win \<and> trimmed (jstr (jget rq ''username'')) = name"
  shows "getUserByUsername name (w_db (login_run xs w)) = Some user
     \<and> recentFailedLoginCountForUser (ur_id user) win now (w_db (login_run xs w))
       + count_where auth_failure (w_outs w)
       = recentFailedLoginCountForUser (ur_id user) win now (w_db w)
       + count_where auth_failure (w_outs (login_run xs w))"
  using assms
proof (induction xs w rule: login_run.induct)
  case (2 E p rq xs w)
  let ?w = "processLoginRequest E p rq w"
  have rq: "trimmed (jstr (jget rq ''username'')) = name" "e_now E \<ge> now - win" using "2.prems"(3) by auto
  note st = login_step [OF "2.prems"(1,2) rq(1), of E p]
  have u: "getUserByUsername name (w_db ?w) = Some user"
    using "2.prems"(2) st(2) by (simp add: getUserByUsername_def)
  obtain os where os: "w_outs ?w = w_outs w @ os"
    "recentFailedLoginCountForUser (ur_id user) win now (w_db ?w)
        = recentFailedLoginCountForUser (ur_id user) win now (w_db w) + count_where auth_failure os"
    using st(3) [of win now] rq(2) by auto
  have "\<forall>(E, p, rq)\<in>set xs. e_now E \<ge> now - win \<and> trimmed (jstr (jget rq ''username'')) = name"
    using "2.prems"(3) by simp
  then show ?case
    using "2.IH" [OF st(1) u] os by (simp add: count_where_append)
qed simp

text \<open>
  C15: after five logins for an account that were answered with a failure within 300 seconds, any
  further login for it in that time is refused, also one with the right password: it opens no
  session and changes nothing.
\<close>

theorem failed_logins_lock:
  assumes "db_inv (w_db w)" and "db_faults (w_db w) = []"
    and "getUserByUsername name (w_db w) = Some user"
    and "\<forall>(E, p, rq)\<in>set xs. e_now E \<ge> now - 300 \<and> trimmed (jstr (jget rq ''username'')) = name"
    and "count_where auth_failure (w_outs (login_run xs w)) \<ge> count_where auth_failure (w_outs w) + 5"
    and "e_now E' = now" and "trimmed (jstr (jget rq' ''username'')) = name"
    and "name \<noteq> []" and "jstr (jget rq' ''password'') \<noteq> []"
  shows "processLoginRequest E' p' rq' (login_run xs w)
     = sendResponse (pk_reqid p') LoginResponse LoginRateLimited
         ''Too many failed login attempts. Please try again later.'' [] (login_run xs w)"
proof -
  note r = login_run_counts [OF assms(2,3,4)]
  have "user \<in> set (db_users (w_db w))"
    using assms(3) unfolding getUserByUsername_def by (blast dest: find_SomeD)
  then have "0 < ur_id user"
    using assms(1) by (auto simp: db_inv_def users_ok_def keys_ok_def)
  then have "checkRateLimit E' (ur_id user) (w_db (login_run xs w))"
    using r assms(5,6) by (simp add: checkRateLimit_def handler_limits)
  then show ?thesis
    using r assms(7-9) by (simp add: processLoginRequest_def Let_def)
qed

definition wrong_login :: jobj where
  "wrong_login = [(''type'', JStr ''login''), (''username'', JStr ''bob''), (''password'', JStr ''x'')]"

lemma trimmed_bob [simp]: "trimmed ''bob'' = ''bob''"
  by (simp add: trimmed_def qspace_def Let_def)

theorem failed_logins_lock_witness:
  "let w = login_run (replicate 5 (env_reading wrong_login 50, packet_of LoginRequest, wrong_login))
             (new_connection alice_db None)
   in processLoginRequest (env_reading wrong_login 60) (packet_of LoginRequest) wrong_login w
     = sendResponse 1 LoginResponse LoginRateLimited
         ''Too many failed login attempts. Please try again later.'' [] w"
proof -
  let ?w = "new_connection alice_db None"
  let ?x = "(env_reading wrong_login 50, packet_of LoginRequest, wrong_login)"
  have i: "db_inv (w_db ?w)" "db_faults (w_db ?w) = []" "getUserByUsername ''bob'' (w_db ?w) = Some bob"
    using alice_db_inv by (simp_all add: new_connection_def alice_db_def sample_defs getUserByUsername_def)
  have v: "\<not> verifyPassword X ''x'' []" for X by (rule verify_legacy) simp
  have five: "replicate 5 ?x = [?x, ?x, ?x, ?x, ?x]" by (simp add: eval_nat_numeral)
  have c: "count_where auth_failure (w_outs (login_run (replicate 5 ?x) ?w))
      \<ge> count_where auth_failure (w_outs ?w) + 5"
    unfolding five using v
    by (simp add: processLoginRequest_def Let_def split_beta wrong_login_def getUserByUsername_def alice_db_def
        sample_defs checkRateLimit_def recentFailedLoginCount_def recentFailedLoginCountForUser_def
        handler_limits exec_stmt_no_fault recordLoginAttempt_def auth_failure_def)
  show ?thesis
    unfolding Let_def
    using failed_logins_lock [OF i _ c, of 60 "env_reading wrong_login 60" wrong_login "packet_of LoginRequest"]
    by (simp add: wrong_login_def sample_defs)
qed

section \<open>The end of a session\<close>

lemma gone_session:
  assumes "db_sessions (w_db v) = delete_where (\<lambda>s. se_id s = w_sessionId v) ss"
  shows "\<not> validateSession E rq v"
proof -
  have "getSessionById (w_sessionId v) (w_db v) = None"
    by (simp add: getSessionById_def assms find_None_iff)
  then show ?thesis by (simp add: validateSession_def)
qed

text \<open>
  After a successful renewal the connection is authenticated for exactly the requests that carry
  the new token, for seven more days, and the session of the old token exists no more.
\<close>

lemma renewal_replaces_token:
  assumes "db_inv (w_db w)" and "db_faults (w_db w) = []" and "0 < w_userId w"
    and "Reply rid TokenRenewResponse Ok msg data
         \<in> set (w_outs (processTokenRenewRequest E p rq (w\<lparr>w_outs := []\<rparr>)))"
    and "e_ext E' = e_ext E"
  shows "let w' = processTokenRenewRequest E p rq w
    in (validateSession E' rq' w' \<longleftrightarrow> jstr (jget rq' ''token'') \<noteq> []
         \<and> hashToken (e_ext E) (jstr (jget rq' ''token'')) = hashToken (e_ext E) (generateToken (e_token E))
         \<and> (jstr (jget rq' ''type'') = ''token_renew'' \<or> e_now E' \<le> e_now E + 7 * 86400))
      \<and> getSessionById (w_sessionId w) (w_db w') = None"
proof -
  let ?h = "hashToken (e_ext E) (generateToken (e_token E))" and ?w = "processTokenRenewRequest E p rq w"
  let ?d1 = "snd (deleteSession (w_sessionId w) (w_db w))"
  let ?c = "createSession (w_userId w) (w_deviceId w) ?h (e_peer E) default_session_ttl (e_now E) ?d1"
  have d1: "db_inv ?d1" using assms(1) by (rule session_ops_inv)
  obtain s where s: "getSessionById (w_sessionId w) (w_db w) = Some s"
    using assms(4) by (fastforce simp: processTokenRenewRequest_def Let_def split: if_splits option.splits)
  have ok: "jstr (jget rq ''token'') \<noteq> []" "0 \<le> fst ?c"
    "hashToken (e_ext E) (jstr (jget rq ''token'')) = se_tokenHash s"
    using assms(4) s by (auto simp: processTokenRenewRequest_def Let_def split_beta split: if_splits)
  note c = createSession_success [OF d1 ok(2)]
  have w': "w_sessionId ?w = fst ?c" "w_userId ?w = w_userId w" "w_db ?w = snd ?c"
    using ok s by (simp_all add: processTokenRenewRequest_def Let_def split_beta)
  have ds: "db_sessions ?d1 = delete_where (\<lambda>s. se_id s = w_sessionId w) (db_sessions (w_db w))"
    using assms(2) by (simp add: deleteSession_def exec_stmt_no_fault)
  have seq: "db_sessionSeq ?d1 = db_sessionSeq (w_db w)"
    unfolding deleteSession_def by (rule exec_stmt_frame) simp_all
  have "s \<in> set (db_sessions (w_db w))" "se_id s = w_sessionId w"
    using s unfolding getSessionById_def by (blast dest: find_SomeD)+
  then have "w_sessionId w \<le> db_sessionSeq (w_db w)"
    using assms(1) by (auto simp: db_inv_def sessions_ok_def keys_ok_def)
  moreover have "fst ?c = db_sessionSeq ?d1 + 1"
    using ok(2) by (auto simp: createSession_def split_beta Let_def exec_stmt_def next_fault_def
        insert_session_def split: if_splits list.splits)
  ultimately have "getSessionById (w_sessionId w) (w_db ?w) = None"
    using c(4) by (auto simp: getSessionById_def w' ds find_None_iff new_session_def seq)
  moreover have "getSessionById (w_sessionId ?w) (w_db ?w) = Some (new_session (fst ?c) (w_userId w)
      (w_deviceId w) ?h (e_peer E) default_session_ttl (e_now E))"
    using c(2) by (simp add: w')
  ultimately show ?thesis
    using validateSession_new [of ?w "fst ?c" "w_userId w"] c(1) assms(3,5)
    by (simp add: w' Let_def default_session_ttl_def)
qed

definition renew_request :: jobj where
  "renew_request = [(''type'', JStr ''token_renew''), (''token'', JStr ''h'')]"

lemma world_of_alice_inv: "db_inv (w_db world_of_alice)"
  by (simp add: sample_defs db_inv_def tables_ok_defs client_keys_ok_def keys_ok_def user_ids_def)

lemma length_hashToken_sample: "length (hashToken sample_ext t) = 2 * length t"
  by (simp add: hashToken_def encryptPassword_def sample_ext_def bytes_of_def)

lemma renewal_replaces_token_witness:
  "validateSession (env_reading later_request 90000) later_request
     (processTokenRenewRequest (env_reading later_request 500) (packet_of TokenRenewRequest)
        renew_request world_of_alice)"
proof -
  let ?E = "env_reading later_request 500" and ?w = "world_of_alice"
  have i: "db_inv (w_db ?w)" "db_faults (w_db ?w) = []" "0 < w_userId ?w"
    using world_of_alice_inv by (simp_all add: sample_defs)
  have "length (hashToken sample_ext (generateToken (replicate 32 7))) \<noteq> length (hashToken sample_ext ''h'')"
    by (simp add: length_hashToken_sample generateToken_def)
  then have new: "hashToken sample_ext ''h'' \<noteq> hashToken sample_ext (generateToken (replicate 32 7))"
    by metis
  have "\<exists>data. Reply 1 TokenRenewResponse Ok ''Token renewed'' data
      \<in> set (w_outs (processTokenRenewRequest ?E (packet_of TokenRenewRequest) renew_request
                (?w\<lparr>w_outs := []\<rparr>)))"
    using new by (simp add: processTokenRenewRequest_def Let_def split_beta renew_request_def sample_defs
        getSessionById_def deleteSession_def createSession_def exec_stmt_no_fault has_user_def
        exists_where_def insert_session_def)
  then obtain data where d: "Reply 1 TokenRenewResponse Ok ''Token renewed'' data
      \<in> set (w_outs (processTokenRenewRequest ?E (packet_of TokenRenewRequest) renew_request
                (?w\<lparr>w_outs := []\<rparr>)))"
    by blast
  show ?thesis
    using renewal_replaces_token [OF i d, of "env_reading later_request 90000" later_request]
    by (simp add: later_request_def Let_def generateToken_def)
qed

text \<open>
  A logout removes the session: the connection is anonymous again, and no request on any other
  connection that uses the session validates any more.
\<close>

lemma logout_ends_session:
  assumes "db_faults (w_db w) = []" and "w_db v = w_db (processLogoutRequest E p w)"
    and "w_sessionId v = w_sessionId w"
  shows "\<not> validateSession E' rq (processLogoutRequest E p w) \<and> \<not> validateSession E' rq v"
proof
  have d: "db_sessions (w_db (processLogoutRequest E p w))
      = delete_where (\<lambda>s. se_id s = w_sessionId w) (db_sessions (w_db w))"
    using assms(1) by (simp add: processLogoutRequest_def Let_def deleteSession_def exec_stmt_no_fault)
  show "\<not> validateSession E' rq v"
    by (rule gone_session) (simp add: assms(2,3) d)
  show "\<not> validateSession E' rq (processLogoutRequest E p w)"
    by (simp add: processLogoutRequest_def Let_def validateSession_def)
qed

lemma logout_ends_session_witness:
  "let E = env_reading [(''token'', JStr ''h'')] 50; rq = [(''token'', JStr ''h'')];
       w' = processLogoutRequest E (packet_of LogoutRequest) world_of_alice
   in \<not> validateSession E rq w' \<and> \<not> validateSession E rq (world_of_alice\<lparr>w_db := w_db w'\<rparr>)"
  unfolding Let_def by (rule logout_ends_session) (simp_all add: sample_defs)

text \<open>
  C16: the termination request reaches only sessions of the user who asks. It either leaves the
  database alone, or removes exactly one session, which is the user's own; then its connection is
  told to close, and no request that uses the session validates any more.
\<close>

theorem terminate_own_session:
  assumes "db_inv (w_db w)" and "db_faults (w_db w) = []"
  shows "let w' = processTerminateSessionRequest E p rq w
    in w_db w' = w_db w \<and> \<not> (\<exists>i. SessionTerminated i \<in> set (drop (length (w_outs w)) (w_outs w')))
     \<or> (\<exists>s\<in>set (db_sessions (w_db w)). se_userId s = w_userId w
          \<and> SessionTerminated (se_id s) \<in> set (drop (length (w_outs w)) (w_outs w'))
          \<and> db_sessions (w_db w') = filter (\<lambda>x. x \<noteq> s) (db_sessions (w_db w))
          \<and> (\<forall>E' rq' v. w_db v = w_db w' \<and> w_sessionId v = se_id s \<longrightarrow> \<not> validateSession E' rq' v))"
proof -
  let ?w = "processTerminateSessionRequest E p rq w"
  let ?sid = "jlonglong (jget rq ''sessionId'')" and ?dev = "jstr (jget rq ''deviceId'')"
  let ?hit = "find (\<lambda>s. (?sid > 0 \<and> se_id s = ?sid) \<or> (?dev \<noteq> [] \<and> se_deviceId s = ?dev))
      (getSessionsByUserId (w_userId w) (w_db w))"
  let ?alone = "w_db ?w = w_db w \<and> \<not> (\<exists>i. SessionTerminated i \<in> set (drop (length (w_outs w)) (w_outs ?w)))"
  show ?thesis
  proof (cases ?hit)
    case None
    then have ?alone by (auto simp: processTerminateSessionRequest_def Let_def)
    then show ?thesis by (simp add: Let_def)
  next
    case (Some s)
    then have s: "s \<in> set (db_sessions (w_db w))" "se_userId s = w_userId w"
      using find_SomeD [OF Some] by (auto simp: getSessionsByUserId_def)
    have uniq: "(se_id x = se_id s) = (x = s)" if "x \<in> set (db_sessions (w_db w))" for x
      using assms(1) s(1) that by (auto simp: db_inv_def sessions_ok_def dest: keys_ok_unique)
    have pos: "0 < se_id s"
      using assms(1) s(1) by (auto simp: db_inv_def sessions_ok_def keys_ok_def)
    show ?thesis
    proof (cases "SessionTerminated (se_id s) \<in> set (drop (length (w_outs w)) (w_outs ?w))")
      case False
      then have ?alone
        using Some pos by (auto simp: processTerminateSessionRequest_def Let_def split: if_splits)
      then show ?thesis by (simp add: Let_def)
    next
      case True
      then have d: "db_sessions (w_db ?w) = delete_where (\<lambda>x. se_id x = se_id s) (db_sessions (w_db w))"
        using Some pos assms(2)
        by (auto simp: processTerminateSessionRequest_def Let_def deleteSession_def exec_stmt_no_fault
            split: if_splits)
      have f: "delete_where (\<lambda>x. se_id x = se_id s) (db_sessions (w_db w))
          = filter (\<lambda>x. x \<noteq> s) (db_sessions (w_db w))"
        using uniq by (auto simp: delete_where_def cong: filter_cong)
      have "\<not> validateSession E' rq' v" if "w_db v = w_db ?w" "w_sessionId v = se_id s" for E' rq' v
        by (rule gone_session) (simp add: that d)
      with s True d f show ?thesis by (auto simp: Let_def)
    qed
  qed
qed

definition two_sessions :: world where
  "two_sessions = world_of_alice\<lparr>w_db := (w_db world_of_alice)\<lparr>
     db_sessions := [session_of_alice, session_of_alice\<lparr>se_id := 2, se_tokenHash := []\<rparr>],
     db_sessionSeq := 2\<rparr>\<rparr>"

theorem terminate_own_session_witness:
  "let rq = [(''sessionId'', JNum 2)]; E = env_reading rq 50;
       w' = processTerminateSessionRequest E (packet_of ForceLogoutRequest) rq two_sessions
   in w_db w' = w_db two_sessions
        \<and> \<not> (\<exists>i. SessionTerminated i \<in> set (drop (length (w_outs two_sessions)) (w_outs w')))
     \<or> (\<exists>s\<in>set (db_sessions (w_db two_sessions)). se_userId s = w_userId two_sessions
          \<and> SessionTerminated (se_id s) \<in> set (drop (length (w_outs two_sessions)) (w_outs w'))
          \<and> db_sessions (w_db w') = filter (\<lambda>x. x \<noteq> s) (db_sessions (w_db two_sessions))
          \<and> (\<forall>E' rq' v. w_db v = w_db w' \<and> w_sessionId v = se_id s \<longrightarrow> \<not> validateSession E' rq' v))"
proof -
  have "db_inv (w_db two_sessions)"
    using length_hashToken_sample [of "''h''"]
    by (auto simp: two_sessions_def sample_defs db_inv_def tables_ok_defs client_keys_ok_def keys_ok_def
        user_ids_def)
  moreover have "db_faults (w_db two_sessions) = []"
    by (simp add: two_sessions_def sample_defs)
  ultimately show ?thesis
    unfolding Let_def by (rule terminate_own_session [unfolded Let_def])
qed

end
