(* ===== verification/Key_Properties.thy ===== *)
theory Key_Properties
  imports Session_Properties
begin

text \<open>
  One-time prekeys: what a claim hands out, that a used prekey stays used, and what a message that
  was sent consumes.
\<close>

section \<open>Claiming\<close>

definition as_claimed :: "time \<Rightarrow> prekey_row \<Rightarrow> prekey_row" where
  "as_claimed now r = r\<lparr>py_status := Claimed, py_claimedAt := Some now\<rparr>"

definition as_reclaimed :: "time \<Rightarrow> prekey_row \<Rightarrow> prekey_row" where
  "as_reclaimed now r =
     (if claim_expired now r then r\<lparr>py_status := Unused, py_claimedAt := None\<rparr> else r)"

lemma as_claimed_simps [simp]:
  "py_id (as_claimed now r) = py_id r" "py_userId (as_claimed now r) = py_userId r"
  "py_deviceId (as_claimed now r) = py_deviceId r" "py_pub (as_claimed now r) = py_pub r"
  "py_status (as_claimed now r) = Claimed" "as_claimed now (as_claimed now r) = as_claimed now r"
  "is_device u dev (as_claimed now r) = is_device u dev r"
  by (simp_all add: as_claimed_def is_device_def)

definition unique_ids :: "db \<Rightarrow> bool" where
  "unique_ids d \<longleftrightarrow> distinct (map py_id (db_prekeys d))"

lemma unique_idsD:
  "unique_ids d \<Longrightarrow> r \<in> set (db_prekeys d) \<Longrightarrow> s \<in> set (db_prekeys d) \<Longrightarrow> py_id r = py_id s \<Longrightarrow> r = s"
  by (auto simp: unique_ids_def distinct_map dest: inj_onD)

lemma first_unused_Some:
  "first_unused u dev d = Some r \<Longrightarrow> r \<in> set (db_prekeys d) \<and> is_device u dev r \<and> py_status r = Unused"
proof -
  assume "first_unused u dev d = Some r"
  then obtain rs where "sort_key py_id (filter (\<lambda>r. is_device u dev r \<and> py_status r = Unused) (db_prekeys d))
      = r # rs"
    by (auto simp: first_unused_def split: list.splits)
  then have "r \<in> set (sort_key py_id (filter (\<lambda>r. is_device u dev r \<and> py_status r = Unused) (db_prekeys d)))"
    by (simp only: list.set_intros(1))
  then show ?thesis by simp
qed

lemma first_unused_None:
  "first_unused u dev d = None \<longleftrightarrow> (\<forall>r\<in>set (db_prekeys d). \<not> (is_device u dev r \<and> py_status r = Unused))"
proof -
  have "first_unused u dev d = None
      \<longleftrightarrow> sort_key py_id (filter (\<lambda>r. is_device u dev r \<and> py_status r = Unused) (db_prekeys d)) = []"
    by (simp add: first_unused_def split: list.splits)
  also have "\<dots> \<longleftrightarrow> set (filter (\<lambda>r. is_device u dev r \<and> py_status r = Unused) (db_prekeys d)) = {}"
    by (metis set_empty set_sort)
  finally show ?thesis by auto
qed

lemma claim_one_result:
  assumes "unique_ids d" and "r \<in> set (db_prekeys d)" "py_status r = Unused"
  shows "(\<not> fst (claim_one now r d) \<and> db_prekeys (snd (claim_one now r d)) = db_prekeys d
            \<and> db_faults d \<noteq> [])
    \<or> (fst (claim_one now r d) \<and> db_prekeys (snd (claim_one now r d))
          = map (\<lambda>s. if s = r then as_claimed now s else s) (db_prekeys d))"
proof -
  let ?P = "\<lambda>s. py_id s = py_id r \<and> py_status s = Unused"
  have P: "?P s \<longleftrightarrow> s = r" if "s \<in> set (db_prekeys d)" for s
    using assms that by (auto dest: unique_idsD)
  have "count_where ?P (db_prekeys d) = count_where (\<lambda>s. py_id s = py_id r) (db_prekeys d)"
    unfolding count_where_def using assms by (intro arg_cong [of _ _ length] filter_cong)
      (auto dest: unique_idsD)
  then have "count_where ?P (db_prekeys d) \<le> 1"
    using assms(1) count_where_le_distinct [of py_id "db_prekeys d" "py_id r"]
    by (simp add: unique_ids_def)
  moreover have "count_where ?P (db_prekeys d) > 0"
    using assms(2,3) by (auto simp: count_where_pos exists_where_iff)
  ultimately have c: "count_where ?P (db_prekeys d) = 1" by linarith
  have u: "update_where ?P (\<lambda>s. s\<lparr>py_status := Claimed, py_claimedAt := Some now\<rparr>) (db_prekeys d)
      = map (\<lambda>s. if s = r then as_claimed now s else s) (db_prekeys d)"
    using P by (simp add: update_where_def as_claimed_def)
  show ?thesis
  proof (cases "db_faults d")
    case Nil
    with c u show ?thesis by (simp add: claim_one_def update_prekeys_def Let_def exec_stmt_no_fault)
  next
    case (Cons f fs)
    with c u show ?thesis
      by (simp add: claim_one_def update_prekeys_def Let_def exec_stmt_def next_fault_def)
  qed
qed

lemma claim_one_faults: "db_faults d = [] \<Longrightarrow> db_faults (snd (claim_one now r d)) = []"
  by (simp add: claim_one_def update_prekeys_def Let_def exec_stmt_no_fault)

lemma map_if_chain: "(\<And>x. g (g x) = g x) \<Longrightarrow>
    map (\<lambda>x. if x \<in> A then g x else x) (map (\<lambda>x. if x \<in> B then g x else x) xs)
    = map (\<lambda>x. if x \<in> B \<or> (if x \<in> B then g x else x) \<in> A then g x else x) xs"
  by auto

text \<open>What the loop over the devices hands out, and what it leaves in the table.\<close>

lemma claim_loop_spec:
  assumes "unique_ids d" and "distinct devs"
  shows "let (cs, d') = claim_loop u now devs d in
     db_prekeys d' = map (\<lambda>r. if py_id r \<in> ck_prekeyId ` set cs then as_claimed now r else r) (db_prekeys d)
     \<and> (\<forall>c\<in>set cs. ck_deviceId c \<in> set devs \<and> (\<exists>r\<in>set (db_prekeys d). py_id r = ck_prekeyId c
          \<and> is_device u (ck_deviceId c) r \<and> py_status r = Unused \<and> py_pub r = ck_prekeyPub c))
     \<and> distinct (map ck_deviceId cs)
     \<and> (db_faults d = [] \<longrightarrow> db_faults d' = [] \<and> set (map ck_deviceId cs)
          = {dev \<in> set devs. \<exists>r\<in>set (db_prekeys d). is_device u dev r \<and> py_status r = Unused})"
  using assms
proof (induction devs arbitrary: d)
  case (Cons dev devs)
  show ?case
  proof (cases "first_unused u dev d")
    case None
    then have "claim_loop u now (dev # devs) d = claim_loop u now devs d"
      and "\<forall>r\<in>set (db_prekeys d). \<not> (is_device u dev r \<and> py_status r = Unused)"
      using iffD1 [OF first_unused_None None] by simp_all
    with Cons.IH [OF Cons.prems(1)] Cons.prems(2) show ?thesis
      by (simp only: Let_def split_beta) auto
  next
    case (Some r)
    note r = first_unused_Some [OF Some]
    obtain ok d1 where one: "claim_one now r d = (ok, d1)" by (cases "claim_one now r d")
    obtain cs d2 where loop: "claim_loop u now devs d1 = (cs, d2)" by (cases "claim_loop u now devs d1")
    from claim_one_result [OF Cons.prems(1), of r now] r one
    consider "\<not> ok" "db_prekeys d1 = db_prekeys d" "db_faults d \<noteq> []"
      | "ok" "db_prekeys d1 = map (\<lambda>s. if s = r then as_claimed now s else s) (db_prekeys d)"
      by auto
    then show ?thesis
    proof cases
      case 1
      then have "unique_ids d1" using Cons.prems(1) by (simp add: unique_ids_def)
      with Cons.IH [of d1] Cons.prems(2) 1 Some one loop show ?thesis by (auto simp: Let_def)
    next
      case 2
      have ids: "map py_id (db_prekeys d1) = map py_id (db_prekeys d)"
        by (simp add: 2(2))
      then have u1: "unique_ids d1" using Cons.prems(1) by (simp add: unique_ids_def)
      note IH = Cons.IH [OF u1, unfolded loop Let_def prod.case]
      have eq: "py_id s = py_id r \<longleftrightarrow> s = r" if "s \<in> set (db_prekeys d)" for s
        using unique_idsD [OF Cons.prems(1) that] r by auto
      have unused: "s \<in> set (db_prekeys d1) \<and> py_status s = Unused
          \<longleftrightarrow> s \<in> set (db_prekeys d) \<and> py_status s = Unused \<and> s \<noteq> r" for s
      proof -
        have "as_claimed now r \<noteq> r"
          using r by (metis as_claimed_simps(5) prekey_status.distinct(1))
        with r show ?thesis by (auto simp: 2(2))
      qed
      let ?c = "\<lparr>ck_deviceId = dev, ck_prekeyId = py_id r, ck_prekeyPub = py_pub r\<rparr>"
      have res: "claim_loop u now (dev # devs) d = (?c # cs, d2)"
        using Some one loop 2(1) by simp
      have dist: "distinct devs" "dev \<notin> set devs" using Cons.prems(2) by auto
      have tab: "db_prekeys d2 = map (\<lambda>s. if py_id s \<in> ck_prekeyId ` set (?c # cs) then as_claimed now s else s)
          (db_prekeys d)"
        using IH dist(1) eq by (auto simp: 2(2))
      have each: "\<forall>c\<in>set (?c # cs). ck_deviceId c \<in> set (dev # devs) \<and> (\<exists>r\<in>set (db_prekeys d).
          py_id r = ck_prekeyId c \<and> is_device u (ck_deviceId c) r \<and> py_status r = Unused
          \<and> py_pub r = ck_prekeyPub c)"
        using IH dist(1) r unused by fastforce
      have dd: "distinct (map ck_deviceId (?c # cs))"
        using IH dist by auto
      have "db_faults d = [] \<Longrightarrow> db_faults d2 = [] \<and> set (map ck_deviceId (?c # cs))
          = {dv \<in> set (dev # devs). \<exists>s\<in>set (db_prekeys d). is_device u dv s \<and> py_status s = Unused}"
      proof -
        assume nf: "db_faults d = []"
        then have "db_faults d1 = []" using claim_one_faults [OF nf, of now r] one by simp
        with IH dist(1) have *: "db_faults d2 = []" "set (map ck_deviceId cs)
            = {dv \<in> set devs. \<exists>s\<in>set (db_prekeys d1). is_device u dv s \<and> py_status s = Unused}" by auto
        have "(\<exists>s\<in>set (db_prekeys d1). is_device u dv s \<and> py_status s = Unused)
            \<longleftrightarrow> (\<exists>s\<in>set (db_prekeys d). is_device u dv s \<and> py_status s = Unused)" if "dv \<in> set devs" for dv
          using that dist(2) r unused by (metis is_device_def)
        with * r show ?thesis by auto
      qed
      with tab each dd show ?thesis unfolding Let_def res prod.case by blast
    qed
  qed
qed (simp add: Let_def)

lemma begin_prekeys [simp]:
  "db_prekeys (snd (beginTransaction d)) = db_prekeys d"
  "db_prekeys (snd (commitTransaction d)) = db_prekeys d"
  "db_prekeys (rollbackTransaction d d') = db_prekeys d"
  unfolding beginTransaction_def commitTransaction_def rollbackTransaction_def
  by (rule exec_stmt_frame; simp)+ simp

lemma reclaim_prekeys:
  "db_prekeys (reclaim now d) = map (as_reclaimed now) (db_prekeys d)
   \<or> db_prekeys (reclaim now d) = db_prekeys d \<and> db_faults d \<noteq> []"
proof -
  have "update_where (claim_expired now) (\<lambda>r. r\<lparr>py_status := Unused, py_claimedAt := None\<rparr>) (db_prekeys d)
      = map (as_reclaimed now) (db_prekeys d)"
    by (simp add: update_where_def as_reclaimed_def)
  then show ?thesis
    by (cases "db_faults d") (auto simp: reclaim_def update_prekeys_def exec_stmt_def next_fault_def)
qed

lemma as_reclaimed_simps [simp]:
  "py_id (as_reclaimed now r) = py_id r" "is_device u dev (as_reclaimed now r) = is_device u dev r"
  "py_pub (as_reclaimed now r) = py_pub r" "py_userId (as_reclaimed now r) = py_userId r"
  "py_deviceId (as_reclaimed now r) = py_deviceId r"
  "py_status (as_reclaimed now r) = Unused \<longleftrightarrow> py_status r = Unused \<or> claim_expired now r"
  by (auto simp: as_reclaimed_def is_device_def)

text \<open>A prekey that can be handed out: unused, or claimed and not consumed within the time limit.\<close>

definition available :: "time \<Rightarrow> ident \<Rightarrow> string \<Rightarrow> prekey_row \<Rightarrow> bool" where
  "available now u dev r \<longleftrightarrow> is_device u dev r \<and> (py_status r = Unused \<or> claim_expired now r)"

lemma claimPrekeys_spec:
  fixes u :: ident and now :: time
  assumes "unique_ids d"
  defines "cs \<equiv> fst (claimPrekeys u now d)" and "d' \<equiv> snd (claimPrekeys u now d)"
  shows "\<forall>c\<in>set cs. \<exists>r\<in>set (db_prekeys d). available now u (ck_deviceId c) r
           \<and> py_id r = ck_prekeyId c \<and> py_pub r = ck_prekeyPub c"
    and "distinct (map ck_deviceId cs)"
    and "db_prekeys d' = db_prekeys d \<and> cs = []
      \<or> (\<exists>g. (g = as_reclaimed now \<or> g = id) \<and> db_prekeys d'
          = map (\<lambda>r. if py_id r \<in> ck_prekeyId ` set cs then as_claimed now (g r) else g r) (db_prekeys d))"
    and "db_faults d = [] \<Longrightarrow> set (map ck_deviceId cs)
          = {dev. \<exists>r\<in>set (db_prekeys d). available now u dev r}"
proof -
  define d1 where "d1 = snd (beginTransaction d)"
  define d2 where "d2 = reclaim now d1"
  define L where "L = claim_loop u now (stocked_devices u d2) d2"
  define C where "C = commitTransaction (snd L)"
  have p1: "db_prekeys d1 = db_prekeys d" by (simp add: d1_def)
  obtain g where g: "g = as_reclaimed now \<or> g = id \<and> db_faults d1 \<noteq> []"
    and p2: "db_prekeys d2 = map g (db_prekeys d)"
    using reclaim_prekeys [of now d1] that [of "as_reclaimed now"] that [of id] by (auto simp: d2_def p1)
  then have gid: "py_id (g r) = py_id r" "is_device u dev (g r) = is_device u dev r"
    "py_pub (g r) = py_pub r" "py_status (g r) = Unused \<Longrightarrow> py_status r = Unused \<or> claim_expired now r" for r dev
    by (auto simp: id_def)
  have "unique_ids d2" using assms(1) by (simp add: unique_ids_def p2 gid o_def)
  moreover have "distinct (stocked_devices u d2)" by (simp add: stocked_devices_def)
  ultimately have L: "db_prekeys (snd L)
        = map (\<lambda>r. if py_id r \<in> ck_prekeyId ` set (fst L) then as_claimed now r else r) (db_prekeys d2)"
    "\<forall>c\<in>set (fst L). ck_deviceId c \<in> set (stocked_devices u d2) \<and> (\<exists>r\<in>set (db_prekeys d2).
        py_id r = ck_prekeyId c \<and> is_device u (ck_deviceId c) r \<and> py_status r = Unused
        \<and> py_pub r = ck_prekeyPub c)"
    "distinct (map ck_deviceId (fst L))"
    "db_faults d2 = [] \<Longrightarrow> db_faults (snd L) = [] \<and> set (map ck_deviceId (fst L))
      = {dev \<in> set (stocked_devices u d2). \<exists>r\<in>set (db_prekeys d2). is_device u dev r \<and> py_status r = Unused}"
    using claim_loop_spec [of d2 "stocked_devices u d2" u now] by (auto simp: L_def Let_def split_beta)
  consider "cs = []" "db_prekeys d' = db_prekeys d" "db_faults d = [] \<longrightarrow> \<not> fst C"
    | "cs = fst L" "db_prekeys d' = db_prekeys (snd L)"
    unfolding cs_def d'_def claimPrekeys_def Let_def split_beta d1_def [symmetric] d2_def [symmetric]
      L_def [symmetric] C_def [symmetric]
    by (cases "db_faults d"; cases "fst (beginTransaction d)"; cases "fst C")
      (auto simp: C_def p1 beginTransaction_def exec_stmt_no_fault)
  note cases = this
  have each: "\<forall>c\<in>set (fst L). \<exists>r\<in>set (db_prekeys d). available now u (ck_deviceId c) r
           \<and> py_id r = ck_prekeyId c \<and> py_pub r = ck_prekeyPub c"
    using L(2) gid by (fastforce simp: p2 available_def)
  from cases show "\<forall>c\<in>set cs. \<exists>r\<in>set (db_prekeys d). available now u (ck_deviceId c) r
           \<and> py_id r = ck_prekeyId c \<and> py_pub r = ck_prekeyPub c"
    using each by cases auto
  from cases show "distinct (map ck_deviceId cs)"
    using L(3) by cases auto
  from cases show "db_prekeys d' = db_prekeys d \<and> cs = []
      \<or> (\<exists>g. (g = as_reclaimed now \<or> g = id) \<and> db_prekeys d'
          = map (\<lambda>r. if py_id r \<in> ck_prekeyId ` set cs then as_claimed now (g r) else g r) (db_prekeys d))"
  proof cases
    case 2
    then have "db_prekeys d' = map (\<lambda>r. if py_id r \<in> ck_prekeyId ` set cs then as_claimed now (g r) else g r)
        (db_prekeys d)"
      by (simp add: L(1) p2 gid)
    with g show ?thesis by blast
  qed simp
  assume nf: "db_faults d = []"
  then have nf1: "db_faults d1 = []" by (simp add: d1_def beginTransaction_def exec_stmt_no_fault)
  then have nf2: "db_faults d2 = []"
    by (simp add: d2_def reclaim_def update_prekeys_def exec_stmt_no_fault)
  with L(4) have "fst C" by (simp add: C_def commitTransaction_def exec_stmt_no_fault)
  with cases nf have "cs = fst L" by cases auto
  moreover have "g = as_reclaimed now" using g nf1 by simp
  ultimately show "set (map ck_deviceId cs) = {dev. \<exists>r\<in>set (db_prekeys d). available now u dev r}"
    using L(4) nf2 by (auto simp: stocked_devices_def p2 available_def is_device_def image_iff)
qed

lemma db_inv_unique_ids: "db_inv d \<Longrightarrow> unique_ids d"
  by (simp add: db_inv_def prekeys_ok_def keys_ok_def unique_ids_def)

lemma as_claimed_reclaimed [simp]: "as_claimed now (as_reclaimed now' r) = as_claimed now r"
  by (simp add: as_claimed_def as_reclaimed_def)

lemma as_reclaimed_used: "py_status r = Used \<Longrightarrow> as_reclaimed now r = r"
  by (simp add: as_reclaimed_def claim_expired_def)

lemma claim_table:
  assumes "unique_ids d"
  obtains g where "g = as_reclaimed now \<or> g = id"
    "db_prekeys (snd (claimPrekeys u now d)) = map (\<lambda>r. if py_id r \<in> ck_prekeyId ` set (fst (claimPrekeys u now d))
        then as_claimed now (g r) else g r) (db_prekeys d)"
  using claimPrekeys_spec(3) [OF assms, of u now]
proof
  assume "db_prekeys (snd (claimPrekeys u now d)) = db_prekeys d \<and> fst (claimPrekeys u now d) = []"
  then show thesis by (intro that [of id]) simp_all
qed (use that in blast)

lemma claim_origin:
  assumes "unique_ids d" and "i \<in> ck_prekeyId ` set (fst (claimPrekeys u now d))"
  obtains r where "r \<in> set (db_prekeys d)" "py_id r = i" "py_status r = Unused \<or> claim_expired now r"
proof -
  from assms(2) obtain c where c: "c \<in> set (fst (claimPrekeys u now d))" "ck_prekeyId c = i" by blast
  from claimPrekeys_spec(1) [OF assms(1)] c(1) obtain r where
    "r \<in> set (db_prekeys d)" "available now u (ck_deviceId c) r" "py_id r = ck_prekeyId c" by blast
  with c(2) show thesis by (intro that) (auto simp: available_def)
qed

lemma claim_marks:
  assumes "unique_ids d" and "r \<in> set (db_prekeys d)"
    and "py_id r \<in> ck_prekeyId ` set (fst (claimPrekeys u now d))"
  shows "as_claimed now r \<in> set (db_prekeys (snd (claimPrekeys u now d)))"
proof -
  obtain g where g: "g = as_reclaimed now \<or> g = id"
    "db_prekeys (snd (claimPrekeys u now d)) = map (\<lambda>r. if py_id r \<in> ck_prekeyId ` set (fst (claimPrekeys u now d))
        then as_claimed now (g r) else g r) (db_prekeys d)"
    using claim_table [OF assms(1)] .
  have "as_claimed now (g r) = as_claimed now r" using g(1) by auto
  with assms(2,3) show ?thesis unfolding g(2) by (auto intro!: rev_image_eqI [of r])
qed

lemma claim_keeps_used:
  assumes "unique_ids d" and "r \<in> set (db_prekeys d)" and "py_status r = Used"
  shows "r \<in> set (db_prekeys (snd (claimPrekeys u now d)))"
    and "py_id r \<notin> ck_prekeyId ` set (fst (claimPrekeys u now d))"
proof -
  show n: "py_id r \<notin> ck_prekeyId ` set (fst (claimPrekeys u now d))"
  proof
    assume "py_id r \<in> ck_prekeyId ` set (fst (claimPrekeys u now d))"
    then obtain s where s: "s \<in> set (db_prekeys d)" "py_id s = py_id r"
      "py_status s = Unused \<or> claim_expired now s"
      using claim_origin [OF assms(1)] by blast
    then have "s = r" using unique_idsD [OF assms(1)] assms(2) by blast
    with s(3) assms(3) show False by (simp add: claim_expired_def)
  qed
  obtain g where g: "g = as_reclaimed now \<or> g = id"
    "db_prekeys (snd (claimPrekeys u now d)) = map (\<lambda>r. if py_id r \<in> ck_prekeyId ` set (fst (claimPrekeys u now d))
        then as_claimed now (g r) else g r) (db_prekeys d)"
    using claim_table [OF assms(1)] .
  have "g r = r" using g(1) as_reclaimed_used [OF assms(3)] by auto
  with assms(2) n show "r \<in> set (db_prekeys (snd (claimPrekeys u now d)))"
    unfolding g(2) by (auto intro!: rev_image_eqI [of r])
qed

section \<open>Properties\<close>

text \<open>
  C19: a claim hands out, for each device of the user that has a prekey to give, at most one prekey:
  one that was unused or whose earlier claim has run out, with its public key, and marks it claimed.
  When no statement fails, every such device gets one.
\<close>

theorem claim_hands_out_available:
  assumes "db_inv d"
  shows "let (cs, d') = claimPrekeys u now d in
     (\<forall>c\<in>set cs. \<exists>r\<in>set (db_prekeys d). available now u (ck_deviceId c) r
        \<and> py_id r = ck_prekeyId c \<and> py_pub r = ck_prekeyPub c \<and> as_claimed now r \<in> set (db_prekeys d'))
     \<and> distinct (map ck_deviceId cs)
     \<and> (db_faults d = [] \<longrightarrow>
          set (map ck_deviceId cs) = {dev. \<exists>r\<in>set (db_prekeys d). available now u dev r})"
proof -
  have u: "unique_ids d" using assms by (rule db_inv_unique_ids)
  note spec = claimPrekeys_spec [OF u, of u now]
  have "\<forall>c\<in>set (fst (claimPrekeys u now d)). \<exists>r\<in>set (db_prekeys d). available now u (ck_deviceId c) r
        \<and> py_id r = ck_prekeyId c \<and> py_pub r = ck_prekeyPub c
        \<and> as_claimed now r \<in> set (db_prekeys (snd (claimPrekeys u now d)))"
    using spec(1) claim_marks [OF u] by (metis imageI)
  with spec(2,4) show ?thesis by (simp add: Let_def split_beta)
qed

definition bobs_keys :: db where
  "bobs_keys = db_alice_bob\<lparr>db_prekeySeq := 3, db_prekeys :=
     [\<lparr>py_id = 1, py_userId = 2, py_deviceId = ''p'', py_pub = ''k1'', py_status = Used, py_claimedAt = Some 5\<rparr>,
      \<lparr>py_id = 2, py_userId = 2, py_deviceId = ''p'', py_pub = ''k2'', py_status = Claimed, py_claimedAt = Some 100\<rparr>,
      \<lparr>py_id = 3, py_userId = 2, py_deviceId = ''p'', py_pub = ''k3'', py_status = Unused, py_claimedAt = None\<rparr>]\<rparr>"

lemma bobs_keys_inv: "db_inv bobs_keys"
  by (simp add: bobs_keys_def sample_defs db_inv_def tables_ok_defs client_keys_ok_def keys_ok_def user_ids_def)

lemma singleton_list: "set xs = {x} \<Longrightarrow> distinct xs \<Longrightarrow> xs = [x]"
  by (cases xs; cases "tl xs") auto

theorem claim_hands_out_available_witness:
  "map ck_deviceId (fst (claimPrekeys 2 1000 bobs_keys)) = [''p'']"
proof -
  have "{dev. \<exists>r\<in>set (db_prekeys bobs_keys). available 1000 2 dev r} = {''p''}"
    by (auto simp: bobs_keys_def available_def is_device_def claim_expired_def)
  moreover have "db_faults bobs_keys = []" by (simp add: bobs_keys_def sample_defs)
  ultimately have "set (map ck_deviceId (fst (claimPrekeys 2 1000 bobs_keys))) = {''p''}"
    and "distinct (map ck_deviceId (fst (claimPrekeys 2 1000 bobs_keys)))"
    using claim_hands_out_available [OF bobs_keys_inv, of 2 1000] by (simp_all add: split_beta Let_def)
  then show ?thesis by (rule singleton_list)
qed

text \<open>
  C20: two claims that lie less than 600 seconds apart never hand out the same prekey, whoever asks,
  and a prekey that was used is never handed out nor changed by a claim again.
\<close>

theorem claims_are_disjoint:
  assumes "db_inv d" and "now2 < now + 600"
  shows "set (map ck_prekeyId (fst (claimPrekeys u now d)))
       \<inter> set (map ck_prekeyId (fst (claimPrekeys v now2 (snd (claimPrekeys u now d))))) = {}
     \<and> (\<forall>r\<in>set (db_prekeys d). py_status r = Used
          \<longrightarrow> r \<in> set (db_prekeys (snd (claimPrekeys u now d)))
            \<and> py_id r \<notin> set (map ck_prekeyId (fst (claimPrekeys u now d))))"
proof -
  let ?d = "snd (claimPrekeys u now d)"
  have u: "unique_ids d" using assms(1) by (rule db_inv_unique_ids)
  have u': "unique_ids ?d" using assms(1) by (intro db_inv_unique_ids claimPrekeys_inv)
  have False if a: "i \<in> ck_prekeyId ` set (fst (claimPrekeys u now d))"
    and b: "i \<in> ck_prekeyId ` set (fst (claimPrekeys v now2 ?d))" for i
  proof -
    obtain r where r: "r \<in> set (db_prekeys d)" "py_id r = i"
      using claim_origin [OF u a] by blast
    then have c: "as_claimed now r \<in> set (db_prekeys ?d)"
      using claim_marks [OF u r(1)] a r(2) by simp
    obtain s where s: "s \<in> set (db_prekeys ?d)" "py_id s = i" "py_status s = Unused \<or> claim_expired now2 s"
      using claim_origin [OF u' b] by blast
    have "s = as_claimed now r"
      using unique_idsD [OF u' s(1) c] s(2) r(2) by simp
    with s(3) assms(2) show False by (simp add: claim_expired_def as_claimed_def)
  qed
  then show ?thesis
    using claim_keeps_used [OF u] by auto
qed

theorem claims_are_disjoint_witness:
  "set (map ck_prekeyId (fst (claimPrekeys 2 1000 bobs_keys)))
     \<inter> set (map ck_prekeyId (fst (claimPrekeys 2 1500 (snd (claimPrekeys 2 1000 bobs_keys))))) = {}"
  using claims_are_disjoint [OF bobs_keys_inv, of 1500 1000 2 2] by simp

end
