(* ===== verification/Handler_Frames.thy ===== *)
theory Handler_Frames
  imports Handler_Dispatch
begin

text \<open>
  What the building blocks of the handlers leave alone: the statements outside their own table, and
  the fan-out loops everything but the event stream and the outputs.
\<close>

section \<open>Views of the database\<close>

text \<open>Membership and the types of the conversations.\<close>

definition groups_view :: "db \<Rightarrow> member_row list \<times> (ident \<times> string) list" where
  "groups_view d = (db_members d, map (\<lambda>c. (cv_id c, cv_type c)) (db_convs d))"

lemma groups_view_members: "groups_view d = groups_view d' \<Longrightarrow> db_members d = db_members d'"
  by (simp add: groups_view_def)

lemma find_map_type:
  "map_option cv_type (find (\<lambda>r. cv_id r = c) cs)
   = map_option snd (find (\<lambda>(i, t). i = c) (map (\<lambda>c. (cv_id c, cv_type c)) cs))"
  by (induction cs) auto

lemma is_group_type: "is_group (getConversation c d) \<longleftrightarrow> map_option cv_type (find_conv c d) = Some ''group''"
  by (simp add: is_group_def getConversation_def split: option.splits)

lemma groups_view_type:
  "groups_view d = groups_view d' \<Longrightarrow> map_option cv_type (find_conv c d) = map_option cv_type (find_conv c d')"
proof -
  assume "groups_view d = groups_view d'"
  then have "map (\<lambda>c. (cv_id c, cv_type c)) (db_convs d) = map (\<lambda>c. (cv_id c, cv_type c)) (db_convs d')"
    by (simp only: groups_view_def prod.inject)
  then show ?thesis unfolding find_conv_def by (simp only: find_map_type)
qed

lemma groups_view_is_group:
  "groups_view d = groups_view d' \<Longrightarrow> is_group (getConversation c d) = is_group (getConversation c d')"
  unfolding is_group_type by (frule groups_view_type [of _ _ c]) simp

lemma groups_view_member:
  "groups_view d = groups_view d' \<Longrightarrow> isConversationMember c u d = isConversationMember c u d'"
  by (simp add: isConversationMember_def groups_view_def)

lemma groups_view_role:
  "groups_view d = groups_view d' \<Longrightarrow> groupRole c u d = groupRole c u d'"
  by (simp add: groupRole_def groups_view_def)

section \<open>Statements\<close>

lemma transaction_frame:
  assumes "\<And>d fs. F (d\<lparr>db_faults := fs\<rparr>) = F d"
  shows "F (snd (beginTransaction d)) = F d" "F (snd (commitTransaction d)) = F d"
    "F (rollbackTransaction d d') = F d"
  unfolding beginTransaction_def commitTransaction_def rollbackTransaction_def
  by (rule exec_stmt_frame; simp add: assms)+ (simp add: assms)

lemma groups_view_faults: "groups_view (d\<lparr>db_faults := fs\<rparr>) = groups_view d"
  by (simp add: groups_view_def)

lemma append_frame:
  "db_msgs (snd (appendSyncEvent u ty pl now d)) = db_msgs d"
  "db_prekeys (snd (appendSyncEvent u ty pl now d)) = db_prekeys d"
  "groups_view (snd (appendSyncEvent u ty pl now d)) = groups_view d"
  "db_members (snd (appendSyncEvent u ty pl now d)) = db_members d"
  "db_receipts (snd (appendSyncEvent u ty pl now d)) = db_receipts d"
  "db_convs (snd (appendSyncEvent u ty pl now d)) = db_convs d"
  "db_users (snd (appendSyncEvent u ty pl now d)) = db_users d"
  "db_faults d = [] \<Longrightarrow> db_faults (snd (appendSyncEvent u ty pl now d)) = []"
proof -
  let ?s = "\<lambda>d. snd (appendSyncEvent u ty pl now d)"
  have F: "F (?s d) = F d" if "\<And>d fs. F (d\<lparr>db_faults := fs\<rparr>) = F d" "\<And>a d. F (insert_event a d) = F d"
    for F :: "db \<Rightarrow> 'z"
    unfolding appendSyncEvent_def Let_def split_beta by (simp add: exec_stmt_frame that)
  show "db_msgs (?s d) = db_msgs d" "db_prekeys (?s d) = db_prekeys d"
    "groups_view (?s d) = groups_view d" "db_members (?s d) = db_members d"
    "db_receipts (?s d) = db_receipts d" "db_convs (?s d) = db_convs d" "db_users (?s d) = db_users d"
    by (rule F; simp add: insert_event_def groups_view_def split_beta)+
qed (rule appendSyncEvent_frame)

lemma touch_conv_frame:
  "db_msgs (snd (touch_conv c now d)) = db_msgs d" "db_prekeys (snd (touch_conv c now d)) = db_prekeys d"
  "groups_view (snd (touch_conv c now d)) = groups_view d"
  "db_users (snd (touch_conv c now d)) = db_users d"
proof -
  let ?up = "\<lambda>cs. update_where (\<lambda>r. cv_id r = c) (\<lambda>r. r\<lparr>cv_updatedAt := now\<rparr>) cs"
  have "map (\<lambda>c. (cv_id c, cv_type c)) (?up cs) = map (\<lambda>c. (cv_id c, cv_type c)) cs" for cs
    by (rule map_update_where) simp
  then show "groups_view (snd (touch_conv c now d)) = groups_view d"
    unfolding touch_conv_def by (intro exec_stmt_frame) (simp_all add: groups_view_def)
qed (simp_all add: touch_conv_def exec_stmt_frame)

lemma consume_frame:
  "db_msgs (snd (consumePrekeys is d)) = db_msgs d" "groups_view (snd (consumePrekeys is d)) = groups_view d"
  "db_users (snd (consumePrekeys is d)) = db_users d"
proof -
  have F: "F (snd (consume_loop is n d)) = F d"
    if "\<And>d fs. F (d\<lparr>db_faults := fs\<rparr>) = F d" "\<And>d ps. F (d\<lparr>db_prekeys := ps\<rparr>) = F d"
    for F :: "db \<Rightarrow> 'z" and n
    by (induction "is" arbitrary: n d)
      (simp_all add: Let_def split_beta update_prekeys_def exec_stmt_frame that)
  show "db_msgs (snd (consumePrekeys is d)) = db_msgs d"
    "groups_view (snd (consumePrekeys is d)) = groups_view d"
    "db_users (snd (consumePrekeys is d)) = db_users d"
    unfolding consumePrekeys_def by (simp_all add: F groups_view_def)
qed

text \<open>A message that is sent is one more row, or was there already.\<close>

lemma sendMessage_cases:
  obtains (existing) x where "getMessageByClientKey s dev cid d = Some x"
      "db_sendMessage c s content ct cid dev now d = (mi_id x, d)"
  | (failed) fs where "getMessageByClientKey s dev cid d = None"
      "db_sendMessage c s content ct cid dev now d = (-1, d\<lparr>db_faults := fs\<rparr>)"
  | (stored) m where "getMessageByClientKey s dev cid d = None"
      "m = mk_msg (db_msgSeq d + 1) (c, s, content, ct, cid, dev, now) d"
      "fst (db_sendMessage c s content ct cid dev now d) = db_msgSeq d + 1"
      "db_msgs (snd (db_sendMessage c s content ct cid dev now d)) = db_msgs d @ [m]"
      "groups_view (snd (db_sendMessage c s content ct cid dev now d)) = groups_view d"
      "db_prekeys (snd (db_sendMessage c s content ct cid dev now d)) = db_prekeys d"
      "db_users (snd (db_sendMessage c s content ct cid dev now d)) = db_users d"
      "has_conv c d" "has_user s d" "client_key_free s cid dev d"
proof (cases "getMessageByClientKey s dev cid d")
  case (Some x)
  then show ?thesis by (intro existing) (simp_all add: db_sendMessage_def)
next
  case None
  let ?ok = "\<lambda>d. has_conv c d \<and> has_user s d \<and> client_key_free s cid dev d"
  let ?ins = "insert_msg (c, s, content, ct, cid, dev, now)"
  show ?thesis
  proof (rule exec_stmt_cases [of ?ok ?ins d])
    fix fs assume e: "exec_stmt ?ok ?ins d = (False, d\<lparr>db_faults := fs\<rparr>)"
    have "getMessageByClientKey s dev cid (d\<lparr>db_faults := fs\<rparr>) = getMessageByClientKey s dev cid d"
      by (simp add: getMessageByClientKey_def)
    then have "getMessageByClientKey s dev cid (d\<lparr>db_faults := fs\<rparr>) = None"
      using None by (simp only:)
    with e None show ?thesis by (intro failed) (simp_all add: db_sendMessage_def)
  next
    fix fs
    assume e: "exec_stmt ?ok ?ins d = (True, ?ins (d\<lparr>db_faults := fs\<rparr>))" "?ok (d\<lparr>db_faults := fs\<rparr>)"
    show ?thesis
      by (rule stored [OF None refl])
        (use e None in \<open>simp_all add: db_sendMessage_def touch_conv_frame insert_msg_def mk_msg_def
            groups_view_def [of "_\<lparr>db_msgs := _, db_msgSeq := _\<rparr>"] groups_view_def [of d]
            has_conv_def has_user_def client_key_free_def\<close>)
  qed
qed

section \<open>Loops\<close>

lemma fan_out_frame:
  "db_msgs (w_db (fan_out E u ms ev nt w)) = db_msgs (w_db w)"
  "db_prekeys (w_db (fan_out E u ms ev nt w)) = db_prekeys (w_db w)"
  "groups_view (w_db (fan_out E u ms ev nt w)) = groups_view (w_db w)"
  "db_users (w_db (fan_out E u ms ev nt w)) = db_users (w_db w)"
  "w_userId (fan_out E u ms ev nt w) = w_userId w" "w_deviceId (fan_out E u ms ev nt w) = w_deviceId w"
  "w_sendWindow (fan_out E u ms ev nt w) = w_sendWindow w"
  by (induction ms arbitrary: w) (simp_all add: Let_def append_frame)

lemma fan_out_outs:
  "w_outs (fan_out E u ms ev nt w)
    = w_outs w @ map (\<lambda>m. MessageFor m NewMessageNotification nt) (filter (\<lambda>m. m \<noteq> u) ms)"
  by (induction ms arbitrary: w) (simp_all add: Let_def)

lemma tell_changed_frame:
  "db_msgs (w_db (tell_changed E ms pl w)) = db_msgs (w_db w)"
  "db_prekeys (w_db (tell_changed E ms pl w)) = db_prekeys (w_db w)"
  "groups_view (w_db (tell_changed E ms pl w)) = groups_view (w_db w)"
  "db_users (w_db (tell_changed E ms pl w)) = db_users (w_db w)"
  "w_userId (tell_changed E ms pl w) = w_userId w"
  "w_outs (tell_changed E ms pl w) = w_outs w @ map (\<lambda>m. MessageFor m GroupChangedNotification pl) ms"
  by (induction ms arbitrary: w) (simp_all add: append_frame)

lemma tell_members_frame:
  "db_msgs (w_db (tell_members E ms ty mt ev w)) = db_msgs (w_db w)"
  "groups_view (w_db (tell_members E ms ty mt ev w)) = groups_view (w_db w)"
  "w_outs (tell_members E ms ty mt ev w) = w_outs w @ map (\<lambda>m. MessageFor m mt ev) ms"
  by (induction ms arbitrary: w) (simp_all add: append_frame)

lemma sendMessage_groups_view:
  "groups_view (snd (db_sendMessage c s content ct cid dev now d)) = groups_view d"
  by (rule sendMessage_cases [of s dev cid d c content ct now]) (simp_all add: groups_view_faults)

lemma post_frame:
  "groups_view (w_db (postGroupSystemMessage E c u pl w)) = groups_view (w_db w)"
  "w_userId (postGroupSystemMessage E c u pl w) = w_userId w"
  by (simp_all add: postGroupSystemMessage_def Let_def split_beta fan_out_frame sendMessage_groups_view)

lemma notify_frame:
  "groups_view (w_db (notifyGroupChanged E c ty u t w)) = groups_view (w_db w)"
  "w_userId (notifyGroupChanged E c ty u t w) = w_userId w"
  by (simp_all add: notifyGroupChanged_def Let_def tell_changed_frame)

end
