(* ===== verification/Message_Properties.thy ===== *)
theory Message_Properties
  imports Key_Properties Handler_Frames
begin

text \<open>
  Messages through the handlers: sending once per client key, what a private message consumes and
  whom it tells, and who may edit or delete.
\<close>

section \<open>The client key\<close>

definition has_key :: "ident \<Rightarrow> string \<Rightarrow> string \<Rightarrow> msg_row \<Rightarrow> bool" where
  "has_key s dev cid r \<longleftrightarrow> ms_senderId r = s \<and> ms_senderDevice r = Some dev \<and> ms_clientId r = Some cid"

lemma client_key_lookup:
  "cid \<noteq> [] \<Longrightarrow> (getMessageByClientKey s dev cid d = None \<longleftrightarrow> (\<forall>r\<in>set (db_msgs d). \<not> has_key s dev cid r))"
  by (auto simp: getMessageByClientKey_def has_key_def find_None_iff)

lemma client_key_same_msgs:
  "db_msgs d = db_msgs d' \<Longrightarrow> getMessageByClientKey s dev cid d = getMessageByClientKey s dev cid d'"
  by (simp add: getMessageByClientKey_def)

text \<open>A message that was sent is found again under its key, as long as the device has a name.\<close>

lemma sent_then_found:
  assumes "cid \<noteq> []" "dev \<noteq> []" and "0 \<le> fst (db_sendMessage c s content ct cid dev now d)"
    and "db_msgs d' = db_msgs (snd (db_sendMessage c s content ct cid dev now d))"
  shows "\<exists>x. getMessageByClientKey s dev cid d' = Some x
     \<and> mi_id x = fst (db_sendMessage c s content ct cid dev now d)"
proof (rule sendMessage_cases [of s dev cid d c content ct now])
  fix x assume x: "getMessageByClientKey s dev cid d = Some x"
    "db_sendMessage c s content ct cid dev now d = (mi_id x, d)"
  then show ?thesis using assms(4) client_key_same_msgs [of d' d] by simp
next
  fix fs assume "db_sendMessage c s content ct cid dev now d = (-1, d\<lparr>db_faults := fs\<rparr>)"
  with assms(3) show ?thesis by simp
next
  fix m assume n: "getMessageByClientKey s dev cid d = None"
    and m: "m = mk_msg (db_msgSeq d + 1) (c, s, content, ct, cid, dev, now) d"
    and r: "fst (db_sendMessage c s content ct cid dev now d) = db_msgSeq d + 1"
      "db_msgs (snd (db_sendMessage c s content ct cid dev now d)) = db_msgs d @ [m]"
  have "find (has_key s dev cid) (db_msgs d) = None"
    using n client_key_lookup [OF assms(1)] by (simp add: find_None_iff)
  moreover have "has_key s dev cid m"
    using assms(1,2) by (simp add: m mk_msg_def has_key_def null_if_empty_def)
  ultimately have "find (has_key s dev cid) (db_msgs d') = Some m"
    by (simp add: assms(4) r find_append)
  then have f: "find (\<lambda>r. ms_senderId r = s \<and> ms_senderDevice r = Some dev \<and> ms_clientId r = Some cid)
      (db_msgs d') = Some m"
    by (simp add: has_key_def [abs_def])
  have "ms_id m = db_msgSeq d + 1" by (simp add: m mk_msg_def)
  with f assms(1) show ?thesis by (simp add: getMessageByClientKey_def r)
qed

section \<open>Sending a private message\<close>

lemma end_commit_frame:
  assumes "\<And>d fs. F (d\<lparr>db_faults := fs\<rparr>) = F d"
  shows "F (snd (end_commit b d)) = F d"
  by (simp add: end_commit_def transaction_frame(2) [of F] assms)

lemma send_private_ok:
  assumes "Reply rid SendMessageResponse Ok msg data
     \<in> set (w_outs (send_private E p rq cid (w\<lparr>w_outs := []\<rparr>)))"
  obtains (reused) x where "getMessageByClientKey (w_userId w) (w_deviceId w) cid (w_db w) = Some x"
      "data = reused_data x cid" "jlonglong (jget rq ''toUserId'') > 0"
      "jlonglong (jget rq ''toUserId'') \<noteq> w_userId w" "jstr (jget rq ''content'') \<noteq> []"
      "w_db (send_private E p rq cid w) = w_db w"
  | (fresh) entries ids c d2 begun where
      "jlonglong (jget rq ''toUserId'') > 0" "jlonglong (jget rq ''toUserId'') \<noteq> w_userId w"
      "jstr (jget rq ''content'') \<noteq> []"
      "getMessageByClientKey (w_userId w) (w_deviceId w) cid (w_db w) = None"
      "decodeEnvelope (e_ext E) (jstr (jget rq ''content'')) = Some entries"
      "check_entries (jlonglong (jget rq ''toUserId'')) (w_deviceId w) (w_db w) entries [] False [] = Inr ids"
      "ids \<noteq> []"
      "c = fst (getOrCreatePrivateConversation (w_userId w) (jlonglong (jget rq ''toUserId'')) (e_now E) (w_db w))"
      "(begun, d2) = beginTransaction (snd (getOrCreatePrivateConversation (w_userId w)
          (jlonglong (jget rq ''toUserId'')) (e_now E) (w_db w)))"
      "0 \<le> c"
      "0 \<le> fst (db_sendMessage c (w_userId w) (jstr (jget rq ''content''))
            (jstr_or ''text'' (jget rq ''contentType'')) cid (w_deviceId w) (e_now E) d2)"
      "data = sent_data (fst (db_sendMessage c (w_userId w) (jstr (jget rq ''content''))
            (jstr_or ''text'' (jget rq ''contentType'')) cid (w_deviceId w) (e_now E) d2)) c cid"
      "\<And>F :: db \<Rightarrow> msg_row list \<times> prekey_row list. (\<And>d fs. F (d\<lparr>db_faults := fs\<rparr>) = F d) \<Longrightarrow>
         (\<And>u ty pl now d. F (snd (appendSyncEvent u ty pl now d)) = F d) \<Longrightarrow>
         F (w_db (send_private E p rq cid w)) = F (snd (consumePrekeys ids
           (snd (db_sendMessage c (w_userId w) (jstr (jget rq ''content''))
            (jstr_or ''text'' (jget rq ''contentType'')) cid (w_deviceId w) (e_now E) d2))))"
      "\<exists>nt. w_outs (send_private E p rq cid w) = w_outs w
         @ [MessageFor (jlonglong (jget rq ''toUserId'')) NewMessageNotification nt,
            Reply (pk_reqid p) SendMessageResponse Ok ''Message sent'' data]"
proof -
  let ?t = "jlonglong (jget rq ''toUserId'')" and ?content = "jstr (jget rq ''content'')"
  let ?me = "w_userId w" and ?dev = "w_deviceId w"
  have g: "?t > 0" "?t \<noteq> ?me" "?content \<noteq> []"
    using assms by (auto simp: send_private_def Let_def split: if_splits)
  show thesis
  proof (cases "getMessageByClientKey ?me ?dev cid (w_db w)")
    case (Some x)
    then show thesis using assms g
      by (intro reused) (simp_all add: send_private_def Let_def)
  next
    case none: None
    obtain entries where en: "decodeEnvelope (e_ext E) ?content = Some entries"
      using assms g none by (fastforce simp: send_private_def Let_def split: option.splits)
    obtain ids where ids: "check_entries ?t ?dev (w_db w) entries [] False [] = Inr ids"
      using assms g none en by (fastforce simp: send_private_def Let_def split: sum.splits)
    define gc where "gc = getOrCreatePrivateConversation ?me ?t (e_now E) (w_db w)"
    obtain begun d2 where bt: "beginTransaction (snd gc) = (begun, d2)" by fastforce
    define sm where "sm = db_sendMessage (fst gc) ?me ?content (jstr_or ''text'' (jget rq ''contentType'')) cid ?dev
        (e_now E) d2"
    define ec where "ec = end_commit begun (snd (consumePrekeys ids (snd sm)))"
    note folds = gc_def [symmetric] sm_def [symmetric] ec_def [symmetric]
    have c: "ids \<noteq> []" "0 \<le> fst gc" "0 \<le> fst sm" "fst ec" "data = sent_data (fst sm) (fst gc) cid"
      using assms g none en ids bt
      by (auto simp: send_private_def Let_def split_beta folds split: if_splits)
    have db: "F (w_db (send_private E p rq cid w)) = F (snd ec)"
      if "\<And>u ty pl now d. F (snd (appendSyncEvent u ty pl now d)) = F d" for F :: "db \<Rightarrow> 'z"
      using g none en ids bt c by (simp add: send_private_def Let_def split_beta folds that)
    have out: "\<exists>nt. w_outs (send_private E p rq cid w) = w_outs w
         @ [MessageFor ?t NewMessageNotification nt, Reply (pk_reqid p) SendMessageResponse Ok ''Message sent'' data]"
      using g none en ids bt c by (simp add: send_private_def Let_def split_beta folds)
    have db2: "F (w_db (send_private E p rq cid w)) = F (snd (consumePrekeys ids (snd sm)))"
      if "\<And>d fs. F (d\<lparr>db_faults := fs\<rparr>) = F d" "\<And>u ty pl now d. F (snd (appendSyncEvent u ty pl now d)) = F d"
      for F :: "db \<Rightarrow> 'z"
      using db [of F, OF that(2)] end_commit_frame [of F, OF that(1)] by (simp add: ec_def)
    show thesis
      by (rule fresh [of entries ids "fst gc" begun d2])
        (use g none en ids bt c out in \<open>simp_all add: folds\<close>, (rule db2; assumption))
  qed
qed

section \<open>Sending to a group\<close>

lemma is_group_Some:
  "is_group (getConversation c d) \<longleftrightarrow> (\<exists>conv. getConversation c d = Some conv \<and> ci_type conv = ''group'')"
  by (simp add: is_group_def split: option.splits)

definition group_send_allowed :: "env \<Rightarrow> jobj \<Rightarrow> ident \<Rightarrow> ident list \<Rightarrow> world \<Rightarrow> bool" where
  "group_send_allowed E rq c ids w \<longleftrightarrow>
     (let content = jstr (jget rq ''content''); ty = jstr_or ''text'' (jget rq ''contentType'')
      in is_group (getConversation c (w_db w)) \<and> isConversationMember c (w_userId w) (w_db w)
       \<and> content \<noteq> [] \<and> length content \<le> MaxGroupMessageLength
       \<and> ty \<in> {''text'', ''sender_key_distribution'', ''e2ee_group''}
       \<and> check_group_content (e_ext E) c ty content = Inr ids)"

lemma group_send_guards:
  assumes "Reply rid SendMessageResponse Ok msg data
     \<in> set (w_outs (processSendGroupMessage E p rq c cid (w\<lparr>w_outs := []\<rparr>)))"
  obtains ids where "group_send_allowed E rq c ids w"
proof -
  let ?content = "jstr (jget rq ''content'')" and ?ty = "jstr_or ''text'' (jget rq ''contentType'')"
  obtain conv where conv: "getConversation c (w_db w) = Some conv"
    using assms by (fastforce simp: processSendGroupMessage_def Let_def split: option.splits)
  have g: "ci_type conv = ''group''" "isConversationMember c (w_userId w) (w_db w)" "?content \<noteq> []"
    "length ?content \<le> MaxGroupMessageLength"
    "?ty \<in> {''text'', ''sender_key_distribution'', ''e2ee_group''}"
    using assms conv by (auto simp: processSendGroupMessage_def Let_def split: if_splits)
  obtain ids where "check_group_content (e_ext E) c ?ty ?content = Inr ids"
    using assms conv g by (fastforce simp: processSendGroupMessage_def Let_def split: sum.splits)
  with conv g show thesis by (intro that [of ids]) (simp add: group_send_allowed_def is_group_def)
qed

lemma group_send_body:
  assumes "group_send_allowed E rq c ids w"
  shows "processSendGroupMessage E p rq c cid w =
    (case getMessageByClientKey (w_userId w) (w_deviceId w) cid (w_db w) of
       Some existing \<Rightarrow> sendResponse (pk_reqid p) SendMessageResponse Ok ''Message sent''
           (reused_data existing cid) w
     | None \<Rightarrow>
         let (msgId, w1) = on_db (db_sendMessage c (w_userId w) (jstr (jget rq ''content''))
                (jstr_or ''text'' (jget rq ''contentType'')) cid (w_deviceId w) (e_now E)) w
         in if msgId < 0 then
              sendResponse (pk_reqid p) SendMessageResponse InternalError ''Failed to send message'' [] w1
            else
              let w2 = (if ids \<noteq> [] then snd (on_db (consumePrekeys ids) w1) else w1);
                  ev = [(''messageId'', JNum msgId), (''conversationId'', JNum c),
                        (''senderId'', JNum (w_userId w)), (''content'', JStr (jstr (jget rq ''content''))),
                        (''contentType'', JStr (jstr_or ''text'' (jget rq ''contentType''))),
                        (''clientMessageId'', JStr cid),
                        (''createdAt'', JStr (x_isoTime (e_ext E) (e_now E)))];
                  notify = ev @ [(''senderUsername'', JStr (usernameById (w_userId w) (w_db w2)))];
                  w3 = fan_out E (w_userId w) (getGroupMemberIds c (w_db w2)) ev notify w2
              in sendResponse (pk_reqid p) SendMessageResponse Ok ''Message sent''
                   (sent_data msgId c cid) w3)"
proof -
  obtain conv where "getConversation c (w_db w) = Some conv" "ci_type conv = ''group''"
    using assms by (auto simp: group_send_allowed_def is_group_Some Let_def)
  with assms show ?thesis
    by (auto simp: processSendGroupMessage_def group_send_allowed_def Let_def)
qed

lemma group_send_ok:
  assumes "Reply rid SendMessageResponse Ok msg data
     \<in> set (w_outs (processSendGroupMessage E p rq c cid (w\<lparr>w_outs := []\<rparr>)))"
    and "cid \<noteq> []" "w_deviceId w \<noteq> []"
  shows "\<exists>ids x. group_send_allowed E rq c ids w
    \<and> groups_view (w_db (processSendGroupMessage E p rq c cid w)) = groups_view (w_db w)
    \<and> getMessageByClientKey (w_userId w) (w_deviceId w) cid (w_db (processSendGroupMessage E p rq c cid w))
        = Some x \<and> jget data ''messageId'' = JNum (mi_id x)"
proof -
  obtain ids where a: "group_send_allowed E rq c ids w" using group_send_guards [OF assms(1)] .
  then have a': "group_send_allowed E rq c ids (w\<lparr>w_outs := []\<rparr>)" by (simp add: group_send_allowed_def)
  note body = group_send_body [OF a, of p cid] and body' = group_send_body [OF a', of p cid]
  show ?thesis
  proof (cases "getMessageByClientKey (w_userId w) (w_deviceId w) cid (w_db w)")
    case (Some x)
    with assms(1) body body' a show ?thesis by (auto simp: reused_data_def)
  next
    case None
    let ?sm = "db_sendMessage c (w_userId w) (jstr (jget rq ''content''))
        (jstr_or ''text'' (jget rq ''contentType'')) cid (w_deviceId w) (e_now E) (w_db w)"
    have sm: "0 \<le> fst ?sm" "data = sent_data (fst ?sm) c cid"
      using assms(1) None unfolding body' by (auto simp: Let_def split_beta fan_out_outs split: if_splits)
    have m: "db_msgs (w_db (processSendGroupMessage E p rq c cid w)) = db_msgs (snd ?sm)"
      "groups_view (w_db (processSendGroupMessage E p rq c cid w)) = groups_view (snd ?sm)"
      using None sm(1) unfolding body
      by (simp_all add: Let_def split_beta fan_out_frame consume_frame)
    obtain x where "getMessageByClientKey (w_userId w) (w_deviceId w) cid
        (w_db (processSendGroupMessage E p rq c cid w)) = Some x" "mi_id x = fst ?sm"
      using sent_then_found [OF assms(2,3) sm(1) m(1)] by blast
    with a sm(2) m(2) show ?thesis by (auto simp: sent_data_def sendMessage_groups_view)
  qed
qed

section \<open>Properties\<close>

text \<open>A request that passes the checks of the client key and the limiter goes to one of two handlers.\<close>

lemma send_entry:
  fixes rq :: jobj
  defines "cid \<equiv> trimmed (jstr (jget rq ''clientMessageId''))" and "c \<equiv> jlonglong (jget rq ''conversationId'')"
  assumes "cid \<noteq> []" "length cid \<le> 128" "fst (allow (e_now E) (w_sendWindow w))"
  shows "processSendMessageRequest E p rq w = (let w1 = w\<lparr>w_sendWindow := snd (allow (e_now E) (w_sendWindow w))\<rparr>
     in if c > 0 then processSendGroupMessage E p rq c cid w1 else send_private E p rq cid w1)"
  using assms by (simp add: processSendMessageRequest_def Let_def split_beta)

text \<open>The repetition of an acknowledged message, to a group and to a user.\<close>

lemma group_send_again:
  assumes "Reply rid SendMessageResponse Ok msg data
      \<in> set (w_outs (processSendGroupMessage E p rq c cid (w\<lparr>w_outs := []\<rparr>)))"
    and "cid \<noteq> []" "w_deviceId w \<noteq> []" "w_db v = w_db (processSendGroupMessage E p rq c cid w)"
    and "w_userId v = w_userId w" "w_deviceId v = w_deviceId w" "e_ext E' = e_ext E"
  obtains x where "jget data ''messageId'' = JNum (mi_id x)"
    "processSendGroupMessage E' p' rq c cid v
      = sendResponse (pk_reqid p') SendMessageResponse Ok ''Message sent'' (reused_data x cid) v"
proof -
  obtain ids x where x: "group_send_allowed E rq c ids w"
    "groups_view (w_db (processSendGroupMessage E p rq c cid w)) = groups_view (w_db w)"
    "getMessageByClientKey (w_userId w) (w_deviceId w) cid (w_db (processSendGroupMessage E p rq c cid w)) = Some x"
    "jget data ''messageId'' = JNum (mi_id x)"
    using group_send_ok [OF assms(1,2)] assms(3) by auto
  have gv: "groups_view (w_db v) = groups_view (w_db w)"
    using x(2) assms(4) by simp
  have "group_send_allowed E' rq c ids v"
    using x(1) groups_view_is_group [OF gv] groups_view_member [OF gv] assms(5,7)
    by (simp add: group_send_allowed_def Let_def)
  from group_send_body [OF this, of p' cid] x(3) assms(4-6)
  have "processSendGroupMessage E' p' rq c cid v
      = sendResponse (pk_reqid p') SendMessageResponse Ok ''Message sent'' (reused_data x cid) v" by simp
  with x(4) show thesis by (rule that)
qed

lemma private_send_again:
  assumes "Reply rid SendMessageResponse Ok msg data \<in> set (w_outs (send_private E p rq cid (w\<lparr>w_outs := []\<rparr>)))"
    and "cid \<noteq> []" "w_deviceId w \<noteq> []" "w_db v = w_db (send_private E p rq cid w)"
    and "w_userId v = w_userId w" "w_deviceId v = w_deviceId w"
  obtains x where "jget data ''messageId'' = JNum (mi_id x)"
    "send_private E' p' rq cid v = sendResponse (pk_reqid p') SendMessageResponse Ok ''Message sent'' (reused_data x cid) v"
proof -
  have "\<exists>x. getMessageByClientKey (w_userId w) (w_deviceId w) cid (w_db v) = Some x
      \<and> jget data ''messageId'' = JNum (mi_id x)
      \<and> jlonglong (jget rq ''toUserId'') > 0 \<and> jlonglong (jget rq ''toUserId'') \<noteq> w_userId w
      \<and> jstr (jget rq ''content'') \<noteq> []"
    using assms(1)
  proof (cases rule: send_private_ok)
    case (reused x)
    with assms(4) show ?thesis by (simp add: reused_data_def)
  next
    case (fresh entries ids c d2 begun)
    note sm = fresh(11,12) and F = fresh(13)
    have "db_msgs (w_db (send_private E p rq cid w)) = db_msgs (snd (consumePrekeys ids
         (snd (db_sendMessage c (w_userId w) (jstr (jget rq ''content''))
          (jstr_or ''text'' (jget rq ''contentType'')) cid (w_deviceId w) (e_now E) d2))))"
      using F [of "\<lambda>d. (db_msgs d, [])"] by (simp add: append_frame)
    then have m: "db_msgs (w_db v) = db_msgs (snd (db_sendMessage c (w_userId w) (jstr (jget rq ''content''))
          (jstr_or ''text'' (jget rq ''contentType'')) cid (w_deviceId w) (e_now E) d2))"
      using assms(4) by (simp add: consume_frame)
    show ?thesis
      using sent_then_found [OF assms(2) _ sm(1) m] assms(3) sm(2) fresh(1-3) by (auto simp: sent_data_def)
  qed
  then obtain x where x: "getMessageByClientKey (w_userId w) (w_deviceId w) cid (w_db v) = Some x"
      "jget data ''messageId'' = JNum (mi_id x)" "jlonglong (jget rq ''toUserId'') > 0"
      "jlonglong (jget rq ''toUserId'') \<noteq> w_userId w" "jstr (jget rq ''content'') \<noteq> []"
    by blast
  then have "send_private E' p' rq cid v
      = sendResponse (pk_reqid p') SendMessageResponse Ok ''Message sent'' (reused_data x cid) v"
    using assms(5,6) by (simp add: send_private_def Let_def)
  with x(2) show thesis by (rule that)
qed

text \<open>
  C21: sending is idempotent. A message, private or to a group, that was acknowledged with success is
  not stored again when the client repeats the request with the same client key from the same
  device: the answer is the same message id, marked as reused, and the database does not change. The
  device must have a name.
\<close>

theorem send_is_idempotent:
  assumes "Reply rid SendMessageResponse Ok msg data
     \<in> set (w_outs (processSendMessageRequest E p rq (w\<lparr>w_outs := []\<rparr>)))"
    and "w_deviceId w \<noteq> []"
    and "w_db v = w_db (processSendMessageRequest E p rq w)" "w_userId v = w_userId w"
      "w_deviceId v = w_deviceId w"
    and "e_ext E' = e_ext E" and "fst (allow (e_now E') (w_sendWindow v))"
  shows "\<exists>data'. jget data' ''messageId'' = jget data ''messageId'' \<and> jget data' ''reused'' = JBool True
     \<and> processSendMessageRequest E' p' rq v
         = sendResponse (pk_reqid p') SendMessageResponse Ok ''Message sent'' data'
             (v\<lparr>w_sendWindow := snd (allow (e_now E') (w_sendWindow v))\<rparr>)"
proof -
  let ?cid = "trimmed (jstr (jget rq ''clientMessageId''))" and ?c = "jlonglong (jget rq ''conversationId'')"
  define w1 where "w1 = w\<lparr>w_sendWindow := snd (allow (e_now E) (w_sendWindow w))\<rparr>"
  define v1 where "v1 = v\<lparr>w_sendWindow := snd (allow (e_now E') (w_sendWindow v))\<rparr>"
  have g: "?cid \<noteq> []" "length ?cid \<le> 128" "fst (allow (e_now E) (w_sendWindow w))"
    using assms(1) by (auto simp: processSendMessageRequest_def Let_def split_beta split: if_splits)
  have silent: "(w\<lparr>w_outs := []\<rparr>)\<lparr>w_sendWindow := snd (allow (e_now E) (w_sendWindow (w\<lparr>w_outs := []\<rparr>)))\<rparr>
      = w1\<lparr>w_outs := []\<rparr>" by (simp add: w1_def)
  note first = send_entry [OF g(1,2), of E "w\<lparr>w_outs := []\<rparr>" p, unfolded silent Let_def]
    and again = send_entry [OF g, of p, folded w1_def, unfolded Let_def]
    and second = send_entry [OF g(1,2) assms(7), of p', folded v1_def, unfolded Let_def]
  have v1: "w_db v1 = w_db (processSendMessageRequest E p rq w)" "w_deviceId w1 \<noteq> []" "w_userId v1 = w_userId w1"
    "w_deviceId v1 = w_deviceId w1"
    using assms(2-5) by (simp_all add: v1_def w1_def)
  have "\<exists>x. jget data ''messageId'' = JNum (mi_id x) \<and> processSendMessageRequest E' p' rq v
      = sendResponse (pk_reqid p') SendMessageResponse Ok ''Message sent'' (reused_data x ?cid) v1"
  proof (cases "?c > 0")
    case True
    show ?thesis
      by (rule group_send_again [of rid msg data E p rq ?c ?cid w1 v1 E' p'])
        (use assms(1,6) g first again second v1 True in auto)
  next
    case False
    show ?thesis
      by (rule private_send_again [of rid msg data E p rq ?cid w1 v1 E' p'])
        (use assms(1) g first again second v1 False in auto)
  qed
  then obtain x where "jget data ''messageId'' = JNum (mi_id x)" "processSendMessageRequest E' p' rq v
      = sendResponse (pk_reqid p') SendMessageResponse Ok ''Message sent'' (reused_data x ?cid) v1" by blast
  then show ?thesis
    by (intro exI [of _ "reused_data x ?cid"]) (simp add: v1_def reused_data_def)
qed

definition group_row :: conv_row where
  "group_row = \<lparr>cv_id = 1, cv_type = ''group'', cv_name = ''g'', cv_createdAt = 0, cv_updatedAt = 0\<rparr>"

definition member_of_group :: "ident \<Rightarrow> string \<Rightarrow> member_row" where
  "member_of_group u role = \<lparr>mb_convId = 1, mb_userId = u, mb_role = role, mb_joinedAt = 0, mb_lastRead = 0,
     mb_pinned = False, mb_muted = False\<rparr>"

definition group_db :: db where
  "group_db = db_alice_bob\<lparr>db_convs := [group_row], db_convSeq := 1,
     db_members := [member_of_group 1 ''owner'', member_of_group 2 ''member'']\<rparr>"

definition group_world :: world where
  "group_world = (new_connection group_db None)\<lparr>w_userId := 1, w_sessionId := 1, w_deviceId := ''dev''\<rparr>"

definition hello_group :: jobj where
  "hello_group = [(''type'', JStr ''send_message''), (''clientMessageId'', JStr ''k''),
     (''conversationId'', JNum 1), (''content'', JStr ''hello'')]"

lemmas group_world_defs = group_world_def group_db_def group_row_def member_of_group_def hello_group_def

lemma group_db_inv: "db_inv group_db"
  by (simp add: group_world_defs sample_defs db_inv_def tables_ok_defs client_keys_ok_def keys_ok_def
      user_ids_def conv_ids_def)

lemma trimmed_k [simp]: "trimmed ''k'' = ''k''"
  by (simp add: trimmed_def qspace_def Let_def)

lemma hello_group_sent:
  "Reply 1 SendMessageResponse Ok ''Message sent'' (sent_data 1 1 ''k'')
     \<in> set (w_outs (processSendMessageRequest (env_reading [] 50) (packet_of SendMessageRequest) hello_group
          (group_world\<lparr>w_outs := []\<rparr>)))"
  by (simp add: processSendMessageRequest_def Let_def split_beta group_world_defs sample_defs
      connection_limits allow_def processSendGroupMessage_def getConversation_def find_conv_def
      isConversationMember_def is_member_row_def handler_limits check_group_content_def
      getMessageByClientKey_def db_sendMessage_def exec_stmt_no_fault has_conv_def has_user_def
      exists_where_def client_key_free_def insert_msg_def mk_msg_def touch_conv_def fan_out_outs)

theorem send_is_idempotent_witness:
  "let w = processSendMessageRequest (env_reading [] 50) (packet_of SendMessageRequest) hello_group group_world;
       w2 = processSendMessageRequest (env_reading [] 60) (packet_of SendMessageRequest) hello_group
              (group_world\<lparr>w_db := w_db w\<rparr>)
   in w_db w2 = w_db w \<and> (\<exists>data. w_outs w2 = [Reply 1 SendMessageResponse Ok ''Message sent'' data]
        \<and> jget data ''messageId'' = JNum 1 \<and> jget data ''reused'' = JBool True)"
proof -
  let ?w = "processSendMessageRequest (env_reading [] 50) (packet_of SendMessageRequest) hello_group group_world"
  have dev: "w_deviceId group_world \<noteq> []" by (simp add: group_world_defs)
  have o: "w_outs group_world = []" by (simp add: group_world_defs sample_defs)
  have win: "fst (allow 60 (w_sendWindow (group_world\<lparr>w_db := w_db ?w\<rparr>)))"
    by (simp add: group_world_defs sample_defs connection_limits allow_def)
  from send_is_idempotent [OF hello_group_sent dev, of "group_world\<lparr>w_db := w_db ?w\<rparr>" "env_reading [] 60"
      "packet_of SendMessageRequest"] win o
  show ?thesis
    unfolding Let_def by (auto simp: sent_data_def packet_of_def mk_packet_def)
qed

section \<open>What a private message does\<close>

lemma consume_loop_table:
  "db_faults d = [] \<Longrightarrow> db_faults (snd (consume_loop is n d)) = []
   \<and> db_prekeys (snd (consume_loop is n d))
     = map (\<lambda>r. if py_id r \<in> set is \<and> py_status r = Claimed then r\<lparr>py_status := Used\<rparr> else r) (db_prekeys d)"
proof (induction "is" arbitrary: n d)
  case (Cons i "is")
  let ?P = "\<lambda>r. py_id r = i \<and> py_status r = Claimed" and ?f = "\<lambda>r. r\<lparr>py_status := Used\<rparr>"
  have "update_prekeys ?P ?f d = (True, d\<lparr>db_prekeys := update_where ?P ?f (db_prekeys d)\<rparr>)"
    using Cons.prems by (simp add: update_prekeys_def exec_stmt_no_fault)
  then show ?case
    using Cons.IH [of "d\<lparr>db_prekeys := update_where ?P ?f (db_prekeys d)\<rparr>"] Cons.prems
    by (auto simp: Let_def update_where_def)
qed simp

definition self_copy :: "string \<Rightarrow> envelope_entry \<Rightarrow> bool" where
  "self_copy dev e \<longleftrightarrow> ee_deviceId e = dev \<and> ee_prekeyId e = SelfCopyPrekeyId"

lemma check_entries_Inr:
  "check_entries t dev d es seen ss ids = Inr ids' \<Longrightarrow>
     (let peers = filter (\<lambda>e. \<not> self_copy dev e) es in
      ids' = ids @ map ee_prekeyId peers \<and> distinct (map ee_deviceId peers)
      \<and> set (map ee_deviceId peers) \<inter> set seen = {}
      \<and> (\<forall>e\<in>set peers. validateClaimedPrekey t (ee_deviceId e) (ee_prekeyId e) d))"
  by (induction t dev d es seen ss ids rule: check_entries.induct)
    (auto simp: Let_def self_copy_def split: if_splits)

lemma getOrCreate_frame:
  "db_msgs (snd (getOrCreatePrivateConversation u t now d)) = db_msgs d"
  "db_prekeys (snd (getOrCreatePrivateConversation u t now d)) = db_prekeys d"
  "db_faults d = [] \<Longrightarrow> db_faults (snd (getOrCreatePrivateConversation u t now d)) = []"
proof -
  have F: "F (snd (getOrCreatePrivateConversation u t now d)) = F d"
    if "\<And>d fs. F (d\<lparr>db_faults := fs\<rparr>) = F d" "\<And>a d. F (insert_conv a d) = F d"
      "\<And>c u r t d. F (insert_member_row c u r t d) = F d" for F :: "db \<Rightarrow> 'z"
    by (simp add: getOrCreatePrivateConversation_def Let_def split_beta insertMember_def exec_stmt_frame that
        split: option.splits)
  show "db_msgs (snd (getOrCreatePrivateConversation u t now d)) = db_msgs d"
    "db_prekeys (snd (getOrCreatePrivateConversation u t now d)) = db_prekeys d"
    by (rule F; simp add: insert_conv_def insert_member_row_def)+
  show "db_faults d = [] \<Longrightarrow> db_faults (snd (getOrCreatePrivateConversation u t now d)) = []"
    by (simp add: getOrCreatePrivateConversation_def Let_def split_beta insertMember_def exec_stmt_no_fault
        insert_conv_def insert_member_row_def split: option.splits)
qed

text \<open>
  A new private message that is acknowledged was sealed to prekeys of the recipient only: every
  entry of the envelope but the sender's own copy names a different device and a prekey of that
  device that was claimed, and there is at least one. Then the message is stored as one row, these
  prekeys and no others become used, and exactly the recipient is notified before the sender gets
  the answer.
\<close>

lemma private_send_effect:
  assumes "db_inv (w_db w)" and "db_faults (w_db w) = []" and "cid \<noteq> []"
    and "getMessageByClientKey (w_userId w) (w_deviceId w) cid (w_db w) = None"
    and "Reply rid SendMessageResponse Ok msg data
     \<in> set (w_outs (send_private E p rq cid (w\<lparr>w_outs := []\<rparr>)))"
  shows "\<exists>entries m nt. let t = jlonglong (jget rq ''toUserId''); w' = send_private E p rq cid w;
        peers = filter (\<lambda>e. \<not> self_copy (w_deviceId w) e) entries in
      decodeEnvelope (e_ext E) (jstr (jget rq ''content'')) = Some entries
      \<and> peers \<noteq> [] \<and> distinct (map ee_deviceId peers)
      \<and> (\<forall>e\<in>set peers. \<exists>r\<in>set (db_prekeys (w_db w)). py_id r = ee_prekeyId e
           \<and> is_device t (ee_deviceId e) r \<and> py_status r = Claimed)
      \<and> db_prekeys (w_db w') = map (\<lambda>r. if py_id r \<in> ee_prekeyId ` set peers then r\<lparr>py_status := Used\<rparr> else r)
           (db_prekeys (w_db w))
      \<and> db_msgs (w_db w') = db_msgs (w_db w) @ [m] \<and> ms_senderId m = w_userId w
      \<and> ms_content m = jstr (jget rq ''content'') \<and> ms_status m = ''sent''
      \<and> w_outs w' = w_outs w @ [MessageFor t NewMessageNotification nt,
            Reply (pk_reqid p) SendMessageResponse Ok ''Message sent'' data]"
  using assms(5)
proof (cases rule: send_private_ok)
  case (reused x)
  with assms(4) show ?thesis by simp
next
  case (fresh entries ids c d2 begun)
  let ?t = "jlonglong (jget rq ''toUserId'')" and ?w = "send_private E p rq cid w"
  let ?peers = "filter (\<lambda>e. \<not> self_copy (w_deviceId w) e) entries"
  let ?sm = "db_sendMessage c (w_userId w) (jstr (jget rq ''content''))
      (jstr_or ''text'' (jget rq ''contentType'')) cid (w_deviceId w) (e_now E) d2"
  note chk = check_entries_Inr [OF fresh(6), unfolded Let_def]
  have ids: "set ids = ee_prekeyId ` set ?peers" "ids \<noteq> [] \<Longrightarrow> ?peers \<noteq> []" using chk by auto
  have each: "\<exists>r\<in>set (db_prekeys (w_db w)). py_id r = ee_prekeyId e \<and> is_device ?t (ee_deviceId e) r
      \<and> py_status r = Claimed" if "e \<in> set ?peers" for e
    using chk that by (auto simp: validateClaimedPrekey_def count_where_pos exists_where_iff)
  have d2: "db_msgs d2 = db_msgs (w_db w)" "db_prekeys d2 = db_prekeys (w_db w)" "db_faults d2 = []"
    using fresh(9) getOrCreate_frame(3) [OF assms(2)]
    by (simp_all add: beginTransaction_def exec_stmt_no_fault getOrCreate_frame)
  have none: "getMessageByClientKey (w_userId w) (w_deviceId w) cid d2 = None"
    using assms(4) client_key_same_msgs [OF d2(1)] by simp
  obtain m where m: "db_msgs (snd ?sm) = db_msgs d2 @ [m]" "db_prekeys (snd ?sm) = db_prekeys d2"
    "ms_senderId m = w_userId w" "ms_content m = jstr (jget rq ''content'')" "ms_status m = ''sent''"
  proof (rule sendMessage_cases [of "w_userId w" "w_deviceId w" cid d2 c "jstr (jget rq ''content'')"
        "jstr_or ''text'' (jget rq ''contentType'')" "e_now E"])
  qed (use none fresh(11) in \<open>auto simp: mk_msg_def\<close>)
  have nf: "db_faults (snd ?sm) = []"
    using d2(3) none by (simp add: db_sendMessage_def Let_def exec_stmt_no_fault touch_conv_def insert_msg_def)
  have "(db_msgs (w_db ?w), db_prekeys (w_db ?w))
      = (db_msgs (snd (consumePrekeys ids (snd ?sm))), db_prekeys (snd (consumePrekeys ids (snd ?sm))))"
    using fresh(13) [of "\<lambda>d. (db_msgs d, db_prekeys d)"] by (simp add: append_frame)
  then have w: "db_msgs (w_db ?w) = db_msgs (w_db w) @ [m]"
    "db_prekeys (w_db ?w) = map (\<lambda>r. if py_id r \<in> set ids \<and> py_status r = Claimed
        then r\<lparr>py_status := Used\<rparr> else r) (db_prekeys (w_db w))"
    using consume_loop_table [OF nf, of ids 0] fresh(7) m(1,2) d2
    by (simp_all add: consume_frame) (simp add: consumePrekeys_def)
  have claimed: "py_status r = Claimed" if "r \<in> set (db_prekeys (w_db w))" "py_id r \<in> set ids" for r
  proof -
    from that(2) obtain e where e: "e \<in> set ?peers" "ee_prekeyId e = py_id r" unfolding ids(1) by auto
    obtain s where s: "s \<in> set (db_prekeys (w_db w))" "py_id s = py_id r" "py_status s = Claimed"
      using each [OF e(1)] e(2) by auto
    then have "s = r"
      using assms(1) that(1) by (auto simp: db_inv_def prekeys_ok_def dest: keys_ok_unique)
    with s(3) show ?thesis by simp
  qed
  have tab: "db_prekeys (w_db ?w) = map (\<lambda>r. if py_id r \<in> ee_prekeyId ` set ?peers
      then r\<lparr>py_status := Used\<rparr> else r) (db_prekeys (w_db w))"
    unfolding w(2) ids(1) [symmetric] using claimed by (intro map_cong refl) auto
  obtain nt where "w_outs ?w = w_outs w @ [MessageFor ?t NewMessageNotification nt,
      Reply (pk_reqid p) SendMessageResponse Ok ''Message sent'' data]"
    using fresh(14) by blast
  with fresh(5) ids(2) [OF fresh(7)] chk each tab w(1) m(3-5) show ?thesis
    unfolding Let_def by blast
qed

definition for_bob :: envelope_entry where
  "for_bob = \<lparr>ee_deviceId = ''p'', ee_prekeyId = 2, ee_eph = replicate 32 1, ee_iv = replicate 12 2,
     ee_ciphertext = replicate 20 3\<rparr>"

definition sealing_env :: env where
  "sealing_env = (env_reading [] 200)\<lparr>e_ext := sample_ext\<lparr>x_parse :=
     (\<lambda>s. Some (JObj (encodeEnvelope sample_ext [for_bob])))\<rparr>\<rparr>"

definition hello_bob :: jobj where
  "hello_bob = [(''type'', JStr ''send_message''), (''clientMessageId'', JStr ''k''), (''toUserId'', JNum 2),
     (''content'', JStr ''c'')]"

definition alice_sends :: world where
  "alice_sends = (new_connection bobs_keys None)\<lparr>w_userId := 1, w_sessionId := 1, w_deviceId := ''dev''\<rparr>"

lemma sealing_decodes: "decodeEnvelope (e_ext sealing_env) s = Some [for_bob]"
proof (rule decodeEnvelope_encode)
  show "x_parse (e_ext sealing_env) s = Some (JObj (encodeEnvelope (e_ext sealing_env) [for_bob]))"
    by (simp add: sealing_env_def encodeEnvelope_def encode_entry_def)
  have "base64_inverts (sample_ext\<lparr>x_parse := f\<rparr>) b" for f b
    using sample_ext_ok(4) [of b] by (simp add: base64_inverts_def)
  then show "\<forall>e\<in>set [for_bob]. entry_ok e \<and> entry_base64 (e_ext sealing_env) e"
    by (simp add: sealing_env_def for_bob_def entry_ok_def entry_base64_def X25519KeySize_def GcmIvSize_def
        GcmTagSize_def)
qed simp

lemma private_send_effect_witness:
  "\<exists>m. db_msgs (w_db (send_private sealing_env (packet_of SendMessageRequest) hello_bob ''k'' alice_sends)) = [m]
     \<and> ms_content m = ''c''"
proof -
  have i: "db_inv (w_db alice_sends)" "db_faults (w_db alice_sends) = []" "''k'' \<noteq> []"
    "getMessageByClientKey (w_userId alice_sends) (w_deviceId alice_sends) ''k'' (w_db alice_sends) = None"
    using bobs_keys_inv
    by (simp_all add: alice_sends_def new_connection_def bobs_keys_def sample_defs getMessageByClientKey_def)
  have "\<exists>data. Reply 1 SendMessageResponse Ok ''Message sent'' data
      \<in> set (w_outs (send_private sealing_env (packet_of SendMessageRequest) hello_bob ''k''
            (alice_sends\<lparr>w_outs := []\<rparr>)))"
    using sealing_decodes
    by (simp add: send_private_def hello_bob_def Let_def split_beta alice_sends_def new_connection_def
        bobs_keys_def sample_defs getMessageByClientKey_def for_bob_def validateClaimedPrekey_def
        is_device_def SelfCopyPrekeyId_def getOrCreatePrivateConversation_def find_private_def
        exec_stmt_no_fault insert_conv_def mk_conv_def insertMember_def has_conv_def has_user_def
        exists_where_def insert_member_row_def is_member_row_def beginTransaction_def db_sendMessage_def
        client_key_free_def insert_msg_def mk_msg_def touch_conv_def consumePrekeys_def update_prekeys_def
        end_commit_def commitTransaction_def)
  then obtain data where "Reply 1 SendMessageResponse Ok ''Message sent'' data
      \<in> set (w_outs (send_private sealing_env (packet_of SendMessageRequest) hello_bob ''k''
            (alice_sends\<lparr>w_outs := []\<rparr>)))" by blast
  from private_send_effect [OF i this]
  obtain m where "db_msgs (w_db (send_private sealing_env (packet_of SendMessageRequest) hello_bob ''k'' alice_sends))
      = db_msgs (w_db alice_sends) @ [m]" "ms_content m = jstr (jget hello_bob ''content'')"
    by (auto simp only: Let_def)
  then show ?thesis
    by (simp add: alice_sends_def new_connection_def bobs_keys_def sample_defs hello_bob_def)
qed

end
