(* ===== verification/Edit_Properties.thy ===== *)
theory Edit_Properties
  imports Message_Properties
begin

text \<open>
  Who may edit or delete a message, what an edit or a deletion changes, and who is told.
\<close>

section \<open>Editing and deleting\<close>

lemma update_msgs_result:
  "(fst (update_msgs P f d) \<and> db_msgs (snd (update_msgs P f d)) = update_where P f (db_msgs d)
      \<and> groups_view (snd (update_msgs P f d)) = groups_view d)
   \<or> (\<not> fst (update_msgs P f d) \<and> db_msgs (snd (update_msgs P f d)) = db_msgs d)"
  unfolding update_msgs_def
  by (rule exec_stmt_cases [of unconstrained "\<lambda>d. d\<lparr>db_msgs := update_where P f (db_msgs d)\<rparr>" d])
    (simp_all add: groups_view_def)

lemma getMessage_row:
  "getMessage i d = Some x \<Longrightarrow> \<exists>r\<in>set (db_msgs d). ms_id r = i \<and> mi_senderId x = ms_senderId r
     \<and> mi_conversationId x = ms_convId r \<and> mi_contentType x = ms_contentType r \<and> mi_deleted x = ms_deleted r"
  by (auto simp: getMessage_def find_msg_def message_of_def split: option.splits dest!: find_SomeD)

lemma member_ids_view:
  "groups_view d = groups_view d' \<Longrightarrow> getConversationMemberIds c d = getConversationMemberIds c d'"
  by (simp add: getConversationMemberIds_def members_in_order_def groups_view_def)

definition edited :: "string \<Rightarrow> time \<Rightarrow> msg_row \<Rightarrow> msg_row" where
  "edited content now r = r\<lparr>ms_content := content, ms_editedAt := Some now\<rparr>"

lemma edit_result:
  "(fst (db_editMessage i content ty now d)
     \<and> db_msgs (snd (db_editMessage i content ty now d)) = update_where (\<lambda>x. ms_id x = i \<and> \<not> ms_deleted x)
         (\<lambda>x. x\<lparr>ms_content := content, ms_contentType := ty, ms_editedAt := Some now\<rparr>) (db_msgs d)
     \<and> groups_view (snd (db_editMessage i content ty now d)) = groups_view d)
   \<or> (\<not> fst (db_editMessage i content ty now d)
     \<and> db_msgs (snd (db_editMessage i content ty now d)) = db_msgs d)"
proof -
  let ?P = "\<lambda>x. ms_id x = i \<and> \<not> ms_deleted x"
  let ?f = "\<lambda>x. x\<lparr>ms_content := content, ms_contentType := ty, ms_editedAt := Some now\<rparr>"
  have none: "update_where ?P ?f (db_msgs d) = db_msgs d" if "count_where ?P (db_msgs d) = 0"
    using that by (intro update_where_none) (simp add: count_where_0)
  show ?thesis
  proof (cases "i \<le> 0 \<or> content = [] \<or> ty = []")
    case True
    then show ?thesis by (simp add: db_editMessage_def)
  next
    case False
    then have "db_editMessage i content ty now d
        = (fst (update_msgs ?P ?f d) \<and> count_where ?P (db_msgs d) > 0, snd (update_msgs ?P ?f d))"
      by (simp add: db_editMessage_def Let_def split_beta)
    with update_msgs_result [of ?P ?f d] none show ?thesis
      by (cases "count_where ?P (db_msgs d) = 0") auto
  qed
qed

lemma edited_same_type:
  "x\<lparr>ms_content := c, ms_contentType := ms_contentType x, ms_editedAt := Some t\<rparr> = edited c t x"
  by (cases x) (simp add: edited_def)

text \<open>The statement changes exactly the row that has the id.\<close>

lemma edited_rows:
  assumes "db_inv d" and "r \<in> set (db_msgs d)" and "\<not> ms_deleted r"
  shows "update_where (\<lambda>x. ms_id x = ms_id r \<and> \<not> ms_deleted x)
      (\<lambda>x. x\<lparr>ms_content := content, ms_contentType := ms_contentType r, ms_editedAt := Some now\<rparr>) (db_msgs d)
    = map (\<lambda>x. if x = r then edited content now x else x) (db_msgs d)"
  unfolding update_where_def
proof (rule map_cong [OF refl])
  fix x assume x: "x \<in> set (db_msgs d)"
  show "(if ms_id x = ms_id r \<and> \<not> ms_deleted x then x\<lparr>ms_content := content, ms_contentType := ms_contentType r,
      ms_editedAt := Some now\<rparr> else x) = (if x = r then edited content now x else x)"
  proof (cases "x = r")
    case True
    with assms(3) show ?thesis by (simp only: edited_same_type simp_thms if_True)
  next
    case False
    with assms(1,2) x have "ms_id x \<noteq> ms_id r" by (auto simp: db_inv_def msgs_ok_def dest: keys_ok_unique)
    with False show ?thesis by simp
  qed
qed

text \<open>An edit that passes all the checks, and whose statement succeeds.\<close>

lemma edit_accepted:
  fixes E :: env and p :: packet and rq :: jobj
  defines "i \<equiv> jlonglong (jget rq ''messageId'')" and "content \<equiv> jstr (jget rq ''content'')"
    and "ty \<equiv> jstr (jget rq ''contentType'')"
  assumes "db_inv (w_db w)" and "getMessage i (w_db w) = Some m"
    and r: "r \<in> set (db_msgs (w_db w))" "ms_id r = i" "mi_senderId m = ms_senderId r"
      "mi_conversationId m = ms_convId r" "mi_contentType m = ms_contentType r" "mi_deleted m = ms_deleted r"
    and g: "\<not> i \<le> 0" "content \<noteq> []" "ty \<noteq> []" "ms_senderId r = w_userId w" "\<not> ms_deleted r"
      "\<not> MaxGroupMessageLength < length content" "ms_contentType r = ty"
      "edit_refused E (w_deviceId w) ty content = None" "ty \<noteq> ''system''"
    and "fst (db_editMessage i content ty (e_now E) (w_db w))"
  obtains ev where
    "db_msgs (w_db (processEditMessageRequest E p rq w))
      = map (\<lambda>x. if x = r then edited content (e_now E) x else x) (db_msgs (w_db w))"
    "w_outs (processEditMessageRequest E p rq w) = w_outs w @ map (\<lambda>m. MessageFor m EditMessageResponse ev)
      (getConversationMemberIds (ms_convId r) (w_db w)) @ [Reply (pk_reqid p) EditMessageResponse Ok ''OK'' ev]"
proof -
  let ?ed = "db_editMessage i content ty (e_now E) (w_db w)"
  let ?ev = "[(''messageId'', JNum i), (''conversationId'', JNum (ms_convId r)), (''senderId'', JNum (w_userId w)),
    (''originDeviceId'', JStr (w_deviceId w)), (''content'', JStr content), (''contentType'', JStr ty),
    (''editedAt'', JStr (x_isoTime (e_ext E) (e_now E)))]"
  note body = processEditMessageRequest_def Let_def i_def [symmetric] content_def [symmetric] ty_def [symmetric] assms(5)
  have ed: "db_msgs (snd ?ed) = map (\<lambda>x. if x = r then edited content (e_now E) x else x) (db_msgs (w_db w))"
    "groups_view (snd ?ed) = groups_view (w_db w)"
    using edit_result [of i content ty "e_now E" "w_db w"] edited_rows [OF assms(4) r(1) g(5), where content = content and now = "e_now E"]
      assms(21) r(2) g(7) by auto
  show thesis
  proof (rule that [of ?ev])
    show "db_msgs (w_db (processEditMessageRequest E p rq w))
        = map (\<lambda>x. if x = r then edited content (e_now E) x else x) (db_msgs (w_db w))"
      using ed(1) assms(21) unfolding body by (simp add: r g split_beta tell_members_frame)
    show "w_outs (processEditMessageRequest E p rq w) = w_outs w @ map (\<lambda>m. MessageFor m EditMessageResponse ?ev)
      (getConversationMemberIds (ms_convId r) (w_db w)) @ [Reply (pk_reqid p) EditMessageResponse Ok ''OK'' ?ev]"
      using member_ids_view [OF ed(2)] assms(21) unfolding body by (simp add: r g split_beta tell_members_frame)
  qed
qed

text \<open>
  C22: only the sender edits a message. An edit request either changes no message, tells nobody and
  is answered with an error, or it names a message that the requesting user sent, that is not deleted
  and not a system message; then exactly this message gets the new content under its old type, and
  every member of the conversation is told before the answer.
\<close>

theorem edit_by_sender_only:
  fixes E :: env and p :: packet and rq :: jobj
  assumes "db_inv (w_db w)"
  defines "i \<equiv> jlonglong (jget rq ''messageId'')" and "content \<equiv> jstr (jget rq ''content'')"
    and "w' \<equiv> processEditMessageRequest E p rq w"
  shows "(\<exists>code err. code \<noteq> Ok \<and> db_msgs (w_db w') = db_msgs (w_db w)
        \<and> w_outs w' = w_outs w @ [Reply (pk_reqid p) EditMessageResponse code err []])
    \<or> (\<exists>r ev. r \<in> set (db_msgs (w_db w)) \<and> ms_id r = i \<and> ms_senderId r = w_userId w \<and> \<not> ms_deleted r
        \<and> ms_contentType r \<noteq> ''system''
        \<and> db_msgs (w_db w') = map (\<lambda>x. if x = r then edited content (e_now E) x else x) (db_msgs (w_db w))
        \<and> w_outs w' = w_outs w @ map (\<lambda>m. MessageFor m EditMessageResponse ev)
             (getConversationMemberIds (ms_convId r) (w_db w)) @ [Reply (pk_reqid p) EditMessageResponse Ok ''OK'' ev])"
    (is "?error \<or> ?done")
proof (cases "getMessage i (w_db w)")
  case None
  have ?error
    unfolding w'_def processEditMessageRequest_def Let_def i_def [symmetric] None by auto
  then show ?thesis ..
next
  case (Some m)
  obtain r where r: "r \<in> set (db_msgs (w_db w))" "ms_id r = i" "mi_senderId m = ms_senderId r"
    "mi_conversationId m = ms_convId r" "mi_contentType m = ms_contentType r" "mi_deleted m = ms_deleted r"
    using getMessage_row [OF Some] by blast
  define ty where "ty = jstr (jget rq ''contentType'')"
  let ?ed = "db_editMessage i content ty (e_now E) (w_db w)"
  let ?go = "\<not> i \<le> 0 \<and> \<not> (content = [] \<or> ty = []) \<and> ms_senderId r = w_userId w \<and> \<not> ms_deleted r
      \<and> ms_contentType r \<noteq> ''system'' \<and> \<not> length content > MaxGroupMessageLength
      \<and> ty = ms_contentType r \<and> edit_refused E (w_deviceId w) ty content = None"
  show ?thesis
  proof (cases "?go \<and> fst ?ed")
    case False
    have "\<not> fst ?ed \<Longrightarrow> db_msgs (snd ?ed) = db_msgs (w_db w)"
      using edit_result [of i content ty "e_now E" "w_db w"] by blast
    with False have ?error
      unfolding w'_def processEditMessageRequest_def Let_def i_def [symmetric] content_def [symmetric]
        ty_def [symmetric] Some
      by (auto simp: r split_beta split: option.splits)
    then show ?thesis ..
  next
    case True
    then have g: "\<not> i \<le> 0" "content \<noteq> []" "ty \<noteq> []" "ms_senderId r = w_userId w" "\<not> ms_deleted r"
      "\<not> MaxGroupMessageLength < length content" "ms_contentType r = ty"
      "edit_refused E (w_deviceId w) ty content = None" "ty \<noteq> ''system''"
      and ok: "fst ?ed" by (blast dest: sym, metis+)
    obtain ev where "db_msgs (w_db w') = map (\<lambda>x. if x = r then edited content (e_now E) x else x) (db_msgs (w_db w))"
      "w_outs w' = w_outs w @ map (\<lambda>m. MessageFor m EditMessageResponse ev)
        (getConversationMemberIds (ms_convId r) (w_db w)) @ [Reply (pk_reqid p) EditMessageResponse Ok ''OK'' ev]"
      using edit_accepted [OF assms(1) Some [unfolded i_def] r [unfolded i_def]
        g [unfolded i_def content_def ty_def] ok [unfolded i_def content_def ty_def], of p]
      unfolding w'_def content_def i_def by blast
    then have ?done using r(1,2) g(4,5,7,9) by blast
    then show ?thesis ..
  qed
qed

definition hello_row :: msg_row where
  "hello_row = \<lparr>ms_id = 1, ms_convId = 1, ms_senderId = 1, ms_content = ''hi'', ms_contentType = ''note'',
     ms_status = ''sent'', ms_createdAt = 0, ms_clientId = None, ms_senderDevice = None, ms_editedAt = None,
     ms_deleted = False\<rparr>"

definition told_world :: world where
  "told_world = group_world\<lparr>w_db := group_db\<lparr>db_msgs := [hello_row], db_msgSeq := 1\<rparr>\<rparr>"

lemma told_world_inv: "db_inv (w_db told_world)"
  using group_db_inv
  by (simp add: told_world_def group_world_defs sample_defs hello_row_def db_inv_def tables_ok_defs
      client_keys_ok_def keys_ok_def user_ids_def conv_ids_def)

definition edit_hello :: jobj where
  "edit_hello = [(''messageId'', JNum 1), (''content'', JStr ''new''), (''contentType'', JStr ''note'')]"

theorem edit_by_sender_only_witness:
  "db_msgs (w_db (processEditMessageRequest (env_reading [] 9) (packet_of EditMessageRequest) edit_hello told_world))
     = [edited ''new'' 9 hello_row]"
proof -
  let ?w = "processEditMessageRequest (env_reading [] 9) (packet_of EditMessageRequest) edit_hello told_world"
  have f: "\<exists>x. Reply 1 EditMessageResponse Ok ''OK'' x \<in> set (w_outs ?w)"
    by (simp add: processEditMessageRequest_def edit_hello_def told_world_def hello_row_def group_world_defs
        sample_defs Let_def split_beta getMessage_def find_msg_def message_of_def find_user_def handler_limits
        edit_refused_def db_editMessage_def update_msgs_def exec_stmt_no_fault tell_members_frame) blast
  have m: "db_msgs (w_db told_world) = [hello_row]" "w_outs told_world = []"
    by (simp_all add: told_world_def group_world_defs sample_defs)
  from edit_by_sender_only [OF told_world_inv, where E = "env_reading [] 9" and p = "packet_of EditMessageRequest"
      and rq = edit_hello] f
  show ?thesis
    unfolding m by (auto simp: edit_hello_def)
qed

lemma delete_marks:
  "\<forall>x\<in>set (update_where (\<lambda>x. ms_id x = i) (\<lambda>x. x\<lparr>ms_deleted := True, ms_content := c\<rparr>) rs).
     ms_id x = i \<longrightarrow> ms_deleted x"
  by (induction rs) (simp_all add: update_where_def)

text \<open>
  C25: only the sender deletes a message, and a deleted message keeps no content. A delete request
  either changes no message, tells nobody and is answered with an error, or it names a message that
  the requesting user sent and that is not a system message; then exactly this message is marked
  deleted with its content erased, every member of the conversation is told, and a later edit of it
  is refused.
\<close>

theorem delete_by_sender_only:
  fixes E :: env and p :: packet and rq :: jobj
  assumes "db_inv (w_db w)"
  defines "i \<equiv> jlonglong (jget rq ''messageId'')" and "w' \<equiv> processDeleteMessageRequest E p rq w"
  shows "(\<exists>code err. code \<noteq> Ok \<and> db_msgs (w_db w') = db_msgs (w_db w)
        \<and> w_outs w' = w_outs w @ [Reply (pk_reqid p) DeleteMessageResponse code err []])
    \<or> (\<exists>r ev. r \<in> set (db_msgs (w_db w)) \<and> ms_id r = i \<and> ms_senderId r = w_userId w
        \<and> ms_contentType r \<noteq> ''system''
        \<and> db_msgs (w_db w') = map (\<lambda>x. if x = r then x\<lparr>ms_deleted := True, ms_content := []\<rparr> else x)
             (db_msgs (w_db w))
        \<and> w_outs w' = w_outs w @ map (\<lambda>m. MessageFor m DeleteMessageResponse ev)
             (getConversationMemberIds (ms_convId r) (w_db w)) @ [Reply (pk_reqid p) DeleteMessageResponse Ok ''OK'' ev]
        \<and> (\<forall>content ty now. \<not> fst (db_editMessage i content ty now (w_db w'))))"
    (is "?error \<or> ?done")
proof -
  let ?f = "\<lambda>x. x\<lparr>ms_deleted := True, ms_content := []\<rparr>"
  note def = w'_def processDeleteMessageRequest_def Let_def i_def [symmetric]
  have del: "fst (db_deleteMessage i (w_db w))
       \<and> db_msgs (snd (db_deleteMessage i (w_db w))) = update_where (\<lambda>x. ms_id x = i) ?f (db_msgs (w_db w))
       \<and> groups_view (snd (db_deleteMessage i (w_db w))) = groups_view (w_db w)
     \<or> \<not> fst (db_deleteMessage i (w_db w)) \<and> db_msgs (snd (db_deleteMessage i (w_db w))) = db_msgs (w_db w)"
    using update_msgs_result [of "\<lambda>x. ms_id x = i" ?f "w_db w"] by (simp add: db_deleteMessage_def)
  show ?thesis
  proof (cases "getMessage i (w_db w)")
    case None
    then have ?error unfolding def by auto
    then show ?thesis ..
  next
    case (Some x)
    obtain r where r: "r \<in> set (db_msgs (w_db w))" "ms_id r = i" "mi_senderId x = ms_senderId r"
      "mi_conversationId x = ms_convId r" "mi_contentType x = ms_contentType r" "mi_deleted x = ms_deleted r"
      using getMessage_row [OF Some] by blast
    show ?thesis
    proof (cases "\<not> i \<le> 0 \<and> ms_senderId r = w_userId w \<and> ms_contentType r \<noteq> ''system''
        \<and> fst (db_deleteMessage i (w_db w))")
      case False
      with del have ?error unfolding def Some by (auto simp: r split_beta)
      then show ?thesis ..
    next
      case True
      then have g: "0 < i" "\<not> i \<le> 0" "ms_senderId r = w_userId w" "ms_contentType r \<noteq> ''system''"
        "fst (db_deleteMessage i (w_db w))" by simp_all
      with del have m: "db_msgs (snd (db_deleteMessage i (w_db w))) = update_where (\<lambda>x. ms_id x = i) ?f (db_msgs (w_db w))"
        "groups_view (snd (db_deleteMessage i (w_db w))) = groups_view (w_db w)" by auto
      have only: "(ms_id x = i) = (x = r)" if "x \<in> set (db_msgs (w_db w))" for x
        using assms(1) that r(1,2) by (auto simp: db_inv_def msgs_ok_def dest: keys_ok_unique)
      have u: "update_where (\<lambda>x. ms_id x = i) ?f (db_msgs (w_db w))
          = map (\<lambda>x. if x = r then ?f x else x) (db_msgs (w_db w))"
        unfolding update_where_def by (rule map_cong) (simp_all only: only)
      have w': "db_msgs (w_db w') = update_where (\<lambda>x. ms_id x = i) ?f (db_msgs (w_db w))"
        unfolding def Some by (simp add: r(3-6) g(2-5) split_beta tell_members_frame m(1))
      have "\<forall>x\<in>set (db_msgs (w_db w')). \<not> (ms_id x = i \<and> \<not> ms_deleted x)"
        unfolding w' using delete_marks by simp
      then have "\<not> fst (db_editMessage i content ty now (w_db w'))" for content ty now
        by (auto simp: db_editMessage_def Let_def split_beta count_where_pos exists_where_iff)
      moreover have outs: "w_outs w' = w_outs w @ map (\<lambda>m. MessageFor m DeleteMessageResponse
              [(''messageId'', JNum i), (''conversationId'', JNum (ms_convId r)), (''senderId'', JNum (w_userId w)),
               (''originDeviceId'', JStr (w_deviceId w)), (''deletedAt'', JStr (x_isoTime (e_ext E) (e_now E)))])
             (getConversationMemberIds (ms_convId r) (w_db w)) @ [Reply (pk_reqid p) DeleteMessageResponse Ok ''OK''
              [(''messageId'', JNum i), (''conversationId'', JNum (ms_convId r)), (''senderId'', JNum (w_userId w)),
               (''originDeviceId'', JStr (w_deviceId w)), (''deletedAt'', JStr (x_isoTime (e_ext E) (e_now E)))]]"
        using member_ids_view [OF m(2)] unfolding def Some
        by (simp add: r(3-6) g(2-5) split_beta tell_members_frame)
      ultimately have ?done using r(1,2) g w' u by auto
      then show ?thesis ..
    qed
  qed
qed

theorem delete_by_sender_only_witness:
  "db_msgs (w_db (processDeleteMessageRequest (env_reading [] 9) (packet_of DeleteMessageRequest)
       [(''messageId'', JNum 1)] told_world)) = [hello_row\<lparr>ms_deleted := True, ms_content := []\<rparr>]"
proof -
  let ?w = "processDeleteMessageRequest (env_reading [] 9) (packet_of DeleteMessageRequest)
       [(''messageId'', JNum 1)] told_world"
  have f: "\<exists>x. Reply 1 DeleteMessageResponse Ok ''OK'' x \<in> set (w_outs ?w)"
    by (simp add: processDeleteMessageRequest_def told_world_def hello_row_def group_world_defs
        sample_defs Let_def split_beta getMessage_def find_msg_def message_of_def find_user_def
        db_deleteMessage_def update_msgs_def exec_stmt_no_fault tell_members_frame) blast
  have m: "db_msgs (w_db told_world) = [hello_row]" "w_outs told_world = []"
    by (simp_all add: told_world_def group_world_defs sample_defs)
  from delete_by_sender_only [OF told_world_inv, where E = "env_reading [] 9"
      and p = "packet_of DeleteMessageRequest" and rq = "[(''messageId'', JNum 1)]"]
  show ?thesis unfolding m by (elim disjE exE conjE) (use f in \<open>simp_all, blast?\<close>)
qed

end
