(* ===== verification/Handler_Contract.thy ===== *)
theory Handler_Contract
  imports Handler_Frames
begin

text \<open>
  What a property of the database has to satisfy to survive the handlers. The locale \<open>data_contract\<close> asks
  that it looks at nothing but the accounts, the sessions and the memberships and survives the few
  operations that touch membership rows without changing who is a member; then every request about
  messages, keys, contacts and the reading of data keeps it. A property of the memberships alone
  (\<open>account_contract\<close>) also survives login, registration, logout, renewal and termination; one of the
  accounts and sessions alone (\<open>member_contract\<close>) also survives the changes of a group's members.
\<close>

named_theorems data_intros \<open>preservation of a contract of the data layer\<close>

section \<open>The contract of the data layer\<close>

locale data_contract =
  fixes J :: "db \<Rightarrow> bool"
  assumes quiet: "db_members d' = db_members d \<Longrightarrow> db_convSeq d' = db_convSeq d
      \<Longrightarrow> db_users d' = db_users d \<Longrightarrow> db_sessions d' = db_sessions d \<Longrightarrow> J d' = J d"
    and cursors: "J d \<Longrightarrow> (\<And>r. mb_convId (f r) = mb_convId r) \<Longrightarrow> (\<And>r. mb_userId (f r) = mb_userId r)
      \<Longrightarrow> (\<And>r. mb_role (f r) = mb_role r) \<Longrightarrow> J (snd (update_members P f d))"
    and private_conv: "J d \<Longrightarrow> J (snd (getOrCreatePrivateConversation a b now d))"
    and new_group: "J d \<Longrightarrow> J (snd (db_createGroup u name ms now d))"
begin

lemma fields [simp]:
  "J (db_faults_update a1 d) = J d" "J (db_msgs_update a4 d) = J d" "J (db_convs_update a5 d) = J d"
  "J (db_prekeys_update a6 d) = J d" "J (db_idkeys_update a7 d) = J d" "J (db_contacts_update a8 d) = J d"
  "J (db_devices_update a9 d) = J d" "J (db_events_update b1 d) = J d" "J (db_receipts_update b2 d) = J d"
  "J (db_msgSeq_update b3 d) = J d" "J (db_audit_update b6 d) = J d" "J (db_prekeySeq_update b7 d) = J d"
  "J (db_eventSeq_update b8 d) = J d" "J (db_userSeq_update b4 d) = J d" "J (db_sessionSeq_update b5 d) = J d"
  by (rule quiet; simp)+

lemma stmt [data_intros]: "J d \<Longrightarrow> (\<And>d. J d \<Longrightarrow> J (f d)) \<Longrightarrow> J (snd (exec_stmt P f d))"
  by (rule exec_stmt_inv [of J]) simp_all

lemma transaction [data_intros]:
  "J d \<Longrightarrow> J (snd (beginTransaction d))" "J d \<Longrightarrow> J (snd (commitTransaction d))"
  "J saved \<Longrightarrow> J (rollbackTransaction saved d)"
  by (simp_all add: beginTransaction_def commitTransaction_def rollbackTransaction_def stmt)

lemmas [data_intros] = cursors private_conv new_group

subsection \<open>The operations of the data layer\<close>

lemma prekeys:
  "J d \<Longrightarrow> J (snd (update_prekeys P f d))" "J d \<Longrightarrow> J (snd (delete_prekeys P d))"
  by (auto simp: update_prekeys_def delete_prekeys_def intro!: data_intros)

lemma key_loops:
  "J d \<Longrightarrow> J (snd (snd (upload_loop u dev pubs n d)))"
  "J d \<Longrightarrow> J (snd (claim_loop u now devs d))"
  "J d \<Longrightarrow> J (snd (consume_loop is k d))"
proof -
  show "J d \<Longrightarrow> J (snd (snd (upload_loop u dev pubs n d)))"
    by (induction pubs arbitrary: n d) (simp_all add: Let_def split_beta insert_prekey_def stmt)
  show "J d \<Longrightarrow> J (snd (claim_loop u now devs d))"
    by (induction devs arbitrary: d) (auto simp: Let_def split_beta claim_one_def prekeys split: option.splits)
  show "J d \<Longrightarrow> J (snd (consume_loop is k d))"
    by (induction "is" arbitrary: k d) (simp_all add: Let_def split_beta prekeys)
qed

lemma key_ops [data_intros]:
  assumes "J d"
  shows "J (snd (upsertIdentityKey u dev pub d))" "J (snd (uploadPrekeys u dev pubs d))"
    "J (snd (claimPrekeys u now d))" "J (snd (consumePrekeys is d))"
    "J (snd (group_bundles now us d))"
proof -
  have c: "J (snd (claimPrekeys u now d))" if "J d" for u d
    using that by (auto simp: claimPrekeys_def reclaim_def Let_def split_beta
        intro!: data_intros key_loops prekeys)
  from assms show "J (snd (claimPrekeys u now d))" by (rule c)
  show "J (snd (upsertIdentityKey u dev pub d))" "J (snd (uploadPrekeys u dev pubs d))"
    "J (snd (consumePrekeys is d))"
    using assms by (auto simp: upsertIdentityKey_def uploadPrekeys_def consumePrekeys_def upsert_idkey_def
        Let_def split_beta intro!: data_intros key_loops prekeys split: option.splits)
  show "J (snd (group_bundles now us d))"
    using assms by (induction us arbitrary: d) (simp_all add: Let_def split_beta c)
qed

lemma chat_ops [data_intros]:
  assumes "J d"
  shows "J (snd (touch_conv c now d))" "J (snd (db_sendMessage c s ct ty cid dev now d))"
    "J (snd (update_msgs P f d))" "J (snd (updateMessageStatus m st d))"
    "J (snd (db_editMessage m ct ty now d))" "J (snd (db_deleteMessage m d))"
    "J (snd (updateMessagesReadStatus c u d))" "J (snd (recordMessageReceipt m u dev st now d))"
    "J (snd (updateMemberReadCursor c u m d))" "J (snd (db_setConversationPrefs c u pr mu d))"
    "J (snd (appendSyncEvent u ty pl now d))" "J (snd (db_addContact a b now d))"
proof -
  have t: "J (snd (touch_conv c now d))" if "J d" for c now d
    using that by (auto simp: touch_conv_def intro!: data_intros)
  from assms show "J (snd (touch_conv c now d))" by (rule t)
  show m: "J (snd (update_msgs P f d))" for P f
    using assms by (auto simp: update_msgs_def intro!: data_intros)
  show "J (snd (db_sendMessage c s ct ty cid dev now d))"
    using assms by (auto simp: db_sendMessage_def insert_msg_def Let_def split_beta split: option.splits
        intro!: data_intros t)
  show "J (snd (updateMessageStatus m st d))" "J (snd (db_editMessage m ct ty now d))"
    "J (snd (db_deleteMessage m d))" "J (snd (appendSyncEvent u ty pl now d))" "J (snd (db_addContact a b now d))"
    using assms m by (auto simp: updateMessageStatus_def db_editMessage_def db_deleteMessage_def
        appendSyncEvent_def insert_event_def db_addContact_def insert_contact_stmt_def insert_contact_def
        Let_def split_beta intro!: data_intros)
  show "J (snd (updateMessagesReadStatus c u d))" "J (snd (recordMessageReceipt m u dev st now d))"
    "J (snd (updateMemberReadCursor c u m d))" "J (snd (db_setConversationPrefs c u pr mu d))"
    using assms m by (auto simp: updateMessagesReadStatus_def recordMessageReceipt_def
        updateMemberReadCursor_def db_setConversationPrefs_def upsert_receipt_def Let_def split_beta
        intro!: data_intros)
qed

lemma end_transaction [data_intros]:
  "J d \<Longrightarrow> J (snd (end_commit b d))"
  "J d \<Longrightarrow> J saved \<Longrightarrow> J (end_rollback b saved d)"
  by (simp_all add: end_commit_def end_rollback_def transaction)

subsection \<open>The handlers\<close>

lemma walk:
  "(b \<Longrightarrow> J (w_db v)) \<Longrightarrow> (\<not> b \<Longrightarrow> J (w_db w)) \<Longrightarrow> J (w_db (if b then v else w))"
  "J (w_db w) \<Longrightarrow> (\<And>x. J (w_db (f x))) \<Longrightarrow> J (w_db (case opt of None \<Rightarrow> w | Some x \<Rightarrow> f x))"
  "(\<And>e. J (w_db (g e))) \<Longrightarrow> (\<And>x. J (w_db (f x))) \<Longrightarrow> J (w_db (case res of Inl e \<Rightarrow> g e | Inr x \<Rightarrow> f x))"
  "J (w_db w) \<Longrightarrow> J (w_db (sendResponse r mt c m d w))"
  "J (w_db w) \<Longrightarrow> J (w_db (emit x w))"
  "J (w_db w) \<Longrightarrow> (\<And>d. J d \<Longrightarrow> J (snd (h d))) \<Longrightarrow> J (w_db (snd (on_db h w)))"
  by (auto split: option.splits sum.splits)

lemma loops [data_intros]:
  "J (w_db w) \<Longrightarrow> J (w_db (append_event E u ty ob w))"
  "J (w_db w) \<Longrightarrow> J (w_db (fan_out E op ms ev nt w))"
  "J (w_db w) \<Longrightarrow> J (w_db (tell_changed E ms pl w))"
  "J (w_db w) \<Longrightarrow> J (w_db (tell_members E ms ty mt ev w))"
proof -
  have a: "J (w_db (append_event E u ty ob w))" if "J (w_db w)" for u ob w ty
    using that by (simp add: chat_ops)
  then show "J (w_db w) \<Longrightarrow> J (w_db (append_event E u ty ob w))" .
  show "J (w_db w) \<Longrightarrow> J (w_db (fan_out E op ms ev nt w))"
    by (induction ms arbitrary: w) (simp_all add: Let_def chat_ops)
  show "J (w_db w) \<Longrightarrow> J (w_db (tell_changed E ms pl w))"
    by (induction ms arbitrary: w) (simp_all add: chat_ops)
  show "J (w_db w) \<Longrightarrow> J (w_db (tell_members E ms ty mt ev w))"
    by (induction ms arbitrary: w) (simp_all add: chat_ops)
qed

lemma messages [data_intros]:
  "J (w_db w) \<Longrightarrow> J (w_db (postGroupSystemMessage E c u pl w))"
  "J (w_db w) \<Longrightarrow> J (w_db (notifyGroupChanged E c ty u t w))"
  unfolding postGroupSystemMessage_def notifyGroupChanged_def Let_def split_beta
  by (intro walk data_intros; assumption)+

lemma plain:
  assumes "J (w_db w)"
  shows "J (w_db (processSearchUsersRequest E p rq w))" "J (w_db (processAddContactRequest E p rq w))"
    "J (w_db (processGetContactsRequest E p w))" "J (w_db (processGetConversationsRequest E p w))"
proof -
  show "J (w_db (processAddContactRequest E p rq w))"
    using assms by (auto simp: processAddContactRequest_def Let_def split_beta intro!: data_intros)
  show "J (w_db (processSearchUsersRequest E p rq w))" "J (w_db (processGetContactsRequest E p w))"
    "J (w_db (processGetConversationsRequest E p w))"
    using assms by (simp_all add: processSearchUsersRequest_def processGetContactsRequest_def
        processGetConversationsRequest_def Let_def split_beta)
qed

lemma keys:
  assumes "J (w_db w)"
  shows "J (w_db (processRegisterKeysRequest E p rq w))" "J (w_db (processFetchKeysRequest E p rq w))"
    "J (w_db (processFetchGroupKeysRequest E p rq w))"
  using assms
  by (auto simp: processRegisterKeysRequest_def processFetchKeysRequest_def processFetchGroupKeysRequest_def
      keys_registered_def Let_def split_beta split: option.splits intro!: data_intros)

lemma chat:
  assumes "J (w_db w)"
  shows "J (w_db (processAckMessageRequest E p rq w))" "J (w_db (processSyncMessagesRequest E p rq w))"
    "J (w_db (processSyncEventsRequest E p rq w))" "J (w_db (processSetConversationPrefsRequest E p rq w))"
    "J (w_db (processEditMessageRequest E p rq w))" "J (w_db (processDeleteMessageRequest E p rq w))"
proof -
  show "J (w_db (processAckMessageRequest E p rq w))"
    using assms by (auto simp: processAckMessageRequest_def Let_def split: option.splits intro!: data_intros)
  show "J (w_db (processSyncMessagesRequest E p rq w))" "J (w_db (processSyncEventsRequest E p rq w))"
    using assms by (simp_all add: processSyncMessagesRequest_def processSyncEventsRequest_def Let_def chat_ops)
  show "J (w_db (processSetConversationPrefsRequest E p rq w))"
    using assms by (auto simp: processSetConversationPrefsRequest_def Let_def split_beta intro!: data_intros)
  show "J (w_db (processEditMessageRequest E p rq w))" "J (w_db (processDeleteMessageRequest E p rq w))"
    using assms by (simp_all add: processEditMessageRequest_def processDeleteMessageRequest_def Let_def
        split_beta chat_ops loops split: option.splits)
qed

lemma send:
  assumes "J (w_db w)"
  shows "J (w_db (processSendMessageRequest E p rq w))"
proof -
  have g: "J (w_db (processSendGroupMessage E p rq c cid v))" if "J (w_db v)" for c cid v
    unfolding processSendGroupMessage_def Let_def split_beta
    by (intro walk data_intros that)
  have s: "J (w_db (send_private E p rq cid v))" if "J (w_db v)" for cid v
    unfolding send_private_def Let_def split_beta
    by (intro walk data_intros that) (auto intro!: data_intros that)
  show ?thesis
    using assms unfolding processSendMessageRequest_def Let_def split_beta
    by (auto intro!: g s)
qed

lemma groups:
  "J (w_db w) \<Longrightarrow> J (w_db (processCreateGroupRequest E p rq w))"
  "J (w_db w) \<Longrightarrow> J (w_db (processGetGroupInfoRequest E p rq w))"
  unfolding processCreateGroupRequest_def processGetGroupInfoRequest_def Let_def split_beta
  by (intro walk data_intros; assumption)+

lemmas requests_keep = plain keys chat send groups

end

section \<open>Properties of the memberships, and of the accounts\<close>

locale account_contract = data_contract +
  assumes accounts: "db_members d' = db_members d \<Longrightarrow> db_convSeq d' = db_convSeq d \<Longrightarrow> J d' = J d"
begin

lemma account_fields [simp]: "J (db_users_update a2 d) = J d" "J (db_sessions_update a3 d) = J d"
  by (rule accounts; simp)+

lemma account_ops [data_intros]:
  assumes "J d"
  shows "J (snd (registerUser un em ph pw now d))" "J (snd (createSession u dev h ip ttl now d))"
    "J (snd (updateSessionLastActive s now d))" "J (snd (deleteSession s d))"
    "J (snd (deleteSessionsByUserId u d))" "J (recordLoginAttempt u ip ok why now d)"
    "J (snd (registerDevice u dev nm pf now d))"
  using assms
  by (auto simp: registerUser_def createSession_def updateSessionLastActive_def deleteSession_def
      deleteSessionsByUserId_def recordLoginAttempt_def registerDevice_def insert_user_def insert_session_def
      upsert_device_def Let_def split_beta intro!: data_intros)

lemma account:
  assumes "J (w_db w)"
  shows "J (w_db (processLoginRequest E p rq w))" "J (w_db (processRegisterRequest E p rq w))"
    "J (w_db (processLogoutRequest E p w))" "J (w_db (processTokenRenewRequest E p rq w))"
    "J (w_db (processTerminateSessionRequest E p rq w))"
proof -
  show "J (w_db (processLoginRequest E p rq w))"
    using assms by (auto simp: processLoginRequest_def Let_def split_beta split: option.splits
        intro!: data_intros)
  show "J (w_db (processTokenRenewRequest E p rq w))"
    using assms by (auto simp: processTokenRenewRequest_def Let_def split_beta split: option.splits
        intro!: data_intros)
  show "J (w_db (processRegisterRequest E p rq w))"
    using assms by (auto simp: processRegisterRequest_def Let_def split_beta intro!: data_intros)
  show "J (w_db (processTerminateSessionRequest E p rq w))" "J (w_db (processLogoutRequest E p w))"
    using assms by (auto simp: processTerminateSessionRequest_def processLogoutRequest_def Let_def split_beta
        intro!: data_intros)
qed

end

locale member_contract = data_contract +
  assumes members: "db_users d' = db_users d \<Longrightarrow> db_sessions d' = db_sessions d \<Longrightarrow> J d' = J d"
begin

lemma member_fields [simp]: "J (db_members_update a1 d) = J d" "J (db_convSeq_update a2 d) = J d"
  by (rule members; simp)+

lemma insert_member: "J d \<Longrightarrow> J (snd (insertMember c u role now d))"
  by (simp add: insertMember_def insert_member_row_def stmt)

lemma member_ops [data_intros]:
  assumes "J d"
  shows "J (snd (addGroupMembers c us now d))" "J (snd (removeGroupMember c u d))"
    "J (snd (updateMemberRole c u role d))"
proof -
  have "J (snd (add_members c us seen now d))" if "J d" for seen d
    using that by (induction us arbitrary: seen d) (simp_all add: Let_def split_beta insert_member)
  with assms show "J (snd (addGroupMembers c us now d))" by (simp add: addGroupMembers_def)
  show "J (snd (removeGroupMember c u d))" "J (snd (updateMemberRole c u role d))"
    using assms by (auto simp: removeGroupMember_def updateMemberRole_def update_members_def Let_def split_beta
        intro!: stmt)
qed

lemma transfer: "J (w_db w) \<Longrightarrow> J (w_db (transfer_ownership E c w))"
  unfolding transfer_ownership_def Let_def split_beta by (intro walk data_intros; assumption)

lemma member_changes:
  assumes "J (w_db w)"
  shows "J (w_db (processInviteGroupMembersRequest E p rq w))" "J (w_db (processKickGroupMemberRequest E p rq w))"
    "J (w_db (processLeaveGroupRequest E p rq w))"
proof -
  show "J (w_db (processInviteGroupMembersRequest E p rq w))" "J (w_db (processKickGroupMemberRequest E p rq w))"
    "J (w_db (processLeaveGroupRequest E p rq w))"
    unfolding processInviteGroupMembersRequest_def processKickGroupMemberRequest_def
      processLeaveGroupRequest_def Let_def split_beta
    using assms transfer by (auto intro!: data_intros split: sum.split)
qed

text \<open>The requests that end or replace a session are the only ones that may break it.\<close>

lemma dispatch_keeps:
  assumes "J (w_db w)" and "\<not> is_request p js LogoutRequest ''logout''"
    and "\<not> is_request p js TokenRenewRequest ''token_renew''"
    and "\<not> is_request p js ForceLogoutRequest ''force_logout''" "jstr (jget js ''type'') \<noteq> ''terminate_session''"
  shows "J (w_db (dispatch E p js w))"
  unfolding dispatch_def Let_def
  using assms by (simp add: requests_keep member_changes)

end

section \<open>Who the connection belongs to\<close>

text \<open>No handler but login, logout and renewal touches the user, the session or the device of a connection.\<close>

definition seat :: "world \<Rightarrow> ident \<times> ident \<times> string" where
  "seat w = (w_userId w, w_sessionId w, w_deviceId w)"

lemma seat_simps [simp]:
  "seat (emit x w) = seat w" "seat (sendResponse r mt code m jd w) = seat w"
  "seat (w_db_update f1 w) = seat w" "seat (w_nonces_update f2 w) = seat w" "seat (w_outs_update f3 w) = seat w"
  "seat (w_buffer_update f4 w) = seat w" "seat (w_fetchKeysWindow_update f5 w) = seat w"
  "seat (w_sendWindow_update f6 w) = seat w" "seat (w_searchWindow_update f7 w) = seat w"
  "seat (append_event E u ty ob w) = seat w"
  by (simp_all add: seat_def emit_def sendResponse_def append_event_def on_db_def split_beta)

lemma seat_loops [simp]:
  "seat (fan_out E op ms ev nt w) = seat w" "seat (tell_changed E ms pl w) = seat w"
  "seat (tell_members E ms ty mt ev w) = seat w"
proof -
  show "seat (fan_out E op ms ev nt w) = seat w"
    by (induction ms arbitrary: w) (simp_all add: Let_def)
  show "seat (tell_changed E ms pl w) = seat w"
    by (induction ms arbitrary: w) simp_all
  show "seat (tell_members E ms ty mt ev w) = seat w"
    by (induction ms arbitrary: w) simp_all
qed

lemma seat_messages [simp]:
  "seat (postGroupSystemMessage E c u pl w) = seat w" "seat (notifyGroupChanged E c ty u t w) = seat w"
  "seat (transfer_ownership E c w) = seat w"
  by (simp_all add: postGroupSystemMessage_def notifyGroupChanged_def transfer_ownership_def Let_def split_beta)

lemma seat_handlers [simp]:
  "seat (processSearchUsersRequest E p rq w) = seat w" "seat (processAddContactRequest E p rq w) = seat w"
  "seat (processGetContactsRequest E p w) = seat w" "seat (processGetConversationsRequest E p w) = seat w"
  "seat (processTerminateSessionRequest E p rq w) = seat w" "seat (processRegisterRequest E p rq w) = seat w"
  by (simp_all add: processSearchUsersRequest_def processAddContactRequest_def processGetContactsRequest_def
      processGetConversationsRequest_def processTerminateSessionRequest_def processRegisterRequest_def
      Let_def split_beta split: option.split)

lemma seat_keys [simp]:
  "seat (processRegisterKeysRequest E p rq w) = seat w" "seat (processFetchKeysRequest E p rq w) = seat w"
  "seat (processFetchGroupKeysRequest E p rq w) = seat w"
  by (simp_all add: processRegisterKeysRequest_def processFetchKeysRequest_def processFetchGroupKeysRequest_def
      keys_registered_def Let_def split_beta split: option.split)

lemma seat_chat [simp]:
  "seat (processAckMessageRequest E p rq w) = seat w" "seat (processSyncMessagesRequest E p rq w) = seat w"
  "seat (processSyncEventsRequest E p rq w) = seat w" "seat (processSetConversationPrefsRequest E p rq w) = seat w"
  "seat (processEditMessageRequest E p rq w) = seat w" "seat (processDeleteMessageRequest E p rq w) = seat w"
proof -
  show "seat (processAckMessageRequest E p rq w) = seat w"
    by (simp add: processAckMessageRequest_def Let_def split: option.split)
  show "seat (processSyncMessagesRequest E p rq w) = seat w" "seat (processSyncEventsRequest E p rq w) = seat w"
    "seat (processSetConversationPrefsRequest E p rq w) = seat w"
    by (simp_all add: processSyncMessagesRequest_def processSyncEventsRequest_def
        processSetConversationPrefsRequest_def Let_def split_beta split: option.split)
  show "seat (processEditMessageRequest E p rq w) = seat w" "seat (processDeleteMessageRequest E p rq w) = seat w"
    by (simp_all add: processEditMessageRequest_def processDeleteMessageRequest_def Let_def split_beta
        split: option.split)
qed

lemma seat_walk:
  "(b \<Longrightarrow> seat v = s) \<Longrightarrow> (\<not> b \<Longrightarrow> seat w = s) \<Longrightarrow> seat (if b then v else w) = s"
  "seat w = s \<Longrightarrow> (\<And>x. seat (f x) = s) \<Longrightarrow> seat (case opt of None \<Rightarrow> w | Some x \<Rightarrow> f x) = s"
  "(\<And>e. seat (g e) = s) \<Longrightarrow> (\<And>x. seat (f x) = s) \<Longrightarrow> seat (case res of Inl e \<Rightarrow> g e | Inr x \<Rightarrow> f x) = s"
  by (auto split: option.splits sum.splits)

lemma seat_send [simp]: "seat (processSendMessageRequest E p rq w) = seat w"
proof -
  have "seat (processSendGroupMessage E p rq c cid v) = seat v" for c cid v
    unfolding processSendGroupMessage_def Let_def split_beta by (intro seat_walk) simp_all
  moreover have "seat (send_private E p rq cid v) = seat v" for cid v
    unfolding send_private_def Let_def split_beta by (intro seat_walk) simp_all
  ultimately show ?thesis
    unfolding processSendMessageRequest_def Let_def split_beta by (intro seat_walk) simp_all
qed

lemma seat_groups [simp]:
  "seat (processCreateGroupRequest E p rq w) = seat w" "seat (processGetGroupInfoRequest E p rq w) = seat w"
  "seat (processInviteGroupMembersRequest E p rq w) = seat w" "seat (processKickGroupMemberRequest E p rq w) = seat w"
  "seat (processLeaveGroupRequest E p rq w) = seat w"
  unfolding processCreateGroupRequest_def processGetGroupInfoRequest_def processInviteGroupMembersRequest_def
    processKickGroupMemberRequest_def processLeaveGroupRequest_def Let_def split_beta
  by (intro seat_walk; simp)+

lemma seat_dispatch:
  assumes "\<not> is_request p js LogoutRequest ''logout''" and "\<not> is_request p js TokenRenewRequest ''token_renew''"
  shows "seat (dispatch E p js w) = seat w"
  unfolding dispatch_def Let_def using assms by simp

end
