(* ===== verification/Group_Policy.thy ===== *)
theory Group_Policy
  imports Edit_Properties Handler_Contract
begin

text \<open>
  Who may change the members of a conversation and their roles, over all requests: what a packet of
  any type does to the memberships of the conversations that exist when it arrives.
\<close>

section \<open>Memberships that are kept\<close>

text \<open>The role of a user in a conversation, \<open>None\<close> for somebody who is not a member.\<close>

definition roles :: "db \<Rightarrow> ident \<Rightarrow> ident \<Rightarrow> string option" where
  "roles d c u = map_option mb_role (find (is_member_row c u) (db_members d))"

definition kept :: "db \<Rightarrow> db \<Rightarrow> bool" where
  "kept d0 d \<longleftrightarrow> db_convSeq d0 \<le> db_convSeq d
     \<and> (\<forall>c u. c \<le> db_convSeq d0 \<longrightarrow> roles d c u = roles d0 c u)"

lemma kept_refl [simp]: "kept d d"
  by (simp add: kept_def)

lemma kept_faults [simp]: "kept d0 (d\<lparr>db_faults := a\<rparr>) = kept d0 d"
  by (simp add: kept_def roles_def)

lemma kept_stmt:
  "kept d0 d \<Longrightarrow> (\<And>d. kept d0 d \<Longrightarrow> kept d0 (f d)) \<Longrightarrow> kept d0 (snd (exec_stmt P f d))"
  by (rule exec_stmt_inv [of "kept d0"]) simp_all

lemma kept_transaction:
  "kept d0 d \<Longrightarrow> kept d0 (snd (beginTransaction d))" "kept d0 d \<Longrightarrow> kept d0 (snd (commitTransaction d))"
  "kept d0 saved \<Longrightarrow> kept d0 (rollbackTransaction saved d)"
  by (simp_all add: beginTransaction_def commitTransaction_def rollbackTransaction_def kept_stmt)

text \<open>A membership row that gets another cursor or preference keeps its user and role, and a row of a
  conversation that is made now is none of the old ones.\<close>

lemma find_role_kept:
  assumes "\<And>r. is_member_row c u (f r) = is_member_row c u r" "\<And>r. mb_role (f r) = mb_role r"
  shows "map_option mb_role (find (is_member_row c u) (update_where P f rs))
    = map_option mb_role (find (is_member_row c u) rs)"
  by (induction rs) (simp_all add: update_where_def assms)

lemma kept_update_members:
  assumes "kept d0 d" "\<And>r. mb_convId (f r) = mb_convId r" "\<And>r. mb_userId (f r) = mb_userId r"
    and "\<And>r. mb_role (f r) = mb_role r"
  shows "kept d0 (snd (update_members P f d))"
  unfolding update_members_def
  by (rule kept_stmt [OF assms(1)])
    (simp add: kept_def roles_def find_role_kept is_member_row_def assms(2-4))

lemma find_append_none: "\<not> P x \<Longrightarrow> find P (xs @ [x]) = find P xs"
  by (simp add: find_append split: option.split)

lemma kept_insert_member:
  "kept d0 d \<Longrightarrow> db_convSeq d0 < c \<Longrightarrow> kept d0 (snd (insertMember c u role now d))"
  unfolding insertMember_def
  by (rule kept_stmt, assumption)
    (simp add: kept_def roles_def insert_member_row_def find_append_none is_member_row_def)

lemma insertMember_convSeq: "db_convSeq (snd (insertMember c u role now d)) = db_convSeq d"
  unfolding insertMember_def by (rule exec_stmt_frame) (simp_all add: insert_member_row_def)

lemma kept_insert_conv: "kept d0 d \<Longrightarrow> kept d0 (insert_conv a d)"
  by (simp add: kept_def roles_def insert_conv_def)

lemma insert_conv_seq:
  "fst (exec_stmt unconstrained (insert_conv a) d)
    \<Longrightarrow> db_convSeq (snd (exec_stmt unconstrained (insert_conv a) d)) = db_convSeq d + 1"
  by (rule exec_stmt_cases [of unconstrained "insert_conv a" d]) (simp_all add: insert_conv_def)

lemma kept_private:
  assumes "kept d0 d"
  shows "kept d0 (snd (getOrCreatePrivateConversation a b now d))"
proof -
  let ?e = "exec_stmt unconstrained (insert_conv (''private'', [], now)) d"
  have e: "kept d0 (snd ?e)" by (rule kept_stmt [OF assms kept_insert_conv])
  moreover have "db_convSeq d0 < db_convSeq (snd ?e)" if "fst ?e"
    using insert_conv_seq [OF that] assms by (simp add: kept_def)
  ultimately show ?thesis
    using assms unfolding getOrCreatePrivateConversation_def Let_def split_beta
    by (auto intro!: kept_insert_member split: option.split)
qed

lemma kept_add_initial:
  "kept d0 d \<Longrightarrow> db_convSeq d0 < c \<Longrightarrow> kept d0 (snd (add_initial c ms added now d))"
  by (induction ms arbitrary: added d) (simp_all add: Let_def split_beta kept_insert_member)

lemma kept_createGroup:
  assumes "kept d0 d"
  shows "kept d0 (snd (db_createGroup u name ms now d))"
proof -
  let ?b = "snd (beginTransaction d)"
  let ?e = "exec_stmt unconstrained (insert_conv (''group'', trimmed name, now)) ?b"
  have b: "kept d0 ?b" by (rule kept_transaction [OF assms])
  have e: "kept d0 (snd ?e)" by (rule kept_stmt [OF b kept_insert_conv])
  have s: "db_convSeq d0 < db_convSeq (snd ?e)" if "fst ?e"
    using insert_conv_seq [OF that] b by (simp add: kept_def)
  show ?thesis
    unfolding db_createGroup_def Let_def split_beta
    using assms b e s by (auto intro!: kept_transaction kept_add_initial kept_insert_member)
qed

text \<open>So every handler but the three for a group's members keeps the roles.\<close>

lemma kept_roles: "db_members d' = db_members d \<Longrightarrow> db_convSeq d' = db_convSeq d \<Longrightarrow> kept d0 d' = kept d0 d"
  by (simp add: kept_def roles_def)

interpretation keep: account_contract "kept d0" for d0
  by unfold_locales (assumption | rule kept_roles kept_update_members kept_private kept_createGroup)+

abbreviation keeps :: "db \<Rightarrow> world \<Rightarrow> bool" where
  "keeps d0 w \<equiv> kept d0 (w_db w)"

section \<open>The requests that change memberships\<close>

definition role_name :: "string option \<Rightarrow> string" where
  "role_name r = (case r of None \<Rightarrow> [] | Some s \<Rightarrow> s)"

text \<open>The changes that the user \<open>me\<close> may make: a member invites somebody who becomes an ordinary
  member, everybody leaves, the owner and the admins remove members of a lower role, and an owner
  makes another member the owner.\<close>

definition may_change :: "ident \<Rightarrow> (ident \<Rightarrow> string option) \<Rightarrow> (ident \<Rightarrow> string option) \<Rightarrow> ident \<Rightarrow> bool" where
  "may_change me before after u \<longleftrightarrow>
     (before me \<noteq> None \<and> before u = None \<and> after u = Some ''member'')
   \<or> (before u \<noteq> None \<and> after u = None
        \<and> (u = me \<or> (before me = Some ''owner'' \<and> before u \<noteq> Some ''owner'')
           \<or> (before me = Some ''admin'' \<and> before u = Some ''member'')))
   \<or> (before me = Some ''owner'' \<and> u \<noteq> me \<and> before u \<noteq> None \<and> after u = Some ''owner'')"

definition ruled :: "ident \<Rightarrow> db \<Rightarrow> db \<Rightarrow> bool" where
  "ruled me d d' \<longleftrightarrow> (\<forall>c u. c \<le> db_convSeq d \<longrightarrow> roles d' c u = roles d c u
     \<or> is_group (getConversation c d) \<and> may_change me (roles d c) (roles d' c) u)"

lemma kept_ruled: "kept d d' \<Longrightarrow> ruled me d d'"
  by (simp add: ruled_def kept_def)

lemma groupRole_roles: "groupRole c u d = role_name (roles d c u)"
  by (simp add: groupRole_def roles_def role_name_def split: option.split)

lemma member_roles: "isConversationMember c u d \<longleftrightarrow> roles d c u \<noteq> None"
  by (simp add: isConversationMember_def roles_def count_where_pos exists_where_iff find_None_iff Bex_def)

lemma roles_view: "groups_view d = groups_view d' \<Longrightarrow> roles d = roles d'"
  by (simp add: roles_def fun_eq_iff groups_view_def)

lemma same_cell: "is_member_row c u r \<Longrightarrow> is_member_row c' u' r \<longleftrightarrow> c' = c \<and> u' = u"
  by (auto simp: is_member_row_def)

text \<open>What the three statements on the membership table do to the roles.\<close>

lemma roles_insert:
  "roles (snd (insertMember c u role now d)) = roles d
   \<or> roles d c u = None \<and> roles (snd (insertMember c u role now d)) = (roles d)(c := (roles d c)(u := Some role))"
proof -
  let ?ok = "\<lambda>d. has_conv c d \<and> has_user u d \<and> \<not> exists_where (is_member_row c u) (db_members d)"
  let ?ins = "insert_member_row c u role now"
  have new: "roles (?ins d) = (roles d)(c := (roles d c)(u := Some role))" if "roles d c u = None" for d
    using that by (auto simp: roles_def insert_member_row_def find_append fun_eq_iff is_member_row_def
        split: option.split)
  have free: "roles (d\<lparr>db_faults := fs\<rparr>) = roles d" for d fs by (simp add: roles_def fun_eq_iff)
  have none: "roles d c u = None" if "?ok d" for d
    using that by (auto simp: roles_def find_None_iff exists_where_iff)
  show ?thesis
    unfolding insertMember_def
    by (rule exec_stmt_cases [of ?ok ?ins d])
      (use new none free in \<open>metis (no_types, lifting) snd_conv\<close>)+
qed

lemma find_deleted:
  "map_option mb_role (find (is_member_row c' u') (delete_where (is_member_row c u) rs))
    = (if c' = c \<and> u' = u then None else map_option mb_role (find (is_member_row c' u') rs))"
  by (induction rs) (auto dest: same_cell)

lemma find_role_updated:
  "map_option mb_role (find (is_member_row c' u') (update_where (is_member_row c u) (\<lambda>r. r\<lparr>mb_role := role\<rparr>) rs))
    = (if c' = c \<and> u' = u then map_option (\<lambda>_. role) (map_option mb_role (find (is_member_row c' u') rs))
       else map_option mb_role (find (is_member_row c' u') rs))"
proof (induction rs)
  have row: "is_member_row c' u' (r\<lparr>mb_role := role\<rparr>) = is_member_row c' u' r" for r
    by (simp add: is_member_row_def)
  case (Cons r rs)
  show ?case
    by (cases "is_member_row c u r") (use Cons in \<open>auto simp: update_where_def row dest: same_cell\<close>)
qed (simp add: update_where_def)

lemma roles_remove:
  shows "roles (snd (removeGroupMember c u d)) = roles d
     \<or> roles (snd (removeGroupMember c u d)) = (roles d)(c := (roles d c)(u := None))"
    and "db_faults d = [] \<Longrightarrow> roles (snd (removeGroupMember c u d)) = (roles d)(c := (roles d c)(u := None))"
proof -
  let ?del = "\<lambda>d. d\<lparr>db_members := delete_where (is_member_row c u) (db_members d)\<rparr>"
  show "roles (snd (removeGroupMember c u d)) = roles d
     \<or> roles (snd (removeGroupMember c u d)) = (roles d)(c := (roles d c)(u := None))"
    unfolding removeGroupMember_def Let_def split_beta snd_conv
    by (rule exec_stmt_cases [of unconstrained ?del d]) (simp_all add: roles_def fun_eq_iff find_deleted)
qed (simp add: removeGroupMember_def Let_def split_beta exec_stmt_no_fault roles_def fun_eq_iff find_deleted)

lemma roles_update:
  fixes c u :: ident and role :: string and d :: db
  defines "d' \<equiv> snd (updateMemberRole c u role d)"
    and "r \<equiv> (roles d)(c := (roles d c)(u := map_option (\<lambda>_. role) (roles d c u)))"
  shows "roles d' = roles d \<or> roles d' = r"
    and "db_faults d = [] \<Longrightarrow> role \<in> {''owner'', ''admin'', ''member''} \<Longrightarrow> roles d' = r"
proof -
  let ?f = "\<lambda>r. r\<lparr>mb_role := role\<rparr>"
  let ?up = "\<lambda>d. d\<lparr>db_members := update_where (is_member_row c u) ?f (db_members d)\<rparr>"
  have "roles (snd (update_members (is_member_row c u) ?f d)) = roles d
    \<or> roles (snd (update_members (is_member_row c u) ?f d)) = r"
    unfolding update_members_def r_def
    by (rule exec_stmt_cases [of unconstrained ?up d]) (simp_all add: roles_def fun_eq_iff find_role_updated)
  then show "roles d' = roles d \<or> roles d' = r" by (simp add: d'_def updateMemberRole_def Let_def split_beta)
  show "roles d' = r" if "db_faults d = []" "role \<in> {''owner'', ''admin'', ''member''}"
    using that by (auto simp: d'_def r_def updateMemberRole_def update_members_def Let_def split_beta
        exec_stmt_no_fault roles_def fun_eq_iff find_role_updated)
qed

lemma messages_roles [simp]:
  "roles (w_db (postGroupSystemMessage E c u pl w)) = roles (w_db w)"
  "roles (w_db (notifyGroupChanged E c ty u t w)) = roles (w_db w)"
  by (rule roles_view, rule post_frame notify_frame)+

lemma ruled_refl [simp]: "ruled me d d"
  by (simp add: ruled_def)

lemma ruled_cong: "roles d1 = roles d2 \<Longrightarrow> ruled me d d1 = ruled me d d2"
  by (simp add: ruled_def)

abbreviation rules :: "ident \<Rightarrow> db \<Rightarrow> world \<Rightarrow> bool" where
  "rules me d w \<equiv> ruled me d (w_db w)"

lemma rules_walk:
  "(b \<Longrightarrow> rules me d v) \<Longrightarrow> (\<not> b \<Longrightarrow> rules me d w) \<Longrightarrow> rules me d (if b then v else w)"
  "(\<And>e. rules me d (g e)) \<Longrightarrow> (\<And>x. rules me d (f x)) \<Longrightarrow> rules me d (case res of Inl e \<Rightarrow> g e | Inr x \<Rightarrow> f x)"
  "rules me d w \<Longrightarrow> rules me d (sendResponse r mt code m jd w)"
  "rules me d w \<Longrightarrow> rules me d (postGroupSystemMessage E c u pl w)"
  "rules me d w \<Longrightarrow> rules me d (notifyGroupChanged E c ty u t w)"
  by (auto split: sum.splits simp: ruled_cong [OF messages_roles(1)] ruled_cong [OF messages_roles(2)])

lemma add_members_roles:
  assumes "\<forall>u. roles d0 c u = roles d c u \<or> roles d0 c u = None \<and> roles d c u = Some ''member''"
    and "\<forall>c'. c' \<noteq> c \<longrightarrow> roles d c' = roles d0 c'"
  shows "(\<forall>u. roles d0 c u = roles (snd (add_members c us seen now d)) c u
      \<or> roles d0 c u = None \<and> roles (snd (add_members c us seen now d)) c u = Some ''member'')
    \<and> (\<forall>c'. c' \<noteq> c \<longrightarrow> roles (snd (add_members c us seen now d)) c' = roles d0 c')"
  using assms
proof (induction us arbitrary: seen d)
  case (Cons x us)
  let ?d = "snd (insertMember c x ''member'' now d)"
  have "(\<forall>u. roles d0 c u = roles ?d c u \<or> roles d0 c u = None \<and> roles ?d c u = Some ''member'')
    \<and> (\<forall>c'. c' \<noteq> c \<longrightarrow> roles ?d c' = roles d0 c')"
    using roles_insert [of c x "''member''" now d] Cons.prems Cons.prems(1) [rule_format, of x] by (elim disjE) auto
  then show ?case
    using Cons.IH [of d] Cons.IH [of ?d] Cons.prems by (simp add: Let_def split_beta)
qed simp

lemma rules_invite: "rules (w_userId w) (w_db w) (processInviteGroupMembersRequest E p rq w)"
proof -
  let ?c = "jlonglong (jget rq ''conversationId'')"
  have "ruled (w_userId w) (w_db w) (snd (addGroupMembers ?c us (e_now E) (w_db w)))"
    if "is_group (getConversation ?c (w_db w))" "isConversationMember ?c (w_userId w) (w_db w)" for us
  proof -
    let ?d = "snd (addGroupMembers ?c us (e_now E) (w_db w))"
    have a: "\<forall>u. roles (w_db w) ?c u = roles ?d ?c u \<or> roles (w_db w) ?c u = None \<and> roles ?d ?c u = Some ''member''"
      "\<forall>c'. c' \<noteq> ?c \<longrightarrow> roles ?d c' = roles (w_db w) c'"
      using add_members_roles [of "w_db w" ?c "w_db w" us "[]" "e_now E"] by (simp_all add: addGroupMembers_def)
    show ?thesis
      unfolding ruled_def
    proof (intro allI impI)
      fix c u
      show "roles ?d c u = roles (w_db w) c u \<or> is_group (getConversation c (w_db w))
          \<and> may_change (w_userId w) (roles (w_db w) c) (roles ?d c) u"
      proof (cases "c = ?c")
        case True
        with that a(1) [rule_format, of u] show ?thesis by (auto simp: may_change_def member_roles)
      qed (use a(2) in simp)
    qed
  qed
  then show ?thesis
    unfolding processInviteGroupMembersRequest_def Let_def split_beta
    by (intro rules_walk) simp_all
qed

lemma rules_kick: "rules (w_userId w) (w_db w) (processKickGroupMemberRequest E p rq w)"
proof -
  let ?c = "jlonglong (jget rq ''conversationId'')" and ?t = "jlonglong (jget rq ''userId'')"
  let ?d = "snd (removeGroupMember ?c ?t (w_db w))"
  have "ruled (w_userId w) (w_db w) ?d"
    if "is_group (getConversation ?c (w_db w))" "groupRole ?c ?t (w_db w) \<noteq> []"
      "may_kick (groupRole ?c (w_userId w) (w_db w)) (groupRole ?c ?t (w_db w))"
    using roles_remove(1) [of ?c ?t "w_db w"] that
    by (elim disjE) (auto simp: ruled_def may_change_def may_kick_def groupRole_roles role_name_def split: option.splits)
  then show ?thesis
    unfolding processKickGroupMemberRequest_def Let_def split_beta
    by (intro rules_walk) simp_all
qed

lemma successor_other: "successor_of X c me d > 0 \<Longrightarrow> successor_of X c me d \<noteq> me"
  by (auto simp: successor_of_def split: option.splits dest: find_SomeD)

lemma transfer_roles:
  fixes w :: world and E :: env and c :: ident
  defines "w1 \<equiv> transfer_ownership E c w"
  shows "roles (w_db w1) = roles (w_db w)
    \<or> (\<exists>s. s \<noteq> w_userId w \<and> roles (w_db w1)
         = (roles (w_db w))(c := (roles (w_db w) c)(s := map_option (\<lambda>_. ''owner'') (roles (w_db w) c s))))"
proof (cases "successor_of (e_ext E) c (w_userId w) (w_db w) > 0")
  case True
  let ?s = "successor_of (e_ext E) c (w_userId w) (w_db w)"
  have "roles (w_db w1) = roles (snd (updateMemberRole c ?s ''owner'' (w_db w)))"
    using True by (simp add: w1_def transfer_ownership_def Let_def)
  with roles_update(1) [of c ?s "''owner''" "w_db w"] successor_other [OF True] show ?thesis by metis
qed (simp add: w1_def transfer_ownership_def Let_def)

lemma transfer_userId [simp]: "w_userId (transfer_ownership E c w) = w_userId w"
  by (simp add: transfer_ownership_def Let_def post_frame notify_frame)

lemma rules_leave: "rules (w_userId w) (w_db w) (processLeaveGroupRequest E p rq w)"
proof -
  let ?c = "jlonglong (jget rq ''conversationId'')" and ?me = "w_userId w"
  have "ruled ?me (w_db w) (snd (removeGroupMember ?c ?me (w_db w1)))"
    if g: "is_group (getConversation ?c (w_db w))" "groupRole ?c ?me (w_db w) \<noteq> []"
      and w1: "w1 = (if groupRole ?c ?me (w_db w) = ''owner'' then transfer_ownership E ?c w else w)" for w1
  proof (cases "groupRole ?c ?me (w_db w) = ''owner''")
    case True
    then have o: "roles (w_db w) ?c ?me = Some ''owner''"
      by (auto simp: groupRole_roles role_name_def split: option.splits)
    have w1: "w1 = transfer_ownership E ?c w" using True w1 by simp
    show ?thesis
      using roles_remove(1) [of ?c ?me "w_db w1"] transfer_roles [of E ?c w] o g(1) unfolding w1
      by (elim disjE exE conjE) (auto simp: ruled_def may_change_def)
  next
    case False
    then have "w1 = w" using w1 by simp
    then show ?thesis
      using roles_remove(1) [of ?c ?me "w_db w1"] g
      by (elim disjE) (auto simp: ruled_def may_change_def groupRole_roles role_name_def split: option.splits)
  qed
  then show ?thesis
    unfolding processLeaveGroupRequest_def Let_def split_beta
    by (intro rules_walk) (simp_all split: if_split_asm)
qed

lemma rules_dispatch: "rules (w_userId w) (w_db w) (dispatch E p js w)"
  unfolding dispatch_def Let_def
  by (intro rules_walk rules_invite rules_kick rules_leave kept_ruled keep.account keep.requests_keep kept_refl)

section \<open>Every packet\<close>

lemma updateSessionLastActive_view: "groups_view (snd (updateSessionLastActive s now d)) = groups_view d"
  unfolding updateSessionLastActive_def by (rule exec_stmt_frame) (simp_all add: groups_view_def)

lemma has_conv_seq: "db_inv d \<Longrightarrow> has_conv c d \<Longrightarrow> c \<le> db_convSeq d"
  by (auto simp: db_inv_def convs_ok_def keys_ok_def has_conv_def exists_where_iff)

text \<open>A packet is refused, or logs in or registers, or is dispatched in a session that was touched.\<close>

lemma packet_cases:
  obtains (other) "keeps (w_db w) (processPacket E p w)"
  | (dispatched) js v s t where "processPacket E p w = dispatch E p js v"
      "w_db v = snd (updateSessionLastActive s t (w_db w))" "w_userId v = w_userId w"
proof (cases "pk_type p = mt_code Ping \<or> (\<nexists>js. x_fromJson (e_ext E) (pk_payload p) = Some (JObj js))")
  case True
  then have "w_db (processPacket E p w) = w_db w"
    by (auto simp: processPacket_def Let_def split: option.split json.split)
  then show ?thesis by (intro other) simp
next
  case False
  then obtain js where js: "pk_type p \<noteq> mt_code Ping" "x_fromJson (e_ext E) (pk_payload p) = Some (JObj js)"
    by blast
  define fv where "fv = (if pk_type p \<noteq> mt_code Pong then checkReplayProtection E js w else (True, w))"
  have v: "w_db (snd fv) = w_db w" "w_userId (snd fv) = w_userId w"
    by (simp_all add: fv_def checkReplayProtection_frame)
  then have kv: "keeps (w_db w) (snd fv)" by simp
  let ?v = "snd (on_db (updateSessionLastActive (w_sessionId (snd fv)) (e_now E)) (snd fv))"
  let ?serve = "is_request p js RegisterRequest ''register'' \<or> is_request p js LoginRequest ''login''"
  have eq: "processPacket E p w =
      (if \<not> fst fv then sendResponse (pk_reqid p) ErrorPacket ReplayRejected
         ''Replay protection check failed'' [] (snd fv)
       else if is_request p js RegisterRequest ''register'' then processRegisterRequest E p js (snd fv)
       else if is_request p js LoginRequest ''login'' then processLoginRequest E p js (snd fv)
       else if \<not> validateSession E js (snd fv) then sendResponse (pk_reqid p) ErrorPacket SessionInvalid
         ''Authentication required'' [] (snd fv)
       else dispatch E p js ?v)"
    using js by (simp add: processPacket_def Let_def split_beta fv_def del: on_db_simps)
  show ?thesis
  proof (cases "fst fv \<and> \<not> ?serve \<and> validateSession E js (snd fv)")
    case True
    then have "processPacket E p w = dispatch E p js ?v" using eq by (simp del: on_db_simps)
    then show ?thesis
      by (rule dispatched [where s = "w_sessionId (snd fv)" and t = "e_now E"]) (simp_all add: v)
  next
    case False
    then have "keeps (w_db w) (processPacket E p w)"
      using eq kv keep.account(1,2) [OF kv] by (auto simp del: on_db_simps split: if_splits)
    then show ?thesis by (rule other)
  qed
qed

text \<open>
  C23: only the users who may do so change who is in a conversation and with which role. Whatever packet
  a connection sends, of any type, before or after a login, and whatever statements fail: the role of a
  user in a conversation that exists stays as it is, or the conversation is a group and the user of the
  connection was entitled to the change, as a member who invited a new ordinary member, as the one who
  left, as the owner or an admin who removed somebody of a lower role, or as the owner who made another
  member the owner. Private conversations never change their members.
\<close>

theorem membership_policy:
  fixes E :: env and p :: packet and w :: world
  assumes "db_inv (w_db w)" and "has_conv c (w_db w)"
  defines "before \<equiv> roles (w_db w) c" and "after \<equiv> roles (w_db (processPacket E p w)) c"
  shows "after u = before u
    \<or> is_group (getConversation c (w_db w)) \<and> may_change (w_userId w) before after u"
proof -
  have c: "c \<le> db_convSeq (w_db w)" using assms(1,2) by (rule has_conv_seq)
  show ?thesis
  proof (rule packet_cases [of w E p])
    assume "keeps (w_db w) (processPacket E p w)"
    with c show ?thesis by (simp add: kept_def before_def after_def)
  next
    fix js v s t
    assume v: "processPacket E p w = dispatch E p js v" "w_db v = snd (updateSessionLastActive s t (w_db w))"
      "w_userId v = w_userId w"
    note view = updateSessionLastActive_view [of s t "w_db w"]
    have "c \<le> db_convSeq (w_db v)"
      using keep.account_ops(3) [OF kept_refl [of "w_db w"], of s t] c v by (simp add: kept_def)
    with rules_dispatch [of v E p js] v show ?thesis
      by (simp add: ruled_def before_def after_def roles_view [OF view] groups_view_is_group [OF view])
  qed
qed

text \<open>Whatever the ordinary member 2 sends, the owner 1 stays the owner of the group.\<close>

definition member_world :: world where
  "member_world = group_world\<lparr>w_userId := 2, w_sessionId := 2\<rparr>"

theorem membership_policy_witness:
  "is_group (getConversation 1 (w_db member_world)) \<and> roles (w_db member_world) 1 2 = Some ''member''
   \<and> (\<forall>E p. roles (w_db (processPacket E p member_world)) 1 1 = Some ''owner'')"
proof -
  have db: "db_inv (w_db member_world)" "has_conv 1 (w_db member_world)"
    using group_db_inv by (simp_all add: member_world_def group_world_defs sample_defs has_conv_def exists_where_iff)
  have me: "w_userId member_world = 2" by (simp add: member_world_def)
  have r: "roles (w_db member_world) 1 1 = Some ''owner''" "roles (w_db member_world) 1 2 = Some ''member''"
    "is_group (getConversation 1 (w_db member_world))"
    by (simp_all add: member_world_def group_world_defs sample_defs roles_def is_member_row_def is_group_def
        getConversation_def find_conv_def)
  have "roles (w_db (processPacket E p member_world)) 1 1 = Some ''owner''" for E p
    using membership_policy [OF db, of E p 1] r by (simp add: me may_change_def)
  with r show ?thesis by blast
qed

section \<open>The ownership of a group\<close>

text \<open>A group keeps its one owner: only the leaving of the owner touches the ownership, and it passes it
  on first.\<close>

definition one_owner :: "(ident \<Rightarrow> string option) \<Rightarrow> bool" where
  "one_owner r \<longleftrightarrow> (\<exists>!u. r u = Some ''owner'')"

definition same_owners :: "db \<Rightarrow> db \<Rightarrow> bool" where
  "same_owners d d' \<longleftrightarrow> (\<forall>c u. c \<le> db_convSeq d \<longrightarrow>
     (roles d' c u = Some ''owner'' \<longleftrightarrow> roles d c u = Some ''owner''))"

abbreviation owners :: "db \<Rightarrow> world \<Rightarrow> bool" where
  "owners d w \<equiv> same_owners d (w_db w)"

lemma kept_same_owners: "kept d d' \<Longrightarrow> same_owners d d'"
  by (simp add: same_owners_def kept_def)

lemma same_owners_refl [simp]: "same_owners d d"
  by (simp add: same_owners_def)

lemma same_owners_cong: "roles d1 = roles d2 \<Longrightarrow> same_owners d d1 = same_owners d d2"
  by (simp add: same_owners_def)

lemma owners_walk:
  "(b \<Longrightarrow> owners d v) \<Longrightarrow> (\<not> b \<Longrightarrow> owners d w) \<Longrightarrow> owners d (if b then v else w)"
  "(\<And>e. owners d (g e)) \<Longrightarrow> (\<And>x. owners d (f x)) \<Longrightarrow> owners d (case res of Inl e \<Rightarrow> g e | Inr x \<Rightarrow> f x)"
  "owners d w \<Longrightarrow> owners d (sendResponse r mt code m jd w)"
  "owners d w \<Longrightarrow> owners d (postGroupSystemMessage E c u pl w)"
  "owners d w \<Longrightarrow> owners d (notifyGroupChanged E c ty u t w)"
  by (auto split: sum.splits simp: same_owners_cong [OF messages_roles(1)] same_owners_cong [OF messages_roles(2)])

lemma owners_invite: "owners (w_db w) (processInviteGroupMembersRequest E p rq w)"
proof -
  let ?c = "jlonglong (jget rq ''conversationId'')"
  have "same_owners (w_db w) (snd (addGroupMembers ?c us (e_now E) (w_db w)))" for us
  proof -
    have a: "\<forall>u. roles (w_db w) ?c u = roles (snd (add_members ?c us [] (e_now E) (w_db w))) ?c u
        \<or> roles (w_db w) ?c u = None \<and> roles (snd (add_members ?c us [] (e_now E) (w_db w))) ?c u = Some ''member''"
      "\<forall>c'. c' \<noteq> ?c \<longrightarrow> roles (snd (add_members ?c us [] (e_now E) (w_db w))) c' = roles (w_db w) c'"
      using add_members_roles [of "w_db w" ?c "w_db w" us "[]" "e_now E"] by simp_all
    show ?thesis
      unfolding same_owners_def addGroupMembers_def
    proof (intro allI impI)
      fix c u
      show "(roles (snd (add_members ?c us [] (e_now E) (w_db w))) c u = Some ''owner'')
          = (roles (w_db w) c u = Some ''owner'')"
        using a(1) [rule_format, of u] a(2) by (cases "c = ?c") auto
    qed
  qed
  then show ?thesis
    unfolding processInviteGroupMembersRequest_def Let_def split_beta
    by (intro owners_walk) simp_all
qed

lemma removed_same_owners:
  "roles d c u \<noteq> Some ''owner'' \<Longrightarrow> same_owners d (snd (removeGroupMember c u d))"
  using roles_remove(1) [of c u d] by (elim disjE) (auto simp: same_owners_def)

lemma owners_kick: "owners (w_db w) (processKickGroupMemberRequest E p rq w)"
proof -
  have "roles (w_db w) c t \<noteq> Some ''owner''" if "may_kick r (groupRole c t (w_db w))" for c t r
    using that by (auto simp: may_kick_def groupRole_roles role_name_def)
  then show ?thesis
    unfolding processKickGroupMemberRequest_def Let_def split_beta
    by (intro owners_walk) (simp_all add: removed_same_owners)
qed

text \<open>The owner who leaves finds a successor when there is another member.\<close>

lemma successor_found:
  fixes X :: ext and c me u :: ident
  assumes d: "db_inv d" and m: "roles d c u = Some role" "u \<noteq> me"
  defines "s \<equiv> successor_of X c me d"
  shows "s > 0 \<and> roles d c s \<noteq> None"
proof -
  have member: "u' > 0 \<and> find_user u' d \<noteq> None" if "r \<in> set (db_members d)" "mb_userId r = u'" for r u'
  proof -
    from d have uk: "keys_ok ur_id (db_users d) (db_userSeq d)" and mk: "\<forall>r\<in>set (db_members d). mb_userId r \<in> user_ids d"
      by (simp_all add: db_inv_def users_ok_def members_ok_def)
    with that have "u' \<in> ur_id ` set (db_users d)" by (auto simp: user_ids_def)
    with uk show ?thesis by (auto simp: keys_ok_def find_user_def find_None_iff)
  qed
  let ?ids = "map (\<lambda>m. jlonglong (jget m ''userId'')) (getGroupMembers X c d)"
  have ids: "set ?ids = {mb_userId r |r. r \<in> set (db_members d) \<and> mb_convId r = c}"
  proof -
    have "?ids = map mb_userId (filter (\<lambda>r. find_user (mb_userId r) d \<noteq> None) (members_in_order c d))"
      unfolding getGroupMembers_def
      by (induction "members_in_order c d") (auto simp: List.map_filter_def jlonglong_def)
    then show ?thesis using member by (auto simp: members_in_order_def)
  qed
  obtain r where r: "r \<in> set (db_members d)" "mb_convId r = c" "mb_userId r = u"
    using m(1) by (auto simp: roles_def is_member_row_def dest!: find_SomeD)
  then have "find (\<lambda>i. i \<noteq> me) ?ids \<noteq> None"
    using ids m(2) by (auto simp: find_None_iff simp del: set_map)
  then obtain i where i: "find (\<lambda>i. i \<noteq> me) ?ids = Some i" by blast
  then have "i \<in> set ?ids" by (auto dest: find_SomeD)
  then obtain r' where r': "r' \<in> set (db_members d)" "mb_convId r' = c" "mb_userId r' = i"
    unfolding ids by blast
  then have "find (is_member_row c i) (db_members d) \<noteq> None"
    by (auto simp: find_None_iff is_member_row_def)
  with i member [OF r'(1,3)] show ?thesis by (simp add: s_def successor_of_def roles_def)
qed

lemma no_faults_stmt: "db_faults d = [] \<Longrightarrow> (\<And>d. db_faults (f d) = db_faults d) \<Longrightarrow>
    db_faults (snd (exec_stmt P f d)) = []"
  by (simp add: exec_stmt_no_fault)

lemma no_faults_loops:
  "db_faults (w_db w) = [] \<Longrightarrow> db_faults (w_db (fan_out E u ms ev nt w)) = []"
  "db_faults (w_db w) = [] \<Longrightarrow> db_faults (w_db (tell_changed E ms pl w)) = []"
  by (induction ms arbitrary: w) (simp_all add: Let_def append_frame)

lemma no_faults_messages:
  assumes "db_faults (w_db w) = []"
  shows "db_faults (w_db (postGroupSystemMessage E c u pl w)) = []"
    "db_faults (w_db (notifyGroupChanged E c ty u t w)) = []"
proof -
  have "db_faults (snd (db_sendMessage c u ct ty [] [] now d)) = []" if "db_faults d = []" for ct ty now d
    using that by (auto simp: db_sendMessage_def Let_def split_beta touch_conv_def insert_msg_def
        intro!: no_faults_stmt split: option.splits)
  with assms show "db_faults (w_db (postGroupSystemMessage E c u pl w)) = []"
    by (simp add: postGroupSystemMessage_def Let_def split_beta no_faults_loops)
  show "db_faults (w_db (notifyGroupChanged E c ty u t w)) = []"
    using assms by (simp add: notifyGroupChanged_def Let_def no_faults_loops)
qed

lemma transfer_succeeds:
  fixes w :: world and E :: env and c :: ident
  assumes "db_inv (w_db w)" "db_faults (w_db w) = []" "one_owner (roles (w_db w) c)"
    and "roles (w_db w) c (w_userId w) = Some ''owner''"
  defines "w1 \<equiv> transfer_ownership E c w"
  shows "db_faults (w_db w1) = []" and "c' \<noteq> c \<Longrightarrow> roles (w_db w1) c' = roles (w_db w) c'"
    and "one_owner ((roles (w_db w1) c)(w_userId w := None))
      \<or> (\<forall>u. ((roles (w_db w1) c)(w_userId w := None)) u = None)"
proof -
  let ?me = "w_userId w" and ?s = "successor_of (e_ext E) c (w_userId w) (w_db w)" and ?r = "roles (w_db w) c"
  let ?d = "snd (updateMemberRole c ?s ''owner'' (w_db w))"
  have f: "db_faults ?d = []"
    using assms(2) by (auto simp: updateMemberRole_def update_members_def Let_def split_beta intro!: no_faults_stmt)
  show "db_faults (w_db w1) = []"
    using assms(2) f by (simp add: w1_def transfer_ownership_def Let_def no_faults_messages)
  have r1: "roles (w_db w1) = (if ?s > 0 then (roles (w_db w))(c := ?r(?s := map_option (\<lambda>_. ''owner'') (?r ?s)))
      else roles (w_db w))"
    using assms(2) by (simp add: w1_def transfer_ownership_def Let_def roles_update(2))
  then show "roles (w_db w1) c' = roles (w_db w) c'" if "c' \<noteq> c" using that by simp
  have only: "?r u = Some ''owner'' \<Longrightarrow> u = ?me" for u
    using assms(3,4) by (auto simp: one_owner_def)
  show "one_owner ((roles (w_db w1) c)(?me := None)) \<or> (\<forall>u. ((roles (w_db w1) c)(?me := None)) u = None)"
  proof (cases "\<exists>u. u \<noteq> ?me \<and> ?r u \<noteq> None")
    case True
    then obtain u role where u: "?r u = Some role" "u \<noteq> ?me" by auto
    have s: "?s > 0" "?r ?s \<noteq> None" "?s \<noteq> ?me"
      using successor_found [OF assms(1) u, of "e_ext E"] successor_other by blast+
    have "((roles (w_db w1) c)(?me := None)) v = Some ''owner'' \<longleftrightarrow> v = ?s" for v
      using s only [of v] by (auto simp: r1)
    then show ?thesis by (simp add: one_owner_def)
  next
    case False
    then show ?thesis by (auto simp: r1)
  qed
qed

definition passes_on :: "ident \<Rightarrow> db \<Rightarrow> world \<Rightarrow> bool" where
  "passes_on c d w \<longleftrightarrow> (one_owner (roles d c) \<longrightarrow>
     one_owner (roles (w_db w) c) \<or> (\<forall>u. roles (w_db w) c u = None))"

lemma owners_pass_on: "owners d w \<Longrightarrow> c \<le> db_convSeq d \<Longrightarrow> passes_on c d w"
  by (simp add: passes_on_def same_owners_def one_owner_def)

lemma kept_passes_on: "keeps d w \<Longrightarrow> c \<le> db_convSeq d \<Longrightarrow> passes_on c d w"
  by (simp add: owners_pass_on kept_same_owners)

lemma leave_passes_on:
  assumes "db_inv (w_db w)" and "c \<le> db_convSeq (w_db w)"
    and "db_faults (w_db w) = [] \<or> roles (w_db w) c (w_userId w) \<noteq> Some ''owner''"
  shows "passes_on c (w_db w) (processLeaveGroupRequest E p rq w)"
proof -
  let ?c = "jlonglong (jget rq ''conversationId'')" and ?me = "w_userId w"
  let ?w' = "processLeaveGroupRequest E p rq w"
  show ?thesis
  proof (cases "?c > 0 \<and> is_group (getConversation ?c (w_db w)) \<and> groupRole ?c ?me (w_db w) = ''owner''")
    case True
    then have o: "roles (w_db w) ?c ?me = Some ''owner''"
      by (auto simp: groupRole_roles role_name_def split: option.splits)
    let ?w1 = "transfer_ownership E ?c w"
    have r: "roles (w_db ?w') = roles (snd (removeGroupMember ?c ?me (w_db ?w1)))"
      using True by (simp add: processLeaveGroupRequest_def Let_def split_beta)
    show ?thesis
    proof (cases "c = ?c")
      case c: True
      show ?thesis unfolding passes_on_def
      proof
        assume "one_owner (roles (w_db w) c)"
        then have one: "one_owner (roles (w_db w) ?c)" by (simp only: c)
        have f: "db_faults (w_db w) = []" using assms(3) o by (simp add: c)
        note t = transfer_succeeds [OF assms(1) f one o, where E = E]
        show "one_owner (roles (w_db ?w') c) \<or> (\<forall>u. roles (w_db ?w') c u = None)"
          unfolding r roles_remove(2) [OF t(1)] c using t(3) by simp
      qed
    next
      case False
      then have "roles (w_db ?w') c = roles (w_db w) c"
        using roles_remove(1) [of ?c ?me "w_db ?w1"] transfer_roles [of E ?c w] unfolding r
        by (elim disjE exE conjE) simp_all
      then show ?thesis by (simp add: passes_on_def)
    qed
  next
    case False
    then have "owners (w_db w) ?w'"
      unfolding processLeaveGroupRequest_def Let_def split_beta
      by (intro owners_walk) (auto simp: groupRole_roles role_name_def intro!: removed_same_owners
          split: option.splits)
    then show ?thesis using assms(2) by (rule owners_pass_on)
  qed
qed

lemma dispatch_passes_on:
  assumes "db_inv (w_db w)" and "c \<le> db_convSeq (w_db w)"
    and "db_faults (w_db w) = [] \<or> roles (w_db w) c (w_userId w) \<noteq> Some ''owner''"
  shows "passes_on c (w_db w) (dispatch E p js w)"
proof -
  have ifI: "passes_on c d (if b then v else w)"
    if "b \<Longrightarrow> passes_on c d v" "\<not> b \<Longrightarrow> passes_on c d w" for b v w d
    using that by simp
  show ?thesis
    unfolding dispatch_def Let_def
    by (intro ifI leave_passes_on assms owners_pass_on [OF owners_invite] owners_pass_on [OF owners_kick]
      kept_passes_on keep.account keep.requests_keep kept_refl
      keep.walk(4))
qed



text \<open>When the one statement that passes the ownership on fails, the owner leaves all the same, and the
  members who remain have no owner: nobody can be made one later.\<close>

lemma failed_transfer_orphans:
  assumes "jlonglong (jget rq ''conversationId'') = c" "0 < c" "is_group (getConversation c (w_db w))"
    and "roles (w_db w) c (w_userId w) = Some ''owner''" "one_owner (roles (w_db w) c)"
    and "db_faults (w_db w) = [True]" "successor_of (e_ext E) c (w_userId w) (w_db w) > 0"
  shows "roles (w_db (processLeaveGroupRequest E p rq w)) c = (roles (w_db w) c)(w_userId w := None)"
    and "\<not> one_owner (roles (w_db (processLeaveGroupRequest E p rq w)) c)"
proof -
  let ?me = "w_userId w" and ?s = "successor_of (e_ext E) c (w_userId w) (w_db w)"
  let ?w1 = "transfer_ownership E c w"
  have u: "snd (updateMemberRole c ?s ''owner'' (w_db w)) = w_db w\<lparr>db_faults := []\<rparr>"
    using assms(6) by (simp add: updateMemberRole_def update_members_def exec_stmt_def next_fault_def Let_def split_beta)
  have "db_faults (w_db ?w1) = []" "roles (w_db ?w1) = roles (w_db w\<lparr>db_faults := []\<rparr>)"
    using assms(7) by (simp_all add: transfer_ownership_def Let_def u no_faults_messages)
  then have t: "db_faults (w_db ?w1) = []" "roles (w_db ?w1) = roles (w_db w)"
    by (simp_all add: roles_def fun_eq_iff)
  have "groupRole c ?me (w_db w) = ''owner''" using assms(4) by (simp add: groupRole_roles role_name_def)
  then show r: "roles (w_db (processLeaveGroupRequest E p rq w)) c = (roles (w_db w) c)(?me := None)"
    using assms(1-3) t by (simp add: processLeaveGroupRequest_def Let_def split_beta roles_remove(2))
  show "\<not> one_owner (roles (w_db (processLeaveGroupRequest E p rq w)) c)"
    using assms(4,5) unfolding r one_owner_def by auto
qed

end
