(* ===== verification/Server_Routing.thy ===== *)
theory Server_Routing
  imports Handler_Frames
begin

text \<open>
  Chat-Server/core/Server.cpp: the tables of the online sessions, the slots that the signals of the
  connections reach, the refusal to start in plaintext, and the whole server as a step relation:
  connections that share the database and the nonce cache, and the queue of their signals.
\<close>

section \<open>The tables\<close>

type_synonym conn = nat

text \<open>\<open>QHash\<close> is a map and the inner \<open>QSet\<close> a list without duplicates.\<close>

record server =
  sv_onlineSessions :: "ident \<rightharpoonup> ident list"
  sv_sessionHandlers :: "ident \<rightharpoonup> conn"
  sv_handlerUsers :: "conn \<rightharpoonup> ident"
  sv_tlsEnabled :: bool
  sv_pruning :: bool
  sv_listening :: bool

definition new_server :: server where
  "new_server = \<lparr>sv_onlineSessions = Map.empty, sv_sessionHandlers = Map.empty,
     sv_handlerUsers = Map.empty, sv_tlsEnabled = False, sv_pruning = False, sv_listening = False\<rparr>"

text \<open>What the server asks of a connection.\<close>

datatype route = SendRaw conn bytes | Disconnect conn

definition sessions_of :: "ident \<Rightarrow> server \<Rightarrow> ident list" where
  "sessions_of u sv = (case sv_onlineSessions sv u of None \<Rightarrow> [] | Some ss \<Rightarrow> ss)"

section \<open>The slots\<close>

definition onUserLoggedIn :: "conn \<Rightarrow> ident \<Rightarrow> ident \<Rightarrow> server \<Rightarrow> server" where
  "onUserLoggedIn c userId sessionId sv =
     sv\<lparr>sv_onlineSessions := (sv_onlineSessions sv)(userId \<mapsto> List.insert sessionId (sessions_of userId sv)),
        sv_sessionHandlers := (sv_sessionHandlers sv)(sessionId \<mapsto> c),
        sv_handlerUsers := (sv_handlerUsers sv)(c \<mapsto> userId)\<rparr>"

text \<open>Taking a session out of a user's set, and the user out of the table with the last one.\<close>

definition drop_session :: "ident \<Rightarrow> ident \<Rightarrow> (ident \<rightharpoonup> ident list) \<Rightarrow> (ident \<rightharpoonup> ident list)" where
  "drop_session userId sessionId online =
     (let rest = removeAll sessionId (case online userId of None \<Rightarrow> [] | Some ss \<Rightarrow> ss)
      in online(userId := (if rest = [] then None else Some rest)))"

definition onUserLoggedOut :: "ident \<Rightarrow> ident \<Rightarrow> server \<Rightarrow> server" where
  "onUserLoggedOut userId sessionId sv =
     (if sessionId = 0 then
        sv\<lparr>sv_onlineSessions := (sv_onlineSessions sv)(userId := None),
           sv_handlerUsers := (\<lambda>c. if sv_handlerUsers sv c = Some userId then None else sv_handlerUsers sv c)\<rparr>
      else
        sv\<lparr>sv_onlineSessions := drop_session userId sessionId (sv_onlineSessions sv),
           sv_sessionHandlers := (sv_sessionHandlers sv)(sessionId := None)\<rparr>)"

text \<open>The slot of the signal \<open>finished\<close>. RequestHandler declares a signal of this name itself, so
  the slot is connected to that one, which is emitted when a connection fails to start.\<close>

definition onHandlerFinished :: "conn \<Rightarrow> server \<Rightarrow> server" where
  "onHandlerFinished c sv =
     (case sv_handlerUsers sv c of
        None \<Rightarrow> sv
      | Some userId \<Rightarrow>
          let sv1 = sv\<lparr>sv_handlerUsers := (sv_handlerUsers sv)(c := None)\<rparr>
          in case sv_onlineSessions sv userId of
               None \<Rightarrow> sv1
             | Some ss \<Rightarrow>
                 let rest = filter (\<lambda>s. sv_sessionHandlers sv s \<noteq> Some c) ss
                 in sv1\<lparr>sv_onlineSessions := (sv_onlineSessions sv)
                           (userId := (if rest = [] then None else Some rest)),
                        sv_sessionHandlers :=
                           (\<lambda>s. if sv_sessionHandlers sv s = Some c then None else sv_sessionHandlers sv s)\<rparr>)"

definition onlineUserIds :: "server \<Rightarrow> ident set" where
  "onlineUserIds sv = dom (sv_onlineSessions sv)"

definition onlineUserCount :: "server \<Rightarrow> nat" where
  "onlineUserCount sv = card (onlineUserIds sv)"

definition onMessageForUser :: "ident \<Rightarrow> bytes \<Rightarrow> server \<Rightarrow> route list" where
  "onMessageForUser targetUserId packetData sv =
     (case sv_onlineSessions sv targetUserId of
        None \<Rightarrow> []
      | Some sessionIds \<Rightarrow>
          map (\<lambda>h. SendRaw h packetData) (List.map_filter (sv_sessionHandlers sv) sessionIds))"

definition onSessionTerminated :: "ident \<Rightarrow> server \<Rightarrow> route list" where
  "onSessionTerminated sessionId sv =
     (case sv_sessionHandlers sv sessionId of None \<Rightarrow> [] | Some h \<Rightarrow> [Disconnect h])"

text \<open>A signal of connection \<open>c\<close> reaches the slot it is connected to.\<close>

fun server_slot :: "ext \<Rightarrow> conn \<Rightarrow> out \<Rightarrow> server \<Rightarrow> route list \<times> server" where
  "server_slot X c (UserLoggedIn u s dev) sv = ([], onUserLoggedIn c u s sv)"
| "server_slot X c (UserLoggedOut u s) sv = ([], onUserLoggedOut u s sv)"
| "server_slot X c (MessageFor u mt ob) sv = (onMessageForUser u (wire X (MessageFor u mt ob)) sv, sv)"
| "server_slot X c (SessionTerminated s) sv = (onSessionTerminated s sv, sv)"
| "server_slot X c x sv = ([], sv)"

fun server_slots :: "ext \<Rightarrow> conn \<Rightarrow> out list \<Rightarrow> server \<Rightarrow> route list \<times> server" where
  "server_slots X c [] sv = ([], sv)"
| "server_slots X c (x # xs) sv =
     (let (rs, sv1) = server_slot X c x sv; (rest, sv2) = server_slots X c xs sv1 in (rs @ rest, sv2))"

section \<open>Start\<close>

text \<open>\<open>valid\<close>: whether TlsHelper found or made a certificate.\<close>

definition initTls :: "bool \<Rightarrow> server \<Rightarrow> bool \<times> server" where
  "initTls valid sv = (if \<not> valid then (False, sv) else (True, sv\<lparr>sv_tlsEnabled := True\<rparr>))"

definition SyncEventRetentionDays :: int where "SyncEventRetentionDays = 30"
definition PruneIntervalMs :: int where "PruneIntervalMs = 60 * 60 * 1000"

definition prune_tick :: "time \<Rightarrow> db \<Rightarrow> db" where
  "prune_tick now d = snd (pruneSyncEvents SyncEventRetentionDays now d)"

text \<open>\<open>maintenance\<close>: whether the maintenance connection opens; \<open>listens\<close>: whether the port can be
  taken.\<close>

definition start :: "bool \<Rightarrow> bool \<Rightarrow> bool \<Rightarrow> time \<Rightarrow> server \<times> db \<Rightarrow> bool \<times> server \<times> db" where
  "start allowPlaintext maintenance listens now = (\<lambda>(sv, d).
     if \<not> sv_tlsEnabled sv \<and> \<not> allowPlaintext then (False, sv, d)
     else
       let (sv1, d1) = (if maintenance then (sv\<lparr>sv_pruning := True\<rparr>, prune_tick now d) else (sv, d))
       in if listens then (True, sv1\<lparr>sv_listening := True\<rparr>, d1) else (False, sv1, d1))"

section \<open>The promise of the routing\<close>

text \<open>Which user and which connection a session belongs to: a login opens the session, a logout
  closes it.\<close>

type_synonym session_map = "ident \<rightharpoonup> ident \<times> conn"

fun session_slot :: "conn \<Rightarrow> out \<Rightarrow> session_map \<Rightarrow> session_map" where
  "session_slot c (UserLoggedIn u s dev) m = m(s \<mapsto> (u, c))"
| "session_slot c (UserLoggedOut u s) m = m(s := None)"
| "session_slot c x m = m"

text \<open>The signals of all connections in the order in which the server's thread handles them.\<close>

definition server_after :: "ext \<Rightarrow> (conn \<times> out) list \<Rightarrow> server \<Rightarrow> server" where
  "server_after X sigs sv = fold (\<lambda>(c, x) sv. snd (server_slot X c x sv)) sigs sv"

definition sessions_after :: "(conn \<times> out) list \<Rightarrow> session_map \<Rightarrow> session_map" where
  "sessions_after sigs m = fold (\<lambda>(c, x). session_slot c x) sigs m"

text \<open>Every session has one owner; the database gives out positive identifiers.\<close>

fun owned :: "(ident \<Rightarrow> ident) \<Rightarrow> out \<Rightarrow> bool" where
  "owned own (UserLoggedIn u s dev) \<longleftrightarrow> s > 0 \<and> own s = u"
| "owned own (UserLoggedOut u s) \<longleftrightarrow> s > 0 \<and> own s = u"
| "owned own x \<longleftrightarrow> True"

lemma sessions_of_simps [simp]:
  "sessions_of u new_server = []"
  "sessions_of v (onUserLoggedIn c u s sv)
     = (if v = u then List.insert s (sessions_of u sv) else sessions_of v sv)"
  "s \<noteq> 0 \<Longrightarrow> sessions_of v (onUserLoggedOut u s sv)
     = (if v = u then removeAll s (sessions_of u sv) else sessions_of v sv)"
  by (auto simp: sessions_of_def new_server_def onUserLoggedIn_def onUserLoggedOut_def drop_session_def
      Let_def split: option.splits)

definition tables_show :: "(ident \<Rightarrow> ident) \<Rightarrow> session_map \<Rightarrow> server \<Rightarrow> bool" where
  "tables_show own m sv \<longleftrightarrow>
     (\<forall>s p. m s = Some p \<longrightarrow> fst p = own s)
     \<and> (\<forall>u s. s \<in> set (sessions_of u sv) \<longleftrightarrow> own s = u \<and> m s \<noteq> None)
     \<and> (\<forall>s. sv_sessionHandlers sv s = map_option snd (m s))
     \<and> (\<forall>u. sv_onlineSessions sv u \<noteq> Some [])"

lemma tables_show_new: "tables_show own Map.empty new_server"
  by (simp add: tables_show_def) (simp add: new_server_def)

lemma tables_show_slot:
  assumes "tables_show own m sv" and "owned own x"
  shows "tables_show own (session_slot c x m) (snd (server_slot X c x sv))"
proof (cases x)
  case (UserLoggedIn u s dev)
  have "sv_onlineSessions (onUserLoggedIn c u s sv) v \<noteq> Some []" for v
    using assms(1) by (simp add: tables_show_def onUserLoggedIn_def List.insert_def) (metis empty_iff list.set(1))
  with assms UserLoggedIn show ?thesis
    by (auto simp: tables_show_def) (simp_all add: onUserLoggedIn_def)
next
  case (UserLoggedOut u s)
  then have "s \<noteq> 0" using assms(2) by auto
  moreover have "sv_onlineSessions (onUserLoggedOut u s sv) v \<noteq> Some []" for v
    using assms(1) \<open>s \<noteq> 0\<close> by (auto simp: tables_show_def onUserLoggedOut_def drop_session_def Let_def)
  ultimately show ?thesis using assms UserLoggedOut
    by (auto simp: tables_show_def) (simp_all add: onUserLoggedOut_def)
qed (use assms in simp_all)

lemma tables_show_run:
  assumes "tables_show own m sv" and "\<forall>(c, x) \<in> set sigs. owned own x"
  shows "tables_show own (sessions_after sigs m) (server_after X sigs sv)"
  using assms
proof (induction sigs arbitrary: m sv)
  case (Cons p sigs)
  then show ?case
    using tables_show_slot [of own m sv "snd p" "fst p" X]
    by (cases p) (simp add: sessions_after_def server_after_def)
qed (simp add: sessions_after_def server_after_def)

text \<open>A user is online exactly with an open session.\<close>

lemma tables_show_online:
  assumes "tables_show own m sv"
  shows "onlineUserIds sv = {u. \<exists>s h. m s = Some (u, h)}"
proof -
  have "u \<in> onlineUserIds sv \<longleftrightarrow> sessions_of u sv \<noteq> []" for u
    using assms by (auto simp: tables_show_def onlineUserIds_def sessions_of_def split: option.splits)
  moreover have "sessions_of u sv \<noteq> [] \<longleftrightarrow> (\<exists>s. s \<in> set (sessions_of u sv))" for u
    by (cases "sessions_of u sv") auto
  moreover have "(\<exists>s. s \<in> set (sessions_of u sv)) \<longleftrightarrow> (\<exists>s h. m s = Some (u, h))" for u
    using assms by (fastforce simp: tables_show_def)
  ultimately show ?thesis by auto
qed

lemma tables_show_routes:
  assumes "tables_show own m sv"
  shows "set (onMessageForUser u b sv) = {SendRaw h b | s h. m s = Some (u, h)}"
proof -
  have "onMessageForUser u b sv = map (\<lambda>h. SendRaw h b) (List.map_filter (sv_sessionHandlers sv) (sessions_of u sv))"
    by (simp add: onMessageForUser_def sessions_of_def split: option.splits)
  then have "set (onMessageForUser u b sv)
      = {SendRaw h b | s h. s \<in> set (sessions_of u sv) \<and> sv_sessionHandlers sv s = Some h}"
    by (force simp: List.map_filter_def)
  then show ?thesis using assms by (fastforce simp: tables_show_def)
qed


section \<open>Properties of the routing\<close>

text \<open>
  C26: the three tables of the server implement the abstract map from open sessions to their user and
  connection. After the signals of all connections, in the order in which they reach the server, a
  message for a user is written to exactly the connections of the user's open sessions, and a user
  counts as online exactly with an open session; a session is open when the last signal about it is
  a login.
\<close>

theorem routing_follows_sessions:
  assumes "\<forall>(c, x) \<in> set sigs. owned own x"
  shows "set (onMessageForUser u b (server_after X sigs new_server))
      = {SendRaw h b | s h. sessions_after sigs Map.empty s = Some (u, h)}
    \<and> onlineUserIds (server_after X sigs new_server)
      = {v. \<exists>s h. sessions_after sigs Map.empty s = Some (v, h)}"
  using tables_show_routes [OF tables_show_run [OF tables_show_new assms]]
    tables_show_online [OF tables_show_run [OF tables_show_new assms]] by blast

theorem routing_follows_sessions_witness:
  "let sigs = [(4, UserLoggedIn 1 10 ''d''), (5, UserLoggedIn 2 11 ''e''), (4, UserLoggedOut 1 10)]
   in onMessageForUser 1 [9] (server_after sample_ext sigs new_server) = []
      \<and> set (onMessageForUser 2 [9] (server_after sample_ext sigs new_server)) = {SendRaw 5 [9]}"
proof -
  let ?sigs = "[(4, UserLoggedIn 1 10 ''d''), (5, UserLoggedIn 2 11 ''e''), (4, UserLoggedOut 1 10)]
    :: (conn \<times> out) list"
  have o: "\<forall>(c, x) \<in> set ?sigs. owned (\<lambda>s. if s = 10 then 1 else 2) x" by simp
  have m: "sessions_after ?sigs Map.empty = [11 \<mapsto> (2, 5)]"
    by (simp add: sessions_after_def fun_eq_iff)
  have "set (onMessageForUser 1 [9] (server_after sample_ext ?sigs new_server)) = {}"
    using routing_follows_sessions [OF o, of 1 "[9]" sample_ext] by (auto simp: m split: if_splits)
  moreover have "set (onMessageForUser 2 [9] (server_after sample_ext ?sigs new_server)) = {SendRaw 5 [9]}"
    using routing_follows_sessions [OF o, of 2 "[9]" sample_ext] by (auto simp: m split: if_splits)
  ultimately show ?thesis by (simp only: Let_def set_empty)
qed

text \<open>An open session was opened by its connection and not closed since.\<close>

lemma sessions_after_last:
  "sessions_after sigs m s = Some (u, h) \<Longrightarrow>
     (\<exists>a dev z. sigs = a @ (h, UserLoggedIn u s dev) # z \<and> (\<forall>c v. (c, UserLoggedOut v s) \<notin> set z))
     \<or> m s = Some (u, h) \<and> (\<forall>c v. (c, UserLoggedOut v s) \<notin> set sigs)"
proof (induction sigs rule: rev_induct)
  case (snoc p sigs)
  obtain c x where p: "p = (c, x)" by (cases p)
  have step: "sessions_after (sigs @ [p]) m = session_slot c x (sessions_after sigs m)"
    by (simp add: sessions_after_def p)
  have later: ?case if "sessions_after sigs m s = Some (u, h)" "\<And>v. x \<noteq> UserLoggedOut v s"
    using snoc.IH [OF that(1)]
  proof (elim disjE exE conjE)
    fix a dev z assume "sigs = a @ (h, UserLoggedIn u s dev) # z" "\<forall>c v. (c, UserLoggedOut v s) \<notin> set z"
    then have "sigs @ [p] = a @ (h, UserLoggedIn u s dev) # (z @ [p])"
      "\<forall>c v. (c, UserLoggedOut v s) \<notin> set (z @ [p])" using that(2) p by auto
    then show ?case by blast
  qed (use that(2) p in auto)
  show ?case
  proof (cases x)
    case (UserLoggedIn v t dev)
    show ?thesis
    proof (cases "t = s")
      case True
      then have "v = u \<and> c = h" using snoc.prems step UserLoggedIn by simp
      then have "sigs @ [p] = sigs @ (h, UserLoggedIn u s dev) # []" using p UserLoggedIn True by simp
      then show ?thesis by (metis empty_iff list.set(1))
    qed (use later snoc.prems step UserLoggedIn in simp)
  next
    case (UserLoggedOut v t)
    then show ?thesis using later snoc.prems step by (auto split: if_splits)
  qed (use later snoc.prems step in simp_all)
qed (simp add: sessions_after_def)

text \<open>
  A message for a user is never written to a connection that has not announced a login of this
  user whose session is still open: the server handled the login of the user on this very connection
  and no logout of its session since.
\<close>

lemma push_needs_open_login:
  assumes "\<forall>(c, x) \<in> set sigs. owned own x"
    and "SendRaw h b \<in> set (onMessageForUser u b (server_after X sigs new_server))"
  shows "\<exists>a s dev z. sigs = a @ (h, UserLoggedIn u s dev) # z \<and> (\<forall>c v. (c, UserLoggedOut v s) \<notin> set z)"
proof -
  obtain s where "sessions_after sigs Map.empty s = Some (u, h)"
    using assms(2) unfolding tables_show_routes [OF tables_show_run [OF tables_show_new assms(1)]] by auto
  from sessions_after_last [OF this] show ?thesis by auto
qed

lemma push_needs_open_login_witness:
  "\<exists>a s dev z. [(5 :: conn, UserLoggedIn 2 11 ''e''), (7, SessionTerminated 3)] = a @ (5, UserLoggedIn 2 s dev) # z
     \<and> (\<forall>c v. (c, UserLoggedOut v s) \<notin> set z)"
  by (rule push_needs_open_login [where own = "\<lambda>s. 2" and b = "[9]" and X = sample_ext])
    (simp_all add: server_after_def onMessageForUser_def onUserLoggedIn_def sessions_of_def
      new_server_def List.map_filter_simps)

text \<open>
  C27: a termination never closes the terminated connection. The handler of the request announces the
  logout of the session before its termination, and the logout already takes the session out of the
  table in which the slot of the termination looks for the connection; so whatever the tables hold,
  the server asks no connection to disconnect.
\<close>

theorem termination_disconnects_nobody:
  "fst (server_slots X c (drop (length (w_outs w)) (w_outs (processTerminateSessionRequest E p rq w))) sv) = []"
proof -
  have slots: "fst (server_slots X c [UserLoggedOut u s, SessionTerminated s, Reply r mt e m b] sv) = []" if "s \<noteq> 0" for u s r mt e m b
    using that by (simp add: Let_def split_beta onSessionTerminated_def onUserLoggedOut_def)
  show ?thesis
    using slots by (auto simp: processTerminateSessionRequest_def Let_def)
qed

end
