(* ===== verification/Server_System.thy ===== *)
theory Server_System
  imports Server_Routing Session_Properties
begin

text \<open>
  The server process as a step relation: connections come, receive bytes, idle out and end; each
  works on the shared database and nonce cache and posts its signals to the queue of the server's
  thread, which handles them one at a time and writes to other connections; a timer prunes the event
  stream. One step is one callback of one event loop, so the callbacks of different threads are
  interleaved but not torn.
\<close>

section \<open>State\<close>

text \<open>\<open>ch_conns\<close> holds the state of each live connection; of its world only the parts of its own
  count, the database and the cache are the shared ones. \<open>ch_wire\<close> is what was written to the sockets.\<close>

record chat =
  ch_db :: db
  ch_nonces :: nonce_cache
  ch_server :: server
  ch_conns :: "conn \<rightharpoonup> world"
  ch_next :: conn
  ch_signals :: "(conn \<times> out) list"
  ch_handled :: "(conn \<times> out) list"
  ch_wire :: "(conn \<times> bytes) list"

fun is_signal :: "out \<Rightarrow> bool" where
  "is_signal (MessageFor u mt ob) \<longleftrightarrow> True"
| "is_signal (UserLoggedIn u s dev) \<longleftrightarrow> True"
| "is_signal (UserLoggedOut u s) \<longleftrightarrow> True"
| "is_signal (SessionTerminated s) \<longleftrightarrow> True"
| "is_signal x \<longleftrightarrow> False"

definition is_written :: "out \<Rightarrow> bool" where
  "is_written x \<longleftrightarrow> \<not> is_signal x \<and> x \<noteq> CloseConnection"

definition start_chat :: "db \<Rightarrow> chat" where
  "start_chat d = \<lparr>ch_db = d, ch_nonces = server_nonce_cache, ch_server = new_server,
     ch_conns = Map.empty, ch_next = 0, ch_signals = [], ch_handled = [], ch_wire = []\<rparr>"

section \<open>Callbacks\<close>

definition onSocketAccepted :: "chat \<Rightarrow> chat" where
  "onSocketAccepted S =
     S\<lparr>ch_conns := (ch_conns S)(ch_next S \<mapsto> new_connection (ch_db S) (Some (ch_nonces S))),
       ch_next := ch_next S + 1\<rparr>"

text \<open>A callback \<open>f\<close> of connection \<open>c\<close>: it sees the shared state, and what it emits goes to the socket
  or into the queue.\<close>

definition on_connection :: "ext \<Rightarrow> conn \<Rightarrow> (world \<Rightarrow> world) \<Rightarrow> world \<Rightarrow> chat \<Rightarrow> chat" where
  "on_connection X c f w S =
     (let w' = f (w\<lparr>w_db := ch_db S, w_nonces := Some (ch_nonces S), w_outs := []\<rparr>);
          outs = w_outs w'
      in S\<lparr>ch_db := w_db w',
           ch_nonces := (case w_nonces w' of None \<Rightarrow> ch_nonces S | Some n \<Rightarrow> n),
           ch_conns := (ch_conns S)(c \<mapsto> w'),
           ch_signals := ch_signals S @ map (Pair c) (filter is_signal outs),
           ch_wire := ch_wire S @ map (\<lambda>x. (c, wire X x)) (filter is_written outs)\<rparr>)"

text \<open>A connection whose database or socket cannot be opened: its \<open>run\<close> only emits \<open>finished\<close>.\<close>

definition start_fails :: "chat \<Rightarrow> chat" where
  "start_fails S = S\<lparr>ch_server := onHandlerFinished (ch_next S) (ch_server S), ch_next := ch_next S + 1\<rparr>"

definition connection_ends :: "conn \<Rightarrow> chat \<Rightarrow> chat" where
  "connection_ends c S = S\<lparr>ch_conns := (ch_conns S)(c := None)\<rparr>"

text \<open>\<open>sendRawData\<close> writes if the connection still runs; \<open>disconnectClient\<close> closes the socket, and the
  thread ends in a step of its own.\<close>

fun apply_route :: "(conn \<rightharpoonup> world) \<Rightarrow> route \<Rightarrow> (conn \<times> bytes) list" where
  "apply_route conns (SendRaw h b) = (if conns h = None then [] else [(h, b)])"
| "apply_route conns (Disconnect h) = []"

definition handle_signal :: "ext \<Rightarrow> chat \<Rightarrow> chat" where
  "handle_signal X S =
     (case ch_signals S of
        [] \<Rightarrow> S
      | (c, x) # rest \<Rightarrow>
          let (routes, sv) = server_slot X c x (ch_server S)
          in S\<lparr>ch_server := sv, ch_signals := rest, ch_handled := ch_handled S @ [(c, x)],
               ch_wire := ch_wire S @ concat (map (apply_route (ch_conns S)) routes)\<rparr>)"

inductive chat_step :: "ext \<Rightarrow> chat \<Rightarrow> chat \<Rightarrow> bool" for X :: ext where
  accept: "chat_step X S (onSocketAccepted S)"
| failed: "chat_step X S (start_fails S)"
| receive: "chat_step X S (on_connection X c (onReadyRead es data) w S)"
    if "ch_conns S c = Some w" and "\<forall>i. e_ext (es i) = X"
| idle: "chat_step X S (on_connection X c onIdleTimeout w S)" if "ch_conns S c = Some w"
| ends: "chat_step X S (connection_ends c (on_connection X c end_of_run w S))" if "ch_conns S c = Some w"
| signal: "chat_step X S (handle_signal X S)"
| prune: "chat_step X S (S\<lparr>ch_db := prune_tick now (ch_db S)\<rparr>)"

inductive reachable :: "ext \<Rightarrow> db \<Rightarrow> chat \<Rightarrow> bool" for X :: ext and d :: db where
  initially: "reachable X d (start_chat d)"
| step: "reachable X d S \<Longrightarrow> chat_step X S T \<Longrightarrow> reachable X d T"

inductive_cases chat_stepE: "chat_step X S T"

section \<open>The invariant\<close>

text \<open>The rate windows of a connection.\<close>

definition windows_ok :: "world \<Rightarrow> bool" where
  "windows_ok w \<longleftrightarrow> window_ok (w_fetchKeysWindow w) \<and> window_ok (w_sendWindow w)
     \<and> window_ok (w_searchWindow w)"

lemma world_inv_windows: "world_inv w \<longleftrightarrow> db_inv (w_db w) \<and> windows_ok w"
  by (simp add: world_inv_def windows_ok_def)

text \<open>The tables of the server are those that the handled signals leave, and no signal comes from a
  connection that does not exist yet.\<close>

definition chat_inv :: "ext \<Rightarrow> chat \<Rightarrow> bool" where
  "chat_inv X S \<longleftrightarrow> db_inv (ch_db S) \<and> (\<forall>c w. ch_conns S c = Some w \<longrightarrow> windows_ok w)
     \<and> (\<forall>c. ch_conns S c \<noteq> None \<longrightarrow> c < ch_next S)
     \<and> (\<forall>(c, x) \<in> set (ch_handled S @ ch_signals S). c < ch_next S)
     \<and> ch_server S = server_after X (ch_handled S) new_server"

lemma handlerUsers_known:
  assumes "sv_handlerUsers (server_after X sigs new_server) c \<noteq> None"
  shows "\<exists>x. (c, x) \<in> set sigs"
  using assms
proof (induction sigs rule: rev_induct)
  case (snoc p sigs)
  obtain d x where p: "p = (d, x)" by (cases p)
  have "server_after X (sigs @ [p]) new_server = snd (server_slot X d x (server_after X sigs new_server))"
    by (simp add: server_after_def p)
  with snoc show ?case
    by (cases x) (auto simp: p onUserLoggedIn_def onUserLoggedOut_def split: if_splits)
qed (simp add: server_after_def new_server_def)

lemma chat_inv_connection:
  assumes "chat_inv X S" "ch_conns S c = Some w" "\<And>v. world_inv v \<Longrightarrow> world_inv (f v)"
  shows "chat_inv X (on_connection X c f w S)"
proof -
  have "world_inv (f (w\<lparr>w_db := ch_db S, w_nonces := Some (ch_nonces S), w_outs := []\<rparr>))"
    using assms(1,2) by (intro assms(3)) (simp add: world_inv_windows chat_inv_def windows_ok_def)
  with assms(1,2) show ?thesis
    unfolding chat_inv_def on_connection_def Let_def world_inv_windows by (auto split: if_splits)
qed

lemma chat_inv_step:
  assumes "chat_step X S T" and "chat_inv X S"
  shows "chat_inv X T"
  using assms
proof cases
  case accept
  with assms(2) show ?thesis
    by (auto simp: chat_inv_def onSocketAccepted_def windows_ok_def new_connection_def new_window_ok
        connection_limits less_Suc_eq)
next
  case failed
  have "sv_handlerUsers (server_after X (ch_handled S) new_server) (ch_next S) = None"
    using handlerUsers_known [of X "ch_handled S" "ch_next S"] assms(2)
    by (fastforce simp: chat_inv_def)
  then have "onHandlerFinished (ch_next S) (server_after X (ch_handled S) new_server)
      = server_after X (ch_handled S) new_server" by (simp add: onHandlerFinished_def)
  with failed assms(2) show ?thesis by (auto simp: chat_inv_def start_fails_def less_Suc_eq)
next
  case (receive c w es data)
  with chat_inv_connection [OF assms(2)] onReadyRead_inv show ?thesis by blast
next
  case (idle c w)
  moreover have "world_inv v \<Longrightarrow> world_inv (onIdleTimeout v)" for v by (simp add: onIdleTimeout_def)
  ultimately show ?thesis using chat_inv_connection [OF assms(2)] by blast
next
  case (ends c w)
  have "world_inv v \<Longrightarrow> world_inv (end_of_run v)" for v by (simp add: end_of_run_def)
  then have "chat_inv X (on_connection X c end_of_run w S)"
    using chat_inv_connection [OF assms(2) ends(2)] by blast
  with ends(1) show ?thesis by (simp add: chat_inv_def connection_ends_def)
next
  case signal
  with assms(2) show ?thesis
    by (auto simp: chat_inv_def handle_signal_def server_after_def Let_def split_beta split: list.split)
next
  case (prune now)
  with assms(2) show ?thesis by (simp add: chat_inv_def prune_tick_def pruneSyncEvents_inv)
qed


lemma reachable_inv:
  assumes "reachable X d S" and "db_inv d"
  shows "chat_inv X S"
  using assms by induction (simp add: chat_inv_def start_chat_def server_after_def, simp add: chat_inv_step)

section \<open>Properties\<close>


lemma sample_reachable:
  "reachable sample_ext empty_db (on_connection sample_ext 0 onIdleTimeout
     (new_connection empty_db (Some server_nonce_cache)) (onSocketAccepted (start_chat empty_db)))"
proof -
  have "reachable sample_ext empty_db (onSocketAccepted (start_chat empty_db))"
    by (rule reachable.step [OF reachable.initially chat_step.accept])
  then show ?thesis
    by (rule reachable.step [OF _ chat_step.idle]) (simp add: onSocketAccepted_def start_chat_def)
qed


text \<open>
  A push reaches every device that is online. When the server handles the signal of a message
  for a user, the encoded notification is written to every connection that is still running and
  holds an open session of that user. This holds in every state with the invariant of the reachable
  states.
\<close>

lemma push_reaches_open_sessions:
  assumes "chat_inv X S" and "\<forall>(c, x) \<in> set (ch_handled S). owned own x"
    and "ch_signals S = (c, MessageFor u mt ob) # rest"
    and "sessions_after (ch_handled S) Map.empty s = Some (u, h)" and "ch_conns S h \<noteq> None"
  shows "(h, wire X (MessageFor u mt ob)) \<in> set (ch_wire (handle_signal X S))
    \<and> ch_signals (handle_signal X S) = rest"
proof -
  let ?b = "wire X (MessageFor u mt ob)"
  have "ch_server S = server_after X (ch_handled S) new_server"
    using assms(1) by (simp add: chat_inv_def)
  moreover have "SendRaw h ?b \<in> set (onMessageForUser u ?b (server_after X (ch_handled S) new_server))"
    using tables_show_routes [OF tables_show_run [OF tables_show_new assms(2)]] assms(4) by blast
  ultimately show ?thesis
    using assms(3,5) by (force simp: handle_signal_def Let_def)
qed


definition pushing_chat :: chat where
  "pushing_chat = (start_chat empty_db)\<lparr>ch_server := server_after sample_ext [(0, UserLoggedIn 1 5 ''d'')] new_server,
     ch_conns := [0 \<mapsto> new_connection empty_db (Some server_nonce_cache)], ch_next := 1,
     ch_handled := [(0, UserLoggedIn 1 5 ''d'')], ch_signals := [(0, MessageFor 1 NewMessageNotification [])]\<rparr>"

lemma push_reaches_open_sessions_witness:
  "(0, wire sample_ext (MessageFor 1 NewMessageNotification [])) \<in> set (ch_wire (handle_signal sample_ext pushing_chat))"
proof -
  have inv: "chat_inv sample_ext pushing_chat"
    by (simp add: chat_inv_def pushing_chat_def start_chat_def empty_db_inv windows_ok_def
        new_connection_def new_window_ok connection_limits)
  show ?thesis
    by (rule push_reaches_open_sessions [OF inv, where own = "\<lambda>s. 1" and s = 5 and h = 0, THEN conjunct1])
      (simp_all add: pushing_chat_def start_chat_def sessions_after_def)
qed

end
