(* ===== verification/Key_Storage.thy ===== *)
theory Key_Storage
  imports External
begin

text \<open>
  Chat-Client/core/KeyStorage.cpp: the client's key files. A file system whose operations may fail,
  the replacement of a file through a temporary one, and the files themselves: identity key and
  prekeys, the trusted fingerprints, the old decryption cache, and the key of the local store.
\<close>

section \<open>Files\<close>

text \<open>\<open>fs_faults\<close> says of the modifying operations to come which ones fail; a file in \<open>fs_locked\<close>
  cannot be opened for reading.\<close>

record files =
  fs_content :: "string \<rightharpoonup> bytes"
  fs_locked :: "string \<Rightarrow> bool"
  fs_faults :: "bool list"

definition fs_fault :: "files \<Rightarrow> bool \<times> files" where
  "fs_fault f = (case fs_faults f of [] \<Rightarrow> (False, f) | b # bs \<Rightarrow> (b, f\<lparr>fs_faults := bs\<rparr>))"

definition fs_put :: "string \<Rightarrow> bytes \<Rightarrow> files \<Rightarrow> files" where
  "fs_put p b f = f\<lparr>fs_content := (fs_content f)(p \<mapsto> b)\<rparr>"

definition fs_exists :: "string \<Rightarrow> files \<Rightarrow> bool" where
  "fs_exists p f \<longleftrightarrow> fs_content f p \<noteq> None"

text \<open>Opening with truncation leaves an empty file; a write that fails leaves a part of the data.\<close>

definition fs_open_truncate :: "string \<Rightarrow> files \<Rightarrow> bool \<times> files" where
  "fs_open_truncate p f = (let (bad, f1) = fs_fault f in if bad then (False, f1) else (True, fs_put p [] f1))"

definition fs_write :: "nat \<Rightarrow> string \<Rightarrow> bytes \<Rightarrow> files \<Rightarrow> bool \<times> files" where
  "fs_write part p b f =
     (let (bad, f1) = fs_fault f in if bad then (False, fs_put p (take part b) f1) else (True, fs_put p b f1))"

definition fs_remove :: "string \<Rightarrow> files \<Rightarrow> bool \<times> files" where
  "fs_remove p f =
     (let (bad, f1) = fs_fault f
      in if bad \<or> \<not> fs_exists p f then (False, f1) else (True, f1\<lparr>fs_content := (fs_content f1)(p := None)\<rparr>))"

text \<open>QFile::rename does not replace an existing file.\<close>

definition fs_rename :: "string \<Rightarrow> string \<Rightarrow> files \<Rightarrow> bool \<times> files" where
  "fs_rename p q f =
     (let (bad, f1) = fs_fault f
      in case fs_content f1 p of
           None \<Rightarrow> (False, f1)
         | Some b \<Rightarrow> if bad \<or> fs_exists q f1 then (False, f1)
                     else (True, f1\<lparr>fs_content := (fs_content f1)(p := None, q \<mapsto> b)\<rparr>))"

text \<open>\<open>part\<close>: how many bytes a failing write gets to the disk.\<close>

definition writeFileAtomic :: "nat \<Rightarrow> string \<Rightarrow> bytes \<Rightarrow> files \<Rightarrow> bool \<times> files" where
  "writeFileAtomic part path data f =
     (let tmpPath = path @ ''.tmp'';
          (opened, f1) = fs_open_truncate tmpPath f
      in if \<not> opened then (False, f1)
         else
           let (written, f2) = fs_write part tmpPath data f1
           in if \<not> written then (False, snd (fs_remove tmpPath f2))
              else
                let f3 = (if fs_exists path f2 then snd (fs_remove path f2) else f2);
                    (renamed, f4) = fs_rename tmpPath path f3
                in if \<not> renamed then (False, snd (fs_remove tmpPath f4)) else (True, f4))"

definition readFileBytes :: "string \<Rightarrow> files \<Rightarrow> bytes" where
  "readFileBytes path f =
     (if fs_locked f path then [] else case fs_content f path of None \<Rightarrow> [] | Some data \<Rightarrow> data)"

section \<open>Paths\<close>

text \<open>Below the application's data directory.\<close>

definition keyFilePath :: "string \<Rightarrow> string \<Rightarrow> string" where
  "keyFilePath username deviceId = ''/e2ee/'' @ username @ ''_'' @ deviceId @ ''.key''"

definition trustFilePath :: string where
  "trustFilePath = ''/e2ee/trust.json''"

definition decryptCacheFilePath :: "string \<Rightarrow> string \<Rightarrow> string" where
  "decryptCacheFilePath username deviceId = ''/e2ee/'' @ username @ ''_'' @ deviceId @ ''.cache''"

definition localStoreKeyFilePath :: "string \<Rightarrow> string \<Rightarrow> string" where
  "localStoreKeyFilePath username deviceId = ''/localstore/'' @ username @ ''_'' @ deviceId @ ''.key''"

section \<open>Protected JSON files\<close>

text \<open>\<open>QJsonDocument::fromJson(bytes).object()\<close>: the empty object when it is not one.\<close>

definition object_of :: "ext \<Rightarrow> bytes \<Rightarrow> jobj" where
  "object_of X raw = (case x_fromJson X raw of Some (JObj root) \<Rightarrow> root | _ \<Rightarrow> [])"

definition text_of :: "ext \<Rightarrow> jobj \<Rightarrow> bytes" where
  "text_of X root = x_utf8 X (x_compact X (JObj root))"

definition existing_root :: "ext \<Rightarrow> string \<Rightarrow> files \<Rightarrow> jobj" where
  "existing_root X path f =
     (let existing = x_unprotect X (readFileBytes path f)
      in if existing = [] then [] else object_of X existing)"

definition save_root :: "ext \<Rightarrow> nat \<Rightarrow> string \<Rightarrow> jobj \<Rightarrow> files \<Rightarrow> bool \<times> files" where
  "save_root X part path root f =
     (let blob = x_protect X (text_of X root)
      in if blob = [] then (False, f) else writeFileAtomic part path blob f)"

section \<open>Identity key and prekeys\<close>

definition loadIdentityPrivateKey :: "ext \<Rightarrow> string \<Rightarrow> string \<Rightarrow> files \<Rightarrow> bytes" where
  "loadIdentityPrivateKey X username deviceId f =
     (let raw = x_unprotect X (readFileBytes (keyFilePath username deviceId) f)
      in if raw = [] then []
         else x_fromBase64Lax X (jstr (jget (object_of X raw) ''identityPriv'')))"

definition saveIdentityPrivateKey ::
  "ext \<Rightarrow> nat \<Rightarrow> string \<Rightarrow> string \<Rightarrow> bytes \<Rightarrow> files \<Rightarrow> bool \<times> files" where
  "saveIdentityPrivateKey X part username deviceId privateKey f =
     (let path = keyFilePath username deviceId;
          root = existing_root X path f
      in save_root X part path (jset ''identityPriv'' (JStr (x_toBase64 X privateKey)) root) f)"

record prekey_entry =
  pk_publicKey :: bytes
  pk_privateKey :: bytes

definition read_prekey :: "ext \<Rightarrow> json \<Rightarrow> prekey_entry" where
  "read_prekey X v = \<lparr>pk_publicKey = x_fromBase64Lax X (jstr (jget (jobject v) ''pub'')),
     pk_privateKey = x_fromBase64Lax X (jstr (jget (jobject v) ''priv''))\<rparr>"

definition prekey_full :: "prekey_entry \<Rightarrow> bool" where
  "prekey_full e \<longleftrightarrow> pk_publicKey e \<noteq> [] \<and> pk_privateKey e \<noteq> []"

definition loadPrekeys :: "ext \<Rightarrow> string \<Rightarrow> string \<Rightarrow> files \<Rightarrow> prekey_entry list" where
  "loadPrekeys X username deviceId f =
     (let raw = x_unprotect X (readFileBytes (keyFilePath username deviceId) f)
      in if raw = [] then []
         else filter prekey_full (map (read_prekey X) (jarr (jget (object_of X raw) ''prekeys''))))"

definition write_prekey :: "ext \<Rightarrow> prekey_entry \<Rightarrow> json" where
  "write_prekey X e = JObj [(''pub'', JStr (x_toBase64 X (pk_publicKey e))),
     (''priv'', JStr (x_toBase64 X (pk_privateKey e)))]"

definition savePrekeys ::
  "ext \<Rightarrow> nat \<Rightarrow> string \<Rightarrow> string \<Rightarrow> prekey_entry list \<Rightarrow> files \<Rightarrow> bool \<times> files" where
  "savePrekeys X part username deviceId prekeys f =
     (let path = keyFilePath username deviceId;
          root = existing_root X path f
      in save_root X part path (jset ''prekeys'' (JArr (map (write_prekey X) prekeys)) root) f)"

section \<open>Trusted fingerprints\<close>

definition loadPeerFingerprint :: "ext \<Rightarrow> ident \<Rightarrow> files \<Rightarrow> string" where
  "loadPeerFingerprint X peerUserId f =
     jstr (jget (object_of X (readFileBytes trustFilePath f)) (number peerUserId))"

definition savePeerFingerprint :: "ext \<Rightarrow> nat \<Rightarrow> ident \<Rightarrow> string \<Rightarrow> files \<Rightarrow> bool \<times> files" where
  "savePeerFingerprint X part peerUserId fingerprint f =
     (let root = object_of X (readFileBytes trustFilePath f)
      in writeFileAtomic part trustFilePath
           (text_of X (jset (number peerUserId) (JStr fingerprint) root)) f)"

section \<open>The old decryption cache\<close>

definition cache_entry :: "string \<times> json \<Rightarrow> (ident \<times> string) option" where
  "cache_entry = (\<lambda>(k, v). case parse_int 64 k of
     None \<Rightarrow> None | Some i \<Rightarrow> if i > 0 then Some (i, jstr v) else None)"

definition loadDecryptCache :: "ext \<Rightarrow> string \<Rightarrow> string \<Rightarrow> files \<Rightarrow> (ident \<times> string) list" where
  "loadDecryptCache X username deviceId f =
     (let raw = x_unprotect X (readFileBytes (decryptCacheFilePath username deviceId) f)
      in if raw = [] then [] else List.map_filter cache_entry (object_of X raw))"

definition saveDecryptCache ::
  "ext \<Rightarrow> nat \<Rightarrow> string \<Rightarrow> string \<Rightarrow> (ident \<times> string) list \<Rightarrow> files \<Rightarrow> bool \<times> files" where
  "saveDecryptCache X part username deviceId entries f =
     save_root X part (decryptCacheFilePath username deviceId)
       (map (\<lambda>(i, s). (number i, JStr s)) entries) f"

definition removeDecryptCacheFile :: "string \<Rightarrow> string \<Rightarrow> files \<Rightarrow> bool \<times> files" where
  "removeDecryptCacheFile username deviceId f = fs_remove (decryptCacheFilePath username deviceId) f"

section \<open>The key of the local store\<close>

definition loadLocalStoreKey :: "ext \<Rightarrow> string \<Rightarrow> string \<Rightarrow> files \<Rightarrow> bytes" where
  "loadLocalStoreKey X username deviceId f =
     (let raw = x_unprotect X (readFileBytes (localStoreKeyFilePath username deviceId) f)
      in if raw = [] then [] else x_fromBase64Lax X (jstr (jget (object_of X raw) ''storageKey'')))"

definition saveLocalStoreKey ::
  "ext \<Rightarrow> nat \<Rightarrow> string \<Rightarrow> string \<Rightarrow> bytes \<Rightarrow> files \<Rightarrow> bool \<times> files" where
  "saveLocalStoreKey X part username deviceId key f =
     save_root X part (localStoreKeyFilePath username deviceId)
       [(''storageKey'', JStr (x_toBase64 X key))] f"

definition removeLocalStoreKey :: "string \<Rightarrow> string \<Rightarrow> files \<Rightarrow> bool \<times> files" where
  "removeLocalStoreKey username deviceId f = fs_remove (localStoreKeyFilePath username deviceId) f"

section \<open>Facts about the file operations\<close>

lemma fs_fault_content [simp]: "fs_content (snd (fs_fault f)) = fs_content f" "fs_locked (snd (fs_fault f)) = fs_locked f"
  by (simp_all add: fs_fault_def split: list.split)

lemma tmp_differs [simp]: "p @ ''.tmp'' \<noteq> p" "p \<noteq> p @ ''.tmp''"
  by simp_all

lemma writeFileAtomic_outcome:
  assumes "writeFileAtomic part p b f = (ok, f')"
  shows "(ok \<longrightarrow> fs_content f' p = Some b)
    \<and> (\<not> ok \<longrightarrow> fs_content f' p = fs_content f p \<or> fs_content f' p = None)
    \<and> (\<forall>q. q \<noteq> p \<longrightarrow> q \<noteq> p @ ''.tmp'' \<longrightarrow> fs_content f' q = fs_content f q) \<and> fs_locked f' = fs_locked f"
  using assms
  by (auto simp: writeFileAtomic_def fs_open_truncate_def fs_write_def fs_remove_def fs_rename_def
      fs_put_def fs_exists_def Let_def split_beta split: if_splits option.splits)

end
