(* ===== verification/Local_Store.thy ===== *)
theory Local_Store
  imports Key_Storage Group_E2ee "HOL-Library.List_Lexorder" "HOL-Library.Char_ord"
    "HOL-Library.Product_Lexorder"
begin

text \<open>
  Chat-Client/core/LocalStore.cpp: the client's encrypted cache. The SQLite file as a record of
  tables, the connection to it, the storage key and its file, the encryption of texts, and every
  operation of the class.
\<close>

section \<open>Tables\<close>

record lmsg_row =
  lm_id :: ident
  lm_convId :: ident
  lm_senderId :: ident
  lm_senderName :: string
  lm_enc :: string
  lm_type :: string
  lm_status :: string
  lm_rank :: int
  lm_undecryptable :: bool
  lm_clientId :: string
  lm_createdAt :: string
  lm_editedAt :: string
  lm_deleted :: bool

record lconv_row =
  lc_id :: ident
  lc_type :: string
  lc_peerId :: ident
  lc_peerName :: string
  lc_lastEnc :: string
  lc_lastId :: ident
  lc_lastAt :: string
  lc_unread :: int
  lc_name :: string
  lc_members :: int
  lc_pinned :: bool
  lc_muted :: bool

record outbox_row =
  ob_clientId :: string
  ob_toUser :: ident
  ob_enc :: string
  ob_createdAt :: string
  ob_convId :: ident

type_synonym key_place = "ident \<times> ident \<times> string \<times> string"

text \<open>A sender key belongs to a group, a user, a device and a key id; a row that is written is the
  last of the list, which has the greatest rowid.\<close>

record skey_row =
  sr_place :: key_place
  sr_chainEnc :: string
  sr_pub :: string
  sr_privEnc :: string
  sr_iteration :: int

record store_tables =
  lt_schema :: "string \<rightharpoonup> string list"
  lt_version :: "int option"
  lt_messages :: "lmsg_row list"
  lt_convs :: "lconv_row list"
  lt_outbox :: "outbox_row list"
  lt_cache :: "(ident \<times> string) list"
  lt_meta :: "(string \<times> string) list"
  lt_senderKeys :: "skey_row list"
  lt_skipped :: "(key_place \<times> string) list"

definition empty_tables :: store_tables where
  "empty_tables = \<lparr>lt_schema = Map.empty, lt_version = None,
     lt_messages = [], lt_convs = [], lt_outbox = [], lt_cache = [],
     lt_meta = [], lt_senderKeys = [], lt_skipped = []\<rparr>"

text \<open>INSERT OR REPLACE of a keyed row.\<close>

definition replace_row :: "('r \<Rightarrow> 'k) \<Rightarrow> 'r \<Rightarrow> 'r list \<Rightarrow> 'r list" where
  "replace_row key r rs = delete_where (\<lambda>s. key s = key r) rs @ [r]"

section \<open>The store\<close>

text \<open>
  \<open>ls_dbs\<close> are the SQLite files by path, \<open>ls_files\<close> the other files; \<open>ls_handle\<close> says whether the
  driver's handle is valid and open. \<open>ls_faults\<close> belongs to the statements to come, as in the
  server's database.
\<close>

record local_store =
  ls_open :: bool
  ls_handle :: bool
  ls_username :: string
  ls_deviceId :: string
  ls_storageKey :: bytes
  ls_dbs :: "string \<rightharpoonup> store_tables"
  ls_files :: files
  ls_faults :: "bool list"

text \<open>What a call reads from outside: the library, the clock, the random bytes of the \<open>i\<close>-th
  encryption, and how much of a failing file write reaches the disk.\<close>

record lenv =
  le_ext :: ext
  le_now :: time
  le_random :: "nat \<Rightarrow> bytes option"
  le_part :: nat

definition dbFilePath :: "string \<Rightarrow> string \<Rightarrow> string" where
  "dbFilePath username deviceId = ''/localstore/'' @ username @ ''_'' @ deviceId @ ''.db''"

definition store_path :: "local_store \<Rightarrow> string" where
  "store_path s = dbFilePath (ls_username s) (ls_deviceId s)"

definition tables :: "local_store \<Rightarrow> store_tables" where
  "tables s = (case ls_dbs s (store_path s) of None \<Rightarrow> empty_tables | Some t \<Rightarrow> t)"

definition set_tables :: "store_tables \<Rightarrow> local_store \<Rightarrow> local_store" where
  "set_tables t s = s\<lparr>ls_dbs := (ls_dbs s)(store_path s \<mapsto> t)\<rparr>"

definition store_fault :: "local_store \<Rightarrow> bool \<times> local_store" where
  "store_fault s = (case ls_faults s of [] \<Rightarrow> (False, s) | b # bs \<Rightarrow> (b, s\<lparr>ls_faults := bs\<rparr>))"

text \<open>One statement: the engine may fail it, then nothing changes.\<close>

definition run_stmt :: "(store_tables \<Rightarrow> store_tables) \<Rightarrow> local_store \<Rightarrow> bool \<times> local_store" where
  "run_stmt f s =
     (let (bad, s1) = store_fault s in if bad then (False, s1) else (True, set_tables (f (tables s1)) s1))"

section \<open>Encryption of texts\<close>

definition StorageKeySize :: nat where "StorageKeySize = 32"
definition CipherPrefix :: string where "CipherPrefix = ''enc1:''"

definition statusRank :: "string \<Rightarrow> int" where
  "statusRank status = (if status = ''sent'' then 1 else if status = ''delivered'' then 2
     else if status = ''read'' then 3 else 0)"

definition encryptText :: "lenv \<Rightarrow> nat \<Rightarrow> string \<Rightarrow> local_store \<Rightarrow> string" where
  "encryptText E i plaintext s =
     (if plaintext = [] \<or> length (ls_storageKey s) \<noteq> StorageKeySize then []
      else
        let gcm = aesGcmEncrypt (le_ext E) (le_random E i) (ls_storageKey s) (x_utf8 (le_ext E) plaintext)
        in if \<not> gr_valid gcm then []
           else CipherPrefix @ x_toBase64 (le_ext E) (gr_iv gcm) @ '':''
                @ x_toBase64 (le_ext E) (gr_ciphertext gcm))"

definition decryptText :: "ext \<Rightarrow> string \<Rightarrow> local_store \<Rightarrow> string" where
  "decryptText X cipher s =
     (if take (length CipherPrefix) cipher \<noteq> CipherPrefix \<or> length (ls_storageKey s) \<noteq> StorageKeySize then []
      else
        let parts = split_on CHR '':'' (drop (length CipherPrefix) cipher)
        in if length parts \<noteq> 2 then []
           else
             let iv = x_fromBase64 X (parts ! 0); ct = x_fromBase64 X (parts ! 1)
             in if iv = [] \<or> ct = [] then []
                else x_fromUtf8 X (aesGcmDecrypt X (ls_storageKey s) iv ct))"

text \<open>The texts that must never be shown or stored as a message.\<close>

definition looks_encrypted :: "ext \<Rightarrow> string \<Rightarrow> bool" where
  "looks_encrypted X s \<longleftrightarrow> looksLikeEnvelope X s \<or> looksLikeGroupMessage X s \<or> looksLikeDistribution X s"

section \<open>Schema\<close>

datatype ddl = CreateTable string "string list" | CreateIndex string

definition schema_statements :: "ddl list" where
  "schema_statements =
    [CreateTable ''schema_meta'' [''version''],
     CreateTable ''messages'' [''message_id'', ''conversation_id'', ''sender_id'', ''sender_username'',
        ''content_enc'', ''content_type'', ''status'', ''status_rank'', ''undecryptable'', ''client_message_id'',
        ''created_at'', ''edited_at'', ''deleted''],
     CreateIndex ''idx_messages_conv'',
     CreateTable ''conversations'' [''conversation_id'', ''type'', ''peer_user_id'', ''peer_username'',
        ''last_message_enc'', ''last_message_id'', ''last_message_at'', ''unread_count'', ''name'',
        ''member_count'', ''pinned'', ''muted''],
     CreateTable ''outbox'' [''client_message_id'', ''to_user_id'', ''content_enc'', ''created_at'',
        ''conversation_id''],
     CreateTable ''decrypt_cache'' [''message_id'', ''content_enc''],
     CreateTable ''meta'' [''key'', ''value''],
     CreateTable ''sender_keys'' [''group_id'', ''sender_user_id'', ''sender_device_id'', ''key_id'',
        ''chain_key_enc'', ''public_signing_key'', ''private_signing_key_enc'', ''iteration'', ''updated_at''],
     CreateIndex ''idx_sender_keys_lookup'',
     CreateTable ''sender_key_skipped'' [''group_id'', ''sender_user_id'', ''sender_device_id'', ''key_id'',
        ''skipped_keys_enc'', ''updated_at'']]"

definition added_columns :: "(string \<times> string) list" where
  "added_columns = [(''conversations'', ''name''), (''conversations'', ''member_count''),
     (''conversations'', ''pinned''), (''conversations'', ''muted''), (''outbox'', ''conversation_id''),
     (''sender_keys'', ''private_signing_key_enc''), (''messages'', ''edited_at''), (''messages'', ''deleted'')]"

definition hasColumn :: "string \<Rightarrow> string \<Rightarrow> local_store \<Rightarrow> bool" where
  "hasColumn table column s =
     (case lt_schema (tables s) table of None \<Rightarrow> False | Some cs \<Rightarrow> column \<in> set cs)"

fun run_ddl :: "ddl \<Rightarrow> store_tables \<Rightarrow> store_tables" where
  "run_ddl (CreateTable table cs) t = (case lt_schema t table of
     None \<Rightarrow> t\<lparr>lt_schema := (lt_schema t)(table \<mapsto> cs)\<rparr> | Some _ \<Rightarrow> t)"
| "run_ddl (CreateIndex index) t = t"

definition add_column :: "string \<times> string \<Rightarrow> store_tables \<Rightarrow> store_tables" where
  "add_column = (\<lambda>(table, c) t. case lt_schema t table of
     None \<Rightarrow> t | Some cs \<Rightarrow> t\<lparr>lt_schema := (lt_schema t)(table \<mapsto> cs @ [c])\<rparr>)"

fun create_tables :: "ddl list \<Rightarrow> local_store \<Rightarrow> bool \<times> local_store" where
  "create_tables [] s = (True, s)"
| "create_tables (x # xs) s =
     (let (ok, s1) = run_stmt (run_ddl x) s in if \<not> ok then (False, s1) else create_tables xs s1)"

fun add_columns :: "(string \<times> string) list \<Rightarrow> local_store \<Rightarrow> bool \<times> local_store" where
  "add_columns [] s = (True, s)"
| "add_columns (x # xs) s =
     (if hasColumn (fst x) (snd x) s then add_columns xs s
      else
        let (ok, s1) = run_stmt (add_column x) s in if \<not> ok then (False, s1) else add_columns xs s1)"

text \<open>The version row; the result of its statement is not looked at.\<close>

definition ensureSchema :: "local_store \<Rightarrow> bool \<times> local_store" where
  "ensureSchema s =
     (let (ok, s1) = create_tables schema_statements s
      in if \<not> ok then (False, s1)
         else
           let (ok2, s2) = add_columns added_columns s1
           in if \<not> ok2 then (False, s2)
              else (True, snd (run_stmt (\<lambda>t. if lt_version t = None then t\<lparr>lt_version := Some 1\<rparr> else t) s2)))"

section \<open>Opening and closing\<close>

text \<open>Closing wipes the key and forgets the account; the file stays.\<close>

definition closeDatabase :: "local_store \<Rightarrow> local_store" where
  "closeDatabase s = s\<lparr>ls_handle := False, ls_storageKey := [], ls_username := [], ls_deviceId := [],
     ls_open := False\<rparr>"

definition store_close :: "local_store \<Rightarrow> local_store" where
  "store_close s = (if ls_open s then closeDatabase s else s)"

text \<open>Opening the file creates it when it is missing.\<close>

definition connectDatabase :: "local_store \<Rightarrow> bool \<times> local_store" where
  "connectDatabase s =
     (let (bad, s1) = store_fault s
      in if bad then (False, s1) else (True, set_tables (tables s1) (s1\<lparr>ls_handle := True\<rparr>)))"

text \<open>Messages whose stored text is an envelope lose it.\<close>

definition is_leaked :: "ext \<Rightarrow> local_store \<Rightarrow> lmsg_row \<Rightarrow> bool" where
  "is_leaked X s r \<longleftrightarrow> lm_enc r \<noteq> [] \<and> looks_encrypted X (decryptText X (lm_enc r) s)"

fun heal_all :: "ident list \<Rightarrow> local_store \<Rightarrow> local_store" where
  "heal_all [] s = s"
| "heal_all (i # is) s =
     heal_all is (snd (run_stmt (\<lambda>t. t\<lparr>lt_messages := update_where (\<lambda>r. lm_id r = i)
       (\<lambda>r. r\<lparr>lm_enc := [], lm_undecryptable := True\<rparr>) (lt_messages t)\<rparr>) s))"

definition healEnvelopeLeaks :: "ext \<Rightarrow> local_store \<Rightarrow> local_store" where
  "healEnvelopeLeaks X s = heal_all (map lm_id (filter (is_leaked X s) (lt_messages (tables s)))) s"

text \<open>\<open>random\<close>: the bytes of a new key.\<close>

definition ensureStorageKey :: "lenv \<Rightarrow> bytes option \<Rightarrow> string \<Rightarrow> string \<Rightarrow> local_store \<Rightarrow> bool \<times> local_store" where
  "ensureStorageKey E random username deviceId s =
     (let X = le_ext E; key = loadLocalStoreKey X username deviceId (ls_files s)
      in if length key = StorageKeySize then (True, s\<lparr>ls_storageKey := key\<rparr>)
         else if fs_exists (localStoreKeyFilePath username deviceId) (ls_files s) then (False, s)
         else
           let newKey = generateRandomBytes (int StorageKeySize) random
           in if length newKey \<noteq> StorageKeySize then (False, s)
              else
                let (saved, fs) = saveLocalStoreKey X (le_part E) username deviceId newKey (ls_files s)
                in if \<not> saved then (False, s\<lparr>ls_files := fs\<rparr>)
                   else (True, s\<lparr>ls_files := fs, ls_storageKey := newKey\<rparr>))"

text \<open>\<open>driver\<close>: whether the SQLite driver is installed.\<close>

definition store_open ::
  "lenv \<Rightarrow> bool \<Rightarrow> bytes option \<Rightarrow> string \<Rightarrow> string \<Rightarrow> local_store \<Rightarrow> bool \<times> local_store" where
  "store_open E driver random username deviceId s =
     (if ls_open s then (True, s)
      else if username = [] \<or> deviceId = [] then (False, s)
      else if \<not> driver then (False, s)
      else
        let (hasKey, s1) = ensureStorageKey E random username deviceId s
        in if \<not> hasKey then (False, s1)
           else
             let (connected, s2) = connectDatabase (s1\<lparr>ls_username := username, ls_deviceId := deviceId\<rparr>)
             in if \<not> connected then (False, s2\<lparr>ls_storageKey := [], ls_username := [], ls_deviceId := []\<rparr>)
                else
                  let (ok, s3) = ensureSchema s2
                  in if \<not> ok then (False, closeDatabase s3)
                     else (True, (healEnvelopeLeaks (le_ext E) s3)\<lparr>ls_open := True\<rparr>))"

definition ensureUsableDb :: "lenv \<Rightarrow> local_store \<Rightarrow> bool \<times> local_store" where
  "ensureUsableDb E s =
     (if \<not> ls_open s then (False, s)
      else if ls_handle s then (True, s)
      else
        let (connected, s1) = connectDatabase s
        in if \<not> connected then (False, closeDatabase s1)
           else
             let (ok, s2) = ensureSchema s1
             in if \<not> ok then (False, closeDatabase s2) else (True, healEnvelopeLeaks (le_ext E) s2))"

text \<open>A write operation: nothing happens on an unusable store.\<close>

definition with_db :: "lenv \<Rightarrow> (local_store \<Rightarrow> bool \<times> local_store) \<Rightarrow> local_store \<Rightarrow> bool \<times> local_store" where
  "with_db E f s = (let (usable, s1) = ensureUsableDb E s in if \<not> usable then (False, s1) else f s1)"

fun clear_tables :: "(store_tables \<Rightarrow> store_tables) list \<Rightarrow> bool \<Rightarrow> local_store \<Rightarrow> bool \<times> local_store" where
  "clear_tables [] ok s = (ok, s)"
| "clear_tables (f # fs) ok s = (let (done, s1) = run_stmt f s in clear_tables fs (ok \<and> done) s1)"

definition clearUserData :: "lenv \<Rightarrow> local_store \<Rightarrow> bool \<times> local_store" where
  "clearUserData E = with_db E (clear_tables
     [\<lambda>t. t\<lparr>lt_messages := []\<rparr>, \<lambda>t. t\<lparr>lt_convs := []\<rparr>, \<lambda>t. t\<lparr>lt_outbox := []\<rparr>, \<lambda>t. t\<lparr>lt_meta := []\<rparr>] True)"

definition closeAndDestroy :: "local_store \<Rightarrow> local_store" where
  "closeAndDestroy s =
     (if \<not> ls_open s then s
      else
        let path = store_path s; username = ls_username s; deviceId = ls_deviceId s; s1 = closeDatabase s;
            (bad, fs) = fs_fault (ls_files s1);
            s2 = (if bad then s1\<lparr>ls_files := fs\<rparr> else s1\<lparr>ls_dbs := (ls_dbs s1)(path := None), ls_files := fs\<rparr>);
            fs1 = snd (removeLocalStoreKey username deviceId (ls_files s2))
        in s2\<lparr>ls_files := snd (removeDecryptCacheFile username deviceId fs1)\<rparr>)"

end
