(* ===== verification/Local_Cache.thy ===== *)
theory Local_Cache
  imports Local_Store
begin

text \<open>
  Chat-Client/core/LocalStore.cpp, the operations: the outbox, the message and conversation caches,
  the decryption cache, the synchronisation cursor and the group keys. Every text that reaches the
  file is encrypted; an operation that cannot encrypt stores nothing.
\<close>

section \<open>Outbox\<close>

record outbox_item =
  oi_clientId :: string
  oi_toUser :: ident
  oi_convId :: ident
  oi_content :: string

definition addOutboxItem ::
  "lenv \<Rightarrow> string \<Rightarrow> ident \<Rightarrow> string \<Rightarrow> ident \<Rightarrow> local_store \<Rightarrow> bool \<times> local_store" where
  "addOutboxItem E clientMessageId toUserId plaintext conversationId = with_db E (\<lambda>s.
     if clientMessageId = [] \<or> (toUserId \<le> 0 \<and> conversationId \<le> 0) then (False, s)
     else
       let enc = encryptText E 0 plaintext s
       in if enc = [] then (False, s)
          else run_stmt (\<lambda>t. t\<lparr>lt_outbox := replace_row ob_clientId
                 \<lparr>ob_clientId = clientMessageId, ob_toUser = toUserId, ob_enc = enc,
                  ob_createdAt = x_isoTime (le_ext E) (le_now E), ob_convId = conversationId\<rparr> (lt_outbox t)\<rparr>) s)"

definition removeOutboxItem :: "lenv \<Rightarrow> string \<Rightarrow> local_store \<Rightarrow> bool \<times> local_store" where
  "removeOutboxItem E clientMessageId = with_db E (\<lambda>s.
     if clientMessageId = [] then (False, s)
     else run_stmt (\<lambda>t. t\<lparr>lt_outbox := delete_where (\<lambda>r. ob_clientId r = clientMessageId) (lt_outbox t)\<rparr>) s)"

definition outbox_item_of :: "ext \<Rightarrow> local_store \<Rightarrow> outbox_row \<Rightarrow> outbox_item" where
  "outbox_item_of X s r = \<lparr>oi_clientId = ob_clientId r, oi_toUser = ob_toUser r, oi_convId = ob_convId r,
     oi_content = decryptText X (ob_enc r) s\<rparr>"

definition outbox_item_ok :: "outbox_item \<Rightarrow> bool" where
  "outbox_item_ok i \<longleftrightarrow> oi_clientId i \<noteq> [] \<and> (oi_toUser i > 0 \<or> oi_convId i > 0) \<and> oi_content i \<noteq> []"

definition loadOutbox :: "ext \<Rightarrow> local_store \<Rightarrow> outbox_item list" where
  "loadOutbox X s =
     (if \<not> ls_open s then []
      else filter outbox_item_ok (map (outbox_item_of X s) (sort_key ob_createdAt (lt_outbox (tables s)))))"

section \<open>Decryption cache\<close>

definition loadDecryptedContent :: "ext \<Rightarrow> ident \<Rightarrow> local_store \<Rightarrow> string" where
  "loadDecryptedContent X messageId s =
     (if \<not> ls_open s \<or> messageId \<le> 0 then []
      else case map_of (lt_cache (tables s)) messageId of None \<Rightarrow> [] | Some enc \<Rightarrow> decryptText X enc s)"

text \<open>\<open>i\<close> numbers the encryption within the caller.\<close>

definition saveDecryptedContent ::
  "lenv \<Rightarrow> nat \<Rightarrow> ident \<Rightarrow> string \<Rightarrow> local_store \<Rightarrow> bool \<times> local_store" where
  "saveDecryptedContent E i messageId plaintext = with_db E (\<lambda>s.
     if messageId \<le> 0 \<or> plaintext = [] then (False, s)
     else
       let enc = encryptText E i plaintext s
       in if enc = [] then (False, s)
          else run_stmt (\<lambda>t. t\<lparr>lt_cache := replace_row fst (messageId, enc) (lt_cache t)\<rparr>) s)"

definition clearDecryptedContent :: "lenv \<Rightarrow> ident \<Rightarrow> local_store \<Rightarrow> bool \<times> local_store" where
  "clearDecryptedContent E messageId = with_db E (\<lambda>s.
     if messageId \<le> 0 then (False, s)
     else run_stmt (\<lambda>t. t\<lparr>lt_cache := delete_where (\<lambda>(i, e). i = messageId) (lt_cache t)\<rparr>) s)"

fun import_entries :: "lenv \<Rightarrow> nat \<Rightarrow> (ident \<times> string) list \<Rightarrow> nat \<Rightarrow> local_store \<Rightarrow> nat \<times> local_store" where
  "import_entries E i [] imported s = (imported, s)"
| "import_entries E i ((k, v) # es) imported s =
     (let (ok, s1) = saveDecryptedContent E i k v s
      in import_entries E (i + 1) es (if ok then imported + 1 else imported) s1)"

definition importLegacyDecryptCache :: "lenv \<Rightarrow> string \<Rightarrow> string \<Rightarrow> local_store \<Rightarrow> nat \<times> local_store" where
  "importLegacyDecryptCache E username deviceId s =
     (if \<not> ls_open s then (0, s)
      else
        let legacy = loadDecryptCache (le_ext E) username deviceId (ls_files s)
        in if legacy = [] then (0, s)
           else
             let (imported, s1) = import_entries E 0 legacy 0 s
             in (imported, s1\<lparr>ls_files := snd (removeDecryptCacheFile username deviceId (ls_files s1))\<rparr>))"

section \<open>Messages\<close>

definition loadMessageContent :: "ext \<Rightarrow> ident \<Rightarrow> local_store \<Rightarrow> string" where
  "loadMessageContent X messageId s =
     (if \<not> ls_open s \<or> messageId \<le> 0 then []
      else case find (\<lambda>r. lm_id r = messageId) (lt_messages (tables s)) of
        None \<Rightarrow> []
      | Some r \<Rightarrow> if lm_undecryptable r then [] else decryptText X (lm_enc r) s)"

text \<open>The INSERT ... ON CONFLICT DO UPDATE of a message: \<open>n\<close> is the row to insert, \<open>r\<close> the row there.\<close>

definition merge_message :: "lmsg_row \<Rightarrow> lmsg_row \<Rightarrow> lmsg_row" where
  "merge_message n r =
     (let forward = (lm_enc n \<noteq> [] \<and> lm_rank n \<ge> lm_rank r)
      in r\<lparr>lm_convId := lm_convId n, lm_senderId := lm_senderId n, lm_senderName := lm_senderName n,
           lm_enc := (if lm_enc n \<noteq> [] then lm_enc n else lm_enc r), lm_type := lm_type n,
           lm_status := (if forward then lm_status n else lm_status r),
           lm_rank := (if forward then lm_rank n else lm_rank r),
           lm_undecryptable := (if lm_enc n \<noteq> [] then False else lm_undecryptable r),
           lm_clientId := lm_clientId n, lm_createdAt := lm_createdAt n\<rparr>)"

definition upsert_message_row :: "lmsg_row \<Rightarrow> lmsg_row list \<Rightarrow> lmsg_row list" where
  "upsert_message_row n rs =
     (if exists_where (\<lambda>r. lm_id r = lm_id n) rs
      then update_where (\<lambda>r. lm_id r = lm_id n) (merge_message n) rs else rs @ [n])"

definition upsertMessage :: "lenv \<Rightarrow> jobj \<Rightarrow> local_store \<Rightarrow> bool \<times> local_store" where
  "upsertMessage E msg = with_db E (\<lambda>s.
     let X = le_ext E;
         messageId = jlonglong (jget msg ''messageId'');
         conversationId = jlonglong (jget msg ''conversationId'')
     in if messageId \<le> 0 \<or> conversationId \<le> 0 then (False, s)
        else
          let undecryptable = jbool (jget msg ''undecryptable'');
              content0 = jstr (jget msg ''content'');
              hide = (undecryptable \<or> looks_encrypted X content0);
              content = (if hide then [] else content0);
              enc = (if content = [] then [] else encryptText E 0 content s)
          in if content = [] \<and> loadMessageContent X messageId s \<noteq> [] then (True, s)
             else if content \<noteq> [] \<and> enc = [] then (False, s)
             else
               let row = \<lparr>lm_id = messageId, lm_convId = conversationId,
                     lm_senderId = jlonglong (jget msg ''senderId''),
                     lm_senderName = jstr (jget msg ''senderUsername''), lm_enc = enc,
                     lm_type = jstr_or ''text'' (jget msg ''contentType''),
                     lm_status = jstr_or ''sent'' (jget msg ''status''),
                     lm_rank = statusRank (jstr (jget msg ''status'')),
                     lm_undecryptable = (hide \<and> content = []),
                     lm_clientId = jstr (jget msg ''clientMessageId''),
                     lm_createdAt = jstr (jget msg ''createdAt''), lm_editedAt = [], lm_deleted = False\<rparr>;
                   (ok, s1) = run_stmt (\<lambda>t. t\<lparr>lt_messages := upsert_message_row row (lt_messages t)\<rparr>) s
               in if \<not> ok then (False, s1)
                  else (True, if content = [] then s1 else snd (saveDecryptedContent E 1 messageId content s1)))"

definition cached_message_json :: "ext \<Rightarrow> local_store \<Rightarrow> lmsg_row \<Rightarrow> jobj" where
  "cached_message_json X s r =
     (let content = decryptText X (lm_enc r) s
      in [(''messageId'', JNum (lm_id r)), (''conversationId'', JNum (lm_convId r)),
          (''senderId'', JNum (lm_senderId r)), (''senderUsername'', JStr (lm_senderName r))]
         @ (if lm_deleted r then [(''content'', JStr []), (''deleted'', JBool True)]
            else if content \<noteq> [] then [(''content'', JStr content)]
            else [(''content'', JStr []), (''undecryptable'', JBool True)])
         @ [(''contentType'', JStr (lm_type r)), (''status'', JStr (lm_status r)),
            (''createdAt'', JStr (lm_createdAt r))]
         @ (if lm_editedAt r \<noteq> [] then [(''edited'', JBool True), (''editedAt'', JStr (lm_editedAt r))] else []))"

definition loadMessages :: "ext \<Rightarrow> ident \<Rightarrow> int \<Rightarrow> local_store \<Rightarrow> jobj list" where
  "loadMessages X conversationId limit s =
     (if \<not> ls_open s \<or> conversationId \<le> 0 \<or> limit \<le> 0 then []
      else
        let newestFirst = rev (sort_key lm_id (filter (\<lambda>r. lm_convId r = conversationId) (lt_messages (tables s))))
        in rev (map (cached_message_json X s) (take (nat limit) newestFirst)))"

text \<open>UPDATE messages SET ... WHERE message_id = ?.\<close>

definition update_message :: "lenv \<Rightarrow> ident \<Rightarrow> bool \<Rightarrow> (lmsg_row \<Rightarrow> lmsg_row) \<Rightarrow> local_store \<Rightarrow> bool \<times> local_store" where
  "update_message E messageId valid f = with_db E (\<lambda>s.
     if messageId \<le> 0 \<or> \<not> valid then (False, s)
     else run_stmt (\<lambda>t. t\<lparr>lt_messages := update_where (\<lambda>r. lm_id r = messageId) f (lt_messages t)\<rparr>) s)"

definition ls_updateMessageStatus :: "lenv \<Rightarrow> ident \<Rightarrow> string \<Rightarrow> local_store \<Rightarrow> bool \<times> local_store" where
  "ls_updateMessageStatus E messageId status = update_message E messageId (status \<noteq> [])
     (\<lambda>r. r\<lparr>lm_status := status, lm_rank := statusRank status\<rparr>)"

definition updateMessageContent ::
  "lenv \<Rightarrow> ident \<Rightarrow> string \<Rightarrow> string \<Rightarrow> local_store \<Rightarrow> bool \<times> local_store" where
  "updateMessageContent E messageId plaintext editedAt = with_db E (\<lambda>s.
     if messageId \<le> 0 then (False, s)
     else
       let enc = (if plaintext = [] then [] else encryptText E 0 plaintext s)
       in if enc = [] \<and> plaintext \<noteq> [] then (False, s)
          else run_stmt (\<lambda>t. t\<lparr>lt_messages := update_where (\<lambda>r. lm_id r = messageId)
                 (\<lambda>r. r\<lparr>lm_enc := enc, lm_undecryptable := False, lm_editedAt := editedAt\<rparr>) (lt_messages t)\<rparr>) s)"

definition markMessageEdited :: "lenv \<Rightarrow> ident \<Rightarrow> string \<Rightarrow> local_store \<Rightarrow> bool \<times> local_store" where
  "markMessageEdited E messageId editedAt = update_message E messageId True (\<lambda>r. r\<lparr>lm_editedAt := editedAt\<rparr>)"

definition markMessageDeleted :: "lenv \<Rightarrow> ident \<Rightarrow> local_store \<Rightarrow> bool \<times> local_store" where
  "markMessageDeleted E messageId = update_message E messageId True
     (\<lambda>r. r\<lparr>lm_enc := [], lm_undecryptable := False, lm_deleted := True\<rparr>)"

definition markConversationRead :: "lenv \<Rightarrow> ident \<Rightarrow> ident \<Rightarrow> ident \<Rightarrow> local_store \<Rightarrow> bool \<times> local_store" where
  "markConversationRead E conversationId readMessageId selfUserId = with_db E (\<lambda>s.
     if conversationId \<le> 0 \<or> readMessageId \<le> 0 then (False, s)
     else
       let s1 = snd (run_stmt (\<lambda>t. t\<lparr>lt_messages := update_where
                  (\<lambda>r. lm_convId r = conversationId \<and> lm_id r \<le> readMessageId \<and> lm_senderId r \<noteq> selfUserId
                       \<and> lm_rank r < 3)
                  (\<lambda>r. r\<lparr>lm_status := ''read'', lm_rank := 3\<rparr>) (lt_messages t)\<rparr>) s)
       in run_stmt (\<lambda>t. t\<lparr>lt_convs := update_where (\<lambda>c. lc_id c = conversationId)
            (\<lambda>c. c\<lparr>lc_unread := int (count_where
               (\<lambda>r. lm_convId r = conversationId \<and> lm_senderId r \<noteq> selfUserId \<and> lm_id r > readMessageId)
               (lt_messages t))\<rparr>) (lt_convs t)\<rparr>) s1)"

section \<open>Conversations\<close>

definition upsert_conv_row :: "lconv_row \<Rightarrow> lconv_row list \<Rightarrow> lconv_row list" where
  "upsert_conv_row n rs =
     (if exists_where (\<lambda>r. lc_id r = lc_id n) rs then update_where (\<lambda>r. lc_id r = lc_id n) (\<lambda>r. n) rs
      else rs @ [n])"

definition upsertConversation :: "lenv \<Rightarrow> jobj \<Rightarrow> local_store \<Rightarrow> bool \<times> local_store" where
  "upsertConversation E conv = with_db E (\<lambda>s.
     let conversationId = jlonglong (jget conv ''conversationId'')
     in if conversationId \<le> 0 then (False, s)
        else
          let lastMessage = jstr (jget conv ''lastMessage'');
              enc = (if lastMessage = [] then [] else encryptText E 0 lastMessage s)
          in if lastMessage \<noteq> [] \<and> enc = [] then (False, s)
             else run_stmt (\<lambda>t. t\<lparr>lt_convs := upsert_conv_row
                    \<lparr>lc_id = conversationId, lc_type = jstr_or ''private'' (jget conv ''type''),
                     lc_peerId = jlonglong (jget conv ''peerUserId''),
                     lc_peerName = jstr (jget conv ''peerUsername''), lc_lastEnc = enc,
                     lc_lastId = jlonglong (jget conv ''lastMessageId''),
                     lc_lastAt = jstr (jget conv ''lastMessageAt''),
                     lc_unread = jint_or 0 (jget conv ''unreadCount''), lc_name = jstr (jget conv ''name''),
                     lc_members = jint_or 0 (jget conv ''memberCount''),
                     lc_pinned = jbool (jget conv ''pinned''), lc_muted = jbool (jget conv ''muted'')\<rparr>
                    (lt_convs t)\<rparr>) s)"

definition cached_conversation_json :: "ext \<Rightarrow> local_store \<Rightarrow> lconv_row \<Rightarrow> jobj" where
  "cached_conversation_json X s r =
     (let lastMsg0 = decryptText X (lc_lastEnc r) s;
          cached = loadDecryptedContent X (lc_lastId r) s;
          lastMsg = (if looks_encrypted X lastMsg0
                     then (if cached = [] then ''[Encrypted message]'' else cached) else lastMsg0)
      in [(''conversationId'', JNum (lc_id r)), (''type'', JStr (lc_type r)),
          (''peerUserId'', JNum (lc_peerId r)), (''peerUsername'', JStr (lc_peerName r)),
          (''lastMessage'', JStr lastMsg), (''lastMessageId'', JNum (lc_lastId r)),
          (''lastMessageAt'', JStr (lc_lastAt r)), (''unreadCount'', JNum (lc_unread r)),
          (''name'', JStr (lc_name r)), (''memberCount'', JNum (lc_members r)),
          (''pinned'', JBool (lc_pinned r)), (''muted'', JBool (lc_muted r))])"

definition loadConversations :: "ext \<Rightarrow> local_store \<Rightarrow> jobj list" where
  "loadConversations X s =
     (if \<not> ls_open s then []
      else map (cached_conversation_json X s)
             (rev (sort_key (\<lambda>r. (lc_pinned r, lc_lastAt r, lc_id r)) (lt_convs (tables s)))))"

definition update_conv :: "ident \<Rightarrow> (lconv_row \<Rightarrow> lconv_row) \<Rightarrow> local_store \<Rightarrow> bool \<times> local_store" where
  "update_conv c f = run_stmt (\<lambda>t. t\<lparr>lt_convs := update_where (\<lambda>r. lc_id r = c) f (lt_convs t)\<rparr>)"

definition setConversationPrefs :: "lenv \<Rightarrow> ident \<Rightarrow> bool \<Rightarrow> bool \<Rightarrow> local_store \<Rightarrow> bool \<times> local_store" where
  "setConversationPrefs E conversationId pinned muted = with_db E (\<lambda>s.
     if conversationId \<le> 0 then (False, s)
     else update_conv conversationId (\<lambda>r. r\<lparr>lc_pinned := pinned, lc_muted := muted\<rparr>) s)"

definition bumpConversationPreview ::
  "lenv \<Rightarrow> ident \<Rightarrow> string \<Rightarrow> bool \<Rightarrow> local_store \<Rightarrow> bool \<times> local_store" where
  "bumpConversationPreview E conversationId preview incrementUnread = with_db E (\<lambda>s.
     if conversationId \<le> 0 then (False, s)
     else
       let enc = (if preview = [] then [] else encryptText E 0 preview s)
       in if preview \<noteq> [] \<and> enc = [] then (False, s)
          else update_conv conversationId (\<lambda>r. r\<lparr>lc_lastEnc := enc,
                 lc_lastAt := x_isoTime (le_ext E) (le_now E),
                 lc_unread := lc_unread r + (if incrementUnread then 1 else 0)\<rparr>) s)"

section \<open>Synchronisation cursor\<close>

definition syncCursor :: "local_store \<Rightarrow> ident" where
  "syncCursor s =
     (if \<not> ls_open s then 0
      else case map_of (lt_meta (tables s)) ''sync_seq'' of
        None \<Rightarrow> 0 | Some v \<Rightarrow> (case parse_int 64 v of None \<Rightarrow> 0 | Some n \<Rightarrow> n))"

definition setSyncCursor :: "lenv \<Rightarrow> ident \<Rightarrow> local_store \<Rightarrow> bool \<times> local_store" where
  "setSyncCursor E sq = with_db E (\<lambda>s.
     if sq < 0 then (False, s)
     else run_stmt (\<lambda>t. t\<lparr>lt_meta := replace_row fst (''sync_seq'', number sq) (lt_meta t)\<rparr>) s)"

section \<open>Group keys\<close>

definition saveSenderKey ::
  "lenv \<Rightarrow> ident \<Rightarrow> ident \<Rightarrow> string \<Rightarrow> string \<Rightarrow> bytes \<Rightarrow> bytes \<Rightarrow> bytes \<Rightarrow> int \<Rightarrow> local_store \<Rightarrow> bool \<times> local_store" where
  "saveSenderKey E groupId senderUserId senderDeviceId keyId chainKey publicSigningKey privateSigningKey
     iteration = with_db E (\<lambda>s.
     if groupId \<le> 0 \<or> senderUserId \<le> 0 \<or> senderDeviceId = [] \<or> keyId = [] \<or> chainKey = []
        \<or> publicSigningKey = [] then (False, s)
     else
       let X = le_ext E;
           chainEnc = encryptText E 0 (x_toBase64 X chainKey) s;
           privateEnc = (if privateSigningKey = [] then [] else encryptText E 1 (x_toBase64 X privateSigningKey) s)
       in if chainEnc = [] then (False, s)
          else run_stmt (\<lambda>t. t\<lparr>lt_senderKeys := replace_row sr_place
                 \<lparr>sr_place = (groupId, senderUserId, senderDeviceId, keyId), sr_chainEnc = chainEnc,
                  sr_pub = x_toBase64 X publicSigningKey, sr_privEnc = privateEnc, sr_iteration = iteration\<rparr>
                 (lt_senderKeys t)\<rparr>) s)"

text \<open>The result, and the chain key, the two signing keys and the iteration that are filled in.\<close>

definition loadSenderKey ::
  "ext \<Rightarrow> ident \<Rightarrow> ident \<Rightarrow> string \<Rightarrow> string \<Rightarrow> local_store \<Rightarrow> bool \<times> bytes \<times> bytes \<times> bytes \<times> int" where
  "loadSenderKey X groupId senderUserId senderDeviceId keyId s =
     (if \<not> ls_open s \<or> groupId \<le> 0 \<or> senderUserId \<le> 0 \<or> senderDeviceId = [] \<or> keyId = []
      then (False, [], [], [], 0)
      else case find (\<lambda>r. sr_place r = (groupId, senderUserId, senderDeviceId, keyId)) (lt_senderKeys (tables s)) of
        None \<Rightarrow> (False, [], [], [], 0)
      | Some r \<Rightarrow>
          let chainB64 = decryptText X (sr_chainEnc r) s
          in if chainB64 = [] then (False, [], [], [], 0)
             else
               let chainKey = x_fromBase64 X chainB64;
                   publicSigningKey = x_fromBase64 X (sr_pub r);
                   privateB64 = decryptText X (sr_privEnc r) s;
                   privateSigningKey = (if privateB64 = [] then [] else x_fromBase64 X privateB64)
               in (length chainKey = 32 \<and> length publicSigningKey = 32,
                   chainKey, publicSigningKey, privateSigningKey, sr_iteration r))"

definition latestSenderKeyId :: "ident \<Rightarrow> ident \<Rightarrow> string \<Rightarrow> local_store \<Rightarrow> string" where
  "latestSenderKeyId groupId senderUserId senderDeviceId s =
     (if \<not> ls_open s \<or> groupId \<le> 0 \<or> senderUserId \<le> 0 \<or> senderDeviceId = [] then []
      else case find (\<lambda>(g, u, d, k). g = groupId \<and> u = senderUserId \<and> d = senderDeviceId)
                  (rev (map sr_place (lt_senderKeys (tables s)))) of
        None \<Rightarrow> [] | Some (g, u, d, k) \<Rightarrow> k)"

definition senderUserIdForKey :: "ident \<Rightarrow> string \<Rightarrow> string \<Rightarrow> local_store \<Rightarrow> ident" where
  "senderUserIdForKey groupId senderDeviceId keyId s =
     (if \<not> ls_open s \<or> groupId \<le> 0 \<or> senderDeviceId = [] \<or> keyId = [] then 0
      else case find (\<lambda>(g, u, d, k). g = groupId \<and> d = senderDeviceId \<and> k = keyId)
                  (rev (map sr_place (lt_senderKeys (tables s)))) of
        None \<Rightarrow> 0 | Some (g, u, d, k) \<Rightarrow> u)"

text \<open>The transaction is used if it can be begun; a rollback restores the tables of its begin.\<close>

definition removeSenderKeysForGroup :: "lenv \<Rightarrow> ident \<Rightarrow> local_store \<Rightarrow> bool \<times> local_store" where
  "removeSenderKeysForGroup E groupId = with_db E (\<lambda>s.
     if groupId \<le> 0 then (False, s)
     else
       let (useTransaction, s1) = run_stmt id s;
           (okKeys, s2) = run_stmt (\<lambda>t. t\<lparr>lt_senderKeys := delete_where (\<lambda>r. fst (sr_place r) = groupId)
                            (lt_senderKeys t)\<rparr>) s1;
           (okSkipped, s3) = run_stmt (\<lambda>t. t\<lparr>lt_skipped := delete_where (\<lambda>(p, e). fst p = groupId)
                            (lt_skipped t)\<rparr>) s2
       in if \<not> okKeys \<or> \<not> okSkipped then (False, if useTransaction then set_tables (tables s1) s3 else s3)
          else if \<not> useTransaction then (True, s3)
          else
            let (committed, s4) = run_stmt id s3
            in (committed, s4))"

definition skipped_text :: "ext \<Rightarrow> qmap \<Rightarrow> string" where
  "skipped_text X keys =
     x_fromUtf8 X (text_of X (map (\<lambda>(i, k). (number i, JStr (x_toBase64 X k))) keys))"

definition saveSkippedMessageKeys ::
  "lenv \<Rightarrow> ident \<Rightarrow> ident \<Rightarrow> string \<Rightarrow> string \<Rightarrow> qmap \<Rightarrow> local_store \<Rightarrow> bool \<times> local_store" where
  "saveSkippedMessageKeys E groupId senderUserId senderDeviceId keyId keys = with_db E (\<lambda>s.
     if groupId \<le> 0 \<or> senderUserId \<le> 0 \<or> senderDeviceId = [] \<or> keyId = [] then (False, s)
     else
       let place = (groupId, senderUserId, senderDeviceId, keyId)
       in if keys = [] then
            run_stmt (\<lambda>t. t\<lparr>lt_skipped := delete_where (\<lambda>(p, e). p = place) (lt_skipped t)\<rparr>) s
          else
            let blobEnc = encryptText E 0 (skipped_text (le_ext E) keys) s
            in if blobEnc = [] then (False, s)
               else run_stmt (\<lambda>t. t\<lparr>lt_skipped := replace_row fst (place, blobEnc) (lt_skipped t)\<rparr>) s)"

definition skipped_entry :: "ext \<Rightarrow> string \<times> json \<Rightarrow> (int \<times> bytes) option" where
  "skipped_entry X = (\<lambda>(k, v). case parse_int 32 k of
     None \<Rightarrow> None
   | Some i \<Rightarrow> let key = x_fromBase64 X (jstr v) in if i \<le> 0 \<or> key = [] then None else Some (i, key))"

definition loadSkippedMessageKeys :: "ext \<Rightarrow> ident \<Rightarrow> ident \<Rightarrow> string \<Rightarrow> string \<Rightarrow> local_store \<Rightarrow> qmap" where
  "loadSkippedMessageKeys X groupId senderUserId senderDeviceId keyId s =
     (if \<not> ls_open s \<or> groupId \<le> 0 \<or> senderUserId \<le> 0 \<or> senderDeviceId = [] \<or> keyId = [] then []
      else case map_of (lt_skipped (tables s)) (groupId, senderUserId, senderDeviceId, keyId) of
        None \<Rightarrow> []
      | Some enc \<Rightarrow>
          let plain = decryptText X enc s
          in if plain = [] then []
             else qinsert_all (List.map_filter (skipped_entry X) (object_of X (x_utf8 X plain))) [])"

end
