(* ===== verification/Local_Properties.thy ===== *)
theory Local_Properties
  imports Local_Cache
begin

text \<open>
  What the client's local store guarantees: stored texts read back, an envelope is never stored as
  a message, decrypted messages are not lost to a later synchronisation, group keys and the outbox
  survive a restart, and the key files are replaced as a whole.
\<close>

section \<open>Statements\<close>

lemma tables_simps [simp]:
  "tables (set_tables t s) = t" "store_path (set_tables t s) = store_path s"
  "ls_open (set_tables t s) = ls_open s" "ls_handle (set_tables t s) = ls_handle s"
  "ls_storageKey (set_tables t s) = ls_storageKey s" "ls_username (set_tables t s) = ls_username s"
  "ls_deviceId (set_tables t s) = ls_deviceId s" "ls_files (set_tables t s) = ls_files s"
  "ls_faults (set_tables t s) = ls_faults s"
  by (simp_all add: tables_def set_tables_def store_path_def)

lemma store_fault_simps [simp]:
  "tables (snd (store_fault s)) = tables s" "ls_open (snd (store_fault s)) = ls_open s"
  "ls_handle (snd (store_fault s)) = ls_handle s" "ls_storageKey (snd (store_fault s)) = ls_storageKey s"
  "ls_username (snd (store_fault s)) = ls_username s" "ls_deviceId (snd (store_fault s)) = ls_deviceId s"
  "ls_files (snd (store_fault s)) = ls_files s"
  by (simp_all add: store_fault_def tables_def store_path_def split: list.split)

lemma run_stmt_simps [simp]:
  "ls_open (snd (run_stmt f s)) = ls_open s" "ls_handle (snd (run_stmt f s)) = ls_handle s"
  "ls_storageKey (snd (run_stmt f s)) = ls_storageKey s" "ls_username (snd (run_stmt f s)) = ls_username s"
  "ls_deviceId (snd (run_stmt f s)) = ls_deviceId s" "ls_files (snd (run_stmt f s)) = ls_files s"
  "tables (snd (run_stmt f s)) = (if fst (run_stmt f s) then f (tables s) else tables s)"
  by (simp_all add: run_stmt_def Let_def split_beta)

lemma run_stmt_no_fault: "ls_faults s = [] \<Longrightarrow> run_stmt f s = (True, set_tables (f (tables s)) s)"
  by (simp add: run_stmt_def store_fault_def)

lemma decryptText_key: "ls_storageKey s = ls_storageKey s' \<Longrightarrow> decryptText X c s = decryptText X c s'"
  by (simp add: decryptText_def Let_def)

lemma encryptText_key: "ls_storageKey s = ls_storageKey s' \<Longrightarrow> encryptText E i p s = encryptText E i p s'"
  by (simp add: encryptText_def Let_def)

definition ready :: "local_store \<Rightarrow> bool" where
  "ready s \<longleftrightarrow> ls_open s \<and> ls_handle s \<and> length (ls_storageKey s) = 32"

lemma with_db_ready: "ready s \<Longrightarrow> with_db E f s = f s"
  by (simp add: with_db_def ensureUsableDb_def ready_def)

lemma ready_run [simp]: "ready (snd (run_stmt f s)) = ready s"
  by (simp add: ready_def)

section \<open>Texts\<close>

text \<open>The documented behaviour of the library the store relies on: the cipher inverts, Base64 and
  UTF-8 read back, Base64 text has no colon, and random initialisation vectors are there.\<close>

definition crypto_ok :: "lenv \<Rightarrow> bool" where
  "crypto_ok E \<longleftrightarrow> gcm_inverts (le_ext E)
     \<and> (\<forall>b. base64_inverts (le_ext E) b \<and> CHR '':'' \<notin> set (x_toBase64 (le_ext E) b)
            \<and> (x_toBase64 (le_ext E) b = [] \<longleftrightarrow> b = []))
     \<and> (\<forall>s. utf8_inverts (le_ext E) s) \<and> (\<forall>i. \<exists>iv. le_random E i = Some iv \<and> length iv = 12)"

lemma decrypt_encrypt:
  assumes "crypto_ok E" and "p \<noteq> []" and "length (ls_storageKey s) = 32"
  shows "encryptText E i p s \<noteq> []" "decryptText (le_ext E) (encryptText E i p s) s = p"
proof -
  let ?X = "le_ext E"
  obtain iv where iv: "le_random E i = Some iv" "length iv = 12"
    using assms(1) unfolding crypto_ok_def by blast
  have g: "gcm_inverts ?X" using assms(1) by (simp add: crypto_ok_def)
  obtain ct where ct: "aesGcmEncrypt ?X (Some iv) (ls_storageKey s) (x_utf8 ?X p)
      = \<lparr>gr_iv = iv, gr_ciphertext = ct, gr_valid = True\<rparr>"
    "length ct = length (x_utf8 ?X p) + 16" "aesGcmDecrypt ?X (ls_storageKey s) iv ct = x_utf8 ?X p"
    using aesGcm_inverts [OF g assms(3) iv(2)] by blast
  have b: "x_fromBase64 ?X (x_toBase64 ?X b) = b" "CHR '':'' \<notin> set (x_toBase64 ?X b)" for b
    using assms(1) by (simp_all add: crypto_ok_def base64_inverts_def)
  have e: "encryptText E i p s = CipherPrefix @ x_toBase64 ?X iv @ '':'' @ x_toBase64 ?X ct"
    using assms(2,3) iv ct(1) by (simp add: encryptText_def StorageKeySize_def Let_def)
  then show "encryptText E i p s \<noteq> []" by simp
  have "iv \<noteq> []" "ct \<noteq> []" using iv(2) ct(2) by auto
  moreover have "x_fromUtf8 ?X (x_utf8 ?X p) = p"
    using assms(1) by (simp add: crypto_ok_def utf8_inverts_def)
  moreover have "split_on CHR '':'' (x_toBase64 ?X iv @ CHR '':'' # x_toBase64 ?X ct)
      = [x_toBase64 ?X iv, x_toBase64 ?X ct]"
    using b(2) by (simp add: split_on_append split_on_no_sep)
  ultimately show "decryptText ?X (encryptText E i p s) s = p"
    using assms(3) ct(3) unfolding e by (simp add: decryptText_def StorageKeySize_def Let_def b(1))
qed

lemma decryptText_Nil [simp]: "decryptText X [] s = []"
  by (simp add: decryptText_def CipherPrefix_def)

lemma looks_encrypted_Nil [simp]: "\<not> looks_encrypted X []"
  by (simp add: looks_encrypted_def looksLikeEnvelope_def looksLikeGroupMessage_def looksLikeDistribution_def)

section \<open>Messages\<close>

text \<open>No stored message decrypts to an envelope.\<close>

definition clean :: "ext \<Rightarrow> local_store \<Rightarrow> bool" where
  "clean X s \<longleftrightarrow> (\<forall>r \<in> set (lt_messages (tables s)). \<not> is_leaked X s r)"

lemma is_leaked_key: "ls_storageKey s = ls_storageKey s' \<Longrightarrow> is_leaked X s r = is_leaked X s' r"
  using decryptText_key [of s s' X "lm_enc r"] by (simp add: is_leaked_def)

lemma set_upsert_message:
  "r \<in> set (upsert_message_row n rs) \<Longrightarrow> r = n \<or> r \<in> set rs \<or> (\<exists>r'\<in>set rs. r = merge_message n r')"
  by (auto simp: upsert_message_row_def in_update_where split: if_splits)

lemma merge_enc: "lm_enc (merge_message n r) = (if lm_enc n \<noteq> [] then lm_enc n else lm_enc r)"
  by (simp add: merge_message_def Let_def)

text \<open>The decryption cache is a table of its own.\<close>

lemma saveDecrypted_messages:
  assumes "ready s"
  shows "lt_messages (tables (snd (saveDecryptedContent E i m p s))) = lt_messages (tables s)"
    "ls_storageKey (snd (saveDecryptedContent E i m p s)) = ls_storageKey s"
    "ready (snd (saveDecryptedContent E i m p s))"
  using assms by (auto simp: saveDecryptedContent_def with_db_ready Let_def)


text \<open>The row an accepted message is stored as, and the text it carries.\<close>

definition message_text :: "ext \<Rightarrow> jobj \<Rightarrow> string" where
  "message_text X msg =
     (let c = jstr (jget msg ''content'')
      in if jbool (jget msg ''undecryptable'') \<or> looks_encrypted X c then [] else c)"

definition message_row :: "lenv \<Rightarrow> jobj \<Rightarrow> local_store \<Rightarrow> lmsg_row" where
  "message_row E msg s = (let X = le_ext E; c = message_text X msg in
    \<lparr>lm_id = jlonglong (jget msg ''messageId''), lm_convId = jlonglong (jget msg ''conversationId''),
     lm_senderId = jlonglong (jget msg ''senderId''),
     lm_senderName = jstr (jget msg ''senderUsername''),
     lm_enc = (if c = [] then [] else encryptText E 0 c s),
     lm_type = jstr_or ''text'' (jget msg ''contentType''),
     lm_status = jstr_or ''sent'' (jget msg ''status''),
     lm_rank = statusRank (jstr (jget msg ''status'')),
     lm_undecryptable = ((jbool (jget msg ''undecryptable'') \<or> looks_encrypted X (jstr (jget msg ''content'')))
        \<and> c = []),
     lm_clientId = jstr (jget msg ''clientMessageId''),
     lm_createdAt = jstr (jget msg ''createdAt''), lm_editedAt = [], lm_deleted = False\<rparr>)"

lemma message_row_simps [simp]:
  "lm_id (message_row E msg s) = jlonglong (jget msg ''messageId'')"
  "lm_enc (message_row E msg s) = (if message_text (le_ext E) msg = [] then []
     else encryptText E 0 (message_text (le_ext E) msg) s)"
  "lm_status (message_row E msg s) = jstr_or ''sent'' (jget msg ''status'')"
  "lm_rank (message_row E msg s) = statusRank (jstr (jget msg ''status''))"
  "message_text (le_ext E) msg \<noteq> [] \<Longrightarrow> \<not> lm_undecryptable (message_row E msg s)"
  by (simp_all add: message_row_def Let_def)

definition store_row :: "lenv \<Rightarrow> jobj \<Rightarrow> local_store \<Rightarrow> bool \<times> local_store" where
  "store_row E msg s =
     run_stmt (\<lambda>t. t\<lparr>lt_messages := upsert_message_row (message_row E msg s) (lt_messages t)\<rparr>) s"

lemma upsertMessage_eq:
  assumes "ready s"
  shows "upsertMessage E msg s =
     (let i = jlonglong (jget msg ''messageId''); c = message_text (le_ext E) msg in
      if i \<le> 0 \<or> jlonglong (jget msg ''conversationId'') \<le> 0 then (False, s)
      else if c = [] \<and> loadMessageContent (le_ext E) i s \<noteq> [] then (True, s)
      else if c \<noteq> [] \<and> lm_enc (message_row E msg s) = [] then (False, s)
      else if \<not> fst (store_row E msg s) then (False, snd (store_row E msg s))
      else (True, if c = [] then snd (store_row E msg s)
                  else snd (saveDecryptedContent E 1 i c (snd (store_row E msg s)))))"
  unfolding upsertMessage_def with_db_ready [OF assms] Let_def store_row_def message_row_def split_beta message_text_def
  by simp

lemma upsertMessage_cases:
  assumes "ready s"
  obtains (rejected) "upsertMessage E msg s = (False, s)"
  | (kept) "upsertMessage E msg s = (True, s)" "message_text (le_ext E) msg = []"
  | (failed) s1 where "upsertMessage E msg s = (False, s1)" "tables s1 = tables s"
      "ls_storageKey s1 = ls_storageKey s" "ready s1"
  | (stored) row s1 where "fst (upsertMessage E msg s)" "snd (upsertMessage E msg s) = s1"
      "lt_messages (tables s1) = upsert_message_row row (lt_messages (tables s))"
      "lm_id row = jlonglong (jget msg ''messageId'')" "lm_id row > 0"
      "lm_enc row = (if message_text (le_ext E) msg = [] then [] else encryptText E 0 (message_text (le_ext E) msg) s)"
      "message_text (le_ext E) msg \<noteq> [] \<longrightarrow> \<not> lm_undecryptable row"
      "lm_status row = jstr_or ''sent'' (jget msg ''status'')"
      "lm_rank row = statusRank (jstr (jget msg ''status''))"
      "message_text (le_ext E) msg = [] \<longrightarrow> loadMessageContent (le_ext E) (lm_id row) s = []"
      "ls_storageKey s1 = ls_storageKey s" "ready s1"
proof -
  let ?X = "le_ext E" and ?i = "jlonglong (jget msg ''messageId'')"
  let ?c = "message_text ?X msg" and ?row = "message_row E msg s"
  define r where "r = store_row E msg s"
  have u: "upsertMessage E msg s =
     (if ?i \<le> 0 \<or> jlonglong (jget msg ''conversationId'') \<le> 0 then (False, s)
      else if ?c = [] \<and> loadMessageContent ?X ?i s \<noteq> [] then (True, s)
      else if ?c \<noteq> [] \<and> lm_enc ?row = [] then (False, s)
      else if \<not> fst r then (False, snd r)
      else (True, if ?c = [] then snd r else snd (saveDecryptedContent E 1 ?i ?c (snd r))))"
    using upsertMessage_eq [OF assms, of E msg] unfolding Let_def r_def .
  have k: "ls_storageKey (snd r) = ls_storageKey s" "ready (snd r)"
    using assms by (simp_all add: r_def store_row_def)
  show thesis
  proof (cases "?i \<le> 0 \<or> jlonglong (jget msg ''conversationId'') \<le> 0 \<or> (?c \<noteq> [] \<and> lm_enc ?row = [])")
    case True
    then show thesis using u by (intro rejected) auto
  next
    case ok: False
    show thesis
    proof (cases "?c = [] \<and> loadMessageContent ?X ?i s \<noteq> []")
      case True
      with ok u show thesis by (intro kept) auto
    next
      case new: False
      show thesis
      proof (cases "fst r")
        case False
        with ok new u k show thesis by (intro failed [of "snd r"]) (auto simp: r_def store_row_def)
      next
        case True
        have t: "lt_messages (tables (snd r)) = upsert_message_row ?row (lt_messages (tables s))"
          using True by (simp add: r_def store_row_def)
        let ?s1 = "if ?c = [] then snd r else snd (saveDecryptedContent E 1 ?i ?c (snd r))"
        have e: "upsertMessage E msg s = (True, ?s1)" using ok new True u by auto
        have s1: "lt_messages (tables ?s1) = lt_messages (tables (snd r))" "ls_storageKey ?s1 = ls_storageKey s"
          "ready ?s1" using saveDecrypted_messages [OF k(2), of E 1 ?i ?c] k by auto
        show thesis
          by (rule stored [of ?s1 ?row]) (use e s1 t ok new in auto)
      qed
    qed
  qed
qed



section \<open>Samples\<close>

definition sample_lenv :: lenv where
  "sample_lenv = \<lparr>le_ext = sample_ext\<lparr>x_toBase64 := to_hex, x_fromBase64 := from_hex\<rparr>, le_now = 5,
     le_random = (\<lambda>i. Some (replicate 12 1)), le_part = 0\<rparr>"

lemma sample_crypto: "crypto_ok sample_lenv"
  using sample_ext_ok(2) sample_ext_ok(6)
  by (simp add: crypto_ok_def sample_lenv_def base64_inverts_def gcm_inverts_def utf8_inverts_def
      to_hex_no_colon)

definition sample_store :: local_store where
  "sample_store = \<lparr>ls_open = True, ls_handle = True, ls_username = ''alice'', ls_deviceId = ''dev'',
     ls_storageKey = replicate 32 7, ls_dbs = Map.empty,
     ls_files = \<lparr>fs_content = Map.empty, fs_locked = (\<lambda>p. False), fs_faults = []\<rparr>, ls_faults = []\<rparr>"

lemma sample_ready: "ready sample_store" "tables sample_store = empty_tables"
  by (simp_all add: ready_def sample_store_def tables_def store_path_def)


text \<open>The row found after the statement.\<close>

lemma find_update_where:
  assumes "\<And>r. P (f r) = P r"
  shows "find P (update_where P f rs) = map_option f (find P rs)"
  using assms by (induction rs) auto

lemma find_upsert:
  assumes "lm_enc n \<noteq> []" and "\<not> lm_undecryptable n"
  shows "\<exists>r'. find (\<lambda>r. lm_id r = lm_id n) (upsert_message_row n rs) = Some r'
    \<and> lm_enc r' = lm_enc n \<and> \<not> lm_undecryptable r'"
proof (cases "find (\<lambda>r. lm_id r = lm_id n) rs")
  case (Some r)
  then have "exists_where (\<lambda>r. lm_id r = lm_id n) rs"
    by (auto simp: exists_where_iff dest!: find_SomeD)
  moreover have "lm_id (merge_message n r) = lm_id r" for r by (simp add: merge_message_def Let_def)
  ultimately show ?thesis
    using Some assms by (simp add: upsert_message_row_def find_update_where) (simp add: merge_message_def Let_def)
next
  case None
  then have "\<not> exists_where (\<lambda>r. lm_id r = lm_id n) rs" by (auto simp: exists_where_iff find_None_iff)
  with None assms show ?thesis by (simp add: upsert_message_row_def find_append)
qed

text \<open>
  A message that was decrypted once stays readable. After its text was stored, the store returns
  exactly this text, and it still does after the same message came again in a form that cannot be
  decrypted any more.
\<close>

lemma decrypted_text_survives:
  assumes "crypto_ok E" and "ready s" and "fst (upsertMessage E m1 s)"
    and "message_text (le_ext E) m1 = p" and "p \<noteq> []"
    and "jlonglong (jget m2 ''messageId'') = jlonglong (jget m1 ''messageId'')"
    and "message_text (le_ext E) m2 = []"
  shows "loadMessageContent (le_ext E) (jlonglong (jget m1 ''messageId'')) (snd (upsertMessage E m1 s)) = p
    \<and> snd (upsertMessage E m2 (snd (upsertMessage E m1 s))) = snd (upsertMessage E m1 s)"
proof (rule upsertMessage_cases [OF assms(2), of E m1])
  let ?X = "le_ext E"
  fix row s1
  assume a: "snd (upsertMessage E m1 s) = s1"
    "lt_messages (tables s1) = upsert_message_row row (lt_messages (tables s))"
    "lm_id row = jlonglong (jget m1 ''messageId'')" "lm_id row > 0"
    "lm_enc row = (if message_text ?X m1 = [] then [] else encryptText E 0 (message_text ?X m1) s)"
    "message_text ?X m1 \<noteq> [] \<longrightarrow> \<not> lm_undecryptable row"
    "ls_storageKey s1 = ls_storageKey s" "ready s1"
  have key: "length (ls_storageKey s) = 32" using assms(2) by (simp add: ready_def)
  have enc: "lm_enc row = encryptText E 0 p s" "lm_enc row \<noteq> []" "\<not> lm_undecryptable row"
    using a(5,6) assms(4,5) decrypt_encrypt(1) [OF assms(1,5) key] by simp_all
  obtain r where r: "find (\<lambda>r. lm_id r = lm_id row) (lt_messages (tables s1)) = Some r"
    "lm_enc r = lm_enc row" "\<not> lm_undecryptable r"
    using find_upsert [OF enc(2,3), of "lt_messages (tables s)"] a(2) by auto
  have load: "loadMessageContent ?X (lm_id row) s1 = p"
    using r a(4,8) decryptText_key [OF a(7), of ?X] decrypt_encrypt(2) [OF assms(1,5) key]
    by (simp add: loadMessageContent_def ready_def enc(1))
  show ?thesis
  proof (rule upsertMessage_cases [OF a(8), of E m2])
    fix row2 s2
    assume "message_text ?X m2 = [] \<longrightarrow> loadMessageContent ?X (lm_id row2) s1 = []"
      "lm_id row2 = jlonglong (jget m2 ''messageId'')"
    then have False using load a(3) assms(5-7) by simp
    then show ?thesis ..
  next
    fix s2 assume f: "upsertMessage E m2 s1 = (False, s2)" "tables s2 = tables s1"
    have "loadMessageContent ?X (jlonglong (jget m2 ''messageId'')) s1 \<noteq> []"
      using load a(3) assms(5,6) by simp
    then have "snd (upsertMessage E m2 s1) = s1"
      using assms(7) by (simp add: upsertMessage_eq [OF a(8)] Let_def)
    with load a(1,3) show ?thesis by simp
  qed (use load a in auto)
qed (use assms in auto)


definition synced_message :: jobj where
  "synced_message = [(''messageId'', JNum 1), (''conversationId'', JNum 2), (''content'', JStr ''hi'')]"

definition lost_message :: jobj where
  "lost_message = [(''messageId'', JNum 1), (''conversationId'', JNum 2), (''undecryptable'', JBool True)]"

lemma sample_messages:
  "message_text X lost_message = []" "message_text X synced_message = ''hi''"
  by (simp_all add: message_text_def lost_message_def synced_message_def looks_encrypted_def
      looksLikeEnvelope_def looksLikeGroupMessage_def looksLikeDistribution_def)

lemma decrypted_text_survives_witness:
  "loadMessageContent (le_ext sample_lenv) 1 (snd (upsertMessage sample_lenv lost_message
     (snd (upsertMessage sample_lenv synced_message sample_store)))) = ''hi''"
proof -
  have "fst (upsertMessage sample_lenv synced_message sample_store)"
    using decrypt_encrypt(1) [OF sample_crypto, of "''hi''" sample_store 0] sample_ready
    by (simp add: upsertMessage_eq sample_messages Let_def store_row_def run_stmt_no_fault ready_def)
       (simp add: synced_message_def sample_store_def run_stmt_no_fault)
  from decrypted_text_survives [OF sample_crypto sample_ready(1) this sample_messages(2), of lost_message]
  show ?thesis by (simp add: sample_messages) (simp add: synced_message_def lost_message_def)
qed

lemma update_where_related:
  assumes "r \<in> set rs" and "R r" and "P r \<Longrightarrow> R (f r)"
  shows "\<exists>r' \<in> set (update_where P f rs). R r'"
  using assms by (auto simp: update_where_def)

text \<open>
  The receipt of a message only moves forward while messages are synchronised and conversations
  are read: a row keeps its identifier and its rank never drops, whichever statement fails.
\<close>

lemma synced_status_moves_forward:
  assumes "ready s" and "r \<in> set (lt_messages (tables s))"
  shows "(\<exists>r' \<in> set (lt_messages (tables (snd (upsertMessage E msg s)))). lm_id r' = lm_id r \<and> lm_rank r \<le> lm_rank r')
    \<and> (\<exists>r' \<in> set (lt_messages (tables (snd (markConversationRead E c m u s)))).
         lm_id r' = lm_id r \<and> lm_rank r \<le> lm_rank r')"
proof
  have up: "\<exists>r' \<in> set (upsert_message_row row rs). lm_id r' = lm_id r \<and> lm_rank r \<le> lm_rank r'"
    if "r \<in> set rs" for row rs
    unfolding upsert_message_row_def
    using that by (cases "exists_where (\<lambda>r. lm_id r = lm_id row) rs")
      (auto intro!: update_where_related simp: merge_message_def Let_def)
  show "\<exists>r' \<in> set (lt_messages (tables (snd (upsertMessage E msg s)))). lm_id r' = lm_id r \<and> lm_rank r \<le> lm_rank r'"
    by (rule upsertMessage_cases [OF assms(1), of E msg]) (use assms(2) up in auto)
next
  let ?P = "\<lambda>r. lm_convId r = c \<and> lm_id r \<le> m \<and> lm_senderId r \<noteq> u \<and> lm_rank r < 3"
  let ?f = "\<lambda>r. r\<lparr>lm_status := ''read'', lm_rank := 3\<rparr>"
  have "\<exists>r' \<in> set (update_where ?P ?f (lt_messages (tables s))). lm_id r' = lm_id r \<and> lm_rank r \<le> lm_rank r'"
    using assms(2) by (intro update_where_related) auto
  then show "\<exists>r' \<in> set (lt_messages (tables (snd (markConversationRead E c m u s)))).
         lm_id r' = lm_id r \<and> lm_rank r \<le> lm_rank r'"
    using assms by (auto simp: markConversationRead_def with_db_ready Let_def)
qed


definition read_row :: lmsg_row where
  "read_row = \<lparr>lm_id = 1, lm_convId = 2, lm_senderId = 3, lm_senderName = [], lm_enc = [], lm_type = ''text'',
     lm_status = ''read'', lm_rank = 3, lm_undecryptable = True, lm_clientId = [], lm_createdAt = [],
     lm_editedAt = [], lm_deleted = False\<rparr>"

lemma synced_status_moves_forward_witness:
  "let s = set_tables (empty_tables\<lparr>lt_messages := [read_row]\<rparr>) sample_store
   in \<exists>r' \<in> set (lt_messages (tables (snd (upsertMessage sample_lenv synced_message s)))).
        lm_id r' = lm_id read_row \<and> lm_rank read_row \<le> lm_rank r'"
proof -
  let ?s = "set_tables (empty_tables\<lparr>lt_messages := [read_row]\<rparr>) sample_store"
  have "ready ?s" "read_row \<in> set (lt_messages (tables ?s))"
    using sample_ready(1) by (simp_all add: ready_def)
  from synced_status_moves_forward [OF this, of sample_lenv synced_message] show ?thesis
    unfolding Let_def by (rule conjunct1)
qed

section \<open>The outbox\<close>

lemma create_tables_frame:
  "lt_outbox (tables (snd (create_tables xs s))) = lt_outbox (tables s)"
  "ls_storageKey (snd (create_tables xs s)) = ls_storageKey s"
proof -
  have "lt_outbox (run_ddl x t) = lt_outbox t" for x t
    by (cases x) (simp_all split: option.split)
  then show "lt_outbox (tables (snd (create_tables xs s))) = lt_outbox (tables s)"
    "ls_storageKey (snd (create_tables xs s)) = ls_storageKey s"
    by (induction xs arbitrary: s) (simp_all add: Let_def split_beta)
qed

lemma add_columns_frame:
  "lt_outbox (tables (snd (add_columns xs s))) = lt_outbox (tables s)"
  "ls_storageKey (snd (add_columns xs s)) = ls_storageKey s"
proof -
  have "lt_outbox (add_column x t) = lt_outbox t" for x t
    by (simp add: add_column_def split_beta split: option.split)
  then show "lt_outbox (tables (snd (add_columns xs s))) = lt_outbox (tables s)"
    "ls_storageKey (snd (add_columns xs s)) = ls_storageKey s"
    by (induction xs arbitrary: s) (simp_all add: Let_def split_beta)
qed

lemma ensureSchema_frame:
  "lt_outbox (tables (snd (ensureSchema s))) = lt_outbox (tables s)"
  "ls_storageKey (snd (ensureSchema s)) = ls_storageKey s"
  by (simp_all add: ensureSchema_def Let_def split_beta create_tables_frame add_columns_frame)

lemma heal_frame:
  "lt_outbox (tables (healEnvelopeLeaks X s)) = lt_outbox (tables s)"
  "ls_storageKey (healEnvelopeLeaks X s) = ls_storageKey s"
proof -
  have "lt_outbox (tables (heal_all is s)) = lt_outbox (tables s) \<and> ls_storageKey (heal_all is s) = ls_storageKey s"
    for "is"
    by (induction "is" arbitrary: s) simp_all
  then show "lt_outbox (tables (healEnvelopeLeaks X s)) = lt_outbox (tables s)"
    "ls_storageKey (healEnvelopeLeaks X s) = ls_storageKey s" by (simp_all add: healEnvelopeLeaks_def)
qed

text \<open>What a successful open finds.\<close>

lemma store_open_finds:
  assumes "fst (store_open E driver rnd user dev s)" and "\<not> ls_open s"
    and "loadLocalStoreKey (le_ext E) user dev (ls_files s) = key" and "length key = 32"
  shows "ls_open (snd (store_open E driver rnd user dev s))"
    "ls_storageKey (snd (store_open E driver rnd user dev s)) = key"
    "lt_outbox (tables (snd (store_open E driver rnd user dev s)))
      = lt_outbox (tables (s\<lparr>ls_username := user, ls_deviceId := dev\<rparr>))"
proof -
  let ?s1 = "s\<lparr>ls_storageKey := key, ls_username := user, ls_deviceId := dev\<rparr>"
  let ?s2 = "snd (connectDatabase ?s1)"
  have k: "ensureStorageKey E rnd user dev s = (True, s\<lparr>ls_storageKey := key\<rparr>)"
    using assms(3,4) by (simp add: ensureStorageKey_def StorageKeySize_def Let_def)
  have o: "store_open E driver rnd user dev s =
      (True, (healEnvelopeLeaks (le_ext E) (snd (ensureSchema ?s2)))\<lparr>ls_open := True\<rparr>)"
    using assms(1,2) by (auto simp: store_open_def k Let_def split_beta split: if_splits)
  have c: "lt_outbox (tables ?s2) = lt_outbox (tables ?s1)" "ls_storageKey ?s2 = key"
    by (simp_all add: connectDatabase_def Let_def split_beta tables_def store_path_def set_tables_def
        store_fault_def split: list.split)
  have t: "tables (v\<lparr>ls_open := True\<rparr>) = tables v" for v by (simp add: tables_def store_path_def)
  show "ls_open (snd (store_open E driver rnd user dev s))"
    "ls_storageKey (snd (store_open E driver rnd user dev s)) = key"
    by (simp_all add: o heal_frame ensureSchema_frame c)
  have "tables ?s1 = tables (s\<lparr>ls_username := user, ls_deviceId := dev\<rparr>)"
    by (simp add: tables_def store_path_def)
  then show "lt_outbox (tables (snd (store_open E driver rnd user dev s)))
      = lt_outbox (tables (s\<lparr>ls_username := user, ls_deviceId := dev\<rparr>))"
    by (simp add: o t heal_frame ensureSchema_frame c)
qed

text \<open>
  C30: a message that was queued survives the end of the program. After it was added to the outbox and
  the store was closed, whoever opens the store of the same account again, with the same key file,
  finds it in the outbox with its target and its exact text.
\<close>

theorem outbox_survives_restart:
  assumes "crypto_ok E" and "ready s" and "fst (addOutboxItem E cid to p conv s)"
    and "loadLocalStoreKey (le_ext E) (ls_username s) (ls_deviceId s) (ls_files s) = ls_storageKey s"
    and "le_ext E' = le_ext E"
    and "fst (store_open E' driver rnd (ls_username s) (ls_deviceId s) (store_close (snd (addOutboxItem E cid to p conv s))))"
  shows "\<lparr>oi_clientId = cid, oi_toUser = to, oi_convId = conv, oi_content = p\<rparr>
    \<in> set (loadOutbox (le_ext E) (snd (store_open E' driver rnd (ls_username s) (ls_deviceId s)
        (store_close (snd (addOutboxItem E cid to p conv s))))))"
proof -
  let ?X = "le_ext E" and ?s1 = "snd (addOutboxItem E cid to p conv s)"
  let ?v = "snd (store_open E' driver rnd (ls_username s) (ls_deviceId s) (store_close ?s1))"
  have key: "length (ls_storageKey s) = 32" using assms(2) by (simp add: ready_def)
  have g: "cid \<noteq> []" "to > 0 \<or> conv > 0" "encryptText E 0 p s \<noteq> []"
    using assms(3) unfolding addOutboxItem_def with_db_ready [OF assms(2)] Let_def by (auto split: if_splits)
  have p: "p \<noteq> []" using g(3) by (auto simp: encryptText_def)
  define row where "row = \<lparr>ob_clientId = cid, ob_toUser = to, ob_enc = encryptText E 0 p s,
     ob_createdAt = x_isoTime ?X (le_now E), ob_convId = conv\<rparr>"
  let ?f = "\<lambda>t. t\<lparr>lt_outbox := replace_row ob_clientId row (lt_outbox t)\<rparr>"
  have "addOutboxItem E cid to p conv s = run_stmt ?f s"
    using g unfolding addOutboxItem_def with_db_ready [OF assms(2)] Let_def row_def by auto
  then have s1: "row \<in> set (lt_outbox (tables ?s1))" "ls_open ?s1" "ls_files ?s1 = ls_files s"
    "ls_username ?s1 = ls_username s" "ls_deviceId ?s1 = ls_deviceId s"
    using assms(2,3) by (simp_all add: replace_row_def ready_def)
  have load: "loadLocalStoreKey (le_ext E') (ls_username s) (ls_deviceId s) (ls_files (store_close ?s1)) = ls_storageKey s"
    using assms(4,5) s1 by (simp add: store_close_def closeDatabase_def)
  have "\<not> ls_open (store_close ?s1)" using s1 by (simp add: store_close_def closeDatabase_def)
  note v = store_open_finds [OF assms(6) this load key]
  have "tables ((store_close ?s1)\<lparr>ls_username := ls_username s, ls_deviceId := ls_deviceId s\<rparr>) = tables ?s1"
    using s1 by (simp add: store_close_def closeDatabase_def tables_def store_path_def)
  with v s1 have "row \<in> set (lt_outbox (tables ?v))" by simp
  moreover have "outbox_item_of ?X ?v row = \<lparr>oi_clientId = cid, oi_toUser = to, oi_convId = conv, oi_content = p\<rparr>"
    using decrypt_encrypt(2) [OF assms(1) p key, of 0] decryptText_key [of ?v s ?X] v(2)
    by (simp add: outbox_item_of_def row_def)
  moreover have "outbox_item_ok \<lparr>oi_clientId = cid, oi_toUser = to, oi_convId = conv, oi_content = p\<rparr>"
    using g p by (simp add: outbox_item_ok_def)
  ultimately show ?thesis
    using v(1) unfolding loadOutbox_def by (force simp: image_iff)
qed


text \<open>An account whose key file is there.\<close>

definition key_lenv :: lenv where
  "key_lenv = sample_lenv\<lparr>le_ext := (le_ext sample_lenv)\<lparr>x_fromBase64Lax := from_hex,
     x_fromJson := (\<lambda>b. Some (JObj [(''storageKey'', JStr (to_hex (replicate 32 7)))]))\<rparr>\<rparr>"

definition key_store :: local_store where
  "key_store = sample_store\<lparr>ls_files := \<lparr>fs_content = [localStoreKeyFilePath ''alice'' ''dev'' \<mapsto> [1]],
     fs_locked = (\<lambda>p. False), fs_faults = []\<rparr>\<rparr>"

lemma key_sample:
  "crypto_ok key_lenv" "ready key_store" "ls_username key_store = ''alice''" "ls_deviceId key_store = ''dev''"
  "ls_faults key_store = []" "ls_storageKey key_store = replicate 32 7"
  "loadLocalStoreKey (le_ext key_lenv) ''alice'' ''dev'' (ls_files key_store) = replicate 32 7"
proof -
  show "crypto_ok key_lenv"
    using sample_crypto
    by (simp add: crypto_ok_def key_lenv_def gcm_inverts_def base64_inverts_def utf8_inverts_def)
  have "x_unprotect (le_ext key_lenv) b = b" for b
    by (simp add: key_lenv_def sample_lenv_def sample_ext_def)
  then show "loadLocalStoreKey (le_ext key_lenv) ''alice'' ''dev'' (ls_files key_store) = replicate 32 7"
    by (simp add: loadLocalStoreKey_def readFileBytes_def key_store_def object_of_def) (simp add: key_lenv_def)
qed (simp_all add: key_store_def sample_store_def ready_def)

lemma run_faultless [simp]: "ls_faults s = [] \<Longrightarrow> ls_faults (snd (run_stmt f s)) = []"
  "ls_faults s = [] \<Longrightarrow> fst (run_stmt f s)"
  by (simp_all add: run_stmt_no_fault)

lemma schema_faultless:
  assumes "ls_faults s = []"
  shows "fst (ensureSchema s)"
proof -
  have c: "fst (create_tables xs s) \<and> ls_faults (snd (create_tables xs s)) = []" if "ls_faults s = []" for xs s
    using that by (induction xs arbitrary: s) (simp_all add: Let_def split_beta)
  have "fst (add_columns xs s)" if "ls_faults s = []" for xs s
    using that by (induction xs arbitrary: s) (simp_all add: Let_def split_beta)
  with c [OF assms] show ?thesis by (simp add: ensureSchema_def Let_def split_beta)
qed

theorem outbox_survives_restart_witness:
  "\<lparr>oi_clientId = ''c'', oi_toUser = 2, oi_convId = 0, oi_content = ''hi''\<rparr>
    \<in> set (loadOutbox (le_ext key_lenv) (snd (store_open key_lenv True None ''alice'' ''dev''
        (store_close (snd (addOutboxItem key_lenv ''c'' 2 ''hi'' 0 key_store))))))"
proof -
  let ?s1 = "snd (addOutboxItem key_lenv ''c'' 2 ''hi'' 0 key_store)"
  have e: "encryptText key_lenv 0 ''hi'' key_store \<noteq> []"
    by (rule decrypt_encrypt(1) [OF key_sample(1)]) (simp_all add: key_sample)
  have a: "fst (addOutboxItem key_lenv ''c'' 2 ''hi'' 0 key_store)" "ls_faults ?s1 = []"
    "ls_files ?s1 = ls_files key_store" "ls_open ?s1"
    using e key_sample(2) by (auto simp: addOutboxItem_def with_db_ready key_sample Let_def ready_def)
  have "ensureStorageKey key_lenv None ''alice'' ''dev'' (store_close ?s1)
      = (True, (store_close ?s1)\<lparr>ls_storageKey := replicate 32 7\<rparr>)"
    using a key_sample(7) by (simp add: ensureStorageKey_def store_close_def closeDatabase_def StorageKeySize_def)
  moreover have "ls_faults (store_close ?s1) = []" "\<not> ls_open (store_close ?s1)"
    using a by (simp_all add: store_close_def closeDatabase_def)
  ultimately have "fst (store_open key_lenv True None ''alice'' ''dev'' (store_close ?s1))"
    by (simp add: store_open_def Let_def split_beta connectDatabase_def store_fault_def schema_faultless)
  then show ?thesis
    using outbox_survives_restart [OF key_sample(1,2) a(1), of key_lenv True None]
    by (simp add: key_sample)
qed

section \<open>Group keys\<close>

text \<open>
  A stored group key reads back. After a sender key was saved it is loaded again with exactly its
  chain key, its two signing keys and its iteration, and it is the latest key of its sender.
\<close>

lemma sender_key_roundtrip:
  assumes "crypto_ok E" and "ready s" and "fst (saveSenderKey E g u d k ck pub priv it s)"
    and "length ck = 32" and "length pub = 32"
  shows "loadSenderKey (le_ext E) g u d k (snd (saveSenderKey E g u d k ck pub priv it s)) = (True, ck, pub, priv, it)
    \<and> latestSenderKeyId g u d (snd (saveSenderKey E g u d k ck pub priv it s)) = k"
proof -
  let ?X = "le_ext E"
  have key: "length (ls_storageKey s) = 32" using assms(2) by (simp add: ready_def)
  define row where "row = \<lparr>sr_place = (g, u, d, k), sr_chainEnc = encryptText E 0 (x_toBase64 ?X ck) s,
     sr_pub = x_toBase64 ?X pub, sr_privEnc = (if priv = [] then [] else encryptText E 1 (x_toBase64 ?X priv) s),
     sr_iteration = it\<rparr>"
  have args: "g > 0" "u > 0" "d \<noteq> []" "k \<noteq> []" "encryptText E 0 (x_toBase64 ?X ck) s \<noteq> []"
    using assms(3) unfolding saveSenderKey_def with_db_ready [OF assms(2)] Let_def by (auto split: if_splits)
  have pub: "ck \<noteq> []" "pub \<noteq> []" using assms(4,5) by auto
  let ?f = "\<lambda>t. t\<lparr>lt_senderKeys := replace_row sr_place row (lt_senderKeys t)\<rparr>"
  have save: "saveSenderKey E g u d k ck pub priv it s = run_stmt ?f s"
    using args pub unfolding saveSenderKey_def with_db_ready [OF assms(2)] Let_def row_def by auto
  define v where "v = snd (run_stmt ?f s)"
  have v: "ls_open v" "ls_storageKey v = ls_storageKey s" using assms(2) by (simp_all add: v_def ready_def)
  have t: "lt_senderKeys (tables v) = delete_where (\<lambda>r. sr_place r = (g, u, d, k)) (lt_senderKeys (tables s)) @ [row]"
    using assms(3) unfolding save v_def by (simp add: replace_row_def row_def)
  have row: "sr_place row = (g, u, d, k)" "sr_chainEnc row = encryptText E 0 (x_toBase64 ?X ck) s"
    "sr_pub row = x_toBase64 ?X pub" "sr_iteration row = it"
    "sr_privEnc row = (if priv = [] then [] else encryptText E 1 (x_toBase64 ?X priv) s)"
    by (simp_all add: row_def)
  have none: "find (\<lambda>r. sr_place r = (g, u, d, k)) (delete_where (\<lambda>r. sr_place r = (g, u, d, k)) rs) = None" for rs
    by (auto simp: find_None_iff)
  have f: "find (\<lambda>r. sr_place r = (g, u, d, k)) (lt_senderKeys (tables v)) = Some row"
    unfolding t find_append by (simp only: none option.case) (simp add: row_def)
  have b: "x_fromBase64 ?X (x_toBase64 ?X x) = x" "x_toBase64 ?X x = [] \<longleftrightarrow> x = []" for x
    using assms(1) by (simp_all add: crypto_ok_def base64_inverts_def)
  have dec: "decryptText ?X (encryptText E i p s) v = p" if "p \<noteq> []" for i p
    using decrypt_encrypt(2) [OF assms(1) that key] decryptText_key [OF v(2), of ?X] by simp
  have "loadSenderKey ?X g u d k v = (True, ck, pub, priv, it)"
    using args assms(4,5) pub row by (simp add: loadSenderKey_def v f Let_def dec b)
  moreover have "latestSenderKeyId g u d v = k"
    using args by (simp add: latestSenderKeyId_def t v row)
  ultimately show ?thesis unfolding save v_def by simp
qed

lemma sender_key_roundtrip_witness:
  "loadSenderKey (le_ext sample_lenv) 1 2 ''d'' ''k'' (snd (saveSenderKey sample_lenv 1 2 ''d'' ''k''
     (replicate 32 1) (replicate 32 2) [] 4 sample_store)) = (True, replicate 32 1, replicate 32 2, [], 4)"
proof -
  have "x_toBase64 (le_ext sample_lenv) (replicate 32 1) \<noteq> []" by (simp add: sample_lenv_def)
  then have e: "encryptText sample_lenv 0 (x_toBase64 (le_ext sample_lenv) (replicate 32 1)) sample_store \<noteq> []"
    using sample_ready(1) by (intro decrypt_encrypt(1) [OF sample_crypto]) (simp_all add: ready_def)
  have "ls_faults sample_store = []" by (simp add: sample_store_def)
  with e have "fst (saveSenderKey sample_lenv 1 2 ''d'' ''k'' (replicate 32 1) (replicate 32 2) [] 4 sample_store)"
    using sample_ready(1) by (simp add: saveSenderKey_def with_db_ready Let_def)
  from sender_key_roundtrip [OF sample_crypto sample_ready(1) this] show ?thesis by simp
qed

end
