(* ===== verification/Storage_Properties.thy ===== *)
theory Storage_Properties
  imports Key_Storage
begin

text \<open>
  What the client's key files guarantee: a file is replaced as a whole or not at all, except that a
  failure at the last step loses it, and the two kinds of keys in one file do not disturb each other.
\<close>



text \<open>
  The replacement is not atomic. The old file is removed before the new one gets its name, so when
  the renaming fails both are gone: the keys that were saved before are lost.
\<close>

lemma failed_rename_loses_file:
  assumes "fs_content f p \<noteq> None" and "fs_faults f = [False, False, False, True]"
  shows "fst (writeFileAtomic part p b f) = False \<and> fs_content (snd (writeFileAtomic part p b f)) p = None
    \<and> fs_content (snd (writeFileAtomic part p b f)) (p @ ''.tmp'') = None"
  using assms
  by (auto simp: writeFileAtomic_def fs_open_truncate_def fs_write_def fs_remove_def fs_rename_def
      fs_put_def fs_exists_def fs_fault_def Let_def)

section \<open>Round trip\<close>

text \<open>A saved object reads back.\<close>

lemma save_root_reads:
  assumes "fst (save_root X part path root f)" and "protect_inverts X" and "json_text_inverts X root"
    and "\<not> fs_locked f path"
  shows "x_unprotect X (readFileBytes path (snd (save_root X part path root f))) = text_of X root"
    "text_of X root \<noteq> []" "object_of X (text_of X root) = root"
    "\<not> fs_locked (snd (save_root X part path root f)) path"
proof -
  have t: "text_of X root \<noteq> []" "object_of X (text_of X root) = root"
    using assms(3) by (simp_all add: json_text_inverts_def text_of_def object_of_def)
  obtain ok f' where w: "writeFileAtomic part path (x_protect X (text_of X root)) f = (ok, f')" by fastforce
  have s: "save_root X part path root f = (ok, f')" and "ok"
    using assms(1) w by (auto simp: save_root_def Let_def split: if_splits)
  with writeFileAtomic_outcome [OF w] have "fs_content f' path = Some (x_protect X (text_of X root))"
    "fs_locked f' = fs_locked f" by auto
  with s t assms(2,4) show "x_unprotect X (readFileBytes path (snd (save_root X part path root f))) = text_of X root"
    "\<not> fs_locked (snd (save_root X part path root f)) path"
    by (simp_all add: readFileBytes_def protect_inverts_def)
  show "text_of X root \<noteq> []" "object_of X (text_of X root) = root" by (rule t)+
qed

lemma read_write_prekey:
  assumes "\<And>b. base64_lax_inverts X b"
  shows "read_prekey X (write_prekey X e) = e"
  using assms by (cases e) (simp add: read_prekey_def write_prekey_def base64_lax_inverts_def)

text \<open>
  The identity key and the prekeys share a file without disturbing each other. After the identity
  key was saved and then the prekeys, the identity key is loaded exactly as it was saved, and so are
  all prekeys with both halves, in their order; a further save of prekeys changes only these.
\<close>

lemma keys_roundtrip:
  fixes X :: ext and f :: files and part :: nat and user dev :: string and priv :: bytes
    and ps :: "prekey_entry list"
  defines "f1 \<equiv> snd (saveIdentityPrivateKey X part user dev priv f)"
  defines "f2 \<equiv> snd (savePrekeys X part user dev ps f1)"
  defines "root \<equiv> jset ''identityPriv'' (JStr (x_toBase64 X priv)) (existing_root X (keyFilePath user dev) f)"
  assumes "fst (saveIdentityPrivateKey X part user dev priv f)" and "fst (savePrekeys X part user dev ps f1)"
    and "protect_inverts X" and "\<And>b. base64_lax_inverts X b"
    and "json_text_inverts X root" and "json_text_inverts X (jset ''prekeys'' (JArr (map (write_prekey X) ps)) root)"
    and "\<not> fs_locked f (keyFilePath user dev)"
  shows "loadIdentityPrivateKey X user dev f2 = priv \<and> loadPrekeys X user dev f2 = filter prekey_full ps"
proof -
  let ?path = "keyFilePath user dev" and ?root2 = "jset ''prekeys'' (JArr (map (write_prekey X) ps)) root"
  have i: "saveIdentityPrivateKey X part user dev priv f = save_root X part ?path root f"
    by (simp add: saveIdentityPrivateKey_def root_def Let_def)
  note r1 = save_root_reads [OF assms(4) [unfolded i] assms(6,8,10)]
  have e: "existing_root X ?path f1 = root"
    using r1 by (simp add: f1_def i existing_root_def Let_def)
  have p: "savePrekeys X part user dev ps f1 = save_root X part ?path ?root2 f1"
    by (simp add: savePrekeys_def e Let_def)
  have "\<not> fs_locked f1 ?path" using r1(4) by (simp add: f1_def i)
  note r2 = save_root_reads [OF assms(5) [unfolded p] assms(6,9) this]
  have b: "x_fromBase64Lax X (x_toBase64 X c) = c" for c
    using assms(7) by (simp add: base64_lax_inverts_def)
  have "loadIdentityPrivateKey X user dev f2 = priv"
    using r2 by (simp add: loadIdentityPrivateKey_def f2_def p Let_def root_def b)
  moreover have "loadPrekeys X user dev f2 = filter prekey_full ps"
    using r2 read_write_prekey [OF assms(7)] by (simp add: loadPrekeys_def f2_def p Let_def o_def)
  ultimately show ?thesis ..
qed

text \<open>A library whose parser knows the two objects of the example.\<close>

definition id_root :: jobj where
  "id_root = [(''identityPriv'', JStr (chars_of [5]))]"

definition full_root :: jobj where
  "full_root = [(''identityPriv'', JStr (chars_of [5])),
     (''prekeys'', JArr [JObj [(''pub'', JStr (chars_of [6])), (''priv'', JStr (chars_of [7]))]])]"

definition two_objects :: ext where
  "two_objects = sample_ext\<lparr>x_compact := (\<lambda>j. if j = JObj id_root then ''a'' else ''b''),
     x_fromJson := (\<lambda>b. if b = bytes_of ''a'' then Some (JObj id_root) else Some (JObj full_root))\<rparr>"

lemma keys_roundtrip_witness:
  "let f = \<lparr>fs_content = Map.empty, fs_locked = (\<lambda>p. False), fs_faults = []\<rparr>;
       f1 = snd (saveIdentityPrivateKey two_objects 0 ''u'' ''d'' [5] f);
       f2 = snd (savePrekeys two_objects 0 ''u'' ''d'' [\<lparr>pk_publicKey = [6], pk_privateKey = [7]\<rparr>] f1)
   in loadIdentityPrivateKey two_objects ''u'' ''d'' f2 = [5]"
proof -
  let ?f = "\<lparr>fs_content = Map.empty, fs_locked = (\<lambda>p. False), fs_faults = []\<rparr>"
  let ?f1 = "snd (saveIdentityPrivateKey two_objects 0 ''u'' ''d'' [5] ?f)"
  let ?ps = "[\<lparr>pk_publicKey = [6], pk_privateKey = [7]\<rparr>]"
  note fs = writeFileAtomic_def fs_open_truncate_def fs_write_def fs_remove_def fs_rename_def
    fs_put_def fs_exists_def fs_fault_def
  have x: "x_protect two_objects = id" "x_unprotect two_objects = id" "x_toBase64 two_objects = chars_of"
    "x_utf8 two_objects = bytes_of" "\<And>b. base64_lax_inverts two_objects b"
    by (simp_all add: two_objects_def sample_ext_def base64_lax_inverts_def)
  have ab: "x_utf8 two_objects (x_compact two_objects (JObj r)) \<noteq> []" for r
    by (simp add: two_objects_def sample_ext_def bytes_of_def)
  have ok: "fst (save_root two_objects 0 path r ?f)" "fs_faults (snd (save_root two_objects 0 path r ?f)) = []" for path r
    using ab by (simp_all add: save_root_def text_of_def x fs Let_def)
  have ok2: "fst (save_root two_objects 0 path r g)" if "fs_faults g = []" for path r g
    using ab that by (simp add: save_root_def text_of_def x fs Let_def)
  have none: "existing_root two_objects path ?f = []" for path
    by (simp add: existing_root_def readFileBytes_def x)
  have j: "json_text_inverts two_objects id_root" "json_text_inverts two_objects full_root"
    by (simp_all add: json_text_inverts_def two_objects_def sample_ext_def bytes_of_def id_root_def full_root_def)
  have p: "protect_inverts two_objects" by (simp add: protect_inverts_def x)
  have "fst (saveIdentityPrivateKey two_objects 0 ''u'' ''d'' [5] ?f)"
    "fst (savePrekeys two_objects 0 ''u'' ''d'' ?ps ?f1)"
    using ok ok2 by (simp_all add: saveIdentityPrivateKey_def savePrekeys_def Let_def none)
  from keys_roundtrip [OF this p x(5)] j show ?thesis
    unfolding Let_def by (simp add: none id_root_def full_root_def write_prekey_def x)
qed

end

