(* ===== verification/Client_Core.thy ===== *)
theory Client_Core
  imports Local_Cache Packet_Codec Encryption_Manager
begin

text \<open>
  Chat-Client/core/NetworkManager.cpp, the common part: the state of the client, what it emits, the
  construction of a request, the connection with login, registration, renewal and logout, and the
  requests that only ask the server for something.
\<close>

section \<open>Environment\<close>

text \<open>
  Random values are drawn one after the other: the state counts the draws and the environment says
  what each of them gives: a UUID, an X25519 pair, an Ed25519 pair, random bytes (several for a
  storage operation). \<open>ce_iso\<close> is the parse of an ISO time: the seconds, and the offset when the text has
  no zone and counts as local time.
\<close>

record cenv =
  ce_ext :: ext
  ce_now :: time
  ce_uuid :: "nat \<Rightarrow> string"
  ce_x25519 :: "nat \<Rightarrow> (bytes \<times> bytes) option"
  ce_ed25519 :: "nat \<Rightarrow> (bytes \<times> bytes) option"
  ce_random :: "nat \<Rightarrow> nat \<Rightarrow> bytes option"
  ce_part :: nat
  ce_driver :: bool
  ce_deviceId :: string
  ce_platform :: string
  ce_plaintext :: bool
  ce_iso :: "string \<Rightarrow> (int \<times> int option) option"

section \<open>State\<close>

datatype client_state = Disconnected | Connecting | Connected | LoggingIn | Authenticated

text \<open>The members \<open>m_pending...RequestId\<close>.\<close>

datatype slot = PLogin | PRegister | PRenew | PSearch | PAddContact | PGetContacts | PGetConversations
  | PAck | PSyncMessages | PSyncEvents | PCreateGroup | PInviteGroup | PLeaveGroup | PKickGroup
  | PGroupInfo | PFetchGroupKeys | PSetPrefs | PEdit | PDelete | PRegisterKeys | PFetchKeys

text \<open>What runs when a single-shot timer fires.\<close>

datatype callback = FlushOutbox | FlushOutboxOnce | BootstrapAgain | DrainHealing

datatype signal =
    LoginSuccessful | LoginFailed string | RegisterSuccessful | RegisterFailed string | LogoutFinished
  | SessionExpiredSignal | StateChanged client_state | SessionChanged
  | SearchUsersResult "json list" | ContactsResult "json list" | ConversationsResult "json list"
  | MessageSent ident ident string | MessageSendFailed string | NewMessageReceived jobj
  | MessagesSynced ident "json list" bool | MessageAcked ident | MessageStatusChanged ident string
  | EventsSynced "json list" ident bool | ReadCursorAdvanced ident ident | PeerIdentityChanged ident
  | GroupCreated ident string | GroupMembersInvited ident | GroupLeft ident
  | GroupMemberKicked ident ident | GroupInfoResult jobj | GroupRequestFailed string | GroupChanged jobj
  | ConversationPrefsChanged ident bool bool | MessageEdited ident ident string string
  | MessageDeleted ident ident | MessageEditFailed string | MessageDeleteFailed string

datatype cout =
    Signal signal
  | Request message_type "64 word" jobj
  | HeartbeatPing "64 word"
  | PongTo "64 word"
  | ConnectSocket bool
  | DisconnectSocket
  | After int callback

record client =
  cl_state :: client_state
  cl_nextId :: "64 word"
  cl_tls :: bool
  cl_buffer :: bytes
  cl_pending :: "slot \<Rightarrow> 64 word"
  cl_pendingUsername :: string
  cl_pendingPassword :: string
  cl_pendingRegisterPassword :: string
  cl_pendingEmail :: string
  cl_pendingPhone :: string
  cl_loginQueued :: bool
  cl_registerQueued :: bool
  cl_reconnect :: bool
  cl_token :: string
  cl_userId :: ident
  cl_username :: string
  cl_expiresAt :: int
  cl_expiredNotified :: bool
  cl_renewTimer :: "int option"
  cl_heartbeat :: bool
  cl_reconnectTimer :: bool
  cl_outbox :: "outbox_item list"
  cl_inFlight :: "(64 word \<times> string) list"
  cl_flushScheduled :: bool
  cl_deviceId :: string
  cl_identity :: key_pair
  cl_prekeys :: "prekey_entry list"
  cl_ready :: bool
  cl_bootstrapping :: bool
  cl_fetchTarget :: ident
  cl_backoff :: "ident \<rightharpoonup> time"
  cl_serverPrekeys :: int
  cl_cache :: "(ident \<times> string) list"
  cl_cacheLoaded :: bool
  cl_groupTarget :: ident
  cl_distributions :: "string list"
  cl_groupKeys :: "ident \<rightharpoonup> sender_key"
  cl_healQueue :: "ident list"
  cl_editMsg :: ident
  cl_editConv :: ident
  cl_editPeer :: ident
  cl_editContent :: string
  cl_store :: local_store
  cl_draws :: nat
  cl_outs :: "cout list"

definition kRenewBeforeExpirySecs :: int where "kRenewBeforeExpirySecs = 86400"
definition kRenewRetryDelayMs :: int where "kRenewRetryDelayMs = 300000"
definition kRenewResponseTimeoutMs :: int where "kRenewResponseTimeoutMs = 60000"

lemmas renew_limits = kRenewBeforeExpirySecs_def kRenewRetryDelayMs_def kRenewResponseTimeoutMs_def

section \<open>Emitting\<close>

definition cemit :: "cout \<Rightarrow> client \<Rightarrow> client" where
  "cemit x c = c\<lparr>cl_outs := cl_outs c @ [x]\<rparr>"

definition csignal :: "signal \<Rightarrow> client \<Rightarrow> client" where
  "csignal x = cemit (Signal x)"

definition set_pending :: "slot \<Rightarrow> 64 word \<Rightarrow> client \<Rightarrow> client" where
  "set_pending s i c = c\<lparr>cl_pending := (cl_pending c)(s := i)\<rparr>"

text \<open>The next draw of the environment.\<close>

definition draw :: "(nat \<Rightarrow> 'a) \<Rightarrow> client \<Rightarrow> 'a \<times> client" where
  "draw f c = (f (cl_draws c), c\<lparr>cl_draws := cl_draws c + 1\<rparr>)"

definition nextRequestId :: "client \<Rightarrow> 64 word \<times> client" where
  "nextRequestId c = (cl_nextId c, c\<lparr>cl_nextId := cl_nextId c + 1\<rparr>)"

definition setState :: "client_state \<Rightarrow> client \<Rightarrow> client" where
  "setState st c = (if cl_state c = st then c else csignal (StateChanged st) (c\<lparr>cl_state := st\<rparr>))"

text \<open>A packet that does not encode (a payload above the limit) is not written.\<close>

definition send_packet :: "ext \<Rightarrow> message_type \<Rightarrow> 64 word \<Rightarrow> jobj \<Rightarrow> client \<Rightarrow> client" where
  "send_packet X mt rid json c =
     (if encode (mk_packet mt rid (text_of X json)) = [] then csignal (LoginFailed ''Failed to encode request'') c
      else cemit (Request mt rid json) c)"

definition addReplayProtection :: "cenv \<Rightarrow> jobj \<Rightarrow> client \<Rightarrow> jobj \<times> client" where
  "addReplayProtection E json c =
     (let (nonce, c1) = draw (ce_uuid E) c;
          json1 = jset ''nonce'' (JStr nonce) (jset ''timestamp'' (JNum (ce_now E)) json)
      in (if cl_state c1 = Authenticated \<and> cl_token c1 \<noteq> [] then jset ''token'' (JStr (cl_token c1)) json1
          else json1, c1))"

text \<open>A request: replay protection, a request id that \<open>note\<close> remembers, the packet.\<close>

definition send_request ::
  "cenv \<Rightarrow> message_type \<Rightarrow> jobj \<Rightarrow> (64 word \<Rightarrow> client \<Rightarrow> client) \<Rightarrow> client \<Rightarrow> client" where
  "send_request E mt json note c =
     (let (json1, c1) = addReplayProtection E json c;
          (rid, c2) = nextRequestId c1
      in send_packet (ce_ext E) mt rid json1 (note rid c2))"

text \<open>A call of the local store.\<close>

definition lenv_at :: "cenv \<Rightarrow> client \<Rightarrow> lenv" where
  "lenv_at E c = \<lparr>le_ext = ce_ext E, le_now = ce_now E, le_random = ce_random E (cl_draws c), le_part = ce_part E\<rparr>"

definition on_store :: "cenv \<Rightarrow> (lenv \<Rightarrow> local_store \<Rightarrow> 'a \<times> local_store) \<Rightarrow> client \<Rightarrow> 'a \<times> client" where
  "on_store E f c =
     (let (a, s) = f (lenv_at E c) (cl_store c) in (a, c\<lparr>cl_store := s, cl_draws := cl_draws c + 1\<rparr>))"

abbreviation do_store :: "cenv \<Rightarrow> (lenv \<Rightarrow> local_store \<Rightarrow> 'a \<times> local_store) \<Rightarrow> client \<Rightarrow> client" where
  "do_store E f c \<equiv> snd (on_store E f c)"

text \<open>A write of the key files, which the store holds.\<close>

definition on_files :: "(files \<Rightarrow> bool \<times> files) \<Rightarrow> client \<Rightarrow> bool \<times> client" where
  "on_files f c =
     (let (ok, fs) = f (ls_files (cl_store c)) in (ok, c\<lparr>cl_store := (cl_store c)\<lparr>ls_files := fs\<rparr>\<rparr>))"

abbreviation client_files :: "client \<Rightarrow> files" where
  "client_files c \<equiv> ls_files (cl_store c)"

section \<open>Responses\<close>

abbreviation response_of :: "cenv \<Rightarrow> packet \<Rightarrow> jobj" where
  "response_of E p \<equiv> object_of (ce_ext E) (pk_payload p)"

definition code_or :: "error_code \<Rightarrow> jobj \<Rightarrow> int" where
  "code_or d response = jint_or (error_num d) (jget response ''code'')"

text \<open>\<open>value("code").toInt()\<close> without a default is 0, which is \<open>Ok\<close>.\<close>

abbreviation response_code :: "jobj \<Rightarrow> int" where
  "response_code \<equiv> code_or Ok"

abbreviation is_code :: "int \<Rightarrow> error_code \<Rightarrow> bool" where
  "is_code n code \<equiv> n = error_num code"

abbreviation response_data :: "jobj \<Rightarrow> jobj" where
  "response_data response \<equiv> jobject (jget response ''data'')"

definition message_or :: "string \<Rightarrow> jobj \<Rightarrow> string" where
  "message_or d response = jstr_or d (jget response ''message'')"

text \<open>A response that answers the request remembered in a slot clears the slot.\<close>

definition answered :: "slot \<Rightarrow> packet \<Rightarrow> (client \<Rightarrow> client) \<Rightarrow> client \<Rightarrow> client" where
  "answered s p f c = (if pk_reqid p \<noteq> cl_pending c s then c else f (set_pending s 0 c))"

section \<open>Connection\<close>

definition connectToServer :: "cenv \<Rightarrow> client \<Rightarrow> client" where
  "connectToServer E c =
     (if cl_state c \<noteq> Disconnected then c
      else if \<not> cl_tls c \<and> \<not> ce_plaintext E then
        let err = ''TLS unavailable: CA certificate not found. Refusing plaintext connection (set XYCHAT_ALLOW_PLAINTEXT=1 for development only).'';
            c1 = c\<lparr>cl_reconnect := False\<rparr>
        in if cl_loginQueued c1 then csignal (LoginFailed err) (c1\<lparr>cl_loginQueued := False\<rparr>)
           else if cl_registerQueued c1 then csignal (RegisterFailed err) (c1\<lparr>cl_registerQueued := False\<rparr>)
           else c1
      else cemit (ConnectSocket (cl_tls c)) (setState Connecting c))"

definition sendLoginRequest :: "cenv \<Rightarrow> client \<Rightarrow> client" where
  "sendLoginRequest E c =
     (let c1 = c\<lparr>cl_deviceId := ce_deviceId E\<rparr>;
          json = [(''type'', JStr ''login''), (''username'', JStr (cl_pendingUsername c1)),
                  (''password'', JStr (cl_pendingPassword c1)), (''clientVersion'', JStr ''0.2.0''),
                  (''platform'', JStr (ce_platform E)), (''deviceId'', JStr (cl_deviceId c1))]
      in send_request E LoginRequest json (\<lambda>rid v. setState LoggingIn (set_pending PLogin rid v)) c1)"

definition sendRegisterRequest :: "cenv \<Rightarrow> client \<Rightarrow> client" where
  "sendRegisterRequest E c =
     send_request E RegisterRequest
       [(''type'', JStr ''register''), (''username'', JStr (cl_pendingUsername c)),
        (''password'', JStr (cl_pendingRegisterPassword c)), (''email'', JStr (cl_pendingEmail c)),
        (''phone'', JStr (cl_pendingPhone c))]
       (\<lambda>rid v. setState LoggingIn (set_pending PRegister rid v)) c"

definition client_login :: "cenv \<Rightarrow> string \<Rightarrow> string \<Rightarrow> client \<Rightarrow> client" where
  "client_login E username password c =
     (let c1 = c\<lparr>cl_pendingUsername := username, cl_pendingPassword := password, cl_loginQueued := True,
                 cl_registerQueued := False, cl_reconnect := True\<rparr>
      in if cl_state c1 = Connected \<or> cl_state c1 = Authenticated then sendLoginRequest E c1
         else if cl_state c1 = Disconnected then connectToServer E c1 else c1)"

definition registerAccount :: "cenv \<Rightarrow> string \<Rightarrow> string \<Rightarrow> string \<Rightarrow> string \<Rightarrow> client \<Rightarrow> client" where
  "registerAccount E username password email phone c =
     (let c1 = c\<lparr>cl_pendingUsername := username, cl_pendingRegisterPassword := password,
                 cl_pendingEmail := email, cl_pendingPhone := phone, cl_registerQueued := True,
                 cl_loginQueued := False, cl_reconnect := False\<rparr>
      in if cl_state c1 = Connected \<or> cl_state c1 = Authenticated then sendRegisterRequest E c1
         else if cl_state c1 = Disconnected then connectToServer E c1 else c1)"

definition onConnected :: "cenv \<Rightarrow> client \<Rightarrow> client" where
  "onConnected E c =
     (let c1 = (setState Connected c)\<lparr>cl_heartbeat := True\<rparr>
      in if cl_loginQueued c1 then sendLoginRequest E c1
         else if cl_registerQueued c1 then sendRegisterRequest E c1 else c1)"

definition onDisconnected :: "client \<Rightarrow> client" where
  "onDisconnected c =
     (let shouldRelogin = (cl_reconnect c \<and> cl_pendingUsername c \<noteq> []);
          c1 = c\<lparr>cl_heartbeat := False, cl_renewTimer := None, cl_buffer := codec_reset (cl_buffer c),
                 cl_pending := (cl_pending c)(PRenew := 0, PLogin := 0, PRegisterKeys := 0, PFetchKeys := 0,
                   PFetchGroupKeys := 0),
                 cl_inFlight := [], cl_ready := False, cl_bootstrapping := False, cl_fetchTarget := 0,
                 cl_groupTarget := 0, cl_distributions := [], cl_groupKeys := Map.empty, cl_healQueue := []\<rparr>;
          c2 = setState Disconnected c1
      in if shouldRelogin then c2\<lparr>cl_loginQueued := True, cl_reconnectTimer := True\<rparr> else c2)"

definition onSocketError :: "string \<Rightarrow> client \<Rightarrow> client" where
  "onSocketError err c =
     (if cl_state c = Connecting \<or> cl_state c = LoggingIn then
        setState Disconnected
          (if cl_registerQueued c then csignal (RegisterFailed err) (c\<lparr>cl_registerQueued := False\<rparr>)
           else csignal (LoginFailed err) (c\<lparr>cl_loginQueued := False\<rparr>))
      else c)"

text \<open>\<open>errors\<close>: the texts of the certificate errors, joined.\<close>

definition onSslErrors :: "string \<Rightarrow> client \<Rightarrow> client" where
  "onSslErrors errors c =
     (let errMsg = ''TLS certificate error: '' @ errors;
          c1 = (if cl_registerQueued c then csignal (RegisterFailed errMsg) (c\<lparr>cl_registerQueued := False\<rparr>)
                else if cl_loginQueued c then csignal (LoginFailed errMsg) (c\<lparr>cl_loginQueued := False\<rparr>)
                else c)
      in setState Disconnected (cemit DisconnectSocket c1))"

definition sendHeartbeat :: "client \<Rightarrow> client" where
  "sendHeartbeat c =
     (if cl_state c = Disconnected \<or> cl_state c = Connecting then c
      else let (rid, c1) = nextRequestId c in cemit (HeartbeatPing rid) c1)"

section \<open>Session\<close>

definition parseExpiresAt :: "cenv \<Rightarrow> string \<Rightarrow> int" where
  "parseExpiresAt E txt =
     (if txt = [] then 0
      else case ce_iso E txt of
        None \<Rightarrow> 0
      | Some (epochSecs, None) \<Rightarrow> epochSecs
      | Some (epochSecs, Some offset) \<Rightarrow> epochSecs + offset)"

definition scheduleTokenRenew :: "cenv \<Rightarrow> client \<Rightarrow> client" where
  "scheduleTokenRenew E c =
     (let c1 = c\<lparr>cl_renewTimer := None\<rparr>
      in if cl_expiresAt c1 \<le> 0 then c1
         else
           let delayMs = (cl_expiresAt c1 - kRenewBeforeExpirySecs - ce_now E) * 1000;
               delayMs1 = (if delayMs < 1000 then 1000 else delayMs)
           in c1\<lparr>cl_renewTimer := Some (min delayMs1 2147483647)\<rparr>)"

text \<open>The wiped identity pair is the default-constructed one.\<close>

definition resetAuthState :: "cenv \<Rightarrow> client \<Rightarrow> client" where
  "resetAuthState E c =
     (let c1 = c\<lparr>cl_token := [], cl_pendingPassword := [], cl_pendingRegisterPassword := [],
                 cl_renewTimer := None, cl_expiresAt := 0, cl_userId := 0, cl_username := [],
                 cl_pendingUsername := [], cl_ready := False, cl_bootstrapping := False,
                 cl_pending := (cl_pending c)(PRenew := 0, PRegisterKeys := 0, PFetchKeys := 0, PFetchGroupKeys := 0),
                 cl_fetchTarget := 0, cl_backoff := Map.empty, cl_serverPrekeys := -1, cl_cache := [],
                 cl_cacheLoaded := False, cl_groupTarget := 0, cl_distributions := [],
                 cl_groupKeys := Map.empty, cl_healQueue := [], cl_identity := invalid_pair, cl_prekeys := []\<rparr>;
          c2 = (if ls_open (cl_store c1)
                then (let c' = do_store E clearUserData c1 in c'\<lparr>cl_store := store_close (cl_store c')\<rparr>)
                else c1)
      in csignal SessionChanged c2)"

text \<open>\<open>disconnectFromHost\<close> is called unless the socket is already unconnected; then it does nothing.\<close>

definition notifySessionExpired :: "cenv \<Rightarrow> client \<Rightarrow> client" where
  "notifySessionExpired E c =
     (if cl_expiredNotified c then c
      else
        let c1 = c\<lparr>cl_expiredNotified := True, cl_renewTimer := None, cl_expiresAt := 0\<rparr>;
            c2 = resetAuthState E (set_pending PRenew 0 c1);
            c3 = c2\<lparr>cl_loginQueued := False, cl_registerQueued := False, cl_reconnect := False\<rparr>
        in csignal SessionExpiredSignal (setState Disconnected (cemit DisconnectSocket c3)))"

definition client_logout :: "cenv \<Rightarrow> client \<Rightarrow> client" where
  "client_logout E c =
     (if cl_state c \<noteq> Authenticated then c
      else send_request E LogoutRequest [(''type'', JStr ''logout'')] (\<lambda>rid v. v) c)"

definition renewToken :: "cenv \<Rightarrow> client \<Rightarrow> client" where
  "renewToken E c =
     (if cl_state c \<noteq> Authenticated \<or> cl_token c = [] then c
      else
        let c1 = send_request E TokenRenewRequest
                   [(''type'', JStr ''token_renew''), (''token'', JStr (cl_token c))] (set_pending PRenew) c
        in c1\<lparr>cl_renewTimer := Some kRenewResponseTimeoutMs\<rparr>)"

definition handleRegisterResponse :: "cenv \<Rightarrow> packet \<Rightarrow> client \<Rightarrow> client" where
  "handleRegisterResponse E p = answered PRegister p (\<lambda>c.
     let response = response_of E p; code = code_or InternalError response;
         c1 = setState Connected (c\<lparr>cl_registerQueued := False\<rparr>)
     in if is_code code Ok then csignal RegisterSuccessful c1
        else csignal (RegisterFailed (message_or ''Unknown error'' response)) c1)"

definition handleLogoutResponse :: "cenv \<Rightarrow> client \<Rightarrow> client" where
  "handleLogoutResponse E c =
     csignal LogoutFinished (setState Connected ((resetAuthState E c)\<lparr>cl_reconnect := False\<rparr>))"

definition handleTokenRenewResponse :: "cenv \<Rightarrow> packet \<Rightarrow> client \<Rightarrow> client" where
  "handleTokenRenewResponse E p = answered PRenew p (\<lambda>c.
     let response = response_of E p; code = code_or InternalError response; data = response_data response
     in if is_code code Ok then
          scheduleTokenRenew E (csignal SessionChanged
            (c\<lparr>cl_token := jstr (jget data ''token''),
               cl_expiresAt := parseExpiresAt E (jstr (jget data ''expiresAt''))\<rparr>))
        else if is_code code SessionInvalid \<or> is_code code SessionExpired then notifySessionExpired E c
        else c\<lparr>cl_renewTimer := Some kRenewRetryDelayMs\<rparr>)"

section \<open>Plain requests\<close>

text \<open>Requests of an authenticated client whose answer goes to one slot.\<close>

definition ask :: "cenv \<Rightarrow> slot \<Rightarrow> message_type \<Rightarrow> jobj \<Rightarrow> client \<Rightarrow> client" where
  "ask E s mt json c = (if cl_state c \<noteq> Authenticated then c else send_request E mt json (set_pending s) c)"

definition searchUsers_request :: "cenv \<Rightarrow> string \<Rightarrow> client \<Rightarrow> client" where
  "searchUsers_request E query = ask E PSearch SearchUsersRequest
     [(''type'', JStr ''search_users''), (''query'', JStr query)]"

definition addContact_request :: "cenv \<Rightarrow> ident \<Rightarrow> client \<Rightarrow> client" where
  "addContact_request E userId = ask E PAddContact AddContactRequest
     [(''type'', JStr ''add_contact''), (''userId'', JNum userId)]"

definition getContacts_request :: "cenv \<Rightarrow> client \<Rightarrow> client" where
  "getContacts_request E = ask E PGetContacts GetContactsRequest [(''type'', JStr ''get_contacts'')]"

definition getConversations_request :: "cenv \<Rightarrow> client \<Rightarrow> client" where
  "getConversations_request E = ask E PGetConversations GetConversationsRequest
     [(''type'', JStr ''get_conversations'')]"

definition ackMessage :: "cenv \<Rightarrow> ident \<Rightarrow> string \<Rightarrow> client \<Rightarrow> client" where
  "ackMessage E messageId status = ask E PAck AckMessageRequest
     [(''type'', JStr ''ack_message''), (''messageId'', JNum messageId), (''status'', JStr status)]"

definition syncMessages :: "cenv \<Rightarrow> ident \<Rightarrow> ident \<Rightarrow> int \<Rightarrow> client \<Rightarrow> client" where
  "syncMessages E conversationId afterId limit c =
     (let cached = (if afterId = 0 \<and> conversationId > 0
                    then loadMessages (ce_ext E) conversationId limit (cl_store c) else []);
          c1 = (if cached = [] then c else csignal (MessagesSynced conversationId (map JObj cached) False) c)
      in ask E PSyncMessages SyncMessagesRequest
           [(''type'', JStr ''sync_messages''), (''conversationId'', JNum conversationId),
            (''afterId'', JNum afterId), (''limit'', JNum limit)] c1)"

definition syncEvents :: "cenv \<Rightarrow> ident \<Rightarrow> int \<Rightarrow> client \<Rightarrow> client" where
  "syncEvents E afterSeq limit = ask E PSyncEvents SyncEventsRequest
     [(''type'', JStr ''sync_events''), (''afterSeq'', JNum afterSeq), (''limit'', JNum limit)]"

definition others :: "ident \<Rightarrow> ident list \<Rightarrow> json list" where
  "others me ids = map JNum (filter (\<lambda>i. i > 0 \<and> i \<noteq> me) ids)"

definition createGroup_request :: "cenv \<Rightarrow> string \<Rightarrow> ident list \<Rightarrow> client \<Rightarrow> client" where
  "createGroup_request E name memberIds c = ask E PCreateGroup CreateGroupRequest
     [(''type'', JStr ''create_group''), (''name'', JStr name),
      (''memberIds'', JArr (others (cl_userId c) memberIds))] c"

definition inviteGroupMembers :: "cenv \<Rightarrow> ident \<Rightarrow> ident list \<Rightarrow> client \<Rightarrow> client" where
  "inviteGroupMembers E conversationId userIds c = ask E PInviteGroup InviteGroupMembersRequest
     [(''type'', JStr ''invite_group_members''), (''conversationId'', JNum conversationId),
      (''userIds'', JArr (others (cl_userId c) userIds))] c"

definition leaveGroup :: "cenv \<Rightarrow> ident \<Rightarrow> client \<Rightarrow> client" where
  "leaveGroup E conversationId = ask E PLeaveGroup LeaveGroupRequest
     [(''type'', JStr ''leave_group''), (''conversationId'', JNum conversationId)]"

definition kickGroupMember :: "cenv \<Rightarrow> ident \<Rightarrow> ident \<Rightarrow> client \<Rightarrow> client" where
  "kickGroupMember E conversationId userId = ask E PKickGroup KickGroupMemberRequest
     [(''type'', JStr ''kick_group_member''), (''conversationId'', JNum conversationId),
      (''userId'', JNum userId)]"

definition getGroupInfo :: "cenv \<Rightarrow> ident \<Rightarrow> client \<Rightarrow> client" where
  "getGroupInfo E conversationId = ask E PGroupInfo GetGroupInfoRequest
     [(''type'', JStr ''get_group_info''), (''conversationId'', JNum conversationId)]"

definition setPrefs_request :: "cenv \<Rightarrow> ident \<Rightarrow> bool \<Rightarrow> bool \<Rightarrow> client \<Rightarrow> client" where
  "setPrefs_request E conversationId pinned muted c =
     (if conversationId \<le> 0 then c
      else ask E PSetPrefs SetConversationPrefsRequest
        [(''type'', JStr ''set_conversation_prefs''), (''conversationId'', JNum conversationId),
         (''pinned'', JBool pinned), (''muted'', JBool muted)] c)"

definition deleteMessage :: "cenv \<Rightarrow> ident \<Rightarrow> client \<Rightarrow> client" where
  "deleteMessage E messageId c =
     (if messageId \<le> 0 then c
      else ask E PDelete DeleteMessageRequest
        [(''type'', JStr ''delete_message''), (''messageId'', JNum messageId)] c)"

section \<open>Their responses\<close>

definition handleSearchUsersResponse :: "cenv \<Rightarrow> packet \<Rightarrow> client \<Rightarrow> client" where
  "handleSearchUsersResponse E p = answered PSearch p (\<lambda>c.
     let response = response_of E p
     in if is_code (response_code response) Ok
        then csignal (SearchUsersResult (jarr (jget (response_data response) ''users''))) c else c)"

definition handleAddContactResponse :: "cenv \<Rightarrow> packet \<Rightarrow> client \<Rightarrow> client" where
  "handleAddContactResponse E p = answered PAddContact p (\<lambda>c.
     let response = response_of E p
     in if \<not> is_code (response_code response) Ok
        then csignal (MessageSendFailed (message_or ''Failed to add contact'' response)) c else c)"

definition handleGetContactsResponse :: "cenv \<Rightarrow> packet \<Rightarrow> client \<Rightarrow> client" where
  "handleGetContactsResponse E p = answered PGetContacts p (\<lambda>c.
     let response = response_of E p
     in if is_code (response_code response) Ok
        then csignal (ContactsResult (jarr (jget (response_data response) ''contacts''))) c else c)"

definition handleAckMessageResponse :: "cenv \<Rightarrow> packet \<Rightarrow> client \<Rightarrow> client" where
  "handleAckMessageResponse E p = answered PAck p (\<lambda>c.
     let response = response_of E p
     in if is_code (response_code response) Ok
        then csignal (MessageAcked (jlonglong (jget (response_data response) ''messageId''))) c else c)"

text \<open>The answers to group requests: an error is reported, a success goes on with its data.\<close>

definition group_answer ::
  "cenv \<Rightarrow> slot \<Rightarrow> string \<Rightarrow> packet \<Rightarrow> (jobj \<Rightarrow> client \<Rightarrow> client) \<Rightarrow> client \<Rightarrow> client" where
  "group_answer E s failure p f = answered s p (\<lambda>c.
     let response = response_of E p
     in if \<not> is_code (response_code response) Ok
        then csignal (GroupRequestFailed (message_or failure response)) c
        else f (response_data response) c)"

definition handleCreateGroupResponse :: "cenv \<Rightarrow> packet \<Rightarrow> client \<Rightarrow> client" where
  "handleCreateGroupResponse E p = group_answer E PCreateGroup ''Failed to create group'' p (\<lambda>data c.
     let conv = jset ''unreadCount'' (JNum 0) (jset ''type'' (JStr ''group'') data);
         c1 = do_store E (\<lambda>L. upsertConversation L conv) c
     in csignal (GroupCreated (jlonglong (jget data ''conversationId'')) (jstr (jget data ''name'')))
          (getConversations_request E c1))"

definition handleInviteGroupMembersResponse :: "cenv \<Rightarrow> packet \<Rightarrow> client \<Rightarrow> client" where
  "handleInviteGroupMembersResponse E p = group_answer E PInviteGroup ''Failed to invite members'' p (\<lambda>data c.
     csignal (GroupMembersInvited (jlonglong (jget data ''conversationId''))) (getConversations_request E c))"

definition handleLeaveGroupResponse :: "cenv \<Rightarrow> packet \<Rightarrow> client \<Rightarrow> client" where
  "handleLeaveGroupResponse E p = group_answer E PLeaveGroup ''Failed to leave group'' p (\<lambda>data c.
     let conversationId = jlonglong (jget data ''conversationId'');
         c1 = c\<lparr>cl_groupKeys := (cl_groupKeys c)(conversationId := None)\<rparr>;
         c2 = (if ls_open (cl_store c1) then do_store E (\<lambda>L. removeSenderKeysForGroup L conversationId) c1 else c1)
     in csignal (GroupLeft conversationId) (getConversations_request E c2))"

definition handleKickGroupMemberResponse :: "cenv \<Rightarrow> packet \<Rightarrow> client \<Rightarrow> client" where
  "handleKickGroupMemberResponse E p = group_answer E PKickGroup ''Failed to remove member'' p (\<lambda>data c.
     csignal (GroupMemberKicked (jlonglong (jget data ''conversationId'')) (jlonglong (jget data ''removedUserId''))) c)"

definition handleGetGroupInfoResponse :: "cenv \<Rightarrow> packet \<Rightarrow> client \<Rightarrow> client" where
  "handleGetGroupInfoResponse E p = group_answer E PGroupInfo ''Failed to get group info'' p
     (\<lambda>data. csignal (GroupInfoResult data))"

section \<open>Conversation preferences, read cursors, receipts\<close>

definition applyConversationPrefs :: "cenv \<Rightarrow> ident \<Rightarrow> bool \<Rightarrow> bool \<Rightarrow> client \<Rightarrow> client" where
  "applyConversationPrefs E conversationId pinned muted c =
     (if conversationId \<le> 0 then c
      else
        let c1 = (if ls_open (cl_store c) then
                    (let c' = do_store E (\<lambda>L. setConversationPrefs L conversationId pinned muted) c
                     in csignal (ConversationsResult (map JObj (loadConversations (ce_ext E) (cl_store c')))) c')
                  else c)
        in csignal (ConversationPrefsChanged conversationId pinned muted) c1)"

definition prefs_from :: "cenv \<Rightarrow> jobj \<Rightarrow> client \<Rightarrow> client" where
  "prefs_from E payload = applyConversationPrefs E (jlonglong (jget payload ''conversationId''))
     (jbool (jget payload ''pinned'')) (jbool (jget payload ''muted''))"

definition handleSetConversationPrefsResponse :: "cenv \<Rightarrow> packet \<Rightarrow> client \<Rightarrow> client" where
  "handleSetConversationPrefsResponse E p = answered PSetPrefs p (\<lambda>c.
     let response = response_of E p
     in if \<not> is_code (response_code response) Ok then c else prefs_from E (response_data response) c)"

definition handleConversationPrefsNotification :: "cenv \<Rightarrow> packet \<Rightarrow> client \<Rightarrow> client" where
  "handleConversationPrefsNotification E p = prefs_from E (response_of E p)"

definition applyReadCursor :: "cenv \<Rightarrow> ident \<Rightarrow> ident \<Rightarrow> client \<Rightarrow> client" where
  "applyReadCursor E conversationId readMessageId c =
     (if conversationId \<le> 0 \<or> readMessageId \<le> 0 then c
      else
        let c1 = (if ls_open (cl_store c) then
                    (let c' = do_store E (\<lambda>L. markConversationRead L conversationId readMessageId (cl_userId c)) c
                     in csignal (ConversationsResult (map JObj (loadConversations (ce_ext E) (cl_store c')))) c')
                  else c)
        in csignal (ReadCursorAdvanced conversationId readMessageId) c1)"

definition handleReadCursorNotification :: "cenv \<Rightarrow> packet \<Rightarrow> client \<Rightarrow> client" where
  "handleReadCursorNotification E p =
     (let ob = response_of E p
      in applyReadCursor E (jlonglong (jget ob ''conversationId'')) (jlonglong (jget ob ''readMessageId'')))"

definition handleMessageStatusUpdate :: "cenv \<Rightarrow> packet \<Rightarrow> client \<Rightarrow> client" where
  "handleMessageStatusUpdate E p c =
     (let msg = response_of E p; msgId = jlonglong (jget msg ''messageId''); status = jstr (jget msg ''status'')
      in if msgId > 0 \<and> status \<noteq> [] then
           csignal (MessageStatusChanged msgId status) (do_store E (\<lambda>L. ls_updateMessageStatus L msgId status) c)
         else c)"

end
