(* ===== verification/Client_Crypto.thy ===== *)
theory Client_Crypto
  imports Client_Core
begin

text \<open>
  Chat-Client/core/NetworkManager.cpp, the encryption of messages: to the devices of a user, from the
  entry of this device, and the sender keys of a group with their distribution and rotation. A QSet or
  a QHash is a list here, and a loop over it follows the order of the insertions.
\<close>

section \<open>To the devices of a user\<close>

definition fresh_pair :: "cenv \<Rightarrow> client \<Rightarrow> key_pair \<times> client" where
  "fresh_pair E c = (let (g, c1) = draw (ce_x25519 E) c in (generateX25519KeyPair g, c1))"

definition seal :: "cenv \<Rightarrow> bytes \<Rightarrow> bytes \<Rightarrow> client \<Rightarrow> gcm_result \<times> client" where
  "seal E key plain c =
     (let (random, c1) = draw (\<lambda>n. ce_random E n 0) c in (aesGcmEncrypt (ce_ext E) random key plain, c1))"

text \<open>One bundle: \<open>None\<close> ends the encryption of the whole message.\<close>

definition encrypt_to_device :: "cenv \<Rightarrow> bytes \<Rightarrow> jobj \<Rightarrow> client \<Rightarrow> envelope_entry option \<times> client" where
  "encrypt_to_device E plainBytes bundle c =
     (let X = ce_ext E;
          deviceId = jstr (jget bundle ''deviceId''); prekeyId = jdouble (jget bundle ''prekeyId'');
          identityPub = x_fromBase64Lax X (jstr (jget bundle ''identityPub''));
          prekeyPub = x_fromBase64Lax X (jstr (jget bundle ''prekeyPub''))
      in if deviceId = [] \<or> prekeyId \<le> 0 then (None, c)
         else
           let (eph, c1) = fresh_pair E c
           in if \<not> kp_valid eph then (None, c1)
              else
                let shared = ecdh X (kp_privateKey eph) prekeyPub @ ecdh X (kp_privateKey eph) identityPub
                in if length shared \<noteq> 64 then (None, c1)
                   else
                     let key = e2ee_deriveMessageKey X shared
                     in if key = [] then (None, c1)
                        else
                          let (gcm, c2) = seal E key plainBytes c1
                          in if \<not> gr_valid gcm then (None, c2)
                             else (Some \<lparr>ee_deviceId = deviceId, ee_prekeyId = prekeyId,
                                     ee_eph = kp_publicKey eph, ee_iv = gr_iv gcm,
                                     ee_ciphertext = gr_ciphertext gcm\<rparr>, c2))"

fun encrypt_to_devices :: "cenv \<Rightarrow> bytes \<Rightarrow> json list \<Rightarrow> client \<Rightarrow> envelope_entry list option \<times> client" where
  "encrypt_to_devices E plainBytes [] c = (Some [], c)"
| "encrypt_to_devices E plainBytes (v # vs) c =
     (case encrypt_to_device E plainBytes (jobject v) c of
        (None, c1) \<Rightarrow> (None, c1)
      | (Some e, c1) \<Rightarrow>
          (case encrypt_to_devices E plainBytes vs c1 of
             (None, c2) \<Rightarrow> (None, c2)
           | (Some es, c2) \<Rightarrow> (Some (e # es), c2)))"

text \<open>The copy for this device, under the identity key alone; without it the message still goes out.\<close>

definition encrypt_self_copy :: "cenv \<Rightarrow> bytes \<Rightarrow> client \<Rightarrow> envelope_entry list \<times> client" where
  "encrypt_self_copy E plainBytes c =
     (if \<not> kp_valid (cl_identity c) \<or> cl_deviceId c = [] then ([], c)
      else
        let (eph, c1) = fresh_pair E c
        in if \<not> kp_valid eph then ([], c1)
           else
             let dh = ecdh (ce_ext E) (kp_privateKey eph) (kp_publicKey (cl_identity c1))
             in if length dh \<noteq> 32 then ([], c1)
                else
                  let (gcm, c2) = seal E (e2ee_deriveMessageKey (ce_ext E) (dh @ dh)) plainBytes c1
                  in if \<not> gr_valid gcm then ([], c2)
                     else ([\<lparr>ee_deviceId = cl_deviceId c2, ee_prekeyId = SelfCopyPrekeyId,
                             ee_eph = kp_publicKey eph, ee_iv = gr_iv gcm,
                             ee_ciphertext = gr_ciphertext gcm\<rparr>], c2))"

definition envelope_text :: "cenv \<Rightarrow> jobj \<Rightarrow> string" where
  "envelope_text E ob = x_compact (ce_ext E) (JObj ob)"

definition encryptForUser :: "cenv \<Rightarrow> json list \<Rightarrow> string \<Rightarrow> client \<Rightarrow> string \<times> client" where
  "encryptForUser E bundles plaintext c =
     (let plainBytes = x_utf8 (ce_ext E) plaintext
      in case encrypt_to_devices E plainBytes bundles c of
           (None, c1) \<Rightarrow> ([], c1)
         | (Some es, c1) \<Rightarrow>
             let (own, c2) = encrypt_self_copy E plainBytes c1; entries = es @ own
             in if entries = [] then ([], c2) else (envelope_text E (encodeEnvelope (ce_ext E) entries), c2))"

section \<open>From the entry of this device\<close>

text \<open>The first prekey that opens the entry is used up.\<close>

fun open_with_prekeys ::
  "ext \<Rightarrow> bytes \<Rightarrow> envelope_entry \<Rightarrow> prekey_entry list \<Rightarrow> (bytes \<times> prekey_entry list) option" where
  "open_with_prekeys X identityPriv e [] = None"
| "open_with_prekeys X identityPriv e (p # ps) =
     (let shared = ecdh X (pk_privateKey p) (ee_eph e) @ ecdh X identityPriv (ee_eph e);
          plain = aesGcmDecrypt X (e2ee_deriveMessageKey X shared) (ee_iv e) (ee_ciphertext e)
      in if plain \<noteq> [] then Some (plain, ps)
         else map_option (\<lambda>(t, qs). (t, p # qs)) (open_with_prekeys X identityPriv e ps))"

definition save_prekeys :: "cenv \<Rightarrow> client \<Rightarrow> client" where
  "save_prekeys E c =
     snd (on_files (savePrekeys (ce_ext E) (ce_part E) (cl_username c) (cl_deviceId c) (cl_prekeys c)) c)"

definition decryptEnvelopeEntry :: "cenv \<Rightarrow> envelope_entry \<Rightarrow> client \<Rightarrow> bytes \<times> client" where
  "decryptEnvelopeEntry E e c =
     (let X = ce_ext E; identityPriv = kp_privateKey (cl_identity c)
      in if \<not> kp_valid (cl_identity c) \<or> ee_deviceId e \<noteq> cl_deviceId c then ([], c)
         else if ee_prekeyId e = SelfCopyPrekeyId then
           let dh = ecdh X identityPriv (ee_eph e)
           in if length dh \<noteq> 32 then ([], c)
              else (aesGcmDecrypt X (e2ee_deriveMessageKey X (dh @ dh)) (ee_iv e) (ee_ciphertext e), c)
         else case open_with_prekeys X identityPriv e (cl_prekeys c) of
           None \<Rightarrow> ([], c)
         | Some (plain, rest) \<Rightarrow> (plain, save_prekeys E (c\<lparr>cl_prekeys := rest\<rparr>)))"

fun first_opened :: "cenv \<Rightarrow> envelope_entry list \<Rightarrow> client \<Rightarrow> bytes \<times> client" where
  "first_opened E [] c = ([], c)"
| "first_opened E (e # es) c =
     (let (plain, c1) = decryptEnvelopeEntry E e c in if plain \<noteq> [] then (plain, c1) else first_opened E es c1)"

text \<open>The text, and whether it could not be decrypted.\<close>

definition decryptIncomingContent :: "cenv \<Rightarrow> string \<Rightarrow> client \<Rightarrow> string \<times> bool \<times> client" where
  "decryptIncomingContent E content c =
     (if \<not> looksLikeEnvelope (ce_ext E) content then (content, False, c)
      else case decodeEnvelope (ce_ext E) content of
        None \<Rightarrow> ([], True, c)
      | Some entries \<Rightarrow>
          let (plain, c1) = first_opened E entries c
          in if plain \<noteq> [] then (x_fromUtf8 (ce_ext E) plain, False, c1) else ([], True, c1))"

definition cache_get :: "ident \<Rightarrow> client \<Rightarrow> string option" where
  "cache_get i c = map_of (cl_cache c) i"

definition cache_put :: "ident \<Rightarrow> string \<Rightarrow> client \<Rightarrow> client" where
  "cache_put i txt c = c\<lparr>cl_cache := (i, txt) # filter (\<lambda>(j, u). j \<noteq> i) (cl_cache c)\<rparr>"

text \<open>A decrypted text goes to the cache in memory and to the local store, or to the cache file.\<close>

definition remember_text :: "cenv \<Rightarrow> ident \<Rightarrow> string \<Rightarrow> client \<Rightarrow> client" where
  "remember_text E msgId plain c =
     (if msgId \<le> 0 then c
      else
        let c1 = cache_put msgId plain c;
            c2 = (if length (cl_cache c1) > 2000 then c1\<lparr>cl_cache := []\<rparr> else c1);
            (saved, c3) = on_store E (\<lambda>L. saveDecryptedContent L 0 msgId plain) c2
        in if saved then c3
           else snd (on_files (saveDecryptCache (ce_ext E) (ce_part E) (cl_username c3) (cl_deviceId c3)
                                 (cl_cache c3)) c3))"

definition undecryptable_msg :: "jobj \<Rightarrow> jobj" where
  "undecryptable_msg msg = jset ''undecryptable'' (JBool True) (jset ''content'' (JStr []) msg)"

section \<open>Group messages\<close>

definition ensureGroupSenderKey :: "cenv \<Rightarrow> ident \<Rightarrow> client \<Rightarrow> sender_key option \<times> client" where
  "ensureGroupSenderKey E conversationId c =
     (if conversationId \<le> 0 \<or> cl_userId c \<le> 0 \<or> cl_deviceId c = [] then (None, c)
      else case (case cl_groupKeys c conversationId of
                   Some k \<Rightarrow> if sk_valid k then Some k else None | None \<Rightarrow> None) of
        Some k \<Rightarrow> (Some k, c)
      | None \<Rightarrow>
          if \<not> ls_open (cl_store c) then (None, c)
          else
            let keyId = latestSenderKeyId conversationId (cl_userId c) (cl_deviceId c) (cl_store c)
            in if keyId = [] then (None, c)
               else
                 let (loaded, chainKey, pub, priv, iteration) =
                       loadSenderKey (ce_ext E) conversationId (cl_userId c) (cl_deviceId c) keyId (cl_store c);
                     stored = \<lparr>sk_keyId = keyId, sk_chainKey = chainKey, sk_publicSigningKey = pub,
                       sk_privateSigningKey = priv, sk_iteration = iteration,
                       sk_valid = (keyId \<noteq> [] \<and> length chainKey = 32 \<and> length pub = 32 \<and> length priv = 32)\<rparr>
                 in if loaded \<and> sk_valid stored
                    then (Some stored, c\<lparr>cl_groupKeys := (cl_groupKeys c)(conversationId \<mapsto> stored)\<rparr>)
                    else (None, c))"

definition save_own_key :: "cenv \<Rightarrow> ident \<Rightarrow> sender_key \<Rightarrow> client \<Rightarrow> client" where
  "save_own_key E conversationId k c =
     (let c1 = (if ls_open (cl_store c)
                then do_store E (\<lambda>L. saveSenderKey L conversationId (cl_userId c) (cl_deviceId c) (sk_keyId k)
                       (sk_chainKey k) (sk_publicSigningKey k) (sk_privateSigningKey k) (sk_iteration k)) c
                else c)
      in c1\<lparr>cl_groupKeys := (cl_groupKeys c1)(conversationId \<mapsto> k)\<rparr>)"

definition encryptGroupMessage :: "cenv \<Rightarrow> ident \<Rightarrow> string \<Rightarrow> client \<Rightarrow> string \<times> client" where
  "encryptGroupMessage E conversationId plaintext c =
     (case ensureGroupSenderKey E conversationId c of
        (None, c1) \<Rightarrow> ([], c1)
      | (Some key, c1) \<Rightarrow>
          (case cl_groupKeys c1 conversationId of
             None \<Rightarrow> ([], c1)
           | Some mutableKey \<Rightarrow>
               if \<not> sk_valid key \<or> \<not> sk_valid mutableKey then ([], c1)
               else
                 let (random, c2) = draw (\<lambda>n. ce_random E n 0) c1;
                     (encrypted, key1) = encryptMessage (ce_ext E) random mutableKey (x_utf8 (ce_ext E) plaintext)
                 in if \<not> em_valid encrypted then ([], c2)
                    else
                      let c3 = save_own_key E conversationId key1 c2
                      in (envelope_text E (encodeGroupMessage (ce_ext E) encrypted (cl_deviceId c3)), c3)))"

text \<open>The result, and the message rewritten in place.\<close>

definition decryptGroupMessageObject :: "cenv \<Rightarrow> jobj \<Rightarrow> client \<Rightarrow> bool \<times> jobj \<times> client" where
  "decryptGroupMessageObject E msg c =
     (let X = ce_ext E; msgId = jlonglong (jget msg ''messageId'');
          convId = jlonglong (jget msg ''conversationId'')
      in case decodeGroupMessage X (jstr (jget msg ''content'')) of
           (False, _) \<Rightarrow> (False, undecryptable_msg msg, c)
         | (True, encrypted, device) \<Rightarrow>
             let dev = (case device of None \<Rightarrow> [] | Some d \<Rightarrow> d);
                 sender0 = jlonglong (jget msg ''senderId'');
                 found = (if ls_open (cl_store c) \<and> sender0 \<le> 0
                          then senderUserIdForKey convId dev (em_keyId encrypted) (cl_store c) else 0);
                 sender = (if ls_open (cl_store c) \<and> sender0 \<le> 0 then found else sender0);
                 msg1 = (if found > 0 then jset ''senderId'' (JNum found) msg else msg);
                 (loaded, chainKey, pub, priv, iteration) =
                   (if ls_open (cl_store c)
                    then loadSenderKey X convId sender dev (em_keyId encrypted) (cl_store c)
                    else (False, [], [], [], 0))
             in if \<not> loaded then (False, undecryptable_msg msg1, c)
                else
                  let skippedKeys = loadSkippedMessageKeys X convId sender dev (em_keyId encrypted) (cl_store c);
                      (plain, rc) = decryptMessage X pub encrypted
                        \<lparr>rc_chainKey = chainKey, rc_iteration = iteration, rc_skipped = Some skippedKeys\<rparr>
                  in if plain = [] then (False, undecryptable_msg msg1, c)
                     else
                       let txt = x_fromUtf8 X plain;
                           after = (case rc_skipped rc of None \<Rightarrow> [] | Some m \<Rightarrow> m);
                           c1 = remember_text E msgId txt c;
                           c2 = do_store E (\<lambda>L. saveSenderKey L convId sender dev (em_keyId encrypted)
                                  (rc_chainKey rc) pub [] (rc_iteration rc)) c1;
                           c3 = (if ls_open (cl_store c2) \<and> (after \<noteq> [] \<or> skippedKeys \<noteq> [])
                                 then do_store E (\<lambda>L. saveSkippedMessageKeys L convId sender dev
                                        (em_keyId encrypted) after) c2
                                 else c2)
                       in (True, jset ''content'' (JStr txt) msg1, c3))"

section \<open>Sender key distribution\<close>

fun own_chain_key :: "cenv \<Rightarrow> distribution_entry list \<Rightarrow> client \<Rightarrow> bytes \<times> client" where
  "own_chain_key E [] c = ([], c)"
| "own_chain_key E (e # es) c =
     (if de_userId e = cl_userId c \<and> de_deviceId e = cl_deviceId c then
        let (plain, c1) = decryptEnvelopeEntry E (de_envelope e) c
        in if plain \<noteq> [] then (plain, c1) else own_chain_key E es c1
      else own_chain_key E es c)"

definition processGroupSenderKeyDistribution :: "cenv \<Rightarrow> jobj \<Rightarrow> client \<Rightarrow> bool \<times> client" where
  "processGroupSenderKeyDistribution E msg c =
     (let convId = jlonglong (jget msg ''conversationId''); content = jstr (jget msg ''content'')
      in if convId \<le> 0 \<or> content = [] then (False, c)
         else
           let (ok, d) = decodeDistribution (ce_ext E) content; key = di_key d
           in if \<not> ok then (False, c)
              else if di_groupId d \<noteq> convId \<or> di_senderUserId d \<le> 0 \<or> di_senderDeviceId d = [] then (False, c)
              else
                let (b64, c1) = own_chain_key E (di_entries d) c
                in if b64 = [] then (False, c1)
                   else
                     let chainKey = x_fromBase64 (ce_ext E) (chars_of b64)
                     in if length chainKey \<noteq> 32 then (False, c1)
                        else if ls_open (cl_store c1) then
                          (True, do_store E (\<lambda>L. saveSenderKey L convId (di_senderUserId d)
                             (di_senderDeviceId d) (sk_keyId key) chainKey (sk_publicSigningKey key) []
                             (sk_iteration key)) c1)
                        else (True, c1))"

text \<open>The members' bundles, in the order of their keys; a member that cannot be reached is skipped.\<close>

fun distribution_entries ::
  "cenv \<Rightarrow> string \<Rightarrow> jobj \<Rightarrow> client \<Rightarrow> distribution_entry list \<times> client" where
  "distribution_entries E chainKeyB64 [] c = ([], c)"
| "distribution_entries E chainKeyB64 ((k, v) # rest) c =
     (let userId = (case parse_int 64 k of None \<Rightarrow> 0 | Some n \<Rightarrow> n); bundles = jarr v
      in if userId \<le> 0 \<or> bundles = [] then distribution_entries E chainKeyB64 rest c
         else
           let (envelope, c1) = encryptForUser E bundles chainKeyB64 c;
               devices = (if envelope = [] then None else decodeEnvelope (ce_ext E) envelope);
               here = (case devices of None \<Rightarrow> []
                       | Some es \<Rightarrow> map (\<lambda>e. \<lparr>de_userId = userId, de_deviceId = ee_deviceId e, de_envelope = e\<rparr>) es);
               (others, c2) = distribution_entries E chainKeyB64 rest c1
           in (here @ others, c2))"

definition buildGroupSenderKeyDistribution :: "cenv \<Rightarrow> ident \<Rightarrow> jobj \<Rightarrow> client \<Rightarrow> string \<times> client" where
  "buildGroupSenderKeyDistribution E conversationId bundlesByUser c =
     (if conversationId \<le> 0 \<or> bundlesByUser = [] then ([], c)
      else
        let (pair, c1) = draw (ce_ed25519 E) c;
            (random, c2) = draw (\<lambda>n. ce_random E n 0) c1;
            key = generateSenderKey (ce_ext E) pair random
        in if \<not> sk_valid key then ([], c2)
           else
             let (entries, c3) = distribution_entries E (x_toBase64 (ce_ext E) (sk_chainKey key)) bundlesByUser c2
             in if entries = [] then ([], c3)
                else
                  let c4 = save_own_key E conversationId key c3
                  in (envelope_text E (encodeDistribution (ce_ext E) conversationId (cl_userId c4)
                        (cl_deviceId c4) key entries), c4))"

section \<open>Messages\<close>

definition decryptMessageObject :: "cenv \<Rightarrow> jobj \<Rightarrow> client \<Rightarrow> jobj \<times> client" where
  "decryptMessageObject E msg c =
     (let msgId = jlonglong (jget msg ''messageId'');
          kept = (if msgId > 0 then cache_get msgId c else None);
          stored = (if msgId > 0 then loadDecryptedContent (ce_ext E) msgId (cl_store c) else []);
          content = jstr (jget msg ''content'')
      in case kept of
           Some txt \<Rightarrow> (jset ''content'' (JStr txt) msg, c)
         | None \<Rightarrow>
             if stored \<noteq> [] then (jset ''content'' (JStr stored) msg, cache_put msgId stored c)
             else if looksLikeDistribution (ce_ext E) content then
               (jset ''contentType'' (JStr ''system'') (jset ''content'' (JStr ''[Sender key updated]'') msg),
                snd (processGroupSenderKeyDistribution E msg c))
             else if looksLikeGroupMessage (ce_ext E) content then
               snd (decryptGroupMessageObject E msg c)
             else
               let (plain, undecryptable, c1) = decryptIncomingContent E content c
               in if undecryptable then (undecryptable_msg msg, c1)
                  else (jset ''content'' (JStr plain) msg, remember_text E msgId plain c1))"

text \<open>The new text of an edited message, or \<open>None\<close> where it cannot be decrypted.\<close>

definition decryptEditContent :: "cenv \<Rightarrow> jobj \<Rightarrow> client \<Rightarrow> string option \<times> client" where
  "decryptEditContent E data c =
     (let messageId = jlonglong (jget data ''messageId''); content = jstr (jget data ''content'')
      in if looksLikeGroupMessage (ce_ext E) content then
           let (ok, tmp, c1) = decryptGroupMessageObject E data c; plaintext = jstr (jget tmp ''content'')
           in (if ok \<and> plaintext \<noteq> [] then Some plaintext else None, c1)
         else if looksLikeDistribution (ce_ext E) content then (None, c)
         else
           let (plaintext, undecryptable, c1) = decryptIncomingContent E content c
           in if undecryptable \<or> plaintext = [] then (None, c1)
              else (Some plaintext, remember_text E messageId plaintext c1))"

section \<open>Asking for the keys of a group\<close>

definition sendFetchGroupKeysRequest :: "cenv \<Rightarrow> ident \<Rightarrow> client \<Rightarrow> client" where
  "sendFetchGroupKeysRequest E conversationId c =
     (if cl_state c \<noteq> Authenticated \<or> conversationId \<le> 0 then c
      else send_request E FetchGroupKeysRequest
        [(''type'', JStr ''fetch_group_keys''), (''conversationId'', JNum conversationId)]
        (\<lambda>rid v. (set_pending PFetchGroupKeys rid v)\<lparr>cl_groupTarget := conversationId\<rparr>) c)"

definition queue_heal :: "ident \<Rightarrow> client \<Rightarrow> client" where
  "queue_heal g c = (if g \<in> set (cl_healQueue c) then c else c\<lparr>cl_healQueue := cl_healQueue c @ [g]\<rparr>)"

definition healGroupSenderKey :: "cenv \<Rightarrow> ident \<Rightarrow> client \<Rightarrow> client" where
  "healGroupSenderKey E conversationId c =
     (if conversationId \<le> 0 then c
      else if cl_groupTarget c = conversationId \<or> conversationId \<in> set (cl_healQueue c) then c
      else if cl_state c \<noteq> Authenticated \<or> \<not> cl_ready c \<or> cl_pending c PFetchGroupKeys \<noteq> 0
      then queue_heal conversationId c
      else sendFetchGroupKeysRequest E conversationId c)"

definition drainHealQueue :: "cenv \<Rightarrow> client \<Rightarrow> client" where
  "drainHealQueue E c =
     (if cl_state c \<noteq> Authenticated \<or> \<not> cl_ready c \<or> cl_pending c PFetchGroupKeys \<noteq> 0 then c
      else case cl_healQueue c of
        [] \<Rightarrow> c
      | g # gs \<Rightarrow> sendFetchGroupKeysRequest E g (c\<lparr>cl_healQueue := gs\<rparr>))"

definition inflight_put :: "64 word \<Rightarrow> string \<Rightarrow> client \<Rightarrow> client" where
  "inflight_put rid i c = c\<lparr>cl_inFlight := filter (\<lambda>(r, j). r \<noteq> rid) (cl_inFlight c) @ [(rid, i)]\<rparr>"

definition group_message_json :: "ident \<Rightarrow> string \<Rightarrow> string \<Rightarrow> string \<Rightarrow> jobj" where
  "group_message_json conversationId content contentType clientMessageId =
     [(''type'', JStr ''send_message''), (''conversationId'', JNum conversationId), (''content'', JStr content),
      (''contentType'', JStr contentType), (''clientMessageId'', JStr clientMessageId)]"

definition handleFetchGroupKeysResponse :: "cenv \<Rightarrow> packet \<Rightarrow> client \<Rightarrow> client" where
  "handleFetchGroupKeysResponse E p = answered PFetchGroupKeys p (\<lambda>c.
     let convId = cl_groupTarget c; c1 = c\<lparr>cl_groupTarget := 0\<rparr>;
         response = response_of E p; code = response_code response
     in if \<not> is_code code Ok \<or> convId \<le> 0 then
          let transient = (is_code code RateLimited \<or> is_code code LoginRateLimited
                \<or> is_code code InternalError \<or> is_code code Timeout)
          in if transient \<and> convId > 0 then cemit (After 5000 DrainHealing) (queue_heal convId c1)
             else drainHealQueue E c1
        else
          let (distribution, c2) = buildGroupSenderKeyDistribution E convId
                (jobject (jget (response_data response) ''bundles'')) c1;
              c3 = (if distribution = [] then c2
                    else
                      let (clientMessageId, c') = draw (ce_uuid E) c2
                      in send_request E SendMessageRequest
                           (group_message_json convId distribution ''sender_key_distribution'' clientMessageId)
                           (\<lambda>rid v. let v1 = inflight_put rid clientMessageId v
                              in v1\<lparr>cl_distributions := List.insert clientMessageId (cl_distributions v1)\<rparr>) c')
          in drainHealQueue E c3)"

text \<open>An Error packet frees the slot of the request that it answers.\<close>

definition handleErrorResponse :: "cenv \<Rightarrow> packet \<Rightarrow> client \<Rightarrow> client" where
  "handleErrorResponse E p c =
     (let code = response_code (response_of E p); rid = pk_reqid p
      in if is_code code SessionInvalid \<or> is_code code SessionExpired then notifySessionExpired E c
         else
           let c1 = (if rid \<noteq> 0 \<and> rid = cl_pending c PFetchGroupKeys
                     then drainHealQueue E ((set_pending PFetchGroupKeys 0 c)\<lparr>cl_groupTarget := 0\<rparr>) else c);
               c2 = (if rid \<noteq> 0 \<and> rid = cl_pending c1 PFetchKeys
                     then (set_pending PFetchKeys 0 c1)\<lparr>cl_fetchTarget := 0\<rparr> else c1)
           in if rid \<noteq> 0 \<and> rid = cl_pending c2 PRegisterKeys
              then (set_pending PRegisterKeys 0 c2)\<lparr>cl_bootstrapping := False\<rparr> else c2)"

end
