(* ===== verification/Client_Outbox.thy ===== *)
theory Client_Outbox
  imports Client_Crypto
begin

text \<open>
  Chat-Client/core/NetworkManager.cpp, sending: the outbox and its flush, the registration of the
  device's keys, the fetch of a recipient's keys, the edit of a message.
\<close>

section \<open>Registration of the keys\<close>

fun make_prekeys :: "cenv \<Rightarrow> nat \<Rightarrow> client \<Rightarrow> prekey_entry list \<times> client" where
  "make_prekeys E 0 c = ([], c)"
| "make_prekeys E (Suc n) c =
     (let (kp, c1) = fresh_pair E c
      in if \<not> kp_valid kp then ([], c1)
         else
           let (ps, c2) = make_prekeys E n c1
           in (\<lparr>pk_publicKey = kp_publicKey kp, pk_privateKey = kp_privateKey kp\<rparr> # ps, c2))"

definition PrekeyTarget :: int where "PrekeyTarget = 20"
definition PrekeyLowWatermark :: int where "PrekeyLowWatermark = 5"

definition sendRegisterKeysRequest :: "cenv \<Rightarrow> client \<Rightarrow> client" where
  "sendRegisterKeysRequest E c =
     (let X = ce_ext E;
          json = [(''type'', JStr ''register_keys''),
                  (''identityPub'', JStr (x_toBase64 X (kp_publicKey (cl_identity c))))];
          localLow = (int (length (cl_prekeys c)) < PrekeyLowWatermark);
          serverLow = (cl_serverPrekeys c \<ge> 0 \<and> cl_serverPrekeys c < PrekeyLowWatermark);
          uploadCount = PrekeyTarget - (if serverLow then cl_serverPrekeys c else int (length (cl_prekeys c)));
          (json1, c1) =
            (if localLow \<or> serverLow then
               let (fresh, c') = make_prekeys E (nat uploadCount) c;
                   c'' = save_prekeys E (c'\<lparr>cl_prekeys := cl_prekeys c' @ fresh\<rparr>)
               in (json @ [(''prekeys'', JArr (map (\<lambda>p. JStr (x_toBase64 X (pk_publicKey p))) fresh))], c'')
             else (json, c))
      in send_request E RegisterKeysRequest json1 (set_pending PRegisterKeys) c1)"

definition save_identity :: "cenv \<Rightarrow> client \<Rightarrow> client" where
  "save_identity E c =
     snd (on_files (saveIdentityPrivateKey (ce_ext E) (ce_part E) (cl_username c) (cl_deviceId c)
       (kp_privateKey (cl_identity c))) c)"

text \<open>The identity key: loaded, or generated when there is none or it is damaged; then the old prekeys go.\<close>

definition load_identity :: "cenv \<Rightarrow> client \<Rightarrow> client" where
  "load_identity E c =
     (if kp_valid (cl_identity c) then c
      else
        let priv = loadIdentityPrivateKey (ce_ext E) (cl_username c) (cl_deviceId c) (client_files c);
            pair = (if priv = [] then invalid_pair else keyPairFromPrivateKey (ce_ext E) priv)
        in if kp_valid pair then c\<lparr>cl_identity := pair\<rparr>
           else
             let (fresh, c1) = fresh_pair E c; c2 = c1\<lparr>cl_identity := fresh\<rparr>
             in if \<not> kp_valid fresh then c2 else (save_identity E c2)\<lparr>cl_prekeys := []\<rparr>)"

definition bootstrapE2ee :: "cenv \<Rightarrow> client \<Rightarrow> client" where
  "bootstrapE2ee E c =
     (if cl_bootstrapping c \<or> cl_deviceId c = [] \<or> cl_username c = [] then c
      else
        let c1 = load_identity E c
        in if \<not> kp_valid (cl_identity c1) then c1
           else
             let c2 = (if cl_prekeys c1 = []
                       then c1\<lparr>cl_prekeys := loadPrekeys (ce_ext E) (cl_username c1) (cl_deviceId c1) (client_files c1)\<rparr>
                       else c1);
                 c3 = (if \<not> cl_cacheLoaded c2 \<and> \<not> ls_open (cl_store c2)
                       then c2\<lparr>cl_cache := loadDecryptCache (ce_ext E) (cl_username c2) (cl_deviceId c2) (client_files c2)\<rparr>
                       else c2)
             in sendRegisterKeysRequest E (c3\<lparr>cl_cacheLoaded := True, cl_bootstrapping := True\<rparr>))"

section \<open>The outbox\<close>

definition sendFetchKeysRequest :: "cenv \<Rightarrow> ident \<Rightarrow> client \<Rightarrow> client" where
  "sendFetchKeysRequest E toUserId =
     send_request E FetchKeysRequest [(''type'', JStr ''fetch_keys''), (''userId'', JNum toUserId)]
       (\<lambda>rid v. (set_pending PFetchKeys rid v)\<lparr>cl_fetchTarget := toUserId\<rparr>)"

text \<open>\<open>sent\<close>: the identifiers in flight when the flush began. The result is whether the flush ends here.\<close>

fun flush_groups :: "cenv \<Rightarrow> string set \<Rightarrow> outbox_item list \<Rightarrow> client \<Rightarrow> bool \<times> client" where
  "flush_groups E sent [] c = (False, c)"
| "flush_groups E sent (i # is) c =
     (if oi_convId i \<le> 0 \<or> oi_clientId i \<in> sent then flush_groups E sent is c
      else case ensureGroupSenderKey E (oi_convId i) c of
        (Some key, c1) \<Rightarrow>
          (let (envelope, c2) = encryptGroupMessage E (oi_convId i) (oi_content i) c1
           in if envelope = [] then flush_groups E sent is c2
              else flush_groups E sent is
                (send_request E SendMessageRequest
                   (group_message_json (oi_convId i) envelope ''e2ee_group'' (oi_clientId i))
                   (\<lambda>rid. inflight_put rid (oi_clientId i)) c2))
      | (None, c1) \<Rightarrow>
          if cl_pending c1 PFetchGroupKeys = 0 then (True, sendFetchGroupKeysRequest E (oi_convId i) c1)
          else flush_groups E sent is c1)"

fun flush_targets :: "cenv \<Rightarrow> ident list \<Rightarrow> client \<Rightarrow> client" where
  "flush_targets E [] c = c"
| "flush_targets E (t # ts) c =
     (if cl_pending c PFetchKeys \<noteq> 0 then c
      else if (case cl_backoff c t of None \<Rightarrow> 0 | Some until \<Rightarrow> until) > ce_now E then flush_targets E ts c
      else flush_targets E ts (sendFetchKeysRequest E t c))"

definition flushOutbox :: "cenv \<Rightarrow> client \<Rightarrow> client" where
  "flushOutbox E c =
     (if cl_state c \<noteq> Authenticated then c
      else if \<not> cl_ready c then bootstrapE2ee E c
      else
        let sent = set (map snd (cl_inFlight c));
            (stop, c1) = flush_groups E sent (cl_outbox c) c
        in if stop then c1
           else flush_targets E
             (remdups (map oi_toUser (filter (\<lambda>i. oi_convId i \<le> 0 \<and> oi_clientId i \<notin> sent) (cl_outbox c1)))) c1)"

definition handleRegisterKeysResponse :: "cenv \<Rightarrow> packet \<Rightarrow> client \<Rightarrow> client" where
  "handleRegisterKeysResponse E p = answered PRegisterKeys p (\<lambda>c.
     let c1 = c\<lparr>cl_bootstrapping := False\<rparr>; response = response_of E p
     in if is_code (response_code response) Ok then
          drainHealQueue E (flushOutbox E
            (c1\<lparr>cl_ready := True,
                cl_serverPrekeys := jint_or 0 (jget (response_data response) ''remainingPrekeys'')\<rparr>))
        else cemit (After 3000 BootstrapAgain) c1)"

text \<open>The local store is opened for the account that is logged in, or is about to be.\<close>

definition open_store_as :: "cenv \<Rightarrow> string \<Rightarrow> string \<Rightarrow> client \<Rightarrow> bool \<times> client" where
  "open_store_as E username deviceId =
     on_store E (\<lambda>L. store_open L (ce_driver E) (le_random L 0) username deviceId)"

definition queue_message :: "cenv \<Rightarrow> outbox_item \<Rightarrow> client \<Rightarrow> client" where
  "queue_message E i c =
     (let user = (if cl_state c = Authenticated then cl_username c else cl_pendingUsername c);
          deviceId = (if cl_deviceId c = [] then ce_deviceId E else cl_deviceId c);
          c1 = (if \<not> ls_open (cl_store c) \<and> user \<noteq> [] \<and> deviceId \<noteq> []
                then snd (open_store_as E user deviceId c) else c);
          c2 = do_store E (\<lambda>L. addOutboxItem L (oi_clientId i) (oi_toUser i) (oi_content i) (oi_convId i)) c1
      in c2\<lparr>cl_outbox := cl_outbox c2 @ [i]\<rparr>)"

definition sendMessage :: "cenv \<Rightarrow> ident \<Rightarrow> string \<Rightarrow> client \<Rightarrow> string \<times> client" where
  "sendMessage E toUserId content c =
     (let (clientMessageId, c1) = draw (ce_uuid E) c;
          c2 = queue_message E \<lparr>oi_clientId = clientMessageId, oi_toUser = toUserId, oi_convId = 0,
                 oi_content = content\<rparr> c1
      in (clientMessageId, if cl_state c2 = Authenticated then flushOutbox E c2 else c2))"

definition sendGroupMessage :: "cenv \<Rightarrow> ident \<Rightarrow> string \<Rightarrow> client \<Rightarrow> string \<times> client" where
  "sendGroupMessage E conversationId content c =
     (if conversationId \<le> 0 \<or> trimmed content = [] then ([], csignal (MessageSendFailed ''Invalid group message'') c)
      else
        let (clientMessageId, c1) = draw (ce_uuid E) c;
            c2 = queue_message E \<lparr>oi_clientId = clientMessageId, oi_toUser = 0, oi_convId = conversationId,
                   oi_content = content\<rparr> c1
        in (clientMessageId, if cl_state c2 = Authenticated then flushOutbox E c2 else c2))"

text \<open>Removal of the first, or of the last, item that satisfies a condition.\<close>

fun drop_first :: "('a \<Rightarrow> bool) \<Rightarrow> 'a list \<Rightarrow> 'a list" where
  "drop_first P [] = []"
| "drop_first P (x # xs) = (if P x then xs else x # drop_first P xs)"

definition drop_last :: "('a \<Rightarrow> bool) \<Rightarrow> 'a list \<Rightarrow> 'a list" where
  "drop_last P xs = rev (drop_first P (rev xs))"

abbreviation has_id :: "string \<Rightarrow> outbox_item \<Rightarrow> bool" where
  "has_id i \<equiv> (\<lambda>x. oi_clientId x = i)"

definition forget_item :: "cenv \<Rightarrow> string \<Rightarrow> client \<Rightarrow> client" where
  "forget_item E i = do_store E (\<lambda>L. removeOutboxItem L i)"

text \<open>All the items to one user, from the back.\<close>

fun forget_items :: "cenv \<Rightarrow> outbox_item list \<Rightarrow> client \<Rightarrow> client" where
  "forget_items E [] c = c"
| "forget_items E (i # is) c = forget_items E is (forget_item E (oi_clientId i) c)"

definition drop_target :: "cenv \<Rightarrow> ident \<Rightarrow> client \<Rightarrow> client" where
  "drop_target E target c =
     (forget_items E (rev (filter (\<lambda>i. oi_toUser i = target) (cl_outbox c))) c)
       \<lparr>cl_outbox := filter (\<lambda>i. oi_toUser i \<noteq> target) (cl_outbox c)\<rparr>"

section \<open>Editing\<close>

definition clearPendingEdit :: "client \<Rightarrow> client" where
  "clearPendingEdit c = c\<lparr>cl_editMsg := 0, cl_editConv := 0, cl_editPeer := 0, cl_editContent := []\<rparr>"

definition sendEditMessageRequest :: "cenv \<Rightarrow> ident \<Rightarrow> string \<Rightarrow> string \<Rightarrow> client \<Rightarrow> client" where
  "sendEditMessageRequest E messageId content contentType =
     send_request E EditMessageRequest
       [(''type'', JStr ''edit_message''), (''messageId'', JNum messageId), (''content'', JStr content),
        (''contentType'', JStr contentType)] (set_pending PEdit)"

definition editMessage :: "cenv \<Rightarrow> ident \<Rightarrow> ident \<Rightarrow> ident \<Rightarrow> string \<Rightarrow> client \<Rightarrow> client" where
  "editMessage E conversationId peerUserId messageId newContent c =
     (if cl_state c \<noteq> Authenticated \<or> messageId \<le> 0 then c
      else if trimmed newContent = [] then csignal (MessageEditFailed ''Edited content is empty'') c
      else
        let c1 = c\<lparr>cl_editMsg := messageId, cl_editConv := conversationId, cl_editPeer := peerUserId,
                   cl_editContent := newContent\<rparr>
        in if conversationId > 0 \<and> peerUserId = 0 then
             let (envelope, c2) = encryptGroupMessage E conversationId newContent c1
             in if envelope = []
                then clearPendingEdit (csignal (MessageEditFailed ''Failed to encrypt edited group message'') c2)
                else sendEditMessageRequest E messageId envelope ''e2ee_group'' c2
           else if peerUserId > 0 then sendFetchKeysRequest E peerUserId c1
           else clearPendingEdit (csignal (MessageEditFailed ''Invalid conversation for edit'') c1))"

section \<open>The keys of a recipient\<close>

definition fetch_failed :: "cenv \<Rightarrow> ident \<Rightarrow> int \<Rightarrow> string \<Rightarrow> client \<Rightarrow> client" where
  "fetch_failed E target code message c =
     (if cl_editMsg c \<noteq> 0 \<and> cl_editPeer c = target
      then clearPendingEdit (csignal (MessageEditFailed message) c)
      else
        flushOutbox E
          (if is_code code CannotSendToSelf then csignal (MessageSendFailed message) (drop_target E target c)
           else if is_code code KeyBundleUnavailable \<or> is_code code AccountNotFound
           then cemit (After 30000 FlushOutbox) (c\<lparr>cl_backoff := (cl_backoff c)(target \<mapsto> ce_now E + 30)\<rparr>)
           else cemit (After 3000 FlushOutbox) (c\<lparr>cl_backoff := (cl_backoff c)(target \<mapsto> ce_now E + 3)\<rparr>)))"

text \<open>Trust on first use: a changed fingerprint replaces the stored one and is reported.\<close>

definition check_fingerprint :: "cenv \<Rightarrow> ident \<Rightarrow> json list \<Rightarrow> client \<Rightarrow> client" where
  "check_fingerprint E target bundles c =
     (let X = ce_ext E;
          identityPub = x_fromBase64Lax X (jstr (jget (jobject (hd bundles)) ''identityPub''));
          fingerprint = publicKeyFingerprint X identityPub;
          stored = loadPeerFingerprint X target (client_files c)
      in if stored = [] then snd (on_files (savePeerFingerprint X (ce_part E) target fingerprint) c)
         else if stored \<noteq> fingerprint
         then csignal (PeerIdentityChanged target)
                (snd (on_files (savePeerFingerprint X (ce_part E) target fingerprint) c))
         else c)"

text \<open>The first item for the user that is not in flight: the claimed prekey serves one message.\<close>

definition send_first :: "cenv \<Rightarrow> ident \<Rightarrow> json list \<Rightarrow> client \<Rightarrow> client" where
  "send_first E target bundles c =
     (let sent = set (map snd (cl_inFlight c));
          mine = (\<lambda>i. oi_toUser i = target \<and> oi_clientId i \<notin> sent)
      in case find mine (cl_outbox c) of
           None \<Rightarrow> c
         | Some i \<Rightarrow>
             let (envelope, c1) = encryptForUser E bundles (oi_content i) c
             in if envelope = [] then
                  let c2 = forget_item E (oi_clientId i) c1
                  in csignal (MessageSendFailed ''End-to-end encryption failed'')
                       (c2\<lparr>cl_outbox := drop_first mine (cl_outbox c2)\<rparr>)
                else send_request E SendMessageRequest
                  [(''type'', JStr ''send_message''), (''toUserId'', JNum (oi_toUser i)),
                   (''content'', JStr envelope), (''contentType'', JStr ''text''),
                   (''clientMessageId'', JStr (oi_clientId i))]
                  (\<lambda>rid. inflight_put rid (oi_clientId i)) c1)"

definition handleFetchKeysResponse :: "cenv \<Rightarrow> packet \<Rightarrow> client \<Rightarrow> client" where
  "handleFetchKeysResponse E p = answered PFetchKeys p (\<lambda>c.
     let target = cl_fetchTarget c; c1 = c\<lparr>cl_fetchTarget := 0\<rparr>;
         response = response_of E p; code = response_code response
     in if \<not> is_code code Ok
        then fetch_failed E target code (message_or ''Key bundle unavailable'' response) c1
        else
          let c2 = c1\<lparr>cl_backoff := (cl_backoff c1)(target := None)\<rparr>;
              bundles = jarr (jget (response_data response) ''bundles'')
          in if bundles = [] then flushOutbox E (csignal (MessageSendFailed ''Empty key bundle'') c2)
             else if cl_editMsg c2 \<noteq> 0 \<and> cl_editPeer c2 = target \<and> cl_editContent c2 \<noteq> [] then
               let (envelope, c3) = encryptForUser E bundles (cl_editContent c2) c2
               in if envelope = []
                  then clearPendingEdit (csignal (MessageEditFailed ''Failed to encrypt edited message'') c3)
                  else sendEditMessageRequest E (cl_editMsg c3) envelope ''text'' c3
             else flushOutbox E (send_first E target bundles (check_fingerprint E target bundles c2)))"

section \<open>The answer to a message\<close>

definition sent_message :: "cenv \<Rightarrow> client \<Rightarrow> ident \<Rightarrow> ident \<Rightarrow> string \<Rightarrow> string \<Rightarrow> jobj" where
  "sent_message E c messageId conversationId content ackedId =
     [(''messageId'', JNum messageId), (''conversationId'', JNum conversationId),
      (''senderId'', JNum (cl_userId c)), (''senderUsername'', JStr (cl_username c)),
      (''content'', JStr content), (''contentType'', JStr ''text''), (''status'', JStr ''sent''),
      (''clientMessageId'', JStr ackedId), (''createdAt'', JStr (x_isoTime (ce_ext E) (ce_now E)))]"

definition message_acked :: "cenv \<Rightarrow> string \<Rightarrow> jobj \<Rightarrow> client \<Rightarrow> client" where
  "message_acked E ackedId data c =
     (let sentContent = (case find (has_id ackedId) (cl_outbox c) of None \<Rightarrow> [] | Some i \<Rightarrow> oi_content i);
          c1 = forget_item E ackedId (c\<lparr>cl_outbox := drop_first (has_id ackedId) (cl_outbox c)\<rparr>);
          messageId = jlonglong (jget data ''messageId'');
          conversationId = jlonglong (jget data ''conversationId'');
          c2 = (if messageId > 0 \<and> conversationId > 0 \<and> sentContent \<noteq> []
                then do_store E (\<lambda>L. upsertMessage L (sent_message E c1 messageId conversationId sentContent ackedId)) c1
                else c1)
      in csignal (MessageSent messageId conversationId ackedId) c2)"

definition distribution_acked :: "cenv \<Rightarrow> string \<Rightarrow> client \<Rightarrow> client" where
  "distribution_acked E ackedId c =
     (let c1 = c\<lparr>cl_distributions := removeAll ackedId (cl_distributions c)\<rparr>;
          c2 = (if \<exists>i\<in>set (cl_outbox c1). oi_clientId i = ackedId
                then (forget_item E ackedId c1)\<lparr>cl_outbox := drop_last (has_id ackedId) (cl_outbox c1)\<rparr> else c1)
      in flushOutbox E c2)"

definition message_refused :: "cenv \<Rightarrow> string \<Rightarrow> jobj \<Rightarrow> client \<Rightarrow> client" where
  "message_refused E clientMessageId response c =
     (let code = response_code response;
          deterministic = (is_code code PermissionDenied \<or> is_code code ConversationNotFound
            \<or> is_code code InvalidRequest);
          c1 = (if deterministic then
                  case find (has_id clientMessageId) (rev (cl_outbox c)) of
                    None \<Rightarrow> c
                  | Some i \<Rightarrow>
                      if oi_convId i > 0
                      then (forget_item E clientMessageId c)\<lparr>cl_outbox := drop_last (has_id clientMessageId) (cl_outbox c)\<rparr>
                      else c
                else if \<not> cl_flushScheduled c
                then cemit (After 3000 FlushOutboxOnce) (c\<lparr>cl_flushScheduled := True\<rparr>)
                else c)
      in csignal (MessageSendFailed (message_or ''Send failed'' response)) c1)"

definition handleSendMessageResponse :: "cenv \<Rightarrow> packet \<Rightarrow> client \<Rightarrow> client" where
  "handleSendMessageResponse E p c =
     (case map_of (cl_inFlight c) (pk_reqid p) of
        None \<Rightarrow> c
      | Some clientMessageId \<Rightarrow>
          let c1 = c\<lparr>cl_inFlight := filter (\<lambda>(r, i). r \<noteq> pk_reqid p) (cl_inFlight c)\<rparr>;
              response = response_of E p; data = response_data response
          in if is_code (response_code response) Ok then
               let ackedId = jstr_or clientMessageId (jget data ''clientMessageId'')
               in if ackedId \<in> set (cl_distributions c1) then distribution_acked E ackedId c1
                  else message_acked E ackedId data c1
             else message_refused E clientMessageId response c1)"

end
