(* ===== verification/Client_Sync.thy ===== *)
theory Client_Sync
  imports Client_Outbox
begin

text \<open>
  Chat-Client/core/NetworkManager.cpp, receiving: conversations, message history, pushed messages, the
  event stream with its cursor, login with the local store, and the dispatch of packets and timers.
\<close>

section \<open>Conversations\<close>

text \<open>The summaries are UTF-8 literals of the source.\<close>

definition summaries :: "(string \<times> bytes) list" where
  "summaries =
     [(''group_created'', [0xE5, 0x88, 0x9B, 0xE5, 0xBB, 0xBA, 0xE4, 0xBA, 0x86, 0xE7, 0xBE, 0xA4, 0xE7, 0xBB, 0x84]),
      (''member_added'', [0xE6, 0x96, 0xB0, 0xE6, 0x88, 0x90, 0xE5, 0x91, 0x98, 0xE5, 0x8A, 0xA0, 0xE5, 0x85, 0xA5,
        0xE7, 0xBE, 0xA4, 0xE8, 0x81, 0x8A]),
      (''member_removed'', [0xE6, 0x88, 0x90, 0xE5, 0x91, 0x98, 0xE8, 0xA2, 0xAB, 0xE7, 0xA7, 0xBB, 0xE5, 0x87, 0xBA,
        0xE7, 0xBE, 0xA4, 0xE8, 0x81, 0x8A]),
      (''member_left'', [0xE6, 0x88, 0x90, 0xE5, 0x91, 0x98, 0xE9, 0x80, 0x80, 0xE5, 0x87, 0xBA, 0xE7, 0xBE, 0xA4,
        0xE8, 0x81, 0x8A]),
      (''owner_transferred'', [0xE7, 0xBE, 0xA4, 0xE4, 0xB8, 0xBB, 0xE5, 0xB7, 0xB2, 0xE8, 0xBD, 0xAC, 0xE8, 0xAE, 0xA9])]"

definition systemMessageSummary :: "cenv \<Rightarrow> string \<Rightarrow> string" where
  "systemMessageSummary E content =
     (let X = ce_ext E; event = jstr (jget (object_of X (x_utf8 X content)) ''event'')
      in case map_of summaries event of None \<Rightarrow> content | Some txt \<Rightarrow> x_fromUtf8 X txt)"

abbreviation encrypted_preview :: string where "encrypted_preview \<equiv> ''[Encrypted message]''"

definition readable_preview :: "cenv \<Rightarrow> jobj \<Rightarrow> jobj" where
  "readable_preview E conv =
     (let X = ce_ext E; lastMessage = jstr (jget conv ''lastMessage'')
      in if looksLikeEnvelope X lastMessage \<or> looksLikeGroupMessage X lastMessage
           \<or> looksLikeDistribution X lastMessage
         then jset ''lastMessage'' (JStr encrypted_preview) conv
         else
           let sys = object_of X (x_utf8 X lastMessage)
           in if sys \<noteq> [] \<and> jhas sys ''event''
              then jset ''lastMessage'' (JStr (systemMessageSummary E lastMessage)) conv else conv)"

definition decrypted_preview :: "cenv \<Rightarrow> client \<Rightarrow> jobj \<Rightarrow> jobj" where
  "decrypted_preview E c conv =
     (if jstr (jget conv ''lastMessage'') = encrypted_preview then
        let cached = loadDecryptedContent (ce_ext E) (jlonglong (jget conv ''lastMessageId'')) (cl_store c)
        in if cached \<noteq> [] then jset ''lastMessage'' (JStr cached) conv else conv
      else conv)"

fun keep_conversations :: "cenv \<Rightarrow> jobj list \<Rightarrow> client \<Rightarrow> jobj list \<times> client" where
  "keep_conversations E [] c = ([], c)"
| "keep_conversations E (v # vs) c =
     (let conv = decrypted_preview E c v;
          (convs, c1) = keep_conversations E vs (do_store E (\<lambda>L. upsertConversation L conv) c)
      in (conv # convs, c1))"

definition handleGetConversationsResponse :: "cenv \<Rightarrow> packet \<Rightarrow> client \<Rightarrow> client" where
  "handleGetConversationsResponse E p = answered PGetConversations p (\<lambda>c.
     let response = response_of E p
     in if \<not> is_code (response_code response) Ok then c
        else
          let conversations = map (\<lambda>v. readable_preview E (jobject v))
                (jarr (jget (response_data response) ''conversations''));
              (convs, c1) = keep_conversations E conversations c
          in csignal (ConversationsResult (map JObj convs)) c1)"

section \<open>Messages\<close>

definition is_distribution :: "cenv \<Rightarrow> jobj \<Rightarrow> bool" where
  "is_distribution E msg \<longleftrightarrow> jstr (jget msg ''contentType'') = ''sender_key_distribution''
     \<or> looksLikeDistribution (ce_ext E) (jstr (jget msg ''content''))"

abbreviation install_distribution :: "cenv \<Rightarrow> jobj \<Rightarrow> client \<Rightarrow> client" where
  "install_distribution E msg c \<equiv> snd (processGroupSenderKeyDistribution E msg c)"

text \<open>The messages to show, decrypted and cached; a distribution is installed and not shown.\<close>

fun receive_messages :: "cenv \<Rightarrow> json list \<Rightarrow> client \<Rightarrow> jobj list \<times> client" where
  "receive_messages E [] c = ([], c)"
| "receive_messages E (v # vs) c =
     (let msg = jobject v
      in if is_distribution E msg then receive_messages E vs (install_distribution E msg c)
         else
           let (msg1, c1) = decryptMessageObject E msg c;
               (rest, c2) = receive_messages E vs (do_store E (\<lambda>L. upsertMessage L msg1) c1)
           in (msg1 # rest, c2))"

definition handleSyncMessagesResponse :: "cenv \<Rightarrow> packet \<Rightarrow> client \<Rightarrow> client" where
  "handleSyncMessagesResponse E p = answered PSyncMessages p (\<lambda>c.
     let response = response_of E p; data = response_data response; messages = jarr (jget data ''messages'')
     in if \<not> is_code (response_code response) Ok then c
        else
          let (visible, c1) = receive_messages E messages c
          in if messages = [] \<or> visible \<noteq> []
             then csignal (MessagesSynced (jlonglong (jget data ''conversationId'')) (map JObj visible)
                             (jbool (jget data ''hasMore''))) c1
             else c1)"

definition handleNewMessageNotification :: "cenv \<Rightarrow> packet \<Rightarrow> client \<Rightarrow> client" where
  "handleNewMessageNotification E p c =
     (let msg = response_of E p
      in if is_distribution E msg then install_distribution E msg c
         else
           let (msg1, c1) = decryptMessageObject E msg c;
               content = jstr (jget msg1 ''content'');
               preview = (if jbool (jget msg1 ''undecryptable'') then encrypted_preview
                          else if jstr (jget msg1 ''contentType'') = ''system'' then systemMessageSummary E content
                          else content);
               c2 = do_store E (\<lambda>L. upsertMessage L msg1) c1;
               c3 = do_store E (\<lambda>L. bumpConversationPreview L (jlonglong (jget msg1 ''conversationId'')) preview True) c2;
               c4 = csignal (NewMessageReceived msg1) c3;
               msgId = jlonglong (jget msg1 ''messageId'')
           in if msgId > 0 then ackMessage E msgId ''delivered'' c4 else c4)"

section \<open>The event stream\<close>

definition membership_changed :: "jobj \<Rightarrow> bool" where
  "membership_changed payload \<longleftrightarrow>
     jstr (jget payload ''changeType'') \<in> {''member_added'', ''member_removed'', ''member_left''}"

definition self_removed :: "jobj \<Rightarrow> client \<Rightarrow> bool" where
  "self_removed payload c \<longleftrightarrow>
     (jstr (jget payload ''changeType'') = ''member_removed'' \<and> jlonglong (jget payload ''targetUserId'') = cl_userId c)
   \<or> (jstr (jget payload ''changeType'') = ''member_left'' \<and> jlonglong (jget payload ''operatorId'') = cl_userId c)"

definition forget_group_key :: "ident \<Rightarrow> client \<Rightarrow> client" where
  "forget_group_key g c = c\<lparr>cl_groupKeys := (cl_groupKeys c)(g := None)\<rparr>"

text \<open>An operation of this device, by this user; several accounts of a machine share the device.\<close>

definition own_operation :: "jobj \<Rightarrow> client \<Rightarrow> bool" where
  "own_operation payload c \<longleftrightarrow> jlonglong (jget payload ''senderId'') = cl_userId c
     \<and> jstr (jget payload ''originDeviceId'') \<noteq> [] \<and> jstr (jget payload ''originDeviceId'') = cl_deviceId c"

text \<open>An edit by somebody else. A text that does not decrypt never replaces a readable one.\<close>

definition foreign_edit :: "cenv \<Rightarrow> jobj \<Rightarrow> client \<Rightarrow> client" where
  "foreign_edit E payload c =
     (let msgId = jlonglong (jget payload ''messageId''); convId = jlonglong (jget payload ''conversationId'');
          editedAt = jstr (jget payload ''editedAt'');
          (plaintext, c1) = decryptEditContent E payload c
      in if \<not> ls_open (cl_store c1) then c1
         else case plaintext of
           Some txt \<Rightarrow> csignal (MessageEdited convId msgId txt editedAt)
                         (do_store E (\<lambda>L. updateMessageContent L msgId txt editedAt) c1)
         | None \<Rightarrow>
             let existing = loadMessageContent (ce_ext E) msgId (cl_store c1)
             in if existing = [] then c1
                else csignal (MessageEdited convId msgId existing editedAt)
                       (do_store E (\<lambda>L. markMessageEdited L msgId editedAt) c1))"

definition message_deleted :: "cenv \<Rightarrow> jobj \<Rightarrow> client \<Rightarrow> client" where
  "message_deleted E payload c =
     (let msgId = jlonglong (jget payload ''messageId'');
          c1 = (if ls_open (cl_store c) then do_store E (\<lambda>L. markMessageDeleted L msgId) c else c)
      in csignal (MessageDeleted (jlonglong (jget payload ''conversationId'')) msgId) c1)"

definition ingest_message :: "cenv \<Rightarrow> jobj \<Rightarrow> client \<Rightarrow> client" where
  "ingest_message E msg c =
     (if is_distribution E msg then install_distribution E msg c
      else
        let fromSelf = (jlonglong (jget msg ''senderId'') = cl_userId c);
            msg1 = jset ''status'' (JStr (if fromSelf then ''sent'' else ''delivered'')) msg;
            cmid = jstr (jget msg1 ''clientMessageId'');
            c1 = (if fromSelf \<and> cmid \<noteq> []
                  then forget_item E cmid (c\<lparr>cl_outbox := drop_last (has_id cmid) (cl_outbox c)\<rparr>) else c)
        in do_store E (\<lambda>L. upsertMessage L msg1) c1)"

text \<open>The groups to heal, without those that this user has left since.\<close>

definition ingest_group_change :: "jobj \<Rightarrow> ident list \<Rightarrow> client \<Rightarrow> ident list \<times> client" where
  "ingest_group_change payload heal c =
     (let convId = jlonglong (jget payload ''conversationId'')
      in if convId > 0 \<and> membership_changed payload then
           if self_removed payload c then (removeAll convId heal, forget_group_key convId c)
           else (if convId \<in> set heal then heal else heal @ [convId], c)
         else (heal, c))"

definition ingest_event :: "cenv \<Rightarrow> jobj \<Rightarrow> ident list \<Rightarrow> client \<Rightarrow> ident list \<times> client" where
  "ingest_event E event heal c =
     (let type = jstr (jget event ''type''); payload = jobject (jget event ''payload'')
      in if type = ''message'' then (heal, ingest_message E payload c)
         else if type = ''receipt'' then
           (heal, do_store E (\<lambda>L. ls_updateMessageStatus L (jlonglong (jget payload ''messageId''))
                     (jstr (jget payload ''status''))) c)
         else if type = ''read_cursor'' then
           (heal, applyReadCursor E (jlonglong (jget payload ''conversationId''))
                    (jlonglong (jget payload ''readMessageId'')) c)
         else if type = ''group_changed'' then ingest_group_change payload heal c
         else if type = ''conversation_prefs'' then (heal, prefs_from E payload c)
         else if type = ''message_edited'' then
           (heal, if own_operation payload c then c else foreign_edit E payload c)
         else if type = ''message_deleted'' then
           (heal, if own_operation payload c then c else message_deleted E payload c)
         else (heal, c))"

fun ingest_events :: "cenv \<Rightarrow> json list \<Rightarrow> ident list \<Rightarrow> client \<Rightarrow> ident list \<times> client" where
  "ingest_events E [] heal c = (heal, c)"
| "ingest_events E (v # vs) heal c =
     (let (heal1, c1) = ingest_event E (jobject v) heal c in ingest_events E vs heal1 c1)"

definition advance_cursor :: "cenv \<Rightarrow> ident \<Rightarrow> client \<Rightarrow> client" where
  "advance_cursor E lastSeq c =
     (if lastSeq > syncCursor (cl_store c) then do_store E (\<lambda>L. setSyncCursor L lastSeq) c else c)"

definition ingestSyncEvents :: "cenv \<Rightarrow> json list \<Rightarrow> ident \<Rightarrow> bool \<Rightarrow> client \<Rightarrow> client" where
  "ingestSyncEvents E events lastSeq hasMore c =
     (if \<not> ls_open (cl_store c) then c
      else
        let (heal, c1) = ingest_events E events [] c;
            c2 = fold (healGroupSenderKey E) heal c1;
            c3 = advance_cursor E lastSeq c2
        in if hasMore \<and> cl_state c3 = Authenticated then syncEvents E lastSeq 200 c3 else c3)"

text \<open>The message events with their texts decrypted; the text of a distribution is blanked.\<close>

definition decrypt_event :: "cenv \<Rightarrow> jobj \<Rightarrow> client \<Rightarrow> jobj \<times> client" where
  "decrypt_event E event c =
     (if jstr (jget event ''type'') \<noteq> ''message'' then (event, c)
      else
        let payload = jobject (jget event ''payload'');
            (payload1, c1) =
              (if is_distribution E payload
               then (jset ''content'' (JStr []) payload, install_distribution E payload c)
               else decryptMessageObject E payload c)
        in (jset ''payload'' (JObj payload1) event, c1))"

fun decrypt_events :: "cenv \<Rightarrow> json list \<Rightarrow> client \<Rightarrow> json list \<times> client" where
  "decrypt_events E [] c = ([], c)"
| "decrypt_events E (v # vs) c =
     (let (event, c1) = decrypt_event E (jobject v) c;
          event_value = (if jstr (jget (jobject v) ''type'') = ''message'' then JObj event else v);
          (events, c2) = decrypt_events E vs c1
      in (event_value # events, c2))"

definition handleSyncEventsResponse :: "cenv \<Rightarrow> packet \<Rightarrow> client \<Rightarrow> client" where
  "handleSyncEventsResponse E p = answered PSyncEvents p (\<lambda>c.
     let response = response_of E p; data = response_data response
     in if \<not> is_code (response_code response) Ok then c
        else if jbool (jget data ''needsFullSync'') then
          getConversations_request E
            (if ls_open (cl_store c) then advance_cursor E (jlonglong (jget data ''fullSyncSeq'')) c else c)
        else
          let lastSeq = jlonglong (jget data ''lastSeq''); hasMore = jbool (jget data ''hasMore'');
              (events, c1) = decrypt_events E (jarr (jget data ''events'')) c
          in csignal (EventsSynced events lastSeq hasMore) (ingestSyncEvents E events lastSeq hasMore c1))"

definition handleGroupChangedNotification :: "cenv \<Rightarrow> packet \<Rightarrow> client \<Rightarrow> client" where
  "handleGroupChangedNotification E p c =
     (let payload = response_of E p; convId = jlonglong (jget payload ''conversationId'');
          c1 = getConversations_request E c;
          c2 = (if membership_changed payload \<and> convId > 0 then
                  if self_removed payload c1 then forget_group_key convId c1 else healGroupSenderKey E convId c1
                else c1)
      in csignal (GroupChanged payload) c2)"

section \<open>Edits and deletions\<close>

text \<open>A request id other than 0 marks the answer to this client's request, 0 a push.\<close>

definition handleEditMessageResponse :: "cenv \<Rightarrow> packet \<Rightarrow> client \<Rightarrow> client" where
  "handleEditMessageResponse E p c =
     (let isOwnResponse = (pk_reqid p \<noteq> 0)
      in if isOwnResponse \<and> pk_reqid p \<noteq> cl_pending c PEdit then c
         else
           let c1 = (if isOwnResponse then set_pending PEdit 0 c else c); response = response_of E p
           in if isOwnResponse \<and> \<not> is_code (response_code response) Ok
              then clearPendingEdit (csignal (MessageEditFailed (message_or ''Failed to edit message'' response)) c1)
              else if isOwnResponse then
                let data = response_data response; messageId = jlonglong (jget data ''messageId'');
                    editedAt = jstr (jget data ''editedAt''); plaintext = cl_editContent c1;
                    c2 = c1\<lparr>cl_cache := filter (\<lambda>(i, t). i \<noteq> messageId) (cl_cache c1)\<rparr>;
                    c3 = (if ls_open (cl_store c2) then
                            let d1 = do_store E (\<lambda>L. clearDecryptedContent L messageId) c2
                            in if plaintext = [] then d1
                               else do_store E (\<lambda>L. saveDecryptedContent L 0 messageId plaintext)
                                 (do_store E (\<lambda>L. updateMessageContent L messageId plaintext editedAt) d1)
                          else c2)
                in csignal (MessageEdited (jlonglong (jget data ''conversationId'')) messageId plaintext editedAt)
                     (clearPendingEdit c3)
              else if own_operation response c1 then c1 else foreign_edit E response c1)"

definition handleDeleteMessageResponse :: "cenv \<Rightarrow> packet \<Rightarrow> client \<Rightarrow> client" where
  "handleDeleteMessageResponse E p c =
     (let isOwnResponse = (pk_reqid p \<noteq> 0)
      in if isOwnResponse \<and> pk_reqid p \<noteq> cl_pending c PDelete then c
         else
           let c1 = (if isOwnResponse then set_pending PDelete 0 c else c); response = response_of E p
           in if isOwnResponse \<and> \<not> is_code (response_code response) Ok
              then csignal (MessageDeleteFailed (message_or ''Failed to delete message'' response)) c1
              else if isOwnResponse then message_deleted E (response_data response) c1
              else if own_operation response c1 then c1 else message_deleted E response c1)"

section \<open>Login\<close>

definition emitCachedConversations :: "cenv \<Rightarrow> client \<Rightarrow> client" where
  "emitCachedConversations E c =
     (if \<not> ls_open (cl_store c) then c
      else
        let cached = loadConversations (ce_ext E) (cl_store c)
        in if cached = [] then c else csignal (ConversationsResult (map JObj cached)) c)"

fun add_missing :: "outbox_item list \<Rightarrow> outbox_item list \<Rightarrow> outbox_item list" where
  "add_missing [] items = items"
| "add_missing (i # is) items =
     add_missing is (if oi_clientId i \<in> set (map oi_clientId items) then items else items @ [i])"

definition openLocalStore :: "cenv \<Rightarrow> client \<Rightarrow> client" where
  "openLocalStore E c =
     (if cl_username c = [] \<or> cl_deviceId c = [] then c
      else
        let c1 = (if ls_open (cl_store c) \<and> ls_username (cl_store c) \<noteq> cl_username c
                  then (let c' = do_store E clearUserData c in c'\<lparr>cl_store := store_close (cl_store c')\<rparr>) else c);
            (opened, c2) = (if ls_open (cl_store c1) then (True, c1)
                            else open_store_as E (cl_username c1) (cl_deviceId c1) c1)
        in if \<not> opened then c2
           else
             let c3 = do_store E (\<lambda>L. importLegacyDecryptCache L (cl_username c2) (cl_deviceId c2)) c2;
                 c4 = c3\<lparr>cl_outbox := add_missing (loadOutbox (ce_ext E) (cl_store c3)) (cl_outbox c3)\<rparr>
             in syncEvents E (syncCursor (cl_store c4)) 200 (emitCachedConversations E c4))"

definition handleLoginResponse :: "cenv \<Rightarrow> packet \<Rightarrow> client \<Rightarrow> client" where
  "handleLoginResponse E p = answered PLogin p (\<lambda>c.
     let response = response_of E p; code = code_or InternalError response; data = response_data response
     in if is_code code Ok then
          let c1 = c\<lparr>cl_token := jstr (jget data ''token''), cl_userId := jlonglong (jget data ''userId''),
                     cl_username := jstr (jget data ''username''),
                     cl_expiresAt := parseExpiresAt E (jstr (jget data ''expiresAt'')),
                     cl_expiredNotified := False, cl_loginQueued := False\<rparr>;
              c2 = csignal LoginSuccessful (csignal SessionChanged (setState Authenticated c1))
          in scheduleTokenRenew E (flushOutbox E (openLocalStore E c2))
        else csignal (LoginFailed (message_or ''Unknown error'' response)) (setState Connected c))"

section \<open>Dispatch\<close>

definition handlers :: "(message_type \<times> (cenv \<Rightarrow> packet \<Rightarrow> client \<Rightarrow> client)) list" where
  "handlers =
     [(LoginResponse, handleLoginResponse), (RegisterResponse, handleRegisterResponse),
      (LogoutResponse, \<lambda>E p. handleLogoutResponse E), (TokenRenewResponse, handleTokenRenewResponse),
      (ErrorPacket, handleErrorResponse), (SearchUsersResponse, handleSearchUsersResponse),
      (AddContactResponse, handleAddContactResponse), (GetContactsResponse, handleGetContactsResponse),
      (GetConversationsResponse, handleGetConversationsResponse),
      (SendMessageResponse, handleSendMessageResponse), (AckMessageResponse, handleAckMessageResponse),
      (SyncMessagesResponse, handleSyncMessagesResponse),
      (NewMessageNotification, handleNewMessageNotification), (MessageStatusUpdate, handleMessageStatusUpdate),
      (SyncEventsResponse, handleSyncEventsResponse), (ReadCursorNotification, handleReadCursorNotification),
      (RegisterKeysResponse, handleRegisterKeysResponse), (FetchKeysResponse, handleFetchKeysResponse),
      (FetchGroupKeysResponse, handleFetchGroupKeysResponse), (CreateGroupResponse, handleCreateGroupResponse),
      (InviteGroupMembersResponse, handleInviteGroupMembersResponse),
      (LeaveGroupResponse, handleLeaveGroupResponse), (KickGroupMemberResponse, handleKickGroupMemberResponse),
      (GetGroupInfoResponse, handleGetGroupInfoResponse), (GroupChangedNotification, handleGroupChangedNotification),
      (SetConversationPrefsResponse, handleSetConversationPrefsResponse),
      (ConversationPrefsNotification, handleConversationPrefsNotification),
      (EditMessageResponse, handleEditMessageResponse), (DeleteMessageResponse, handleDeleteMessageResponse),
      (Ping, \<lambda>E p. cemit (PongTo (pk_reqid p)))]"

definition handlePacket :: "cenv \<Rightarrow> packet \<Rightarrow> client \<Rightarrow> client" where
  "handlePacket E p c =
     (case find (\<lambda>(mt, h). mt_code mt = pk_type p) handlers of None \<Rightarrow> c | Some (mt, h) \<Rightarrow> h E p c)"

fun handle_packets :: "(nat \<Rightarrow> cenv) \<Rightarrow> nat \<Rightarrow> packet list \<Rightarrow> client \<Rightarrow> client" where
  "handle_packets Es i [] c = c"
| "handle_packets Es i (p # ps) c = handle_packets Es (i + 1) ps (handlePacket (Es i) p c)"

text \<open>\<open>Es i\<close> is the environment of the \<open>i\<close>-th packet of a chunk.\<close>

definition client_onReadyRead :: "(nat \<Rightarrow> cenv) \<Rightarrow> bytes \<Rightarrow> client \<Rightarrow> client" where
  "client_onReadyRead Es data c =
     (let (packets, failure, rest) = drain (appendData (cl_buffer c) data);
          c1 = (handle_packets Es 0 packets c)\<lparr>cl_buffer := rest\<rparr>
      in case failure of None \<Rightarrow> c1 | Some err \<Rightarrow> cemit DisconnectSocket (csignal (LoginFailed err) c1))"

definition run_callback :: "cenv \<Rightarrow> callback \<Rightarrow> client \<Rightarrow> client" where
  "run_callback E cb c =
     (case cb of
        FlushOutbox \<Rightarrow> flushOutbox E c
      | FlushOutboxOnce \<Rightarrow> flushOutbox E (c\<lparr>cl_flushScheduled := False\<rparr>)
      | BootstrapAgain \<Rightarrow> if cl_state c = Authenticated \<and> \<not> cl_ready c then bootstrapE2ee E c else c
      | DrainHealing \<Rightarrow> drainHealQueue E c)"

end
