(* ===== verification/Client_Effects.thy ===== *)
theory Client_Effects
  imports Client_Sync
begin

text \<open>
  What the operations of the client do to the outside. Every request goes through \<open>send_request\<close>; the
  locale \<open>client_contract\<close> states what an invariant has to satisfy to survive the primitive effects
  (a field that is not an output changes, a random value is drawn, something is emitted, a request is
  sent), and it follows once for all operations. A text is \<open>sealed\<close> when it is an envelope of AES-GCM
  ciphertexts, a group message that the sender key encrypted, or a distribution of sealed entries.
\<close>

section \<open>Sealed texts\<close>

definition sealed_entry :: "ext \<Rightarrow> bytes \<Rightarrow> envelope_entry \<Rightarrow> bool" where
  "sealed_entry X plain e \<longleftrightarrow> (\<exists>r k. gr_valid (aesGcmEncrypt X r k plain)
     \<and> ee_iv e = gr_iv (aesGcmEncrypt X r k plain)
     \<and> ee_ciphertext e = gr_ciphertext (aesGcmEncrypt X r k plain))"

definition pairwise_text :: "ext \<Rightarrow> string \<Rightarrow> string \<Rightarrow> bool" where
  "pairwise_text X plain t \<longleftrightarrow> (\<exists>es. es \<noteq> [] \<and> (\<forall>e\<in>set es. sealed_entry X (x_utf8 X plain) e)
     \<and> t = x_compact X (JObj (encodeEnvelope X es)))"

definition group_text :: "ext \<Rightarrow> string \<Rightarrow> string \<Rightarrow> bool" where
  "group_text X plain t \<longleftrightarrow> (\<exists>r k dev. em_valid (fst (encryptMessage X r k (x_utf8 X plain)))
     \<and> t = x_compact X (JObj (encodeGroupMessage X (fst (encryptMessage X r k (x_utf8 X plain))) dev)))"

definition distribution_text :: "ext \<Rightarrow> string \<Rightarrow> bool" where
  "distribution_text X t \<longleftrightarrow> (\<exists>g u dev k es. es \<noteq> []
     \<and> (\<forall>e\<in>set es. \<exists>p ds. pairwise_text X (x_toBase64 X (sk_chainKey k)) p \<and> decodeEnvelope X p = Some ds
          \<and> de_envelope e \<in> set ds)
     \<and> t = x_compact X (JObj (encodeDistribution X g u dev k es)))"

definition sealed :: "ext \<Rightarrow> string \<Rightarrow> bool" where
  "sealed X t \<longleftrightarrow> (\<exists>plain. pairwise_text X plain t \<or> group_text X plain t) \<or> distribution_text X t"

lemma sealed_entryI:
  "gr_valid (aesGcmEncrypt X r k plain) \<Longrightarrow> sealed_entry X plain \<lparr>ee_deviceId = d, ee_prekeyId = i, ee_eph = p,
     ee_iv = gr_iv (aesGcmEncrypt X r k plain), ee_ciphertext = gr_ciphertext (aesGcmEncrypt X r k plain)\<rparr>"
  by (auto simp: sealed_entry_def)

lemma encrypt_to_devices_sealed:
  "fst (encrypt_to_devices E plain vs c) = Some es \<Longrightarrow> \<forall>e\<in>set es. sealed_entry (ce_ext E) plain e"
proof (induction vs arbitrary: c es)
  case (Cons v vs)
  have one: "sealed_entry (ce_ext E) plain e" if "fst (encrypt_to_device E plain b c) = Some e" for b e c
    using that by (auto simp: encrypt_to_device_def seal_def Let_def split_beta sealed_entryI split: if_splits)
  from Cons show ?case
    by (auto simp: split_beta dest!: one split: option.splits prod.splits)
qed simp

lemma encrypt_self_copy_sealed:
  "e \<in> set (fst (encrypt_self_copy E plain c)) \<Longrightarrow> sealed_entry (ce_ext E) plain e"
  by (auto simp: encrypt_self_copy_def seal_def Let_def split_beta sealed_entryI split: if_splits)

lemma encryptForUser_sealed:
  assumes "fst (encryptForUser E bundles plain c) \<noteq> []"
  shows "pairwise_text (ce_ext E) plain (fst (encryptForUser E bundles plain c))"
proof (cases "encrypt_to_devices E (x_utf8 (ce_ext E) plain) bundles c")
  case (Pair r c1)
  with assms obtain es where r: "r = Some es"
    by (cases r) (simp_all add: encryptForUser_def)
  define own where "own = encrypt_self_copy E (x_utf8 (ce_ext E) plain) c1"
  have "\<forall>e\<in>set (es @ fst own). sealed_entry (ce_ext E) (x_utf8 (ce_ext E) plain) e"
    using encrypt_to_devices_sealed [of E _ bundles c es] encrypt_self_copy_sealed Pair r
    by (auto simp: own_def)
  moreover have "fst (encryptForUser E bundles plain c)
    = (if es @ fst own = [] then [] else envelope_text E (encodeEnvelope (ce_ext E) (es @ fst own)))"
    by (simp add: encryptForUser_def Pair r own_def Let_def split_beta del: append_is_Nil_conv)
  moreover from calculation(2) have "es @ fst own \<noteq> []"
    using assms by (simp del: append_is_Nil_conv split: if_splits)
  ultimately show ?thesis
    unfolding pairwise_text_def envelope_text_def by (intro exI [of _ "es @ fst own"]) auto
qed

lemma encryptGroupMessage_sealed:
  "fst (encryptGroupMessage E g plain c) \<noteq> [] \<Longrightarrow> group_text (ce_ext E) plain (fst (encryptGroupMessage E g plain c))"
  by (auto simp: encryptGroupMessage_def group_text_def envelope_text_def Let_def split_beta
      split: option.splits prod.splits if_splits)

lemma distribution_entries_sealed:
  "e \<in> set (fst (distribution_entries E b64 bs c))
    \<Longrightarrow> \<exists>p ds. pairwise_text (ce_ext E) b64 p \<and> decodeEnvelope (ce_ext E) p = Some ds \<and> de_envelope e \<in> set ds"
proof (induction bs arbitrary: c)
  case (Cons kv bs)
  obtain k v where kv: "kv = (k, v)" by (cases kv)
  define r where "r = encryptForUser E (jarr v) b64 c"
  have "pairwise_text (ce_ext E) b64 (fst r)" if "fst r \<noteq> []"
    using that by (simp add: r_def encryptForUser_sealed)
  with Cons show ?case
    by (auto simp: kv Let_def split_beta r_def [symmetric] eq_commute [of "Some _" "decodeEnvelope _ _"]
        split: if_splits option.splits) blast?
qed simp

lemma buildGroupSenderKeyDistribution_sealed:
  assumes "fst (buildGroupSenderKeyDistribution E g bundles c) \<noteq> []"
  shows "distribution_text (ce_ext E) (fst (buildGroupSenderKeyDistribution E g bundles c))"
proof -
  define d where "d = draw (ce_ed25519 E) c"
  define d' where "d' = draw (\<lambda>n. ce_random E n 0) (snd d)"
  define key where "key = generateSenderKey (ce_ext E) (fst d) (fst d')"
  define es where "es = distribution_entries E (x_toBase64 (ce_ext E) (sk_chainKey key)) bundles (snd d')"
  have eq: "fst (buildGroupSenderKeyDistribution E g bundles c) = envelope_text E
      (encodeDistribution (ce_ext E) g (cl_userId (save_own_key E g key (snd es)))
        (cl_deviceId (save_own_key E g key (snd es))) key (fst es))" and "fst es \<noteq> []"
    using assms
    by (auto simp: buildGroupSenderKeyDistribution_def Let_def split_beta d_def d'_def key_def es_def
        split: if_splits)
  moreover have "\<forall>e\<in>set (fst es). \<exists>p ds. pairwise_text (ce_ext E) (x_toBase64 (ce_ext E) (sk_chainKey key)) p
      \<and> decodeEnvelope (ce_ext E) p = Some ds \<and> de_envelope e \<in> set ds"
    using distribution_entries_sealed by (auto simp: es_def)
  ultimately show ?thesis
    unfolding distribution_text_def eq envelope_text_def by blast
qed

lemma encryptions_sealed:
  "fst (encryptForUser E bundles plain c) \<noteq> [] \<Longrightarrow> sealed (ce_ext E) (fst (encryptForUser E bundles plain c))"
  "fst (encryptGroupMessage E g plain c) \<noteq> [] \<Longrightarrow> sealed (ce_ext E) (fst (encryptGroupMessage E g plain c))"
  "fst (buildGroupSenderKeyDistribution E g ob c) \<noteq> []
    \<Longrightarrow> sealed (ce_ext E) (fst (buildGroupSenderKeyDistribution E g ob c))"
  unfolding sealed_def
  by (blast dest: encryptForUser_sealed encryptGroupMessage_sealed buildGroupSenderKeyDistribution_sealed)+

section \<open>The contract\<close>

fun is_client_request :: "cout \<Rightarrow> bool" where
  "is_client_request (Request mt rid json) = True"
| "is_client_request x = False"

text \<open>A request that carries a content carries a sealed one.\<close>

definition content_sealed :: "ext \<Rightarrow> jobj \<Rightarrow> bool" where
  "content_sealed X json \<longleftrightarrow> (jhas json ''content'' \<longrightarrow> sealed X (jstr (jget json ''content'')))"

text \<open>What a sender notes about its request: no draw, no other request.\<close>

definition quiet_note :: "(64 word \<Rightarrow> client \<Rightarrow> client) \<Rightarrow> bool" where
  "quiet_note note \<longleftrightarrow> (\<forall>rid v. cl_draws (note rid v) = cl_draws v \<and> cl_nextId (note rid v) = cl_nextId v
     \<and> filter is_client_request (cl_outs (note rid v)) = filter is_client_request (cl_outs v)
     \<and> cl_outbox (note rid v) = cl_outbox v)"

lemma quiet_notes:
  "quiet_note (set_pending s)"
  "quiet_note (\<lambda>rid v. setState st (set_pending s rid v))"
  "quiet_note (\<lambda>rid v. v)"
  "quiet_note (\<lambda>rid v. (set_pending s rid v)\<lparr>cl_groupTarget := g\<rparr>)"
  "quiet_note (\<lambda>rid v. (set_pending s rid v)\<lparr>cl_fetchTarget := g\<rparr>)"
  "quiet_note (\<lambda>rid. inflight_put rid i)"
  "quiet_note (\<lambda>rid v. (inflight_put rid i v)\<lparr>cl_distributions := List.insert i (cl_distributions (inflight_put rid i v))\<rparr>)"
  by (simp_all add: quiet_note_def set_pending_def inflight_put_def setState_def csignal_def cemit_def)

locale client_effects =
  fixes I :: "client \<Rightarrow> bool" and good :: "cenv \<Rightarrow> bool"
  assumes quiet: "cl_outs v = cl_outs c \<Longrightarrow> cl_draws v = cl_draws c \<Longrightarrow> cl_nextId v = cl_nextId c
      \<Longrightarrow> cl_outbox v = cl_outbox c \<Longrightarrow> I v = I c"
    and drawn: "I c \<Longrightarrow> I (c\<lparr>cl_draws := cl_draws c + 1\<rparr>)"
    and numbered: "I c \<Longrightarrow> I (c\<lparr>cl_nextId := cl_nextId c + 1\<rparr>)"
    and spoke: "I c \<Longrightarrow> \<not> is_client_request x \<Longrightarrow> I (cemit x c)"
    and sent: "I c \<Longrightarrow> good E \<Longrightarrow> content_sealed (ce_ext E) json \<Longrightarrow> quiet_note note
      \<Longrightarrow> I (send_request E mt json note c)"
begin

lemma updates [simp]:
  "I (cl_state_update u0 c) = I c"
  "I (cl_tls_update u1 c) = I c"
  "I (cl_buffer_update u2 c) = I c"
  "I (cl_pending_update u3 c) = I c"
  "I (cl_pendingUsername_update u4 c) = I c"
  "I (cl_pendingPassword_update u5 c) = I c"
  "I (cl_pendingRegisterPassword_update u6 c) = I c"
  "I (cl_pendingEmail_update u7 c) = I c"
  "I (cl_pendingPhone_update u8 c) = I c"
  "I (cl_loginQueued_update u9 c) = I c"
  "I (cl_registerQueued_update u10 c) = I c"
  "I (cl_reconnect_update u11 c) = I c"
  "I (cl_token_update u12 c) = I c"
  "I (cl_userId_update u13 c) = I c"
  "I (cl_username_update u14 c) = I c"
  "I (cl_expiresAt_update u15 c) = I c"
  "I (cl_expiredNotified_update u16 c) = I c"
  "I (cl_renewTimer_update u17 c) = I c"
  "I (cl_heartbeat_update u18 c) = I c"
  "I (cl_reconnectTimer_update u19 c) = I c"
  "I (cl_inFlight_update u20 c) = I c"
  "I (cl_flushScheduled_update u21 c) = I c"
  "I (cl_deviceId_update u22 c) = I c"
  "I (cl_identity_update u23 c) = I c"
  "I (cl_prekeys_update u24 c) = I c"
  "I (cl_ready_update u25 c) = I c"
  "I (cl_bootstrapping_update u26 c) = I c"
  "I (cl_fetchTarget_update u27 c) = I c"
  "I (cl_backoff_update u28 c) = I c"
  "I (cl_serverPrekeys_update u29 c) = I c"
  "I (cl_cache_update u30 c) = I c"
  "I (cl_cacheLoaded_update u31 c) = I c"
  "I (cl_groupTarget_update u32 c) = I c"
  "I (cl_distributions_update u33 c) = I c"
  "I (cl_groupKeys_update u34 c) = I c"
  "I (cl_healQueue_update u35 c) = I c"
  "I (cl_editMsg_update u36 c) = I c"
  "I (cl_editConv_update u37 c) = I c"
  "I (cl_editPeer_update u38 c) = I c"
  "I (cl_editContent_update u39 c) = I c"
  "I (cl_store_update u40 c) = I c"
  by (rule quiet; simp)+

lemma splits [simp]:
  "I (if P then c else v) = ((P \<longrightarrow> I c) \<and> (\<not> P \<longrightarrow> I v))"
  "I (snd (if P then p else q)) = ((P \<longrightarrow> I (snd p)) \<and> (\<not> P \<longrightarrow> I (snd q)))"
  "I (snd (snd (if P then r else s))) = ((P \<longrightarrow> I (snd (snd r))) \<and> (\<not> P \<longrightarrow> I (snd (snd s))))"
  "I (case x of None \<Rightarrow> c | Some y \<Rightarrow> f y) = ((x = None \<longrightarrow> I c) \<and> (\<forall>y. x = Some y \<longrightarrow> I (f y)))"
  "I (snd (case x of None \<Rightarrow> p | Some y \<Rightarrow> g y)) = ((x = None \<longrightarrow> I (snd p)) \<and> (\<forall>y. x = Some y \<longrightarrow> I (snd (g y))))"
  "I (snd (snd (case x of None \<Rightarrow> r | Some y \<Rightarrow> h y)))
    = ((x = None \<longrightarrow> I (snd (snd r))) \<and> (\<forall>y. x = Some y \<longrightarrow> I (snd (snd (h y)))))"
  by (auto split: option.splits)

lemma draw_I [simp]: "I c \<Longrightarrow> I (snd (draw f c))"
  by (simp add: draw_def drawn [simplified])

lemma on_store_I [simp]: "I c \<Longrightarrow> I (snd (on_store E f c))"
proof -
  assume "I c"
  obtain a s where f: "f (lenv_at E c) (cl_store c) = (a, s)" by (cases "f (lenv_at E c) (cl_store c)")
  have "I (snd (on_store E f c)) = I (c\<lparr>cl_draws := cl_draws c + 1\<rparr>)"
    by (rule quiet) (simp_all add: on_store_def f)
  with drawn [OF \<open>I c\<close>] show ?thesis by simp
qed

lemma on_files_I [simp]: "I c \<Longrightarrow> I (snd (on_files f c))"
  by (simp add: on_files_def split_beta)

lemma csignal_I [simp]: "I c \<Longrightarrow> I (csignal x c)"
  by (simp add: csignal_def spoke)

lemma cemit_I [simp]:
  "I c \<Longrightarrow> I (cemit (After d cb) c)" "I c \<Longrightarrow> I (cemit DisconnectSocket c)"
  "I c \<Longrightarrow> I (cemit (ConnectSocket t) c)" "I c \<Longrightarrow> I (cemit (PongTo r) c)" "I c \<Longrightarrow> I (cemit (HeartbeatPing r) c)"
  by (simp_all add: spoke)

lemma set_pending_I [simp]: "I (set_pending s i c) = I c"
  by (simp add: set_pending_def)

lemma setState_I [simp]: "I c \<Longrightarrow> I (setState st c)"
  by (simp add: setState_def)


lemmas unfold = Let_def split_beta

subsection \<open>Encryption\<close>

lemma draws_I [simp]:
  "I c \<Longrightarrow> I (snd (fresh_pair E c))" "I c \<Longrightarrow> I (snd (seal E k p c))"
  by (simp_all add: fresh_pair_def seal_def unfold)

lemma encrypt_to_device_I [simp]: "I c \<Longrightarrow> I (snd (encrypt_to_device E p b c))"
  by (simp add: encrypt_to_device_def unfold)

lemma encrypt_to_devices_I [simp]: "I c \<Longrightarrow> I (snd (encrypt_to_devices E p vs c))"
  by (induction vs arbitrary: c) (simp_all add: unfold)

lemma encrypt_self_copy_I [simp]: "I c \<Longrightarrow> I (snd (encrypt_self_copy E p c))"
  by (simp add: encrypt_self_copy_def unfold)

lemma encryptForUser_I [simp]: "I c \<Longrightarrow> I (snd (encryptForUser E vs t c))"
  by (simp add: encryptForUser_def unfold)

lemma save_prekeys_I [simp]: "I c \<Longrightarrow> I (save_prekeys E c)"
  by (simp add: save_prekeys_def)

lemma decryptEnvelopeEntry_I [simp]: "I c \<Longrightarrow> I (snd (decryptEnvelopeEntry E e c))"
  by (simp add: decryptEnvelopeEntry_def unfold)

lemma first_opened_I [simp]: "I c \<Longrightarrow> I (snd (first_opened E es c))"
  by (induction es arbitrary: c) (simp_all add: unfold)

lemma decryptIncomingContent_I [simp]: "I c \<Longrightarrow> I (snd (snd (decryptIncomingContent E t c)))"
  by (simp add: decryptIncomingContent_def unfold)

lemma remember_text_I [simp]: "I c \<Longrightarrow> I (cache_put i t c)" "I c \<Longrightarrow> I (remember_text E i t c)"
  by (simp_all add: remember_text_def cache_put_def unfold)

lemma ensureGroupSenderKey_I [simp]: "I c \<Longrightarrow> I (snd (ensureGroupSenderKey E g c))"
  by (simp add: ensureGroupSenderKey_def unfold)

lemma save_own_key_I [simp]: "I c \<Longrightarrow> I (save_own_key E g k c)"
  by (simp add: save_own_key_def unfold)

lemma encryptGroupMessage_I [simp]: "I c \<Longrightarrow> I (snd (encryptGroupMessage E g t c))"
  by (simp add: encryptGroupMessage_def unfold)

lemma decryptGroupMessageObject_I [simp]:
  assumes "I c" shows "I (snd (snd (decryptGroupMessageObject E m c)))"
proof -
  have b: "I (snd (snd (case x of True \<Rightarrow> r | False \<Rightarrow> s)))
      = ((x \<longrightarrow> I (snd (snd r))) \<and> (\<not> x \<longrightarrow> I (snd (snd s))))" for x r s
    by (cases x) simp_all
  from assms show ?thesis
    by (simp add: decryptGroupMessageObject_def b unfold)
qed

lemma own_chain_key_I [simp]: "I c \<Longrightarrow> I (snd (own_chain_key E es c))"
  by (induction es arbitrary: c) (simp_all add: unfold)

lemma processGroupSenderKeyDistribution_I [simp]: "I c \<Longrightarrow> I (snd (processGroupSenderKeyDistribution E m c))"
  by (simp add: processGroupSenderKeyDistribution_def unfold)

lemma distribution_entries_I [simp]: "I c \<Longrightarrow> I (snd (distribution_entries E t bs c))"
proof (induction bs arbitrary: c)
  case (Cons kv bs)
  then show ?case by (cases kv) (simp add: unfold)
qed simp

lemma buildGroupSenderKeyDistribution_I [simp]: "I c \<Longrightarrow> I (snd (buildGroupSenderKeyDistribution E g bs c))"
  by (simp add: buildGroupSenderKeyDistribution_def unfold)

lemma decryptMessageObject_I [simp]: "I c \<Longrightarrow> I (snd (decryptMessageObject E m c))"
  by (simp add: decryptMessageObject_def unfold)

lemma decryptEditContent_I [simp]: "I c \<Longrightarrow> I (snd (decryptEditContent E m c))"
  by (simp add: decryptEditContent_def unfold)

subsection \<open>Requests\<close>

lemma send_I [simp]:
  "\<lbrakk>I c; good E; \<not> jhas json ''content''; quiet_note note\<rbrakk> \<Longrightarrow> I (send_request E mt json note c)"
  by (simp add: sent content_sealed_def)

lemma send_sealed_I:
  "\<lbrakk>I c; good E; jget json ''content'' = JStr t; sealed (ce_ext E) t; quiet_note note\<rbrakk>
    \<Longrightarrow> I (send_request E mt json note c)"
  by (simp add: sent content_sealed_def)


lemma sendFetchGroupKeysRequest_I [simp]: "I c \<Longrightarrow> good E \<Longrightarrow> I (sendFetchGroupKeysRequest E g c)"
  by (simp add: sendFetchGroupKeysRequest_def quiet_notes)

lemma queue_heal_I [simp]: "I (queue_heal g c) = I c"
  by (simp add: queue_heal_def)

lemma heal_I [simp]:
  "I c \<Longrightarrow> good E \<Longrightarrow> I (healGroupSenderKey E g c)"
  "I c \<Longrightarrow> good E \<Longrightarrow> I (drainHealQueue E c)"
  by (simp_all add: healGroupSenderKey_def drainHealQueue_def split: list.split)

lemma group_send_I [simp]:
  "\<lbrakk>I c; good E; sealed (ce_ext E) t; quiet_note note\<rbrakk>
    \<Longrightarrow> I (send_request E mt (group_message_json g t ct i) note c)"
  by (rule send_sealed_I) (simp_all add: group_message_json_def)

lemma make_prekeys_I [simp]: "I c \<Longrightarrow> I (snd (make_prekeys E n c))"
  by (induction n arbitrary: c) (simp_all add: unfold)

lemma sendRegisterKeysRequest_I [simp]: "I c \<Longrightarrow> good E \<Longrightarrow> I (sendRegisterKeysRequest E c)"
  by (simp add: sendRegisterKeysRequest_def unfold quiet_notes)

lemma bootstrapE2ee_I [simp]: "I c \<Longrightarrow> good E \<Longrightarrow> I (bootstrapE2ee E c)"
  by (simp add: bootstrapE2ee_def load_identity_def save_identity_def unfold)

lemma sendFetchKeysRequest_I [simp]: "I c \<Longrightarrow> good E \<Longrightarrow> I (sendFetchKeysRequest E t c)"
  by (simp add: sendFetchKeysRequest_def quiet_notes)

lemma flush_groups_I [simp]: "I c \<Longrightarrow> good E \<Longrightarrow> I (snd (flush_groups E sent is c))"
proof (induction "is" arbitrary: c)
  case (Cons i "is")
  have "I (snd (flush_groups E sent is v))" if "I v" for v
    using Cons that by simp
  with Cons.prems show ?case
    by (simp add: unfold encryptions_sealed quiet_notes split: option.split prod.split)
qed simp

lemma flush_targets_I [simp]: "I c \<Longrightarrow> good E \<Longrightarrow> I (flush_targets E ts c)"
  by (induction ts arbitrary: c) simp_all

lemma flushOutbox_I [simp]: "I c \<Longrightarrow> good E \<Longrightarrow> I (flushOutbox E c)"
  by (simp add: flushOutbox_def unfold)

lemma forget_item_I [simp]: "I c \<Longrightarrow> I (forget_item E i c)" "I c \<Longrightarrow> I (forget_items E is c)"
proof -
  show one: "I c \<Longrightarrow> I (forget_item E i c)" for i c by (simp add: forget_item_def)
  show "I c \<Longrightarrow> I (forget_items E is c)" by (induction "is" arbitrary: c) (simp_all add: one)
qed

lemma clearPendingEdit_I [simp]: "I (clearPendingEdit c) = I c"
  by (simp add: clearPendingEdit_def)

lemma sendEditMessageRequest_I [simp]:
  "\<lbrakk>I c; good E; sealed (ce_ext E) t\<rbrakk> \<Longrightarrow> I (sendEditMessageRequest E i t ct c)"
  unfolding sendEditMessageRequest_def by (rule send_sealed_I) (simp_all add: quiet_notes)

lemma editMessage_I [simp]: "I c \<Longrightarrow> good E \<Longrightarrow> I (editMessage E g u i t c)"
  by (simp add: editMessage_def unfold encryptions_sealed)

lemma check_fingerprint_I [simp]: "I c \<Longrightarrow> I (check_fingerprint E t bs c)"
  by (simp add: check_fingerprint_def unfold)

lemma answered_I [simp]: "(\<And>v. I v \<Longrightarrow> I (f v)) \<Longrightarrow> I c \<Longrightarrow> I (answered s p f c)"
  by (simp add: answered_def)

subsection \<open>Handlers\<close>

lemma connection_I [simp]:
  "I c \<Longrightarrow> I (connectToServer E c)" "I c \<Longrightarrow> I (onDisconnected c)"
  "I c \<Longrightarrow> I (onSocketError t c)" "I c \<Longrightarrow> I (onSslErrors t c)"
  by (simp_all add: connectToServer_def onDisconnected_def onSocketError_def onSslErrors_def unfold)

lemma login_I [simp]:
  assumes "I c" and "good E"
  shows "I (sendLoginRequest E c)" "I (sendRegisterRequest E c)" "I (client_login E u p c)"
    "I (registerAccount E u p e t c)" "I (onConnected E c)" "I (client_logout E c)" "I (renewToken E c)"
proof -
  have one: "I (sendLoginRequest E v)" "I (sendRegisterRequest E v)" if "I v" for v
    using that assms(2)
    by (simp_all add: sendLoginRequest_def sendRegisterRequest_def unfold quiet_notes)
  with assms show "I (sendLoginRequest E c)" "I (sendRegisterRequest E c)" "I (client_login E u p c)"
    "I (registerAccount E u p e t c)" "I (onConnected E c)" "I (client_logout E c)" "I (renewToken E c)"
    by (simp_all add: client_login_def registerAccount_def onConnected_def client_logout_def renewToken_def
        unfold quiet_notes)
qed

lemma sendHeartbeat_I [simp]: "I c \<Longrightarrow> I (sendHeartbeat c)"
  using numbered [of c] by (simp add: sendHeartbeat_def nextRequestId_def)

lemma session_I [simp]:
  "I c \<Longrightarrow> I (scheduleTokenRenew E c)" "I c \<Longrightarrow> I (resetAuthState E c)"
  "I c \<Longrightarrow> I (notifySessionExpired E c)" "I c \<Longrightarrow> I (handleRegisterResponse E p c)"
  "I c \<Longrightarrow> I (handleLogoutResponse E c)" "I c \<Longrightarrow> I (handleTokenRenewResponse E p c)"
proof -
  show one: "I (scheduleTokenRenew E c)" if "I c" for c
    using that by (simp add: scheduleTokenRenew_def unfold)
  show two: "I (resetAuthState E c)" if "I c" for c
    using that by (simp add: resetAuthState_def unfold)
  show three: "I (notifySessionExpired E c)" if "I c" for c
    using that two by (simp add: notifySessionExpired_def unfold)
  show "I (handleRegisterResponse E p c)" "I (handleLogoutResponse E c)" "I (handleTokenRenewResponse E p c)" if "I c" for c
    using that one two three
    by (simp_all add: handleRegisterResponse_def handleLogoutResponse_def handleTokenRenewResponse_def unfold)
qed

lemma ask_I [simp]: "\<lbrakk>I c; good E; \<not> jhas json ''content''\<rbrakk> \<Longrightarrow> I (ask E s mt json c)"
  by (simp add: ask_def quiet_notes)

lemmas request_defs = searchUsers_request_def addContact_request_def getContacts_request_def
  getConversations_request_def ackMessage_def syncMessages_def syncEvents_def createGroup_request_def
  inviteGroupMembers_def leaveGroup_def kickGroupMember_def getGroupInfo_def setPrefs_request_def deleteMessage_def

lemma requests_I [simp]:
  assumes "I c" and "good E"
  shows "I (searchUsers_request E q c)" "I (addContact_request E u c)" "I (getContacts_request E c)"
    "I (getConversations_request E c)" "I (ackMessage E i t c)" "I (syncMessages E g i n c)"
    "I (syncEvents E i n c)" "I (createGroup_request E t us c)" "I (inviteGroupMembers E g us c)"
    "I (leaveGroup E g c)" "I (kickGroupMember E g u c)" "I (getGroupInfo E g c)"
    "I (setPrefs_request E g b d c)" "I (deleteMessage E i c)"
  using assms by (simp_all add: request_defs unfold)

lemma group_answer_I [simp]:
  "(\<And>d v. I v \<Longrightarrow> I (f d v)) \<Longrightarrow> I c \<Longrightarrow> I (group_answer E s t p f c)"
  by (simp add: group_answer_def unfold)

lemma simple_answers_I [simp]:
  assumes "I c"
  shows "I (handleSearchUsersResponse E p c)" "I (handleAddContactResponse E p c)"
    "I (handleGetContactsResponse E p c)" "I (handleAckMessageResponse E p c)"
    "I (handleKickGroupMemberResponse E p c)" "I (handleGetGroupInfoResponse E p c)"
    "I (applyConversationPrefs E g b d c)" "I (prefs_from E ob c)"
    "I (handleSetConversationPrefsResponse E p c)" "I (handleConversationPrefsNotification E p c)"
    "I (applyReadCursor E g i c)" "I (handleReadCursorNotification E p c)" "I (handleMessageStatusUpdate E p c)"
proof -
  have one: "I (applyConversationPrefs E g b d v)" "I (applyReadCursor E g i v)" if "I v" for g b d i v
    using that by (simp_all add: applyConversationPrefs_def applyReadCursor_def unfold)
  with assms show "I (handleSearchUsersResponse E p c)" "I (handleAddContactResponse E p c)"
    "I (handleGetContactsResponse E p c)" "I (handleAckMessageResponse E p c)"
    "I (handleKickGroupMemberResponse E p c)" "I (handleGetGroupInfoResponse E p c)"
    "I (applyConversationPrefs E g b d c)" "I (prefs_from E ob c)"
    "I (handleSetConversationPrefsResponse E p c)" "I (handleConversationPrefsNotification E p c)"
    "I (applyReadCursor E g i c)" "I (handleReadCursorNotification E p c)" "I (handleMessageStatusUpdate E p c)"
    by (simp_all add: handleSearchUsersResponse_def handleAddContactResponse_def handleGetContactsResponse_def
        handleAckMessageResponse_def handleKickGroupMemberResponse_def handleGetGroupInfoResponse_def
        prefs_from_def handleSetConversationPrefsResponse_def handleConversationPrefsNotification_def
        handleReadCursorNotification_def handleMessageStatusUpdate_def unfold)
qed

lemma group_answers_I [simp]:
  assumes "I c" and "good E"
  shows "I (handleCreateGroupResponse E p c)" "I (handleInviteGroupMembersResponse E p c)"
    "I (handleLeaveGroupResponse E p c)"
  using assms by (simp_all add: handleCreateGroupResponse_def handleInviteGroupMembersResponse_def
      handleLeaveGroupResponse_def unfold)

lemma key_answers_I [simp]:
  assumes "I c" and "good E"
  shows "I (handleRegisterKeysResponse E p c)" "I (handleFetchGroupKeysResponse E p c)" "I (handleErrorResponse E p c)"
  using assms
  by (simp_all add: handleRegisterKeysResponse_def handleFetchGroupKeysResponse_def handleErrorResponse_def
      encryptions_sealed quiet_notes unfold)

lemma keep_conversations_I [simp]: "I c \<Longrightarrow> I (snd (keep_conversations E vs c))"
  by (induction vs arbitrary: c) (simp_all add: unfold)

lemma receive_messages_I [simp]: "I c \<Longrightarrow> I (snd (receive_messages E vs c))"
  by (induction vs arbitrary: c) (simp_all add: unfold)

lemma edits_I [simp]:
  "I c \<Longrightarrow> I (foreign_edit E d c)" "I c \<Longrightarrow> I (message_deleted E d c)"
  by (simp_all add: foreign_edit_def message_deleted_def unfold)

lemma heal_all_I [simp]: "I c \<Longrightarrow> good E \<Longrightarrow> I (fold (healGroupSenderKey E) gs c)"
  by (induction gs arbitrary: c) simp_all

lemma decrypt_events_I [simp]: "I c \<Longrightarrow> I (snd (decrypt_events E vs c))"
proof (induction vs arbitrary: c)
  case (Cons v vs)
  then show ?case by (simp add: decrypt_event_def unfold)
qed simp

lemma sync_answers_I [simp]:
  assumes "I c" and "good E"
  shows "I (handleGetConversationsResponse E p c)" "I (handleSyncMessagesResponse E p c)"
    "I (handleNewMessageNotification E p c)" "I (handleGroupChangedNotification E p c)"
    "I (handleEditMessageResponse E p c)" "I (handleDeleteMessageResponse E p c)"
  using assms
  by (simp_all add: handleGetConversationsResponse_def handleSyncMessagesResponse_def
      handleNewMessageNotification_def handleGroupChangedNotification_def forget_group_key_def
      handleEditMessageResponse_def handleDeleteMessageResponse_def unfold)

lemma advance_cursor_I [simp]: "I c \<Longrightarrow> I (advance_cursor E i c)"
  by (simp add: advance_cursor_def)

lemma run_callback_I: "I c \<Longrightarrow> good E \<Longrightarrow> I (run_callback E cb c)"
  by (cases cb) (simp_all add: run_callback_def)

end

text \<open>An invariant that does not look at the outbox either survives every operation.\<close>

locale client_contract = client_effects +
  assumes outbox_free: "I (c\<lparr>cl_outbox := items\<rparr>) = I c"
begin

lemma outbox_update [simp]: "I (cl_outbox_update f c) = I c"
proof -
  have "cl_outbox_update f c = c\<lparr>cl_outbox := f (cl_outbox c)\<rparr>"
    by (cases c) simp
  from arg_cong [OF this, of I] outbox_free [of "f (cl_outbox c)" c] show ?thesis
    by (rule trans)
qed

lemma queue_message_I [simp]: "I c \<Longrightarrow> I (queue_message E i c)"
  by (simp add: queue_message_def open_store_as_def unfold)

lemma sendMessage_I [simp]:
  "I c \<Longrightarrow> good E \<Longrightarrow> I (snd (sendMessage E u t c))"
  "I c \<Longrightarrow> good E \<Longrightarrow> I (snd (sendGroupMessage E g t c))"
  by (simp_all add: sendMessage_def sendGroupMessage_def unfold)

lemma drop_target_I [simp]: "I c \<Longrightarrow> I (drop_target E t c)"
  by (simp add: drop_target_def)

lemma fetch_failed_I [simp]: "I c \<Longrightarrow> good E \<Longrightarrow> I (fetch_failed E t code m c)"
  by (simp add: fetch_failed_def)

lemma send_first_I [simp]: "I c \<Longrightarrow> good E \<Longrightarrow> I (send_first E t bs c)"
  by (simp add: send_first_def unfold)
    (auto intro!: send_sealed_I simp: encryptions_sealed quiet_notes)

lemma acks_I [simp]:
  "I c \<Longrightarrow> good E \<Longrightarrow> I (message_acked E i d c)"
  "I c \<Longrightarrow> good E \<Longrightarrow> I (distribution_acked E i c)"
  "I c \<Longrightarrow> good E \<Longrightarrow> I (message_refused E i d c)"
  by (simp_all add: message_acked_def distribution_acked_def message_refused_def unfold)

lemma send_answers_I [simp]:
  assumes "I c" and "good E"
  shows "I (handleFetchKeysResponse E p c)" "I (handleSendMessageResponse E p c)"
  using assms
  by (simp_all add: handleFetchKeysResponse_def handleSendMessageResponse_def encryptions_sealed unfold)

lemma ingest_event_I [simp]: "I c \<Longrightarrow> I (snd (ingest_event E v h c))"
  by (simp add: ingest_event_def ingest_message_def ingest_group_change_def forget_group_key_def unfold)

lemma ingest_events_I [simp]: "I c \<Longrightarrow> I (snd (ingest_events E vs h c))"
  by (induction vs arbitrary: h c) (simp_all add: unfold)

lemma ingestSyncEvents_I [simp]: "I c \<Longrightarrow> good E \<Longrightarrow> I (ingestSyncEvents E vs i b c)"
  by (simp add: ingestSyncEvents_def advance_cursor_def unfold)

lemma openLocalStore_I [simp]: "I c \<Longrightarrow> good E \<Longrightarrow> I (openLocalStore E c)"
  by (simp add: openLocalStore_def emitCachedConversations_def open_store_as_def unfold)

lemma login_answers_I [simp]:
  assumes "I c" and "good E"
  shows "I (handleSyncEventsResponse E p c)" "I (handleLoginResponse E p c)"
  using assms by (simp_all add: handleSyncEventsResponse_def handleLoginResponse_def unfold)

lemma handlePacket_I: "I c \<Longrightarrow> good E \<Longrightarrow> I (handlePacket E p c)"
proof -
  assume a: "I c" "good E"
  have "\<forall>(mt, h) \<in> set handlers. I (h E p c)"
    using a by (simp add: handlers_def)
  then have "I (h E p c)" if "(mt, h) \<in> set handlers" for mt h
    using that by blast
  with a show ?thesis
    by (auto simp: handlePacket_def find_Some_iff split: option.split) (metis nth_mem)
qed

lemma client_onReadyRead_I: "I c \<Longrightarrow> (\<And>i. good (Es i)) \<Longrightarrow> I (client_onReadyRead Es d c)"
proof -
  have "I (handle_packets Es i ps c)" if "I c" "\<And>i. good (Es i)" for i ps c
    using that by (induction ps arbitrary: i c) (simp_all add: handlePacket_I)
  then show "I c \<Longrightarrow> (\<And>i. good (Es i)) \<Longrightarrow> I (client_onReadyRead Es d c)"
    by (simp add: client_onReadyRead_def unfold)
qed

end

end
