(* ===== verification/Client_System.thy ===== *)
theory Client_System
  imports Client_Effects
begin

text \<open>
  The client as a whole: what can happen to it, the states that can be reached, and two invariants that
  follow from the contract: the contents that leave the client are sealed, and a nonce is used once.
\<close>

section \<open>Events\<close>

definition new_client :: "bool \<Rightarrow> local_store \<Rightarrow> client" where
  "new_client tls store =
     \<lparr>cl_state = Disconnected, cl_nextId = 1, cl_tls = tls, cl_buffer = [], cl_pending = (\<lambda>s. 0),
      cl_pendingUsername = [], cl_pendingPassword = [], cl_pendingRegisterPassword = [], cl_pendingEmail = [],
      cl_pendingPhone = [], cl_loginQueued = False, cl_registerQueued = False, cl_reconnect = False,
      cl_token = [], cl_userId = 0, cl_username = [], cl_expiresAt = 0, cl_expiredNotified = False,
      cl_renewTimer = None, cl_heartbeat = False, cl_reconnectTimer = False, cl_outbox = [], cl_inFlight = [],
      cl_flushScheduled = False, cl_deviceId = [], cl_identity = invalid_pair, cl_prekeys = [],
      cl_ready = False, cl_bootstrapping = False, cl_fetchTarget = 0, cl_backoff = Map.empty,
      cl_serverPrekeys = -1, cl_cache = [], cl_cacheLoaded = False, cl_groupTarget = 0,
      cl_distributions = [], cl_groupKeys = Map.empty, cl_healQueue = [], cl_editMsg = 0, cl_editConv = 0,
      cl_editPeer = 0, cl_editContent = [], cl_store = store, cl_draws = 0, cl_outs = []\<rparr>"

datatype client_event =
    Login string string | Register string string string string | Logout
  | SendText ident string | SendGroupText ident string
  | Edit ident ident ident string | DeleteMsg ident | Search string | AddContactEv ident | Contacts | Conversations
  | AckEv ident string | SyncMsgs ident ident int | SyncEvs ident int
  | NewGroup string "ident list" | Invite ident "ident list" | Leave ident | Kick ident ident | GroupInfo ident
  | Prefs ident bool bool
  | SocketConnected | SocketDisconnected | SocketFailed string | CertificateErrors string | SocketData bytes
  | HeartbeatTick | ReconnectTick | RenewTick | Fires callback

text \<open>\<open>Es i\<close> is the environment of the \<open>i\<close>-th packet that an event brings, \<open>Es 0\<close> that of any other event.\<close>

primrec client_event_step :: "(nat \<Rightarrow> cenv) \<Rightarrow> client_event \<Rightarrow> client \<Rightarrow> client" where
  "client_event_step Es (Login u p) = client_login (Es 0) u p"
| "client_event_step Es (Register u p m t) = registerAccount (Es 0) u p m t"
| "client_event_step Es Logout = client_logout (Es 0)"
| "client_event_step Es (SendText u t) = snd \<circ> sendMessage (Es 0) u t"
| "client_event_step Es (SendGroupText g t) = snd \<circ> sendGroupMessage (Es 0) g t"
| "client_event_step Es (Edit g u i t) = editMessage (Es 0) g u i t"
| "client_event_step Es (DeleteMsg i) = deleteMessage (Es 0) i"
| "client_event_step Es (Search q) = searchUsers_request (Es 0) q"
| "client_event_step Es (AddContactEv u) = addContact_request (Es 0) u"
| "client_event_step Es Contacts = getContacts_request (Es 0)"
| "client_event_step Es Conversations = getConversations_request (Es 0)"
| "client_event_step Es (AckEv i st) = ackMessage (Es 0) i st"
| "client_event_step Es (SyncMsgs g i n) = syncMessages (Es 0) g i n"
| "client_event_step Es (SyncEvs i n) = syncEvents (Es 0) i n"
| "client_event_step Es (NewGroup t us) = createGroup_request (Es 0) t us"
| "client_event_step Es (Invite g us) = inviteGroupMembers (Es 0) g us"
| "client_event_step Es (Leave g) = leaveGroup (Es 0) g"
| "client_event_step Es (Kick g u) = kickGroupMember (Es 0) g u"
| "client_event_step Es (GroupInfo g) = getGroupInfo (Es 0) g"
| "client_event_step Es (Prefs g b d) = setPrefs_request (Es 0) g b d"
| "client_event_step Es SocketConnected = onConnected (Es 0)"
| "client_event_step Es SocketDisconnected = onDisconnected"
| "client_event_step Es (SocketFailed t) = onSocketError t"
| "client_event_step Es (CertificateErrors t) = onSslErrors t"
| "client_event_step Es (SocketData d) = client_onReadyRead Es d"
| "client_event_step Es HeartbeatTick = sendHeartbeat"
| "client_event_step Es ReconnectTick = connectToServer (Es 0)"
| "client_event_step Es RenewTick = renewToken (Es 0)"
| "client_event_step Es (Fires cb) = run_callback (Es 0) cb"

inductive client_reachable :: "ext \<Rightarrow> (nat \<Rightarrow> string) \<Rightarrow> client \<Rightarrow> bool" for X U where
  start: "client_reachable X U (new_client tls store)"
| step: "client_reachable X U (client_event_step Es ev c)"
    if "client_reachable X U c" and "\<forall>i. ce_ext (Es i) = X \<and> ce_uuid (Es i) = U"

context client_contract
begin

lemma event_I: "I c \<Longrightarrow> (\<And>i. good (Es i)) \<Longrightarrow> I (client_event_step Es ev c)"
  by (cases ev) (simp_all add: client_onReadyRead_I run_callback_I)

lemma reachable_I:
  assumes "client_reachable X U c" and "\<And>E. ce_ext E = X \<Longrightarrow> ce_uuid E = U \<Longrightarrow> good E"
    and "\<And>tls store. I (new_client tls store)"
  shows "I c"
  using assms(1) by induction (use assms event_I in blast)+

end

section \<open>The two invariants\<close>

abbreviation requests :: "client \<Rightarrow> cout list" where
  "requests c \<equiv> filter is_client_request (cl_outs c)"

fun request_json :: "cout \<Rightarrow> jobj" where
  "request_json (Request mt rid json) = json"
| "request_json x = []"

definition request_nonce :: "cout \<Rightarrow> string" where
  "request_nonce x = jstr (jget (request_json x) ''nonce'')"

lemma jhas_jset [simp]: "jhas (jset k v ob) i = (i = k \<or> jhas ob i)"
  by (induction ob) (auto split: if_splits)

text \<open>What \<open>send_request\<close> adds: at most one request, the given one with a fresh nonce.\<close>

lemma send_request_effect:
  assumes "quiet_note note"
  obtains (silent) "requests (send_request E mt json note c) = requests c"
      "cl_draws (send_request E mt json note c) = cl_draws c + 1"
  | (spoken) rid json1 where
      "requests (send_request E mt json note c) = requests c @ [Request mt rid json1]"
      "cl_draws (send_request E mt json note c) = cl_draws c + 1"
      "jget json1 ''nonce'' = JStr (ce_uuid E (cl_draws c))"
      "\<And>k. k \<notin> {''nonce'', ''timestamp'', ''token''} \<Longrightarrow> jget json1 k = jget json k \<and> jhas json1 k = jhas json k"
proof -
  define json1 where "json1 = fst (addReplayProtection E json c)"
  define c2 where "c2 = snd (nextRequestId (snd (addReplayProtection E json c)))"
  define v where "v = note (cl_nextId c) c2"
  have c2: "cl_draws c2 = cl_draws c + 1" "requests c2 = requests c"
    by (simp_all add: c2_def nextRequestId_def addReplayProtection_def draw_def Let_def)
  then have v: "cl_draws v = cl_draws c + 1" "requests v = requests c"
    using assms by (simp_all add: v_def quiet_note_def)
  have send: "send_request E mt json note c = send_packet (ce_ext E) mt (cl_nextId c) json1 v"
    by (simp add: send_request_def json1_def v_def c2_def nextRequestId_def addReplayProtection_def draw_def Let_def)
  have json1: "jget json1 ''nonce'' = JStr (ce_uuid E (cl_draws c))"
    "\<And>k. k \<notin> {''nonce'', ''timestamp'', ''token''} \<Longrightarrow> jget json1 k = jget json k \<and> jhas json1 k = jhas json k"
    by (simp_all add: json1_def addReplayProtection_def draw_def Let_def)
  show thesis
  proof (cases "encode (mk_packet mt (cl_nextId c) (text_of (ce_ext E) json1)) = []")
    case True
    then show thesis
      using v by (intro silent) (simp_all add: send send_packet_def csignal_def cemit_def)
  next
    case False
    then show thesis
      using v json1 by (intro spoken [of "cl_nextId c" json1]) (simp_all add: send send_packet_def cemit_def)
  qed
qed

definition contents_sealed :: "ext \<Rightarrow> client \<Rightarrow> bool" where
  "contents_sealed X c \<longleftrightarrow> (\<forall>x\<in>set (requests c). content_sealed X (request_json x))"

lemma cemit_requests [simp]: "\<not> is_client_request x \<Longrightarrow> requests (cemit x c) = requests c"
  by (simp add: cemit_def)

interpretation sealing: client_contract "contents_sealed X" "\<lambda>E. ce_ext E = X" for X
proof
  fix c and E :: cenv and json nt mt
  assume c: "contents_sealed X c" "ce_ext E = X" "content_sealed (ce_ext E) json" "quiet_note nt"
  show "contents_sealed X (send_request E mt json nt c)"
  proof (rule send_request_effect [OF c(4), of E mt json c], goal_cases)
    case spoken: (2 rid json1)
    have "content_sealed X json1"
      using c(2,3) spoken(4) [of "''content''"] by (simp add: content_sealed_def)
    with c(1) spoken(1) show ?thesis by (simp add: contents_sealed_def)
  qed (use c(1) in \<open>simp add: contents_sealed_def\<close>)
qed (simp_all add: contents_sealed_def)

definition nonces_once :: "(nat \<Rightarrow> string) \<Rightarrow> client \<Rightarrow> bool" where
  "nonces_once U c \<longleftrightarrow> (\<exists>ns. map request_nonce (requests c) = map U ns \<and> distinct ns
     \<and> (\<forall>n\<in>set ns. n < cl_draws c))"

lemma nonces_later:
  assumes "nonces_once U c" and "requests v = requests c" and "cl_draws c \<le> cl_draws v"
  shows "nonces_once U v"
  using assms unfolding nonces_once_def by (metis order_less_le_trans)

interpretation freshness: client_contract "nonces_once U" "\<lambda>E. ce_uuid E = U" for U
proof
  fix c and E :: cenv and json nt mt
  assume c: "nonces_once U c" "ce_uuid E = U" "quiet_note nt"
  show "nonces_once U (send_request E mt json nt c)"
  proof (rule send_request_effect [OF c(3), of E mt json c], goal_cases)
    case spoken: (2 rid json1)
    from c(1) obtain ns where ns: "map request_nonce (requests c) = map U ns" "distinct ns" "\<forall>n\<in>set ns. n < cl_draws c"
      by (auto simp: nonces_once_def)
    have "map request_nonce (requests (send_request E mt json nt c)) = map U (ns @ [cl_draws c])"
      using spoken(1,3) ns(1) c(2) by (simp add: request_nonce_def)
    moreover have "distinct (ns @ [cl_draws c])"
      using ns(2,3) by auto
    moreover have "\<forall>n\<in>set (ns @ [cl_draws c]). n < cl_draws (send_request E mt json nt c)"
      using ns(3) spoken(2) by auto
    ultimately show ?thesis unfolding nonces_once_def by blast
  qed (use nonces_later c(1) in simp)
next
  fix c x assume "nonces_once U c" "\<not> is_client_request x"
  then show "nonces_once U (cemit x c)"
    using nonces_later [of U c "cemit x c"] by (simp add: cemit_def)
next
  fix c assume "nonces_once U c"
  then show "nonces_once U (c\<lparr>cl_draws := cl_draws c + 1\<rparr>)"
    using nonces_later [of U c "c\<lparr>cl_draws := cl_draws c + 1\<rparr>"] by simp
qed (simp_all add: nonces_once_def)

end
