(* ===== verification/Client_Properties.thy ===== *)
theory Client_Properties
  imports Client_System
begin

text \<open>
  Properties of the client: contents leave it sealed, nonces are used once, a queued message stays in
  the outbox until it is answered, also when the account changes.
\<close>

section \<open>The outbox\<close>

interpretation kept: client_effects "\<lambda>c. i \<in> set (cl_outbox c)" "\<lambda>E. True" for i
proof
  fix c :: client and E :: cenv and json nt mt
  assume "i \<in> set (cl_outbox c)" "quiet_note nt"
  then show "i \<in> set (cl_outbox (send_request E mt json nt c))"
    by (simp add: send_request_def addReplayProtection_def draw_def nextRequestId_def send_packet_def
        csignal_def cemit_def quiet_note_def Let_def)
qed (simp_all add: cemit_def)

lemma set_drop_first: "x \<in> set xs \<Longrightarrow> \<not> P x \<Longrightarrow> x \<in> set (drop_first P xs)"
  by (induction xs) auto

lemma set_drop_last: "x \<in> set xs \<Longrightarrow> \<not> P x \<Longrightarrow> x \<in> set (drop_last P xs)"
  by (simp add: drop_last_def set_drop_first)

lemma set_add_missing: "x \<in> set ys \<Longrightarrow> x \<in> set (add_missing xs ys)"
  by (induction xs arbitrary: ys) auto

lemma outbox_forget [simp]:
  "cl_outbox (snd (on_store E f c)) = cl_outbox c" "cl_outbox (forget_item E i c) = cl_outbox c"
  by (simp_all add: forget_item_def on_store_def split_beta)

lemma message_acked_kept: "x \<in> set (cl_outbox c) \<Longrightarrow> oi_clientId x \<noteq> i \<Longrightarrow> x \<in> set (cl_outbox (message_acked E i d c))"
  by (simp add: message_acked_def Let_def csignal_def cemit_def set_drop_first)

lemma distribution_acked_kept:
  "x \<in> set (cl_outbox c) \<Longrightarrow> oi_clientId x \<noteq> i \<Longrightarrow> x \<in> set (cl_outbox (distribution_acked E i c))"
  by (simp add: distribution_acked_def Let_def set_drop_last)

lemma message_refused_kept:
  assumes "x \<in> set (cl_outbox c)"
    and "oi_clientId x \<noteq> i \<or> \<not> (\<exists>d\<in>{PermissionDenied, ConversationNotFound, InvalidRequest}. is_code (response_code r) d)"
  shows "x \<in> set (cl_outbox (message_refused E i r c))"
  using assms
  by (auto simp: message_refused_def Let_def csignal_def cemit_def intro!: set_drop_last split: option.split)

lemma send_first_kept:
  assumes "x \<in> set (cl_outbox c)" and "oi_toUser x \<noteq> t"
  shows "x \<in> set (cl_outbox (send_first E t bs c))"
proof -
  have "x \<in> set (cl_outbox (snd (encryptForUser E bs m c)))" for m
    using assms(1) by simp
  then show ?thesis
    using assms
    by (auto simp: send_first_def Let_def split_beta csignal_def cemit_def quiet_notes encryptions_sealed
        intro!: set_drop_first kept.send_sealed_I split: option.split)
qed

lemma drop_target_kept: "x \<in> set (cl_outbox c) \<Longrightarrow> oi_toUser x \<noteq> t \<Longrightarrow> x \<in> set (cl_outbox (drop_target E t c))"
  by (simp add: drop_target_def)

lemma fetch_failed_kept:
  assumes "x \<in> set (cl_outbox c)" and "oi_toUser x \<noteq> t \<or> \<not> is_code code CannotSendToSelf"
  shows "x \<in> set (cl_outbox (fetch_failed E t code m c))"
  using assms
  by (auto simp: fetch_failed_def csignal_def cemit_def clearPendingEdit_def drop_target_kept intro!: kept.flushOutbox_I)

lemma check_fingerprint_kept: "x \<in> set (cl_outbox c) \<Longrightarrow> x \<in> set (cl_outbox (check_fingerprint E t bs c))"
  by simp

text \<open>The client identifiers of the message events of a batch.\<close>

definition event_id :: "jobj \<Rightarrow> string option" where
  "event_id event = (if jstr (jget event ''type'') = ''message''
     then Some (jstr (jget (jobject (jget event ''payload'')) ''clientMessageId'')) else None)"

definition event_ids :: "json list \<Rightarrow> string set" where
  "event_ids vs = {i. Some i \<in> event_id ` jobject ` set vs}"

lemma event_ids_Cons [simp]:
  "event_ids (v # vs) = (case event_id (jobject v) of None \<Rightarrow> {} | Some i \<Rightarrow> {i}) \<union> event_ids vs"
  by (auto simp: event_ids_def split: option.splits)

lemma decryptGroupMessageObject_id:
  "jget (fst (snd (decryptGroupMessageObject E m c))) ''clientMessageId'' = jget m ''clientMessageId''"
  by (auto simp: decryptGroupMessageObject_def undecryptable_msg_def Let_def split_beta split: bool.split prod.split)

lemma decryptMessageObject_id:
  "jget (fst (decryptMessageObject E m c)) ''clientMessageId'' = jget m ''clientMessageId''"
  by (auto simp: decryptMessageObject_def undecryptable_msg_def decryptGroupMessageObject_id Let_def split_beta
      split: option.split)

lemma decrypt_event_id: "event_id (fst (decrypt_event E v c)) = event_id v"
  by (simp add: decrypt_event_def event_id_def decryptMessageObject_id Let_def split_beta)

lemma decrypt_events_ids: "event_ids (fst (decrypt_events E vs c)) = event_ids vs"
proof (induction vs arbitrary: c)
  case (Cons v vs)
  then show ?case by (simp add: Let_def split_beta decrypt_event_id)
qed simp

lemma ingest_message_kept:
  assumes "x \<in> set (cl_outbox c)" and "oi_clientId x \<noteq> jstr (jget m ''clientMessageId'')"
  shows "x \<in> set (cl_outbox (ingest_message E m c))"
  using assms by (auto simp: ingest_message_def Let_def set_drop_last)

lemma ingest_event_kept:
  assumes "x \<in> set (cl_outbox c)" and "event_id v \<noteq> Some (oi_clientId x)"
  shows "x \<in> set (cl_outbox (snd (ingest_event E v h c)))"
  using assms ingest_message_kept
  by (auto simp: ingest_event_def ingest_group_change_def forget_group_key_def event_id_def Let_def)

lemma ingest_events_kept:
  assumes "x \<in> set (cl_outbox c)" and "oi_clientId x \<notin> event_ids vs"
  shows "x \<in> set (cl_outbox (snd (ingest_events E vs h c)))"
  using assms
proof (induction vs arbitrary: h c)
  case (Cons v vs)
  have "event_id (jobject v) \<noteq> Some (oi_clientId x)" "oi_clientId x \<notin> event_ids vs"
    using Cons.prems(2) by auto
  with Cons show ?case by (simp add: split_beta ingest_event_kept)
qed simp

lemma ingestSyncEvents_kept:
  assumes "x \<in> set (cl_outbox c)" and "oi_clientId x \<notin> event_ids vs"
  shows "x \<in> set (cl_outbox (ingestSyncEvents E vs i b c))"
  using ingest_events_kept [OF assms] assms(1)
  by (simp add: ingestSyncEvents_def Let_def split_beta)

lemma openLocalStore_kept: "x \<in> set (cl_outbox c) \<Longrightarrow> x \<in> set (cl_outbox (openLocalStore E c))"
  by (simp add: openLocalStore_def emitCachedConversations_def open_store_as_def Let_def split_beta set_add_missing)

lemma handleLoginResponse_kept: "x \<in> set (cl_outbox c) \<Longrightarrow> x \<in> set (cl_outbox (handleLoginResponse E p c))"
  by (simp add: handleLoginResponse_def answered_def Let_def openLocalStore_kept)

text \<open>What may take an item out of the outbox.\<close>

definition settles :: "cenv \<Rightarrow> packet \<Rightarrow> client \<Rightarrow> outbox_item \<Rightarrow> bool" where
  "settles E p c x \<longleftrightarrow>
     (let response = response_of E p; code = response_code response; data = response_data response
      in (pk_type p = mt_code SendMessageResponse
          \<and> (\<exists>cid. map_of (cl_inFlight c) (pk_reqid p) = Some cid
              \<and> (if is_code code Ok then oi_clientId x = jstr_or cid (jget data ''clientMessageId'')
                 else oi_clientId x = cid
                   \<and> (\<exists>d\<in>{PermissionDenied, ConversationNotFound, InvalidRequest}. is_code code d))))
       \<or> (pk_type p = mt_code FetchKeysResponse \<and> pk_reqid p = cl_pending c PFetchKeys
          \<and> oi_toUser x = cl_fetchTarget c \<and> (is_code code Ok \<or> is_code code CannotSendToSelf))
       \<or> (pk_type p = mt_code SyncEventsResponse \<and> pk_reqid p = cl_pending c PSyncEvents
          \<and> oi_clientId x \<in> event_ids (jarr (jget data ''events''))))"

lemma handleSendMessageResponse_kept:
  assumes "x \<in> set (cl_outbox c)" and "\<not> settles E p c x" and "pk_type p = mt_code SendMessageResponse"
  shows "x \<in> set (cl_outbox (handleSendMessageResponse E p c))"
proof (cases "map_of (cl_inFlight c) (pk_reqid p)")
  case (Some cid)
  then show ?thesis
    using assms
    by (auto simp: handleSendMessageResponse_def settles_def Let_def
        intro!: message_acked_kept distribution_acked_kept message_refused_kept)
qed (use assms(1) in \<open>simp add: handleSendMessageResponse_def\<close>)

lemma handleFetchKeysResponse_kept:
  assumes "x \<in> set (cl_outbox c)" and "\<not> settles E p c x" and "pk_type p = mt_code FetchKeysResponse"
  shows "x \<in> set (cl_outbox (handleFetchKeysResponse E p c))"
  using assms
  by (auto simp: handleFetchKeysResponse_def answered_def settles_def Let_def split_beta encryptions_sealed set_pending_def
      intro!: fetch_failed_kept send_first_kept kept.flushOutbox_I)

lemma handleSyncEventsResponse_kept:
  assumes "x \<in> set (cl_outbox c)" and "\<not> settles E p c x" and "pk_type p = mt_code SyncEventsResponse"
  shows "x \<in> set (cl_outbox (handleSyncEventsResponse E p c))"
  using assms
  by (auto simp: handleSyncEventsResponse_def answered_def settles_def Let_def split_beta decrypt_events_ids
      ingestSyncEvents_kept)

lemma handlers_kept:
  assumes "x \<in> set (cl_outbox c)" and "\<not> settles E p c x"
  shows "\<forall>(mt, h)\<in>set handlers. mt_code mt = pk_type p \<longrightarrow> x \<in> set (cl_outbox (h E p c))"
proof -
  note simps = handleSendMessageResponse_kept [OF assms] handleFetchKeysResponse_kept [OF assms]
    handleSyncEventsResponse_kept [OF assms] handleLoginResponse_kept [OF assms(1)]
  show ?thesis
    unfolding handlers_def list.set ball_simps prod.case
    using assms(1) by (simp add: simps)
qed

section \<open>A sample run\<close>

definition sample_key :: bytes where "sample_key = replicate 32 7"

lemma length_sample_key [simp]: "length sample_key = 32" "sample_key \<noteq> []"
  by (simp_all add: sample_key_def)

definition client_ext :: ext where
  "client_ext = sample_ext\<lparr>x_fromJson := (\<lambda>b.
     if b = [1] then Some (JObj [(''code'', JNum 0),
       (''data'', JObj [(''userId'', JNum 1), (''username'', JStr ''al''), (''token'', JStr ''t'')])])
     else if b = [2] then Some (JObj [(''code'', JNum 0)])
     else if b = [3] then Some (JObj [(''code'', JNum 0), (''data'', JObj [(''bundles'', JArr
       [JObj [(''deviceId'', JStr ''d''), (''prekeyId'', JNum 4),
              (''identityPub'', JStr ''i''), (''prekeyPub'', JStr ''p'')]])])])
     else None), x_fromBase64Lax := (\<lambda>s. sample_key), x_x25519 := (\<lambda>a b. Some sample_key),
     x_hkdf := (\<lambda>k s i. Some sample_key)\<rparr>"

definition client_env :: cenv where
  "client_env = \<lparr>ce_ext = client_ext, ce_now = 100, ce_uuid = (\<lambda>n. replicate n CHR ''x''),
     ce_x25519 = (\<lambda>n. Some (sample_key, sample_key)), ce_ed25519 = (\<lambda>n. None),
     ce_random = (\<lambda>n k. Some (replicate 12 0)), ce_part = 0, ce_driver = False, ce_deviceId = ''dev'',
     ce_platform = ''linux'', ce_plaintext = False, ce_iso = (\<lambda>t. None)\<rparr>"

definition closed_store :: local_store where
  "closed_store = \<lparr>ls_open = False, ls_handle = False, ls_username = [], ls_deviceId = [], ls_storageKey = [],
     ls_dbs = Map.empty, ls_files = \<lparr>fs_content = Map.empty, fs_locked = (\<lambda>p. False), fs_faults = []\<rparr>, ls_faults = []\<rparr>"

definition keyless_env :: cenv where
  "keyless_env = client_env\<lparr>ce_x25519 := (\<lambda>n. None)\<rparr>"

text \<open>Login, the keys registered, one message queued, the recipient's keys fetched.\<close>

definition sample_events :: "(cenv \<times> client_event) list" where
  "sample_events =
     [(client_env, Login ''al'' ''pw''), (client_env, SocketConnected),
      (keyless_env, SocketData (encode (mk_packet LoginResponse 1 [1]))),
      (client_env, SocketData (encode (mk_packet RegisterKeysResponse 0 [2]))),
      (client_env, SendText 7 ''hi''),
      (client_env, SocketData (encode (mk_packet FetchKeysResponse 2 [3])))]"

definition sample_client :: client where
  "sample_client = fold (\<lambda>(E, ev). client_event_step (\<lambda>i. E) ev) sample_events (new_client True closed_store)"

lemma encode_nil: "(encode p = []) = (unat MaxPayloadSize < length (pk_payload p))"
  by (simp add: encode_def) (metis be_bytes_def length_be_bytes list.size(3) zero_neq_numeral)

lemma one_packet:
  assumes "cl_buffer c = []" and "length pl < 10"
  shows "client_onReadyRead Es (encode (mk_packet mt r pl)) c = (handlePacket (Es 0) (mk_packet mt r pl) c)\<lparr>cl_buffer := []\<rparr>"
proof -
  have "drain (encode (mk_packet mt r pl)) = ([mk_packet mt r pl], None, [])"
    using drain_encodes [of "[mk_packet mt r pl]"] assms(2)
    by (simp add: mk_packet_def MaxPayloadSize_def)
  with assms(1) show ?thesis by (simp add: client_onReadyRead_def appendData_def)
qed

lemma reachable_fold:
  assumes "client_reachable X U c" and "\<forall>(E, ev)\<in>set es. ce_ext E = X \<and> ce_uuid E = U"
  shows "client_reachable X U (fold (\<lambda>(E, ev). client_event_step (\<lambda>i. E) ev) es c)"
  using assms
proof (induction es arbitrary: c)
  case (Cons q es)
  obtain E ev where q: "q = (E, ev)" by (cases q)
  have "client_reachable X U (client_event_step (\<lambda>i. E) ev c)"
    by (rule client_reachable.step) (use Cons.prems q in auto)
  from Cons.IH [OF this] Cons.prems(2) show ?case by (simp add: q)
qed simp

lemma sample_client_reachable: "client_reachable client_ext (\<lambda>n. replicate n CHR ''x'') sample_client"
  unfolding sample_client_def
  by (rule reachable_fold [OF client_reachable.start]) (simp add: sample_events_def client_env_def keyless_env_def)

lemma client_env_simps:
  "ce_ext client_env = client_ext" "ce_now client_env = 100" "ce_uuid client_env = (\<lambda>n. replicate n CHR ''x'')"
  "ce_x25519 client_env = (\<lambda>n. Some (sample_key, sample_key))" "ce_random client_env = (\<lambda>n k. Some (replicate 12 0))"
  "ce_driver client_env = False" "ce_deviceId client_env = ''dev''" "ce_platform client_env = ''linux''"
  "ce_ext keyless_env = client_ext" "ce_now keyless_env = 100" "ce_uuid keyless_env = (\<lambda>n. replicate n CHR ''x'')"
  "ce_x25519 keyless_env = (\<lambda>n. None)" "ce_driver keyless_env = False"
  by (simp_all add: client_env_def keyless_env_def)

lemma client_ext_simps:
  "x_fromBase64Lax client_ext = (\<lambda>s. sample_key)" "x_protect client_ext = id" "x_unprotect client_ext = id"
  "x_compact client_ext = (\<lambda>j. ''{}'')" "x_utf8 client_ext = bytes_of"
  "x_hkdf client_ext = (\<lambda>k s i. Some sample_key)"
  "x_gcmSeal client_ext = (\<lambda>k iv p. Some (p @ replicate 16 0))"
  "x_x25519 client_ext = (\<lambda>a b. Some sample_key)"
  "x_fromJson client_ext [1] = Some (JObj [(''code'', JNum 0),
       (''data'', JObj [(''userId'', JNum 1), (''username'', JStr ''al''), (''token'', JStr ''t'')])])"
  "x_fromJson client_ext [2] = Some (JObj [(''code'', JNum 0)])"
  "x_fromJson client_ext [3] = Some (JObj [(''code'', JNum 0), (''data'', JObj [(''bundles'', JArr
       [JObj [(''deviceId'', JStr ''d''), (''prekeyId'', JNum 4),
              (''identityPub'', JStr ''i''), (''prekeyPub'', JStr ''p'')]])])])"
  "x_fromJson client_ext [] = None"
  by (simp_all add: client_ext_def sample_ext_def)

lemma mk_packet_simps:
  "pk_type (mk_packet mt r pl) = mt_code mt" "pk_reqid (mk_packet mt r pl) = r" "pk_payload (mk_packet mt r pl) = pl"
  by (simp_all add: mk_packet_def)

lemmas run = client_login_def connectToServer_def setState_def csignal_def cemit_def
  onConnected_def sendLoginRequest_def send_request_def addReplayProtection_def draw_def nextRequestId_def
  send_packet_def set_pending_def one_packet handlePacket_def handlers_def mk_packet_simps
  handleLoginResponse_def answered_def parseExpiresAt_def openLocalStore_def open_store_as_def on_store_def
  lenv_at_def store_open_def scheduleTokenRenew_def flushOutbox_def bootstrapE2ee_def load_identity_def
  fresh_pair_def generateX25519KeyPair_def encode_nil Let_def split_beta MaxPayloadSize_def
  code_or_def message_or_def object_of_def text_of_def client_env_simps client_ext_simps bytes_of_def
  loadIdentityPrivateKey_def readFileBytes_def keyFilePath_def fs_exists_def invalid_pair_def
  handleRegisterKeysResponse_def drainHealQueue_def sendMessage_def queue_message_def addOutboxItem_def with_db_def
  ensureUsableDb_def sendFetchKeysRequest_def handleFetchKeysResponse_def

lemma sample_outs:
  "cl_outs sample_client =
     [Signal (StateChanged Connecting), ConnectSocket True, Signal (StateChanged Connected),
      Signal (StateChanged LoggingIn),
      Request LoginRequest 1
        [(''type'', JStr ''login''), (''username'', JStr ''al''), (''password'', JStr ''pw''),
         (''clientVersion'', JStr ''0.2.0''), (''platform'', JStr ''linux''), (''deviceId'', JStr ''dev''),
         (''timestamp'', JNum 100), (''nonce'', JStr [])],
      Signal (StateChanged Authenticated), Signal SessionChanged, Signal LoginSuccessful,
      Request FetchKeysRequest 2
        [(''type'', JStr ''fetch_keys''), (''userId'', JNum 7), (''timestamp'', JNum 100),
         (''nonce'', JStr ''xxxxxx''), (''token'', JStr ''t'')],
      Request SendMessageRequest 3
        [(''type'', JStr ''send_message''), (''toUserId'', JNum 7), (''content'', JStr ''{}''),
         (''contentType'', JStr ''text''), (''clientMessageId'', JStr ''xxx''), (''timestamp'', JNum 100),
         (''nonce'', JStr ''xxxxxxxxx''), (''token'', JStr ''t'')]]"
  by (simp add: sample_client_def sample_events_def run new_client_def closed_store_def
      send_first_def check_fingerprint_def encryptForUser_def encrypt_to_device_def encrypt_self_copy_def seal_def
      ecdh_def e2ee_deriveMessageKey_def aesGcmEncrypt_def loadPeerFingerprint_def on_files_def inflight_put_def envelope_text_def trustFilePath_def)

section \<open>Properties\<close>

text \<open>C1: whatever happens to the client, a content that leaves it is sealed.\<close>

theorem contents_leave_sealed:
  assumes "client_reachable X U c" and "Request mt rid json \<in> set (cl_outs c)" and "jhas json ''content''"
  shows "sealed X (jstr (jget json ''content''))"
proof -
  have "contents_sealed X c"
    by (rule sealing.reachable_I [OF assms(1)]) (simp_all add: contents_sealed_def new_client_def)
  moreover have "Request mt rid json \<in> set (requests c)"
    using assms(2) by simp
  ultimately have "content_sealed X (request_json (Request mt rid json))"
    unfolding contents_sealed_def by (rule bspec)
  with assms(3) show ?thesis by (simp add: content_sealed_def)
qed

theorem contents_leave_sealed_witness: "sealed client_ext ''{}''"
  using contents_leave_sealed [OF sample_client_reachable, of SendMessageRequest 3
      "[(''type'', JStr ''send_message''), (''toUserId'', JNum 7), (''content'', JStr ''{}''),
        (''contentType'', JStr ''text''), (''clientMessageId'', JStr ''xxx''), (''timestamp'', JNum 100),
        (''nonce'', JStr ''xxxxxxxxx''), (''token'', JStr ''t'')]"]
  by (simp add: sample_outs)

text \<open>C33: no two requests of the client carry the same nonce, if the UUIDs are different.\<close>

theorem client_nonces_once:
  assumes "client_reachable X U c" and "inj U"
  shows "distinct (map request_nonce (requests c))"
proof -
  have "nonces_once U c"
    by (rule freshness.reachable_I [OF assms(1)]) (simp_all add: nonces_once_def new_client_def)
  with assms(2) show ?thesis
    unfolding nonces_once_def by (metis distinct_map inj_on_subset subset_UNIV)
qed

theorem client_nonces_once_witness: "distinct (map request_nonce (requests sample_client))"
  by (rule client_nonces_once [OF sample_client_reachable]) (metis injI length_replicate)

text \<open>C32: a packet takes an item out of the outbox only if it settles the item.\<close>

theorem queued_message_kept:
  assumes "x \<in> set (cl_outbox c)" and "x \<notin> set (cl_outbox (handlePacket E p c))"
  shows "settles E p c x"
proof (rule ccontr)
  assume "\<not> settles E p c x"
  note all = handlers_kept [OF assms(1) this]
  show False
  proof (cases "find (\<lambda>(mt, h). mt_code mt = pk_type p) handlers")
    case (Some q)
    then obtain mt h where "(mt, h) \<in> set handlers" "mt_code mt = pk_type p" "q = (mt, h)"
      using find_SomeD [OF Some] by (cases q) auto
    with all assms(2) Some show False by (auto simp: handlePacket_def)
  qed (use assms in \<open>simp add: handlePacket_def\<close>)
qed

theorem queued_message_kept_witness:
  "let x = \<lparr>oi_clientId = ''m'', oi_toUser = 7, oi_convId = 0, oi_content = ''hi''\<rparr>;
       c = (new_client True closed_store)\<lparr>cl_outbox := [x], cl_inFlight := [(5, ''m'')]\<rparr>
   in settles client_env (mk_packet SendMessageResponse 5 [2]) c x"
  unfolding Let_def
  by (rule queued_message_kept)
    (simp_all add: run new_client_def closed_store_def handleSendMessageResponse_def message_acked_def forget_item_def
      removeOutboxItem_def jobject_def jstr_or_def jget_def)

text \<open>Not even a logout: what the user of one account queued is sent under the account that logs in next.\<close>

lemma outbox_outlives_account:
  assumes "x \<in> set (cl_outbox c)"
  shows "x \<in> set (cl_outbox (handleLoginResponse E2 p (onConnected E1 (client_login E1 u pw (handleLogoutResponse E c)))))"
  using assms by (intro handleLoginResponse_kept) simp

end
