(* ===== verification/Database_Migrations.thy ===== *)
theory Database_Migrations
  imports XY_Prelude
begin

text \<open>
  Chat-Server/database/DatabaseManager.cpp, the schema: the nine migrations as sequences of statements on
  the catalogue of the database, any of which may fail, and the run over them at every start. A quoted
  literal of the SQL text is written between backquotes.
\<close>

section \<open>The catalogue\<close>

type_synonym columns = "(string \<times> string) list"
type_synonym tables = "(string \<times> columns \<times> string list) list"

text \<open>Whether the named connection was added and is open and whether it cascades deletions; the tables in
  the order of their creation with their columns and table constraints; the rows that the migrations touch:
  the recorded versions, the accounts of the first program (either column may be NULL), those of
  \<open>users\<close>, the row of \<open>sync_meta\<close>; which of the next statements fail for a reason of their own
  (a lock, a full disk).\<close>

record catalogue =
  ca_named :: bool
  ca_open :: bool
  ca_cascade :: bool
  ca_tables :: tables
  ca_indexes :: "string list"
  ca_versions :: "int list"
  ca_legacy :: "(string option \<times> string option) list"
  ca_users :: "(string \<times> string) list"
  ca_meta :: bool
  ca_faults :: "bool list"

definition has_table :: "string \<Rightarrow> tables \<Rightarrow> bool" where
  "has_table t ts \<longleftrightarrow> t \<in> set (map fst ts)"

definition columns_of :: "string \<Rightarrow> tables \<Rightarrow> columns" where
  "columns_of t ts = (case map_of ts t of None \<Rightarrow> [] | Some (cs, ks) \<Rightarrow> cs)"

definition has_column :: "string \<Rightarrow> string \<Rightarrow> tables \<Rightarrow> bool" where
  "has_column t k ts \<longleftrightarrow> k \<in> set (map fst (columns_of t ts))"

section \<open>Statements\<close>

datatype stmt =
    CreateTable string columns "string list"
  | CreateIndex string string "string list"
  | AddColumn string string string
  | RenameUsers
  | CopyLegacyUsers
  | DropLegacyUsers
  | InsertMeta
  | InsertVersion int

definition add_col :: "string \<Rightarrow> string \<times> string \<Rightarrow> tables \<Rightarrow> tables" where
  "add_col t k ts = map (\<lambda>(n, cs, ks). if n = t then (n, cs @ [k], ks) else (n, cs, ks)) ts"

text \<open>\<open>INSERT OR IGNORE INTO users (username, password_hash) SELECT username, 'v0:0::' || password\<close>: a
  row with a NULL in either column or with a name already taken is skipped.\<close>

fun copy_legacy :: "(string option \<times> string option) list \<Rightarrow> (string \<times> string) list \<Rightarrow> (string \<times> string) list" where
  "copy_legacy [] us = us"
| "copy_legacy ((Some u, Some p) # rs) us =
     copy_legacy rs (if u \<in> set (map fst us) then us else us @ [(u, ''v0:0::'' @ p)])"
| "copy_legacy (r # rs) us = copy_legacy rs us"

text \<open>What SQLite does with a statement that it can execute; \<open>None\<close> is an error of the statement.\<close>

fun exec_stmt :: "stmt \<Rightarrow> catalogue \<Rightarrow> catalogue option" where
  "exec_stmt (CreateTable t cs ks) c =
     Some (if has_table t (ca_tables c) then c else c\<lparr>ca_tables := ca_tables c @ [(t, cs, ks)]\<rparr>)"
| "exec_stmt (CreateIndex i t ks) c =
     (if i \<in> set (ca_indexes c) then Some c
      else if \<not> list_all (\<lambda>k. has_column t k (ca_tables c)) ks then None
      else Some (c\<lparr>ca_indexes := ca_indexes c @ [i]\<rparr>))"
| "exec_stmt (AddColumn t k ty) c =
     (if \<not> has_table t (ca_tables c) \<or> has_column t k (ca_tables c) then None
      else Some (c\<lparr>ca_tables := add_col t (k, ty) (ca_tables c)\<rparr>))"
| "exec_stmt RenameUsers c =
     (if \<not> has_table ''users'' (ca_tables c) \<or> has_table ''old_users'' (ca_tables c) then None
      else Some (c\<lparr>ca_tables := map (\<lambda>(n, x). (if n = ''users'' then ''old_users'' else n, x)) (ca_tables c),
                   ca_legacy := map (\<lambda>(u, p). (Some u, Some p)) (ca_users c) @ ca_legacy c, ca_users := []\<rparr>))"
| "exec_stmt CopyLegacyUsers c =
     (if \<not> has_column ''old_users'' ''username'' (ca_tables c) \<or> \<not> has_column ''old_users'' ''password'' (ca_tables c)
         \<or> \<not> has_column ''users'' ''password_hash'' (ca_tables c) then None
      else Some (c\<lparr>ca_users := copy_legacy (ca_legacy c) (ca_users c)\<rparr>))"
| "exec_stmt DropLegacyUsers c =
     (if \<not> has_table ''old_users'' (ca_tables c) then None
      else Some (c\<lparr>ca_tables := filter (\<lambda>(n, x). n \<noteq> ''old_users'') (ca_tables c), ca_legacy := []\<rparr>))"
| "exec_stmt InsertMeta c = (if has_table ''sync_meta'' (ca_tables c) then Some (c\<lparr>ca_meta := True\<rparr>) else None)"
| "exec_stmt (InsertVersion n) c =
     (if \<not> has_table ''schema_version'' (ca_tables c) \<or> n \<in> set (ca_versions c) then None
      else Some (c\<lparr>ca_versions := ca_versions c @ [n]\<rparr>))"

text \<open>Whether the next statement reaches the engine at all, and what the code sees of a statement and of a
  query: false where it failed.\<close>

definition sql_ready :: "catalogue \<Rightarrow> bool \<times> catalogue" where
  "sql_ready c = (ca_open c \<and> (case ca_faults c of [] \<Rightarrow> True | f # fs \<Rightarrow> \<not> f), c\<lparr>ca_faults := tl (ca_faults c)\<rparr>)"

definition run_sql :: "stmt \<Rightarrow> catalogue \<Rightarrow> bool \<times> catalogue" where
  "run_sql x c =
     (let (ok, c1) = sql_ready c
      in if \<not> ok then (False, c1) else (case exec_stmt x c1 of None \<Rightarrow> (False, c1) | Some c2 \<Rightarrow> (True, c2)))"

definition sql_query :: "(catalogue \<Rightarrow> bool) \<Rightarrow> catalogue \<Rightarrow> bool \<times> catalogue" where
  "sql_query Q c = (let (ok, c1) = sql_ready c in (ok \<and> Q c1, c1))"

text \<open>A migration runs its steps in order. A required statement that fails ends the migration and the
  start; the result of an optional one is not looked at.\<close>

type_synonym migration_step = "catalogue \<Rightarrow> bool \<times> catalogue"

definition required :: "stmt \<Rightarrow> migration_step" where
  "required x = run_sql x"

definition optional :: "stmt \<Rightarrow> migration_step" where
  "optional x c = (True, snd (run_sql x c))"

text \<open>\<open>PRAGMA table_info\<close>, then \<open>ALTER TABLE\<close> unless the column was seen.\<close>

definition add_if_missing :: "string \<Rightarrow> string \<Rightarrow> string \<Rightarrow> migration_step" where
  "add_if_missing t k ty c =
     (let (found, c1) = sql_query (\<lambda>c. has_column t k (ca_tables c)) c
      in if found then (True, c1) else run_sql (AddColumn t k ty) c1)"

fun sql_steps :: "migration_step list \<Rightarrow> catalogue \<Rightarrow> bool \<times> catalogue" where
  "sql_steps [] c = (True, c)"
| "sql_steps (x # xs) c = (let (ok, c1) = x c in if \<not> ok then (False, c1) else sql_steps xs c1)"

section \<open>The migrations\<close>

abbreviation key_column :: "string \<times> string" where "key_column \<equiv> (''id'', ''INTEGER PRIMARY KEY AUTOINCREMENT'')"
abbreviation now_column :: "string \<Rightarrow> string \<times> string" where
  "now_column k \<equiv> (k, ''TEXT NOT NULL DEFAULT (datetime(`now`))'')"
abbreviation user_reference :: string where
  "user_reference \<equiv> ''FOREIGN KEY (user_id) REFERENCES users(id) ON DELETE CASCADE''"

text \<open>The users table of the first program, with the three columns id, username and password, is set
  aside; its accounts are copied into the new table and the old one is dropped, whether or not the copy
  succeeded.\<close>

definition rename_legacy :: migration_step where
  "rename_legacy c =
     (let (old, c1) = sql_query (\<lambda>c. has_table ''users'' (ca_tables c)) c
      in if \<not> old then (True, c1)
         else let (three, c2) = sql_query (\<lambda>c. length (columns_of ''users'' (ca_tables c)) = 3) c1
              in if \<not> three then (True, c2) else run_sql RenameUsers c2)"

definition carry_legacy :: migration_step where
  "carry_legacy c =
     (let (old, c1) = sql_query (\<lambda>c. has_table ''old_users'' (ca_tables c)) c
      in if \<not> old then (True, c1)
         else (True, snd (run_sql DropLegacyUsers (snd (run_sql CopyLegacyUsers c1)))))"

definition migrateToV1 :: "migration_step list" where
  "migrateToV1 =
     [rename_legacy,
      required (CreateTable ''users''
        [key_column, (''username'', ''TEXT UNIQUE NOT NULL''), (''email'', ''TEXT''), (''phone'', ''TEXT''),
         (''password_hash'', ''TEXT NOT NULL''), now_column ''created_at'', now_column ''updated_at''] []),
      carry_legacy,
      required (InsertVersion 1)]"

definition migrateToV2 :: "migration_step list" where
  "migrateToV2 =
     [required (CreateTable ''devices''
        [key_column, (''user_id'', ''INTEGER NOT NULL''), (''device_id'', ''TEXT NOT NULL''), (''device_name'', ''TEXT''),
         (''platform'', ''TEXT''), (''public_key'', ''TEXT''), now_column ''created_at'', now_column ''last_seen_at'']
        [user_reference, ''UNIQUE(user_id, device_id)'']),
      required (CreateTable ''sessions''
        [key_column, (''user_id'', ''INTEGER NOT NULL''), (''device_id'', ''TEXT''), (''token_hash'', ''TEXT NOT NULL UNIQUE''),
         (''login_ip'', ''TEXT''), now_column ''created_at'', now_column ''last_active_at'', (''expires_at'', ''TEXT NOT NULL'')]
        [user_reference]),
      required (CreateTable ''login_audit''
        [key_column, (''user_id'', ''INTEGER''), (''ip_address'', ''TEXT''), (''success'', ''INTEGER NOT NULL''),
         (''failure_reason'', ''TEXT''), now_column ''created_at''] []),
      required (InsertVersion 2)]"

definition migrateToV3 :: "migration_step list" where
  "migrateToV3 =
     [required (CreateTable ''contacts''
        [key_column, (''user_id'', ''INTEGER NOT NULL''), (''contact_user_id'', ''INTEGER NOT NULL''), now_column ''created_at'']
        [user_reference, ''FOREIGN KEY (contact_user_id) REFERENCES users(id) ON DELETE CASCADE'',
         ''UNIQUE(user_id, contact_user_id)'']),
      required (CreateTable ''conversations''
        [key_column, (''type'', ''TEXT NOT NULL DEFAULT `private`''), now_column ''created_at'', now_column ''updated_at''] []),
      required (CreateTable ''conversation_members''
        [key_column, (''conversation_id'', ''INTEGER NOT NULL''), (''user_id'', ''INTEGER NOT NULL''), now_column ''joined_at'',
         (''last_read_message_id'', ''INTEGER DEFAULT 0'')]
        [''FOREIGN KEY (conversation_id) REFERENCES conversations(id) ON DELETE CASCADE'', user_reference,
         ''UNIQUE(conversation_id, user_id)'']),
      required (CreateTable ''messages''
        [key_column, (''conversation_id'', ''INTEGER NOT NULL''), (''sender_id'', ''INTEGER NOT NULL''),
         (''content'', ''TEXT NOT NULL''), (''content_type'', ''TEXT NOT NULL DEFAULT `text`''),
         (''status'', ''TEXT NOT NULL DEFAULT `sent`''), now_column ''created_at'']
        [''FOREIGN KEY (conversation_id) REFERENCES conversations(id) ON DELETE CASCADE'',
         ''FOREIGN KEY (sender_id) REFERENCES users(id) ON DELETE CASCADE'']),
      optional (CreateIndex ''idx_messages_conversation'' ''messages'' [''conversation_id'', ''id'']), optional (CreateIndex ''idx_messages_sender'' ''messages'' [''sender_id'']),
      optional (CreateIndex ''idx_conv_members_user'' ''conversation_members'' [''user_id'']),
      required (InsertVersion 3)]"

definition migrateToV4 :: "migration_step list" where
  "migrateToV4 =
     [required (AddColumn ''messages'' ''client_message_id'' ''TEXT''),
      required (AddColumn ''messages'' ''sender_device_id'' ''TEXT''),
      required (CreateIndex ''idx_messages_client_key'' ''messages'' [''sender_id'', ''sender_device_id'', ''client_message_id'']),
      required (CreateTable ''message_receipts''
        [key_column, (''message_id'', ''INTEGER NOT NULL''), (''user_id'', ''INTEGER NOT NULL''), (''device_id'', ''TEXT''),
         (''delivered_at'', ''TEXT''), (''read_at'', ''TEXT'')]
        [''FOREIGN KEY (message_id) REFERENCES messages(id) ON DELETE CASCADE'', user_reference,
         ''UNIQUE(message_id, user_id, device_id)'']),
      optional (CreateIndex ''idx_receipts_message'' ''message_receipts'' [''message_id'']),
      required (CreateTable ''sync_events''
        [(''seq'', ''INTEGER PRIMARY KEY AUTOINCREMENT''), (''user_id'', ''INTEGER NOT NULL''),
         (''event_type'', ''TEXT NOT NULL''), (''payload'', ''TEXT NOT NULL DEFAULT `{}`''), now_column ''created_at'']
        [user_reference]),
      optional (CreateIndex ''idx_sync_events_user'' ''sync_events'' [''user_id'', ''seq'']),
      required (InsertVersion 4)]"

definition migrateToV5 :: "migration_step list" where
  "migrateToV5 =
     [required (CreateTable ''device_identity_keys''
        [key_column, (''user_id'', ''INTEGER NOT NULL''), (''device_id'', ''TEXT NOT NULL''),
         (''identity_pub'', ''TEXT NOT NULL''), now_column ''created_at'', now_column ''updated_at'']
        [user_reference, ''UNIQUE(user_id, device_id)'']),
      required (CreateTable ''prekeys''
        [key_column, (''user_id'', ''INTEGER NOT NULL''), (''device_id'', ''TEXT NOT NULL''), (''pub'', ''TEXT NOT NULL''),
         (''status'', ''TEXT NOT NULL DEFAULT `unused`''), (''claimed_at'', ''TEXT''), now_column ''created_at'']
        [user_reference]),
      optional (CreateIndex ''idx_prekeys_lookup'' ''prekeys'' [''user_id'', ''device_id'', ''status'']), optional (CreateIndex ''idx_prekeys_claimed_at'' ''prekeys'' [''claimed_at'']),
      required (InsertVersion 5)]"

definition migrateToV6 :: "migration_step list" where
  "migrateToV6 =
     [add_if_missing ''prekeys'' ''claimed_at'' ''TEXT'', optional (CreateIndex ''idx_prekeys_claimed_at'' ''prekeys'' [''claimed_at'']),
      required (InsertVersion 6)]"

definition migrateToV7 :: "migration_step list" where
  "migrateToV7 =
     [add_if_missing ''conversations'' ''name'' ''TEXT'',
      add_if_missing ''conversation_members'' ''role'' ''TEXT NOT NULL DEFAULT `member`'', required (InsertVersion 7)]"

definition migrateToV8 :: "migration_step list" where
  "migrateToV8 =
     [required (CreateTable ''sync_meta''
        [(''id'', ''INTEGER PRIMARY KEY CHECK (id = 1)''), (''pruned_below_seq'', ''INTEGER NOT NULL DEFAULT 0'')] []),
      optional InsertMeta, required (InsertVersion 8)]"

definition migrateToV9 :: "migration_step list" where
  "migrateToV9 =
     [add_if_missing ''conversation_members'' ''pinned'' ''INTEGER NOT NULL DEFAULT 0'',
      add_if_missing ''conversation_members'' ''muted'' ''INTEGER NOT NULL DEFAULT 0'',
      add_if_missing ''messages'' ''edited_at'' ''TEXT'', add_if_missing ''messages'' ''deleted'' ''INTEGER NOT NULL DEFAULT 0'',
      required (InsertVersion 9)]"

definition migrations :: "(int \<times> migration_step list) list" where
  "migrations = [(1, migrateToV1), (2, migrateToV2), (3, migrateToV3), (4, migrateToV4), (5, migrateToV5),
     (6, migrateToV6), (7, migrateToV7), (8, migrateToV8), (9, migrateToV9)]"

text \<open>\<open>currentVersion\<close> is read once, before the first migration; it stays 0 where the query fails.\<close>

definition current_version :: "catalogue \<Rightarrow> int \<times> catalogue" where
  "current_version c =
     (let (ok, c1) = sql_ready c in (if ok \<and> ca_versions c1 \<noteq> [] then Max (set (ca_versions c1)) else 0, c1))"

fun run_migrations :: "int \<Rightarrow> (int \<times> migration_step list) list \<Rightarrow> catalogue \<Rightarrow> bool \<times> catalogue" where
  "run_migrations currentVersion [] c = (True, c)"
| "run_migrations currentVersion ((n, steps) # ms) c =
     (if currentVersion < n then
        let (ok, c1) = sql_steps steps c in if \<not> ok then (False, c1) else run_migrations currentVersion ms c1
      else run_migrations currentVersion ms c)"

abbreviation version_table :: stmt where
  "version_table \<equiv> CreateTable ''schema_version'' [(''version'', ''INTEGER PRIMARY KEY''), now_column ''applied_at''] []"

definition runMigrations :: "catalogue \<Rightarrow> bool \<times> catalogue" where
  "runMigrations c =
     (let (ok, c1) = run_sql version_table c
      in if \<not> ok then (False, c1)
         else let (currentVersion, c2) = current_version c1 in run_migrations currentVersion migrations c2)"

section \<open>Opening and closing\<close>

text \<open>\<open>opens\<close> says whether the file can be opened. The connection is added before it is opened, so that
  after a failure \<open>openDatabase\<close> answers true; the two pragmas are not checked.\<close>

definition pragma :: "(catalogue \<Rightarrow> catalogue) \<Rightarrow> catalogue \<Rightarrow> catalogue" where
  "pragma f c = (let (ok, c1) = sql_ready c in if ok then f c1 else c1)"

definition openDb :: "bool \<Rightarrow> catalogue \<Rightarrow> bool \<times> catalogue" where
  "openDb opens c =
     (if ca_named c then (True, c)
      else if \<not> opens then (False, c\<lparr>ca_named := True\<rparr>)
      else (True, pragma (\<lambda>c. c\<lparr>ca_cascade := True\<rparr>) (pragma id (c\<lparr>ca_named := True, ca_open := True\<rparr>))))"

definition closeDb :: "catalogue \<Rightarrow> catalogue" where
  "closeDb c = c\<lparr>ca_named := False, ca_open := False, ca_cascade := False\<rparr>"

text \<open>\<open>QSqlDatabase::database(name)\<close> opens a connection that was added and is not open.\<close>

definition database :: "bool \<Rightarrow> catalogue \<Rightarrow> catalogue" where
  "database opens c = c\<lparr>ca_open := ca_open c \<or> (ca_named c \<and> opens)\<rparr>"

definition initialize :: "bool \<Rightarrow> catalogue \<Rightarrow> bool \<times> catalogue" where
  "initialize opens c =
     (let (ok, c1) = openDb opens c in if \<not> ok then (False, c1) else runMigrations (database opens c1))"

end
