(* ===== verification/Migration_Stages.thy ===== *)
theory Migration_Stages
  imports Database_Migrations
begin

text \<open>
  The proof device for the migrations: the catalogue is
  viewed through its shape, the tables with the names of their columns and the recorded versions; the
  required statements of the nine migrations, in their order, take the shape through 31 stages.
\<close>

section \<open>The shape of the catalogue\<close>

type_synonym shape = "(string \<times> string list) list \<times> int list"

definition shape_of :: "catalogue \<Rightarrow> shape" where
  "shape_of c = (map (\<lambda>(n, cs, ks). (n, map fst cs)) (ca_tables c), ca_versions c)"

definition shape_columns :: "string \<Rightarrow> shape \<Rightarrow> string list" where
  "shape_columns t s = (case map_of (fst s) t of None \<Rightarrow> [] | Some ks \<Rightarrow> ks)"

datatype change = New string "string list" | Col string string | Ver int

fun apply_change :: "change \<Rightarrow> shape \<Rightarrow> shape option" where
  "apply_change (New t ks) s = Some (if t \<in> fst ` set (fst s) then s else (fst s @ [(t, ks)], snd s))"
| "apply_change (Col t k) s =
     (if t \<notin> fst ` set (fst s) \<or> k \<in> set (shape_columns t s) then None
      else Some (map (\<lambda>(n, ks). if n = t then (n, ks @ [k]) else (n, ks)) (fst s), snd s))"
| "apply_change (Ver n) s =
     (if ''schema_version'' \<notin> fst ` set (fst s) \<or> n \<in> set (snd s) then None else Some (fst s, snd s @ [n]))"

fun change_of :: "stmt \<Rightarrow> change option" where
  "change_of (CreateTable t cs ks) = Some (New t (map fst cs))"
| "change_of (AddColumn t k ty) = Some (Col t k)"
| "change_of (InsertVersion n) = Some (Ver n)"
| "change_of x = None"

lemma shape_has_table: "has_table t (ca_tables c) \<longleftrightarrow> t \<in> fst ` set (fst (shape_of c))"
  by (force simp: has_table_def shape_of_def)

lemma map_of_shape:
  "map_of (map (\<lambda>(n, cs, ks). (n, map fst cs)) ts) t = map_option (\<lambda>(cs, ks). map fst cs) (map_of ts t)"
  by (induction ts) auto

lemma shape_columns_of: "map fst (columns_of t (ca_tables c)) = shape_columns t (shape_of c)"
  by (auto simp: columns_of_def shape_columns_def shape_of_def map_of_shape split: option.splits)

lemma shape_has_column: "has_column t k (ca_tables c) \<longleftrightarrow> k \<in> set (shape_columns t (shape_of c))"
  by (simp add: has_column_def flip: shape_columns_of)

lemma shape_updates:
  "shape_of (c\<lparr>ca_tables := ca_tables c @ [(t, cs, ks)]\<rparr>) = (fst (shape_of c) @ [(t, map fst cs)], snd (shape_of c))"
  "shape_of (c\<lparr>ca_tables := add_col t (k, ty) (ca_tables c)\<rparr>) =
     (map (\<lambda>(n, ks). if n = t then (n, ks @ [k]) else (n, ks)) (fst (shape_of c)), snd (shape_of c))"
  "shape_of (c\<lparr>ca_versions := ca_versions c @ [n]\<rparr>) = (fst (shape_of c), snd (shape_of c) @ [n])"
  by (auto simp: shape_of_def add_col_def)

lemma shape_versions: "snd (shape_of c) = ca_versions c"
  by (simp add: shape_of_def)

lemma exec_change_of:
  "change_of x \<noteq> None \<Longrightarrow> map_option shape_of (exec_stmt x c) = apply_change (the (change_of x)) (shape_of c)"
  by (cases x) (simp_all add: shape_has_table shape_has_column shape_updates shape_versions)

lemma exec_change:
  assumes "change_of x = Some d"
  shows "map_option shape_of (exec_stmt x c) = apply_change d (shape_of c)"
  using exec_change_of [of x c] assms by simp

lemma exec_other:
  assumes "change_of x = None" "x \<notin> {RenameUsers, DropLegacyUsers}" "exec_stmt x c = Some c'"
  shows "shape_of c' = shape_of c"
  using assms by (cases x) (auto simp: shape_of_def split: if_splits)

lemma exec_keeps:
  "exec_stmt x c = Some c' \<Longrightarrow> ca_open c' = ca_open c \<and> ca_faults c' = ca_faults c"
  by (cases x) (auto split: if_splits)

section \<open>Growth\<close>

definition grown :: "shape \<Rightarrow> shape \<Rightarrow> bool" where
  "grown s s' \<longleftrightarrow> fst ` set (fst s) \<subseteq> fst ` set (fst s') \<and> set (snd s) \<subseteq> set (snd s')
     \<and> (\<forall>t. t \<in> fst ` set (fst s) \<longrightarrow> set (shape_columns t s) \<subseteq> set (shape_columns t s')
            \<and> length (shape_columns t s) \<le> length (shape_columns t s'))"

lemma grown_refl: "grown s s"
  by (simp add: grown_def)

lemma grown_trans: "grown s t \<Longrightarrow> grown t u \<Longrightarrow> grown s u"
  unfolding grown_def by (meson subset_trans order_trans subset_iff)

lemma shape_columns_append:
  assumes "t \<in> fst ` set ts"
  shows "shape_columns t (ts @ us, v) = shape_columns t (ts, v')"
proof -
  obtain ks where "map_of ts t = Some ks"
    using assms by (metis map_of_eq_None_iff not_Some_eq)
  then show ?thesis
    by (simp add: shape_columns_def map_add_Some_iff map_add_def split: option.splits)
qed

lemma added_tables: "fst ` set (map (\<lambda>(n, ks). if n = t then (n, ks @ [k]) else (n, ks)) ts) = fst ` set ts"
  by (force simp: image_iff)

lemma shape_columns_add:
  "shape_columns t (map (\<lambda>(n, ks). if n = u then (n, ks @ [k]) else (n, ks)) ts, v) =
     shape_columns t (ts, v) @ (if t = u \<and> u \<in> fst ` set ts then [k] else [])"
proof -
  have "map_of (map (\<lambda>(n, ks). if n = u then (n, ks @ [k]) else (n, ks)) ts) t =
      map_option (\<lambda>ks. if t = u then ks @ [k] else ks) (map_of ts t)"
    by (induction ts) auto
  moreover have "map_of ts t = None \<longleftrightarrow> t \<notin> fst ` set ts"
    by (rule map_of_eq_None_iff)
  ultimately show ?thesis
    by (cases "map_of ts t") (auto simp: shape_columns_def)
qed

lemma change_grows:
  assumes "apply_change d s = Some s'"
  shows "grown s s'"
proof (cases d)
  case (New t ks)
  then have "s' = s \<or> s' = (fst s @ [(t, ks)], snd s)"
    using assms by (auto split: if_splits)
  then show ?thesis
    using shape_columns_append [of _ "fst s" "[(t, ks)]" "snd s" "snd s"]
    by (elim disjE) (auto simp: grown_def)
next
  case (Col t k)
  define f where "f = (\<lambda>(n, ks). if n = t then (n, ks @ [k]) else (n, ks :: string list))"
  have "s' = (map f (fst s), snd s)"
    using assms Col by (simp add: f_def split: if_splits)
  moreover have "fst ` set (map f (fst s)) = fst ` set (fst s)"
    unfolding f_def by (rule added_tables)
  moreover have "shape_columns u (map f (fst s), snd s) =
      shape_columns u s @ (if u = t \<and> t \<in> fst ` set (fst s) then [k] else [])" for u
    using shape_columns_add [of u t k "fst s" "snd s"] by (simp only: f_def prod.collapse)
  ultimately show ?thesis
    by (simp add: grown_def)
next
  case (Ver n)
  then have "s' = (fst s, snd s @ [n])"
    using assms by (simp split: if_splits)
  then show ?thesis
    by (auto simp: grown_def shape_columns_def)
qed

section \<open>The stages\<close>

text \<open>The required statements in the order of the source.\<close>

definition schema_changes :: "change list" where
  "schema_changes =
     [New ''schema_version'' [''version'', ''applied_at''],
      New ''users'' [''id'', ''username'', ''email'', ''phone'', ''password_hash'', ''created_at'', ''updated_at''], Ver 1,
      New ''devices'' [''id'', ''user_id'', ''device_id'', ''device_name'', ''platform'', ''public_key'', ''created_at'', ''last_seen_at''],
      New ''sessions'' [''id'', ''user_id'', ''device_id'', ''token_hash'', ''login_ip'', ''created_at'', ''last_active_at'', ''expires_at''],
      New ''login_audit'' [''id'', ''user_id'', ''ip_address'', ''success'', ''failure_reason'', ''created_at''], Ver 2,
      New ''contacts'' [''id'', ''user_id'', ''contact_user_id'', ''created_at''],
      New ''conversations'' [''id'', ''type'', ''created_at'', ''updated_at''],
      New ''conversation_members'' [''id'', ''conversation_id'', ''user_id'', ''joined_at'', ''last_read_message_id''],
      New ''messages'' [''id'', ''conversation_id'', ''sender_id'', ''content'', ''content_type'', ''status'', ''created_at''], Ver 3,
      Col ''messages'' ''client_message_id'', Col ''messages'' ''sender_device_id'',
      New ''message_receipts'' [''id'', ''message_id'', ''user_id'', ''device_id'', ''delivered_at'', ''read_at''],
      New ''sync_events'' [''seq'', ''user_id'', ''event_type'', ''payload'', ''created_at''], Ver 4,
      New ''device_identity_keys'' [''id'', ''user_id'', ''device_id'', ''identity_pub'', ''created_at'', ''updated_at''],
      New ''prekeys'' [''id'', ''user_id'', ''device_id'', ''pub'', ''status'', ''claimed_at'', ''created_at''], Ver 5,
      Ver 6,
      Col ''conversations'' ''name'', Col ''conversation_members'' ''role'', Ver 7,
      New ''sync_meta'' [''id'', ''pruned_below_seq''], Ver 8,
      Col ''conversation_members'' ''pinned'', Col ''conversation_members'' ''muted'', Col ''messages'' ''edited_at'',
      Col ''messages'' ''deleted'', Ver 9]"

fun apply_changes :: "change list \<Rightarrow> shape \<Rightarrow> shape option" where
  "apply_changes [] s = Some s"
| "apply_changes (d # ds) s = (case apply_change d s of None \<Rightarrow> None | Some s' \<Rightarrow> apply_changes ds s')"

definition stage :: "nat \<Rightarrow> shape" where
  "stage j = the (apply_changes (take j schema_changes) ([], []))"

definition final_shape :: shape where
  "final_shape =
     ([(''schema_version'', [''version'', ''applied_at'']),
       (''users'', [''id'', ''username'', ''email'', ''phone'', ''password_hash'', ''created_at'', ''updated_at'']),
       (''devices'', [''id'', ''user_id'', ''device_id'', ''device_name'', ''platform'', ''public_key'', ''created_at'', ''last_seen_at'']),
       (''sessions'', [''id'', ''user_id'', ''device_id'', ''token_hash'', ''login_ip'', ''created_at'', ''last_active_at'', ''expires_at'']),
       (''login_audit'', [''id'', ''user_id'', ''ip_address'', ''success'', ''failure_reason'', ''created_at'']),
       (''contacts'', [''id'', ''user_id'', ''contact_user_id'', ''created_at'']),
       (''conversations'', [''id'', ''type'', ''created_at'', ''updated_at'', ''name'']),
       (''conversation_members'', [''id'', ''conversation_id'', ''user_id'', ''joined_at'', ''last_read_message_id'', ''role'', ''pinned'', ''muted'']),
       (''messages'', [''id'', ''conversation_id'', ''sender_id'', ''content'', ''content_type'', ''status'', ''created_at'',
          ''client_message_id'', ''sender_device_id'', ''edited_at'', ''deleted'']),
       (''message_receipts'', [''id'', ''message_id'', ''user_id'', ''device_id'', ''delivered_at'', ''read_at'']),
       (''sync_events'', [''seq'', ''user_id'', ''event_type'', ''payload'', ''created_at'']),
       (''device_identity_keys'', [''id'', ''user_id'', ''device_id'', ''identity_pub'', ''created_at'', ''updated_at'']),
       (''prekeys'', [''id'', ''user_id'', ''device_id'', ''pub'', ''status'', ''claimed_at'', ''created_at'']),
       (''sync_meta'', [''id'', ''pruned_below_seq''])], [1, 2, 3, 4, 5, 6, 7, 8, 9])"

lemma schema_length [simp]: "length schema_changes = 31"
  by (simp add: schema_changes_def)

lemma all_changes_apply: "apply_changes schema_changes ([], []) = Some final_shape"
  unfolding schema_changes_def final_shape_def by (simp add: shape_columns_def)

lemma apply_changes_append:
  "apply_changes (ds @ es) s = (case apply_changes ds s of None \<Rightarrow> None | Some s' \<Rightarrow> apply_changes es s')"
  by (induction ds arbitrary: s) (auto split: option.split)

lemma stage_applies: "apply_changes (take j schema_changes) ([], []) = Some (stage j)"
  using all_changes_apply apply_changes_append [of "take j schema_changes" "drop j schema_changes" "([], [])"]
  by (auto simp: stage_def split: option.splits)

lemma stage_step:
  assumes "j < 31"
  shows "apply_change (schema_changes ! j) (stage j) = Some (stage (Suc j))"
proof -
  have "apply_changes (take j schema_changes @ [schema_changes ! j]) ([], []) = Some (stage (Suc j))"
    using stage_applies [of "Suc j"] assms by (simp add: take_Suc_conv_app_nth)
  then show ?thesis
    using stage_applies [of j] by (simp add: apply_changes_append split: option.splits)
qed

lemma stage_final: "stage 31 = final_shape"
  using stage_applies [of 31] all_changes_apply by simp

lemma stage_grows: "i \<le> j \<Longrightarrow> j \<le> 31 \<Longrightarrow> grown (stage i) (stage j)"
proof (induction j)
  case (Suc j)
  have step: "grown (stage j) (stage (Suc j))"
    by (rule change_grows [OF stage_step]) (use Suc.prems in simp)
  show ?case
  proof (cases "i = Suc j")
    case False
    then have "grown (stage i) (stage j)"
      using Suc by simp
    then show ?thesis
      using step by (rule grown_trans)
  qed (simp add: grown_refl)
qed (simp add: grown_refl)

text \<open>A change that has been made: repeating it does nothing for a table and fails for a column and for a
  version.\<close>

fun made :: "change \<Rightarrow> shape \<Rightarrow> bool" where
  "made (New t ks) s \<longleftrightarrow> t \<in> fst ` set (fst s)"
| "made (Col t k) s \<longleftrightarrow> t \<in> fst ` set (fst s) \<and> k \<in> set (shape_columns t s)"
| "made (Ver n) s \<longleftrightarrow> n \<in> set (snd s)"

lemma made_after:
  assumes "apply_change d s = Some s'"
  shows "made d s'"
proof (cases d)
  case (New t ks)
  then have "s' = (if t \<in> fst ` set (fst s) then s else (fst s @ [(t, ks)], snd s))"
    using assms by simp
  then show ?thesis
    using New by (simp add: image_Un)
next
  case (Col t k)
  then have "t \<in> fst ` set (fst s)" "s' = (map (\<lambda>(n, ks). if n = t then (n, ks @ [k]) else (n, ks)) (fst s), snd s)"
    using assms by (simp_all split: if_split_asm)
  then show ?thesis
    using Col added_tables [of t k "fst s"] by (simp add: shape_columns_add del: set_map)
next
  case (Ver n)
  then have "s' = (fst s, snd s @ [n])"
    using assms by (simp split: if_split_asm)
  then show ?thesis
    using Ver by simp
qed

lemma made_grown: "made d s \<Longrightarrow> grown s s' \<Longrightarrow> made d s'"
  by (cases d) (auto simp: grown_def)

lemma stage_made:
  assumes "i < j" "j \<le> 31"
  shows "made (schema_changes ! i) (stage j)"
  using made_grown [OF made_after [OF stage_step [of i]] stage_grows [of "Suc i" j]] assms by simp

section \<open>A step of a migration\<close>

definition at_stage :: "nat \<Rightarrow> catalogue \<Rightarrow> bool" where
  "at_stage j c \<longleftrightarrow> j \<le> 31 \<and> ca_open c \<and> shape_of c = stage j"

text \<open>The stages after the first statement of the fourth migration and before its last.\<close>

definition stuck :: "nat \<Rightarrow> bool" where
  "stuck j \<longleftrightarrow> 13 \<le> j \<and> j < 17"

definition live :: "nat \<Rightarrow> nat \<Rightarrow> nat \<Rightarrow> bool" where
  "live m i j \<longleftrightarrow> j = i \<or> (i \<le> j \<and> j < m \<and> \<not> stuck j)"

text \<open>What a step does at any later stage: it never leaves the chain of stages, and when it answers true
  the stage is past its own change. Without faults it answers true at its own stage, and at a later one
  that is not stuck.\<close>

definition step_spec :: "nat \<Rightarrow> nat \<Rightarrow> nat \<Rightarrow> migration_step \<Rightarrow> bool" where
  "step_spec m i k x \<longleftrightarrow> (\<forall>j c. i \<le> j \<longrightarrow> at_stage j c \<longrightarrow>
     (\<exists>j'\<ge>j. j' \<le> max j (i + k) \<and> at_stage j' (snd (x c)) \<and> (fst (x c) \<longrightarrow> j' = max j (i + k)))
     \<and> (ca_faults c = [] \<longrightarrow> ca_faults (snd (x c)) = [] \<and> (live m i j \<longrightarrow> fst (x c))))"

definition steps_spec :: "nat \<Rightarrow> nat \<Rightarrow> migration_step list \<Rightarrow> bool" where
  "steps_spec m i xs \<longleftrightarrow> (\<forall>j c. i \<le> j \<longrightarrow> at_stage j c \<longrightarrow>
     (\<exists>j'\<ge>j. j' \<le> max j m \<and> at_stage j' (snd (sql_steps xs c)) \<and> (fst (sql_steps xs c) \<longrightarrow> j < m \<and> j' = m))
     \<and> (ca_faults c = [] \<longrightarrow> ca_faults (snd (sql_steps xs c)) = [] \<and> (j < m \<and> live m i j \<longrightarrow> fst (sql_steps xs c))))"

lemma ready_at_stage:
  "at_stage j c \<Longrightarrow> at_stage j (snd (sql_ready c))"
  "ca_faults c = [] \<Longrightarrow> ca_faults (snd (sql_ready c)) = []"
  "at_stage j c \<Longrightarrow> ca_faults c = [] \<Longrightarrow> fst (sql_ready c)"
  by (auto simp: at_stage_def sql_ready_def shape_of_def)

lemma query_at_stage:
  "at_stage j c \<Longrightarrow> at_stage j (snd (sql_query Q c))"
  "ca_faults c = [] \<Longrightarrow> ca_faults (snd (sql_query Q c)) = []"
  "fst (sql_query Q c) \<Longrightarrow> Q (snd (sql_query Q c))"
  "at_stage j c \<Longrightarrow> ca_faults c = [] \<Longrightarrow> fst (sql_query Q c) \<longleftrightarrow> Q (snd (sql_query Q c))"
  by (simp_all add: sql_query_def split_beta ready_at_stage Let_def)

lemma run_sql_cases:
  "run_sql x c = (False, snd (sql_ready c)) \<or> (\<exists>c'. exec_stmt x (snd (sql_ready c)) = Some c' \<and> run_sql x c = (True, c'))"
  by (auto simp: run_sql_def split_beta Let_def split: option.split)

lemma run_sql_clean:
  assumes "at_stage j c" "ca_faults c = []"
  shows "ca_faults (snd (run_sql x c)) = []" "fst (run_sql x c) \<longleftrightarrow> exec_stmt x (snd (sql_ready c)) \<noteq> None"
proof -
  show "ca_faults (snd (run_sql x c)) = []"
    using run_sql_cases [of x c] ready_at_stage(2) [OF assms(2)] exec_keeps [of x "snd (sql_ready c)"] by auto
  show "fst (run_sql x c) \<longleftrightarrow> exec_stmt x (snd (sql_ready c)) \<noteq> None"
    using ready_at_stage(3) [OF assms] by (auto simp: run_sql_def split_beta Let_def split: option.split)
qed

lemma exec_at_stage:
  assumes "at_stage j c" "exec_stmt x c = Some c'" "shape_of c' = stage j'" "j' \<le> 31"
  shows "at_stage j' c'"
  using assms exec_keeps [OF assms(2)] by (simp add: at_stage_def)

text \<open>A statement at its own stage, and one that has been made.\<close>

lemma exec_own:
  assumes "at_stage i c" "change_of x = Some (schema_changes ! i)" "i < 31"
  shows "\<exists>c'. exec_stmt x c = Some c' \<and> at_stage (Suc i) c'"
proof -
  obtain c' where c: "exec_stmt x c = Some c'" "shape_of c' = stage (Suc i)"
    using exec_change [OF assms(2), of c] stage_step [OF assms(3)] assms(1) by (auto simp: at_stage_def)
  then show ?thesis
    using exec_at_stage [OF assms(1) c] assms(3) by simp
qed

lemma made_again:
  assumes "made d s"
  shows "apply_change d s = (case d of New t ks \<Rightarrow> Some s | _ \<Rightarrow> None)"
  using assms by (cases d) auto

lemma exec_again:
  assumes "at_stage j c" "change_of x = Some d" "made d (stage j)"
  shows "case d of New t ks \<Rightarrow> \<exists>c'. exec_stmt x c = Some c' \<and> at_stage j c' | _ \<Rightarrow> exec_stmt x c = None"
proof -
  have eq: "map_option shape_of (exec_stmt x c) = (case d of New t ks \<Rightarrow> Some (stage j) | _ \<Rightarrow> None)"
    using exec_change [OF assms(2), of c] made_again [OF assms(3)] assms(1) by (simp add: at_stage_def)
  show ?thesis
  proof (cases d)
    case (New t ks)
    then obtain c' where "exec_stmt x c = Some c'" "shape_of c' = stage j"
      using eq by auto
    then show ?thesis
      using exec_at_stage [OF assms(1)] assms(1) New by (auto simp: at_stage_def)
  qed (use eq in simp_all)
qed

fun creates :: "change \<Rightarrow> bool" where
  "creates (New t ks) \<longleftrightarrow> True"
| "creates d \<longleftrightarrow> False"

lemma exec_later:
  assumes "change_of x = Some (schema_changes ! i)" "i < 31" "i \<le> j" "at_stage j c"
  shows "(j = i \<or> creates (schema_changes ! i) \<longrightarrow> (\<exists>c'. exec_stmt x c = Some c' \<and> at_stage (max j (Suc i)) c'))
     \<and> (\<not> (j = i \<or> creates (schema_changes ! i)) \<longrightarrow> exec_stmt x c = None)"
proof (cases "j = i")
  case True
  then show ?thesis
    using exec_own [of i c x] assms by (simp add: max_def)
next
  case False
  then have "made (schema_changes ! i) (stage j)" and m: "max j (Suc i) = j"
    using stage_made [of i j] assms by (auto simp: at_stage_def)
  then show ?thesis
    using exec_again [OF assms(4,1)] False by (cases "schema_changes ! i") simp_all
qed

lemma run_change:
  assumes "change_of x = Some (schema_changes ! i)" "i < 31" "i \<le> j" "at_stage j c"
  shows "(\<exists>j'\<ge>j. j' \<le> max j (Suc i) \<and> at_stage j' (snd (run_sql x c))
        \<and> (fst (run_sql x c) \<longrightarrow> j' = max j (Suc i) \<and> (j = i \<or> creates (schema_changes ! i))))
     \<and> (ca_faults c = [] \<longrightarrow> ca_faults (snd (run_sql x c)) = []
        \<and> (j = i \<or> creates (schema_changes ! i) \<longrightarrow> fst (run_sql x c)))"
proof -
  note e = exec_later [OF assms(1-3) ready_at_stage(1) [OF assms(4)]]
  have "\<exists>j'\<ge>j. j' \<le> max j (Suc i) \<and> at_stage j' (snd (run_sql x c))
        \<and> (fst (run_sql x c) \<longrightarrow> j' = max j (Suc i) \<and> (j = i \<or> creates (schema_changes ! i)))"
    using run_sql_cases [of x c] e ready_at_stage(1) [OF assms(4)]
    by (cases "j = i \<or> creates (schema_changes ! i)") (auto intro: exI [of _ j] exI [of _ "max j (Suc i)"])
  then show ?thesis
    using run_sql_clean [OF assms(4), of x] e by auto
qed

lemma create_step:
  assumes "change_of x = Some (schema_changes ! i)" "i < 31" "creates (schema_changes ! i)"
  shows "step_spec m i 1 (required x)"
  unfolding step_spec_def required_def
proof (intro allI impI)
  fix j c assume a: "i \<le> j" "at_stage j c"
  show "(\<exists>j'\<ge>j. j' \<le> max j (i + 1) \<and> at_stage j' (snd (run_sql x c)) \<and> (fst (run_sql x c) \<longrightarrow> j' = max j (i + 1)))
     \<and> (ca_faults c = [] \<longrightarrow> ca_faults (snd (run_sql x c)) = [] \<and> (live m i j \<longrightarrow> fst (run_sql x c)))"
    using run_change [OF assms(1,2) a] assms(3) by auto
qed

lemma column_step:
  assumes "change_of x = Some (schema_changes ! i)" "i < 31" "\<And>j. live m i j \<Longrightarrow> j = i"
  shows "step_spec m i 1 (required x)"
  unfolding step_spec_def required_def
proof (intro allI impI)
  fix j c assume a: "i \<le> j" "at_stage j c"
  show "(\<exists>j'\<ge>j. j' \<le> max j (i + 1) \<and> at_stage j' (snd (run_sql x c)) \<and> (fst (run_sql x c) \<longrightarrow> j' = max j (i + 1)))
     \<and> (ca_faults c = [] \<longrightarrow> ca_faults (snd (run_sql x c)) = [] \<and> (live m i j \<longrightarrow> fst (run_sql x c)))"
    using run_change [OF assms(1,2) a] assms(3) [of j] by auto
qed

lemma version_steps:
  assumes "schema_changes ! i = Ver n" "i < 31" "m = Suc i"
  shows "steps_spec m i [required (InsertVersion n)]"
  unfolding steps_spec_def
proof (intro allI impI)
  fix j c assume a: "i \<le> j" "at_stage j c"
  have eq: "sql_steps [required (InsertVersion n)] c = run_sql (InsertVersion n) c"
    by (simp add: required_def split_beta Let_def prod_eq_iff)
  show "(\<exists>j'\<ge>j. j' \<le> max j m \<and> at_stage j' (snd (sql_steps [required (InsertVersion n)] c))
        \<and> (fst (sql_steps [required (InsertVersion n)] c) \<longrightarrow> j < m \<and> j' = m))
     \<and> (ca_faults c = [] \<longrightarrow> ca_faults (snd (sql_steps [required (InsertVersion n)] c)) = []
        \<and> (j < m \<and> live m i j \<longrightarrow> fst (sql_steps [required (InsertVersion n)] c)))"
    unfolding eq using run_change [of "InsertVersion n", OF _ assms(2) a] assms a by auto
qed

text \<open>Steps that leave the shape alone.\<close>

lemma neutral_exec:
  assumes "change_of x = None" "x \<notin> {RenameUsers, DropLegacyUsers}" "at_stage j c" "exec_stmt x c = Some c'"
  shows "at_stage j c'"
  using exec_at_stage [OF assms(3,4)] exec_other [OF assms(1,2,4)] assms(3) by (simp add: at_stage_def)

lemma neutral_run:
  assumes "change_of x = None" "x \<notin> {RenameUsers, DropLegacyUsers}" "at_stage j c"
  shows "at_stage j (snd (run_sql x c))"
  using run_sql_cases [of x c] neutral_exec [OF assms(1,2) ready_at_stage(1) [OF assms(3)]] ready_at_stage(1) [OF assms(3)]
  by auto

lemma optional_step:
  assumes "change_of x = None" "x \<notin> {RenameUsers, DropLegacyUsers}"
  shows "step_spec m i 0 (optional x)"
  using neutral_run [OF assms] run_sql_clean(1) by (auto simp: step_spec_def optional_def max_def)

lemma index_step:
  assumes "list_all (\<lambda>k. made (Col t k) (stage i)) ks"
  shows "step_spec m i 0 (required (CreateIndex x t ks))"
  unfolding step_spec_def required_def
proof (intro allI impI)
  fix j c assume a: "i \<le> j" "at_stage j c"
  have "made (Col t k) (stage j)" if "k \<in> set ks" for k
    using made_grown [OF _ stage_grows [OF a(1)]] assms a(2) that by (auto simp: list_all_iff at_stage_def simp del: made.simps)
  then have "list_all (\<lambda>k. has_column t k (ca_tables (snd (sql_ready c)))) ks"
    using ready_at_stage(1) [OF a(2)] by (simp add: list_all_iff shape_has_column at_stage_def)
  then have "exec_stmt (CreateIndex x t ks) (snd (sql_ready c)) \<noteq> None"
    by simp
  then show "(\<exists>j'\<ge>j. j' \<le> max j (i + 0) \<and> at_stage j' (snd (run_sql (CreateIndex x t ks) c))
        \<and> (fst (run_sql (CreateIndex x t ks) c) \<longrightarrow> j' = max j (i + 0)))
     \<and> (ca_faults c = [] \<longrightarrow> ca_faults (snd (run_sql (CreateIndex x t ks) c)) = []
        \<and> (live m i j \<longrightarrow> fst (run_sql (CreateIndex x t ks) c)))"
    using neutral_run [of "CreateIndex x t ks", OF _ _ a(2)] run_sql_clean [OF a(2), of "CreateIndex x t ks"] a(1)
    by (auto simp: max_def)
qed

lemma add_if_missing_step:
  assumes "schema_changes ! i = Col t k" "i < 31"
  shows "step_spec m i 1 (add_if_missing t k ty)"
  unfolding step_spec_def
proof (intro allI impI)
  fix j c assume a: "i \<le> j" "at_stage j c"
  define q where "q = sql_query (\<lambda>c. has_column t k (ca_tables c)) c"
  have eq: "add_if_missing t k ty c = (if fst q then (True, snd q) else run_sql (AddColumn t k ty) (snd q))"
    by (simp add: add_if_missing_def q_def split_beta Let_def)
  have q: "at_stage j (snd q)" "ca_faults c = [] \<Longrightarrow> ca_faults (snd q) = []"
    using query_at_stage a(2) by (auto simp: q_def)
  have col: "has_column t k (ca_tables (snd q)) \<longleftrightarrow> i < j"
  proof
    assume "has_column t k (ca_tables (snd q))"
    then have "k \<in> set (shape_columns t (stage j))"
      using q(1) by (simp add: shape_has_column at_stage_def)
    then show "i < j"
      using stage_step [OF assms(2)] assms(1) a(1) by (cases "i = j") (auto split: if_splits)
  next
    assume "i < j"
    then show "has_column t k (ca_tables (snd q))"
      using stage_made [of i j] q(1) assms(1) by (simp add: shape_has_column at_stage_def)
  qed
  have found: "fst q \<Longrightarrow> i < j" "ca_faults c = [] \<Longrightarrow> fst q \<longleftrightarrow> i < j"
    using col query_at_stage(3,4) a(2) unfolding q_def by blast+
  note r = run_change [of "AddColumn t k ty", OF _ assms(2) a(1) q(1)]
  show "(\<exists>j'\<ge>j. j' \<le> max j (i + 1) \<and> at_stage j' (snd (add_if_missing t k ty c)) \<and> (fst (add_if_missing t k ty c) \<longrightarrow> j' = max j (i + 1)))
     \<and> (ca_faults c = [] \<longrightarrow> ca_faults (snd (add_if_missing t k ty c)) = []
        \<and> (live m i j \<longrightarrow> fst (add_if_missing t k ty c)))"
    using r q found a(1) assms(1) unfolding eq by (cases "fst q") auto
qed

lemma has_column_step:
  assumes "made (Col t k) (stage i)"
  shows "step_spec m i 0 (add_if_missing t k ty)"
  unfolding step_spec_def
proof (intro allI impI)
  fix j c assume a: "i \<le> j" "at_stage j c"
  define q where "q = sql_query (\<lambda>c. has_column t k (ca_tables c)) c"
  have eq: "add_if_missing t k ty c = (if fst q then (True, snd q) else run_sql (AddColumn t k ty) (snd q))"
    by (simp add: add_if_missing_def q_def split_beta Let_def)
  have q: "at_stage j (snd q)" "ca_faults c = [] \<Longrightarrow> ca_faults (snd q) = []"
    using query_at_stage a(2) by (auto simp: q_def)
  have m: "made (Col t k) (stage j)"
    using made_grown [OF assms stage_grows [OF a(1)]] a(2) by (simp add: at_stage_def del: made.simps)
  then have col: "has_column t k (ca_tables (snd q))"
    using q(1) by (simp add: shape_has_column at_stage_def)
  then have found: "ca_faults c = [] \<Longrightarrow> fst q"
    using query_at_stage(4) a(2) unfolding q_def by blast
  have "exec_stmt (AddColumn t k ty) (snd (sql_ready (snd q))) = None"
    using exec_again [OF ready_at_stage(1) [OF q(1)], of "AddColumn t k ty", OF _ m] by simp
  then have "run_sql (AddColumn t k ty) (snd q) = (False, snd (sql_ready (snd q)))"
    using run_sql_cases [of "AddColumn t k ty" "snd q"] by auto
  then show "(\<exists>j'\<ge>j. j' \<le> max j (i + 0) \<and> at_stage j' (snd (add_if_missing t k ty c)) \<and> (fst (add_if_missing t k ty c) \<longrightarrow> j' = max j (i + 0)))
     \<and> (ca_faults c = [] \<longrightarrow> ca_faults (snd (add_if_missing t k ty c)) = []
        \<and> (live m i j \<longrightarrow> fst (add_if_missing t k ty c)))"
    using q found a(1) ready_at_stage(1) [OF q(1)] unfolding eq by (auto simp: max_def)
qed

lemma stage_users:
  "\<not> made (New ''users'' ks) (stage 1)" "made (New ''users'' ks) (stage 2)" "length (shape_columns ''users'' (stage 2)) = 7"
proof -
  have "stage 0 = ([], [])"
    by (simp add: stage_def)
  then have one: "stage 1 = ([(''schema_version'', [''version'', ''applied_at''])], [])"
    using stage_step [of 0] by (simp add: schema_changes_def)
  then have "stage 2 = ([(''schema_version'', [''version'', ''applied_at'']), (''users'',
      [''id'', ''username'', ''email'', ''phone'', ''password_hash'', ''created_at'', ''updated_at''])], [])"
    using stage_step [of 1] by (simp add: schema_changes_def numeral_2_eq_2)
  with one show "\<not> made (New ''users'' ks) (stage 1)" "made (New ''users'' ks) (stage 2)"
      "length (shape_columns ''users'' (stage 2)) = 7"
    by (simp_all add: shape_columns_def)
qed

lemma rename_step: "step_spec m 1 0 rename_legacy"
  unfolding step_spec_def
proof (intro allI impI)
  fix j c assume a: "1 \<le> j" "at_stage j c"
  define q where "q = sql_query (\<lambda>c. has_table ''users'' (ca_tables c)) c"
  define r where "r = sql_query (\<lambda>c. length (columns_of ''users'' (ca_tables c)) = 3) (snd q)"
  have q: "at_stage j (snd q)" "ca_faults c = [] \<Longrightarrow> ca_faults (snd q) = []"
    using query_at_stage a(2) by (auto simp: q_def)
  have r: "at_stage j (snd r)" "ca_faults c = [] \<Longrightarrow> ca_faults (snd r) = []"
    using query_at_stage(1,2) q by (auto simp: r_def)
  have "\<not> fst r" if "fst q"
  proof -
    have "has_table ''users'' (ca_tables (snd q))"
      using query_at_stage(3) that unfolding q_def by blast
    then have "''users'' \<in> fst ` set (fst (stage j))"
      using q(1) by (simp add: shape_has_table at_stage_def)
    then have "j \<noteq> 1"
      using stage_users(1) by auto
    then have "grown (stage 2) (stage j)"
      using stage_grows [of 2 j] a by (simp add: at_stage_def)
    then have "7 \<le> length (shape_columns ''users'' (stage j))"
      using stage_users(2,3) unfolding grown_def made.simps by metis
    then have "length (columns_of ''users'' (ca_tables (snd r))) \<noteq> 3"
      using r(1) arg_cong [OF shape_columns_of [of "''users''" "snd r"], of length] by (simp add: at_stage_def)
    then show ?thesis
      using query_at_stage(3) unfolding r_def by blast
  qed
  then have "rename_legacy c = (True, if fst q then snd r else snd q)"
    by (simp add: rename_legacy_def q_def r_def split_beta Let_def)
  then show "(\<exists>j'\<ge>j. j' \<le> max j (1 + 0) \<and> at_stage j' (snd (rename_legacy c)) \<and> (fst (rename_legacy c) \<longrightarrow> j' = max j (1 + 0)))
     \<and> (ca_faults c = [] \<longrightarrow> ca_faults (snd (rename_legacy c)) = [] \<and> (live m 1 j \<longrightarrow> fst (rename_legacy c)))"
    using q r a(1) by (auto simp: max_def)
qed

lemma carry_step: "step_spec m i 0 carry_legacy"
  unfolding step_spec_def
proof (intro allI impI)
  fix j c assume a: "i \<le> j" "at_stage j c"
  define q where "q = sql_query (\<lambda>c. has_table ''old_users'' (ca_tables c)) c"
  have q: "at_stage j (snd q)" "ca_faults c = [] \<Longrightarrow> ca_faults (snd q) = []"
    using query_at_stage a(2) by (auto simp: q_def)
  have "grown (stage j) final_shape"
    using stage_grows [of j 31] a(2) by (simp add: at_stage_def stage_final)
  then have "''old_users'' \<notin> fst ` set (fst (stage j))"
    by (auto simp: grown_def final_shape_def)
  then have "\<not> has_table ''old_users'' (ca_tables (snd q))"
    using q(1) by (simp add: shape_has_table at_stage_def)
  then have "\<not> fst q"
    using query_at_stage(3) unfolding q_def by blast
  then have "carry_legacy c = (True, snd q)"
    by (simp add: carry_legacy_def q_def split_beta Let_def)
  then show "(\<exists>j'\<ge>j. j' \<le> max j (i + 0) \<and> at_stage j' (snd (carry_legacy c)) \<and> (fst (carry_legacy c) \<longrightarrow> j' = max j (i + 0)))
     \<and> (ca_faults c = [] \<longrightarrow> ca_faults (snd (carry_legacy c)) = [] \<and> (live m i j \<longrightarrow> fst (carry_legacy c)))"
    using q a(1) by (auto simp: max_def)
qed

lemma steps_cons:
  assumes "step_spec m i k x" "k \<le> 1" "steps_spec m (i + k) xs" "i + k < m"
  shows "steps_spec m i (x # xs)"
  unfolding steps_spec_def
proof (intro allI impI)
  fix j c assume a: "i \<le> j" "at_stage j c"
  obtain j' where x: "j \<le> j'" "j' \<le> max j (i + k)" "at_stage j' (snd (x c))" "fst (x c) \<longrightarrow> j' = max j (i + k)"
      "ca_faults c = [] \<longrightarrow> ca_faults (snd (x c)) = [] \<and> (live m i j \<longrightarrow> fst (x c))"
    using assms(1) a unfolding step_spec_def by blast
  have eq: "sql_steps (x # xs) c = (if fst (x c) then sql_steps xs (snd (x c)) else (False, snd (x c)))"
    by (simp add: split_beta Let_def)
  show "(\<exists>j'\<ge>j. j' \<le> max j m \<and> at_stage j' (snd (sql_steps (x # xs) c)) \<and> (fst (sql_steps (x # xs) c) \<longrightarrow> j < m \<and> j' = m))
     \<and> (ca_faults c = [] \<longrightarrow> ca_faults (snd (sql_steps (x # xs) c)) = []
        \<and> (j < m \<and> live m i j \<longrightarrow> fst (sql_steps (x # xs) c)))"
  proof (cases "fst (x c)")
    case True
    then have j': "j' = max j (i + k)"
      using x(4) by simp
    then have le: "i + k \<le> j'"
      by simp
    have IH: "(\<exists>l\<ge>j'. l \<le> max j' m \<and> at_stage l (snd (sql_steps xs (snd (x c)))) \<and> (fst (sql_steps xs (snd (x c))) \<longrightarrow> j' < m \<and> l = m))
       \<and> (ca_faults (snd (x c)) = [] \<longrightarrow> ca_faults (snd (sql_steps xs (snd (x c)))) = []
          \<and> (j' < m \<and> live m (i + k) j' \<longrightarrow> fst (sql_steps xs (snd (x c)))))"
      using assms(3) x(3) le unfolding steps_spec_def by blast
    have "live m i j \<Longrightarrow> live m (i + k) j'"
      using j' a(1) assms(2) by (auto simp: live_def max_def)
    moreover have jm: "j' < m \<longleftrightarrow> j < m"
      using j' assms(4) by auto
    moreover obtain l where "j' \<le> l" "l \<le> max j' m" "at_stage l (snd (sql_steps xs (snd (x c))))"
        "fst (sql_steps xs (snd (x c))) \<longrightarrow> j' < m \<and> l = m"
        "ca_faults (snd (x c)) = [] \<longrightarrow> ca_faults (snd (sql_steps xs (snd (x c)))) = []
          \<and> (j' < m \<and> live m (i + k) j' \<longrightarrow> fst (sql_steps xs (snd (x c))))"
      using IH by blast
    moreover have "max j' m \<le> max j m"
      using x(2) assms(4) by auto
    ultimately show ?thesis
      using x(1,5) True unfolding eq by (auto intro!: exI [of _ l])
  next
    case False
    then show ?thesis
      using x a assms(4) unfolding eq by (auto intro!: exI [of _ j'])
  qed
qed

section \<open>The nine migrations\<close>

lemma walk_create:
  assumes "change_of x = Some (schema_changes ! i)" "creates (schema_changes ! i)" "m \<le> 31" "Suc i < m"
    "steps_spec m (Suc i) xs"
  shows "steps_spec m i (required x # xs)"
  using steps_cons [OF create_step [of x i m]] assms by simp

lemma walk_add:
  assumes "schema_changes ! i = Col t k" "m \<le> 31" "Suc i < m" "steps_spec m (Suc i) xs"
  shows "steps_spec m i (add_if_missing t k ty # xs)"
  using steps_cons [OF add_if_missing_step [of i t k m ty]] assms by simp

lemma walk_column:
  assumes "change_of x = Some (schema_changes ! i)" "m \<le> 31" "Suc i < m" "\<And>j. live m i j \<Longrightarrow> j = i"
    "steps_spec m (Suc i) xs"
  shows "steps_spec m i (required x # xs)"
  using steps_cons [OF column_step [of x i m]] assms by simp

lemma walk_zero:
  assumes "step_spec m i 0 x" "i < m" "steps_spec m i xs"
  shows "steps_spec m i (x # xs)"
  using steps_cons [OF assms(1)] assms by simp

lemmas walk_optional = walk_zero [OF optional_step]

lemma walk_version:
  assumes "schema_changes ! i = Ver n" "m \<le> 31" "m = Suc i"
  shows "steps_spec m i [required (InsertVersion n)]"
  using version_steps [OF assms(1)] assms by simp

lemma stage_columns:
  "list_all (\<lambda>k. made (Col ''messages'' k) (stage 14)) [''sender_id'', ''sender_device_id'', ''client_message_id'']"
  "made (Col ''prekeys'' ''claimed_at'') (stage 20)"
proof -
  have "made (Col ''messages'' ''sender_id'') (stage 11)" "made (Col ''prekeys'' ''claimed_at'') (stage 19)"
    by (simp_all add: stage_def schema_changes_def shape_columns_def)
  moreover have "made (Col ''messages'' ''client_message_id'') (stage 14)" "made (Col ''messages'' ''sender_device_id'') (stage 14)"
    using stage_made [of 12 14] stage_made [of 13 14] by (simp_all add: schema_changes_def del: made.simps)
  ultimately show "list_all (\<lambda>k. made (Col ''messages'' k) (stage 14)) [''sender_id'', ''sender_device_id'', ''client_message_id'']"
      "made (Col ''prekeys'' ''claimed_at'') (stage 20)"
    using made_grown [OF _ stage_grows [of 11 14]] made_grown [OF _ stage_grows [of 19 20]]
    by (simp_all del: made.simps)
qed

lemma spec_V1: "steps_spec 3 1 migrateToV1"
  unfolding migrateToV1_def
  by (rule walk_zero [OF rename_step] walk_create walk_zero [OF carry_step] walk_version; (simp add: schema_changes_def)?)+

lemma spec_V2: "steps_spec 7 3 migrateToV2"
  unfolding migrateToV2_def by (rule walk_create walk_version; (simp add: schema_changes_def)?)+

lemma spec_V3: "steps_spec 12 7 migrateToV3"
  unfolding migrateToV3_def by (rule walk_create walk_optional walk_version; (simp add: schema_changes_def)?)+

lemma spec_V4: "steps_spec 17 12 migrateToV4"
  unfolding migrateToV4_def
  by (rule walk_column [of _ 12] walk_column [of _ 13] walk_create walk_zero [OF index_step [OF stage_columns(1)]] walk_optional
        walk_version; (simp add: schema_changes_def live_def stuck_def)?; (presburger)?)+

lemma spec_V5: "steps_spec 20 17 migrateToV5"
  unfolding migrateToV5_def by (rule walk_create walk_optional walk_version; (simp add: schema_changes_def)?)+

lemma spec_V6: "steps_spec 21 20 migrateToV6"
  unfolding migrateToV6_def
  by (rule walk_zero [OF has_column_step [OF stage_columns(2)]] walk_optional walk_version; (simp add: schema_changes_def)?)+

lemma spec_V7: "steps_spec 24 21 migrateToV7"
  unfolding migrateToV7_def by (rule walk_add walk_version; (simp add: schema_changes_def)?)+

lemma spec_V8: "steps_spec 26 24 migrateToV8"
  unfolding migrateToV8_def by (rule walk_create walk_optional walk_version; (simp add: schema_changes_def)?)+

lemma spec_V9: "steps_spec 31 26 migrateToV9"
  unfolding migrateToV9_def by (rule walk_add walk_version; (simp add: schema_changes_def)?)+

section \<open>The run over the migrations\<close>

definition ends :: "int \<Rightarrow> nat" where
  "ends n = [3, 7, 12, 17, 20, 21, 24, 26, 31] ! nat (n - 1)"

definition runs_spec :: "nat \<Rightarrow> (int \<times> migration_step list) list \<Rightarrow> bool" where
  "runs_spec i ms \<longleftrightarrow> (\<forall>j c v. i \<le> j \<longrightarrow> at_stage j c \<longrightarrow> (\<forall>(n, xs) \<in> set ms. n \<le> v \<longrightarrow> ends n \<le> j) \<longrightarrow>
     (\<exists>j'\<ge>j. at_stage j' (snd (run_migrations v ms c)) \<and> (fst (run_migrations v ms c) \<longrightarrow> j' = 31))
     \<and> (ca_faults c = [] \<longrightarrow> ca_faults (snd (run_migrations v ms c)) = []
        \<and> ((\<forall>(n, xs) \<in> set ms. v < n \<longrightarrow> j < ends n) \<and> (j = i \<or> \<not> stuck j) \<longrightarrow> fst (run_migrations v ms c))))"

lemma runs_nil: "runs_spec 31 []"
  by (auto simp: runs_spec_def at_stage_def)

lemma runs_cons:
  assumes "steps_spec m i xs" "ends n = m" "i < m" "runs_spec m ms" "\<forall>(n', ys) \<in> set ms. n < n' \<and> m < ends n'"
  shows "runs_spec i ((n, xs) # ms)"
  unfolding runs_spec_def
proof (intro allI impI)
  fix j c v assume a: "i \<le> j" "at_stage j c" "\<forall>(n', ys) \<in> set ((n, xs) # ms). n' \<le> v \<longrightarrow> ends n' \<le> j"
  let ?r = "run_migrations v ((n, xs) # ms) c" and ?x = "sql_steps xs c"
  show "(\<exists>j'\<ge>j. at_stage j' (snd ?r) \<and> (fst ?r \<longrightarrow> j' = 31))
     \<and> (ca_faults c = [] \<longrightarrow> ca_faults (snd ?r) = []
        \<and> ((\<forall>(n', ys) \<in> set ((n, xs) # ms). v < n' \<longrightarrow> j < ends n') \<and> (j = i \<or> \<not> stuck j) \<longrightarrow> fst ?r))"
  proof (cases "v < n")
    case True
    have eq: "?r = (if fst ?x then run_migrations v ms (snd ?x) else (False, snd ?x))"
      using True by (simp add: split_beta Let_def)
    obtain j' where x: "j \<le> j'" "at_stage j' (snd ?x)" "fst ?x \<longrightarrow> j < m \<and> j' = m"
        "ca_faults c = [] \<longrightarrow> ca_faults (snd ?x) = [] \<and> (j < m \<and> live m i j \<longrightarrow> fst ?x)"
      using assms(1) a(1,2) unfolding steps_spec_def by blast
    have l: "j < m \<Longrightarrow> j = i \<or> \<not> stuck j \<Longrightarrow> live m i j"
      using a(1) by (auto simp: live_def)
    show ?thesis
    proof (cases "fst ?x")
      case ok: True
      then have "at_stage m (snd ?x)"
        using x by blast
      moreover have "\<forall>(n', ys) \<in> set ms. n' \<le> v \<longrightarrow> ends n' \<le> m" "\<forall>(n', ys) \<in> set ms. v < n' \<longrightarrow> m < ends n'"
        using assms(5) True by auto
      ultimately have "(\<exists>l\<ge>m. at_stage l (snd (run_migrations v ms (snd ?x))) \<and> (fst (run_migrations v ms (snd ?x)) \<longrightarrow> l = 31))
         \<and> (ca_faults (snd ?x) = [] \<longrightarrow> ca_faults (snd (run_migrations v ms (snd ?x))) = []
            \<and> fst (run_migrations v ms (snd ?x)))"
        using assms(4) unfolding runs_spec_def by blast
      then show ?thesis
        using x ok unfolding eq by (auto intro: less_imp_le order_trans)
    next
      case False
      then show ?thesis
        using x l assms(2) True unfolding eq by auto
    qed
  next
    case False
    then have m: "m \<le> j"
      using a(3) assms(2) by auto
    then have "(\<exists>l\<ge>j. at_stage l (snd (run_migrations v ms c)) \<and> (fst (run_migrations v ms c) \<longrightarrow> l = 31))
       \<and> (ca_faults c = [] \<longrightarrow> ca_faults (snd (run_migrations v ms c)) = []
          \<and> ((\<forall>(n', ys) \<in> set ms. v < n' \<longrightarrow> j < ends n') \<and> (j = m \<or> \<not> stuck j) \<longrightarrow> fst (run_migrations v ms c)))"
      using assms(4) a(2,3) unfolding runs_spec_def by auto
    then show ?thesis
      using False m assms(3) by auto
  qed
qed

lemma runs_later: "runs_spec 3 (tl migrations)"
  unfolding migrations_def list.sel
  by (rule runs_cons [OF spec_V2] runs_cons [OF spec_V3] runs_cons [OF spec_V4] runs_cons [OF spec_V5]
        runs_cons [OF spec_V6] runs_cons [OF spec_V7] runs_cons [OF spec_V8] runs_cons [OF spec_V9] runs_nil;
      (simp add: ends_def)?)+

lemma migrations_first: "migrations = (1, migrateToV1) # tl migrations"
  by (simp add: migrations_def)

lemma runs_all: "runs_spec 1 migrations"
proof -
  have "\<forall>(n', ys) \<in> set (tl migrations). 1 < n' \<and> 3 < ends n'"
    by (simp add: migrations_def ends_def)
  then show ?thesis
    using runs_cons [OF spec_V1 _ _ runs_later] by (subst migrations_first) (simp add: ends_def)
qed

text \<open>The versions recorded at a stage.\<close>

fun recorded :: "change \<Rightarrow> int list" where
  "recorded (Ver n) = [n]"
| "recorded d = []"

lemma apply_recorded: "apply_change d s = Some s' \<Longrightarrow> snd s' = snd s @ recorded d"
  by (cases d; cases s) (auto split: if_splits)

lemma stage_recorded: "j \<le> 31 \<Longrightarrow> snd (stage j) = concat (map recorded (take j schema_changes))"
proof (induction j)
  case (Suc j)
  then show ?case
    using apply_recorded [OF stage_step [of j]] by (simp add: take_Suc_conv_app_nth)
qed (simp add: stage_def)

lemma recorded_ends:
  "list_all (\<lambda>j. concat (map recorded (take j schema_changes)) = filter (\<lambda>n. ends n \<le> j) [1, 2, 3, 4, 5, 6, 7, 8, 9]
     \<and> (let vs = filter (\<lambda>n. ends n \<le> j) [1, 2, 3, 4, 5, 6, 7, 8, 9]
        in list_all (\<lambda>n. n \<le> (if vs = [] then 0 else Max (set vs)) \<longleftrightarrow> ends n \<le> j) [1, 2, 3, 4, 5, 6, 7, 8, 9])) [0..<32]"
  by code_simp

lemma stage_versions:
  assumes "j \<le> 31"
  shows "snd (stage j) = filter (\<lambda>n. ends n \<le> j) [1, 2, 3, 4, 5, 6, 7, 8, 9]"
    "n \<in> set [1, 2, 3, 4, 5, 6, 7, 8, 9] \<Longrightarrow>
       n \<le> (if snd (stage j) = [] then 0 else Max (set (snd (stage j)))) \<longleftrightarrow> ends n \<le> j"
proof -
  have "j \<in> set [0..<32]"
    using assms by simp
  then have r: "concat (map recorded (take j schema_changes)) = filter (\<lambda>n. ends n \<le> j) [1, 2, 3, 4, 5, 6, 7, 8, 9]"
      "list_all (\<lambda>n. n \<le> (if filter (\<lambda>n. ends n \<le> j) [1, 2, 3, 4, 5, 6, 7, 8, 9] = [] then 0
          else Max (set (filter (\<lambda>n. ends n \<le> j) [1, 2, 3, 4, 5, 6, 7, 8, 9]))) \<longleftrightarrow> ends n \<le> j) [1, 2, 3, 4, 5, 6, 7, 8, 9]"
    using recorded_ends unfolding list_all_iff Let_def by blast+
  show v: "snd (stage j) = filter (\<lambda>n. ends n \<le> j) [1, 2, 3, 4, 5, 6, 7, 8, 9]"
    using stage_recorded [OF assms] r(1) by simp
  show "n \<in> set [1, 2, 3, 4, 5, 6, 7, 8, 9] \<Longrightarrow>
       n \<le> (if snd (stage j) = [] then 0 else Max (set (snd (stage j)))) \<longleftrightarrow> ends n \<le> j"
    using r(2) unfolding v list_all_iff by blast
qed

end
