(* ===== verification/Migration_Properties.thy ===== *)
theory Migration_Properties
  imports Migration_Stages Encryption_Manager
begin

text \<open>
  The schema the migrations build, and what becomes of a start that was interrupted: the starts of the
  server over the years, each with the statements that fail in it, on one database file.
\<close>

section \<open>One start\<close>

lemma run_start:
  assumes "at_stage j c"
  shows "\<exists>j'\<ge>j. at_stage j' (snd (runMigrations c)) \<and> (fst (runMigrations c) \<longrightarrow> j' = 31)"
    "ca_faults c = [] \<Longrightarrow> \<not> stuck j \<Longrightarrow> fst (runMigrations c)"
    "ca_faults c = [] \<Longrightarrow> ca_faults (snd (runMigrations c)) = []"
proof -
  let ?q = "run_sql version_table c"
  have "step_spec 32 0 1 (required version_table)"
    by (rule create_step) (simp_all add: schema_changes_def)
  then obtain k where q: "j \<le> k" "at_stage k (snd ?q)" "fst ?q \<longrightarrow> k = max j 1"
      "ca_faults c = [] \<longrightarrow> ca_faults (snd ?q) = [] \<and> (live 32 0 j \<longrightarrow> fst ?q)"
    using assms unfolding step_spec_def required_def by fastforce
  define d where "d = snd (current_version (snd ?q))"
  define v where "v = fst (current_version (snd ?q))"
  have d: "at_stage k d" "ca_faults (snd ?q) = [] \<Longrightarrow> ca_faults d = []"
    using ready_at_stage(1,2) q(2) by (auto simp: d_def current_version_def split_beta Let_def)
  let ?w = "if snd (stage k) = [] then 0 else Max (set (snd (stage k)))"
  have "ca_versions d = snd (stage k)"
    using d(1) shape_versions [of d] by (simp add: at_stage_def)
  then have v: "v = 0 \<or> v = ?w" "ca_faults (snd ?q) = [] \<Longrightarrow> v = ?w"
    using ready_at_stage(3) [OF q(2)] by (auto simp: v_def d_def current_version_def split_beta Let_def)
  have eq: "runMigrations c = (if fst ?q then run_migrations v migrations d else (False, snd ?q))"
    by (simp add: runMigrations_def v_def d_def split_beta Let_def)
  have ns: "(\<forall>(n, xs) \<in> set migrations. P n) \<longleftrightarrow> (\<forall>n \<in> set [1, 2, 3, 4, 5, 6, 7, 8, 9]. P n)" for P :: "int \<Rightarrow> bool"
    by (simp add: migrations_def)
  have ver: "\<forall>n \<in> set [1, 2, 3, 4, 5, 6, 7, 8, 9]. n \<le> ?w \<longleftrightarrow> ends n \<le> k"
    using stage_versions(2) d(1) unfolding at_stage_def by blast
  have low: "\<forall>(n, xs) \<in> set migrations. n \<le> v \<longrightarrow> ends n \<le> k"
    unfolding ns using v(1) ver by (cases "v = 0") auto
  have run: "(\<exists>l\<ge>k. at_stage l (snd (run_migrations v migrations d)) \<and> (fst (run_migrations v migrations d) \<longrightarrow> l = 31))
     \<and> (ca_faults d = [] \<longrightarrow> ca_faults (snd (run_migrations v migrations d)) = []
        \<and> ((\<forall>(n, xs) \<in> set migrations. v < n \<longrightarrow> k < ends n) \<and> (k = 1 \<or> \<not> stuck k) \<longrightarrow> fst (run_migrations v migrations d)))"
    if "fst ?q"
  proof -
    have "1 \<le> k"
      using q(3) that by simp
    then show ?thesis
      using runs_all d(1) low unfolding runs_spec_def by blast
  qed
  show "\<exists>j'\<ge>j. at_stage j' (snd (runMigrations c)) \<and> (fst (runMigrations c) \<longrightarrow> j' = 31)"
    using run q unfolding eq by (auto intro: order_trans)
  show "ca_faults (snd (runMigrations c)) = []" if "ca_faults c = []"
    using run q d(2) that unfolding eq by auto
  show "fst (runMigrations c)" if f: "ca_faults c = []" and s: "\<not> stuck j"
  proof -
    have "live 32 0 j"
      using assms s by (auto simp: live_def at_stage_def)
    then have ok: "fst ?q"
      using q(4) f by simp
    have vw: "v = ?w"
      using v(2) q(4) f by blast
    have "\<not> stuck k"
      using q(3) ok s by (auto simp: stuck_def max_def split: if_splits)
    moreover have "\<forall>(n, xs) \<in> set migrations. v < n \<longrightarrow> k < ends n"
      using ver unfolding ns vw by (metis not_le)
    moreover have "ca_faults d = []"
      using d(2) q(4) f by blast
    ultimately have "fst (run_migrations v migrations d)"
      using run [OF ok] by blast
    then show ?thesis
      using ok by (simp add: eq)
  qed
qed

lemma stuck_start:
  assumes "at_stage j c" "stuck j"
  shows "\<not> fst (runMigrations c) \<and> at_stage j (snd (runMigrations c))"
proof -
  let ?q = "run_sql version_table c"
  have "step_spec 32 0 1 (required version_table)"
    by (rule create_step) (simp_all add: schema_changes_def)
  then have q: "at_stage j (snd ?q)"
    using assms unfolding step_spec_def required_def by (fastforce simp: stuck_def max_def)
  define d where "d = snd (current_version (snd ?q))"
  define v where "v = fst (current_version (snd ?q))"
  have d: "at_stage j d"
    using ready_at_stage(1) q by (auto simp: d_def current_version_def split_beta Let_def)
  have j: "j \<le> 31" "12 < j" "j < 17"
    using assms by (auto simp: at_stage_def stuck_def)
  have "snd (stage j) = [1, 2, 3]"
    using j by (simp add: stage_versions(1) ends_def)
  then have "ca_versions d = [1, 2, 3]"
    using d shape_versions [of d] by (simp add: at_stage_def)
  then have v: "v = 0 \<or> v = 3"
    by (auto simp: v_def d_def current_version_def split_beta Let_def)
  have eq: "runMigrations c = (if fst ?q then run_migrations v migrations d else (False, snd ?q))"
    by (simp add: runMigrations_def v_def d_def split_beta Let_def)
  have one: "\<not> fst (sql_steps migrateToV1 d) \<and> at_stage j (snd (sql_steps migrateToV1 d))"
  proof -
    have "1 \<le> j"
      using j by simp
    then obtain l where "j \<le> l" "l \<le> max j 3" "at_stage l (snd (sql_steps migrateToV1 d))"
        "fst (sql_steps migrateToV1 d) \<longrightarrow> j < 3 \<and> l = 3"
      using spec_V1 d unfolding steps_spec_def by blast
    then show ?thesis
      using j by (auto simp: max_def split: if_splits)
  qed
  have four: "\<not> fst (sql_steps migrateToV4 d) \<and> at_stage j (snd (sql_steps migrateToV4 d))"
  proof -
    have "exec_stmt (AddColumn ''messages'' ''client_message_id'' ''TEXT'') (snd (sql_ready d)) = None"
      using exec_later [of "AddColumn ''messages'' ''client_message_id'' ''TEXT''" 12 j, OF _ _ _ ready_at_stage(1) [OF d]] j
      by (simp add: schema_changes_def)
    then have "run_sql (AddColumn ''messages'' ''client_message_id'' ''TEXT'') d = (False, snd (sql_ready d))"
      using run_sql_cases [of "AddColumn ''messages'' ''client_message_id'' ''TEXT''" d] by auto
    then show ?thesis
      using ready_at_stage(1) [OF d] by (simp add: migrateToV4_def required_def)
  qed
  define ms where "ms = tl migrations"
  define ns where "ns = drop 4 migrations"
  have m1: "migrations = (1, migrateToV1) # ms"
    by (simp add: migrations_def ms_def)
  have m4: "migrations = (1, migrateToV1) # (2, migrateToV2) # (3, migrateToV3) # (4, migrateToV4) # ns"
    by (simp add: migrations_def ns_def)
  have "run_migrations 0 migrations d = (False, snd (sql_steps migrateToV1 d))"
    unfolding m1 using one by (simp add: split_beta Let_def)
  moreover have "run_migrations 3 migrations d = (False, snd (sql_steps migrateToV4 d))"
    unfolding m4 using four by (simp add: split_beta Let_def)
  ultimately show ?thesis
    using v one four q unfolding eq by auto
qed

section \<open>The starts of one database file\<close>

text \<open>A database file that does not exist yet, and a start: whether the file opens and which of its
  statements fail; the process ends after it, whatever it returned.\<close>

definition no_database :: catalogue where
  "no_database = \<lparr>ca_named = False, ca_open = False, ca_cascade = False, ca_tables = [], ca_indexes = [],
     ca_versions = [], ca_legacy = [], ca_users = [], ca_meta = False, ca_faults = []\<rparr>"

definition one_start :: "bool \<times> bool list \<Rightarrow> catalogue \<Rightarrow> bool \<times> catalogue" where
  "one_start s c = initialize (fst s) (c\<lparr>ca_faults := snd s\<rparr>)"

fun starts :: "(bool \<times> bool list) list \<Rightarrow> catalogue \<Rightarrow> catalogue" where
  "starts [] c = c"
| "starts (s # ss) c = starts ss (closeDb (snd (one_start s c)))"

definition stored :: "nat \<Rightarrow> catalogue \<Rightarrow> bool" where
  "stored j c \<longleftrightarrow> j \<le> 31 \<and> \<not> ca_named c \<and> shape_of c = stage j"

lemma stored_empty: "stored 0 no_database"
  by (simp add: stored_def no_database_def shape_of_def stage_def)

lemma close_stored: "at_stage j c \<Longrightarrow> stored j (closeDb c)"
  by (simp add: at_stage_def stored_def closeDb_def shape_of_def)

lemma start_stored:
  assumes "stored j c"
  shows "one_start (False, fs) c = (False, c\<lparr>ca_faults := fs, ca_named := True\<rparr>)"
    "\<exists>d. one_start (True, fs) c = runMigrations d \<and> at_stage j d \<and> (fs = [] \<longrightarrow> ca_faults d = [])"
proof -
  show "one_start (False, fs) c = (False, c\<lparr>ca_faults := fs, ca_named := True\<rparr>)"
    using assms by (simp add: one_start_def initialize_def openDb_def stored_def)
  define d where "d = database True (snd (openDb True (c\<lparr>ca_faults := fs\<rparr>)))"
  have "one_start (True, fs) c = runMigrations d"
    using assms by (simp add: one_start_def initialize_def openDb_def stored_def d_def)
  moreover have "at_stage j d" "fs = [] \<longrightarrow> ca_faults d = []"
    using assms by (auto simp: d_def openDb_def stored_def database_def pragma_def at_stage_def sql_ready_def shape_of_def Let_def)
  ultimately show "\<exists>d. one_start (True, fs) c = runMigrations d \<and> at_stage j d \<and> (fs = [] \<longrightarrow> ca_faults d = [])"
    by blast
qed

lemma one_start_stored:
  assumes "stored j c"
  shows "\<exists>j'\<ge>j. stored j' (closeDb (snd (one_start s c)))"
proof (cases s)
  case (Pair opens fs)
  show ?thesis
  proof (cases opens)
    case True
    then obtain d where d: "one_start s c = runMigrations d" "at_stage j d"
      using start_stored(2) [OF assms, of fs] Pair by auto
    obtain j' where "j \<le> j'" "at_stage j' (snd (runMigrations d))"
      using run_start(1) [OF d(2)] by blast
    then show ?thesis
      using close_stored [of j'] unfolding d(1) by blast
  next
    case False
    then have "stored j (closeDb (snd (one_start s c)))"
      using assms Pair start_stored(1) [OF assms] by (simp add: stored_def closeDb_def shape_of_def)
    then show ?thesis
      by blast
  qed
qed

lemma starts_stored: "stored j c \<Longrightarrow> \<exists>j'\<ge>j. stored j' (starts ss c)"
proof (induction ss arbitrary: j c)
  case (Cons s ss)
  obtain k where "j \<le> k" "stored k (closeDb (snd (one_start s c)))"
    using one_start_stored [OF Cons.prems] by blast
  moreover obtain l where "k \<le> l" "stored l (starts ss (closeDb (snd (one_start s c))))"
    using Cons.IH calculation by blast
  ultimately show ?case
    by (intro exI [of _ l]) simp
qed auto

text \<open>The fourth migration between its first statement and its last.\<close>

definition half_done :: "catalogue \<Rightarrow> bool" where
  "half_done c \<longleftrightarrow> ca_versions c = [1, 2, 3] \<and> has_column ''messages'' ''client_message_id'' (ca_tables c)"

lemma stuck_half_done:
  assumes "j \<le> 31" "shape_of c = stage j"
  shows "half_done c \<longleftrightarrow> stuck j"
proof
  have v: "ca_versions c = filter (\<lambda>n. ends n \<le> j) [1, 2, 3, 4, 5, 6, 7, 8, 9]"
    using stage_versions(1) [OF assms(1)] shape_versions [of c] assms(2) by simp
  show "stuck j" if "half_done c"
  proof -
    have e: "n \<in> set (ca_versions c) \<longleftrightarrow> n \<in> {1, 2, 3, 4, 5, 6, 7, 8, 9} \<and> ends n \<le> j" for n
      unfolding v set_filter by simp
    have "ends 3 \<le> j" "\<not> ends 4 \<le> j"
      using that e [of 3] e [of 4] by (simp_all add: half_done_def)
    then have j: "12 \<le> j" "j < 17"
      by (simp_all add: ends_def)
    have "j \<noteq> 12"
    proof
      assume "j = 12"
      then show False
        using that assms(2) stage_step [of 12] by (auto simp: half_done_def shape_has_column schema_changes_def split: if_splits)
    qed
    then show ?thesis
      using j by (simp add: stuck_def)
  qed
  show "half_done c" if "stuck j"
  proof -
    have j: "12 < j" "j < 17"
      using that by (auto simp: stuck_def)
    have "made (Col ''messages'' ''client_message_id'') (stage j)"
      using stage_made [of 12 j] j assms(1) by (simp add: schema_changes_def del: made.simps)
    then have "has_column ''messages'' ''client_message_id'' (ca_tables c)"
      using assms(2) by (simp add: shape_has_column)
    then show ?thesis
      using v j by (simp add: half_done_def ends_def)
  qed
qed

text \<open>No row of \<open>users\<close> is touched after the first migration.\<close>

definition keeps_users :: "migration_step \<Rightarrow> bool" where
  "keeps_users x \<longleftrightarrow> (\<forall>c. ca_users (snd (x c)) = ca_users c \<and> ca_legacy (snd (x c)) = ca_legacy c)"

lemma run_keeps_users:
  "x \<notin> {RenameUsers, CopyLegacyUsers, DropLegacyUsers} \<Longrightarrow>
     ca_users (snd (run_sql x c)) = ca_users c \<and> ca_legacy (snd (run_sql x c)) = ca_legacy c"
  by (cases x) (auto simp: run_sql_def sql_ready_def Let_def split: option.splits if_splits)

lemma steps_keep_users [intro]:
  "x \<notin> {RenameUsers, CopyLegacyUsers, DropLegacyUsers} \<Longrightarrow> keeps_users (required x)"
  "x \<notin> {RenameUsers, CopyLegacyUsers, DropLegacyUsers} \<Longrightarrow> keeps_users (optional x)"
  "keeps_users (add_if_missing t k ty)"
  using run_keeps_users
  by (auto simp: keeps_users_def required_def optional_def add_if_missing_def sql_query_def sql_ready_def Let_def)

lemma list_keeps_users:
  "list_all keeps_users xs \<Longrightarrow> ca_users (snd (sql_steps xs c)) = ca_users c \<and> ca_legacy (snd (sql_steps xs c)) = ca_legacy c"
  by (induction xs arbitrary: c) (auto simp: keeps_users_def split_beta Let_def)

lemma runs_keep_users:
  "list_all (\<lambda>(n, xs). list_all keeps_users xs) ms \<Longrightarrow>
     ca_users (snd (run_migrations v ms c)) = ca_users c \<and> ca_legacy (snd (run_migrations v ms c)) = ca_legacy c"
  by (induction ms arbitrary: c) (auto simp: split_beta Let_def list_keeps_users)

lemma later_keep_users: "list_all (\<lambda>(n, xs). list_all keeps_users xs) (tl migrations)"
  unfolding migrations_def migrateToV2_def migrateToV3_def migrateToV4_def migrateToV5_def migrateToV6_def migrateToV7_def
    migrateToV8_def migrateToV9_def
  by (simp; intro conjI steps_keep_users; simp)

section \<open>The database of the first program\<close>

definition legacy_database :: "(string \<times> string) list \<Rightarrow> catalogue" where
  "legacy_database us = no_database\<lparr>
     ca_tables := [(''users'', [(''id'', ''INTEGER''), (''username'', ''TEXT''), (''password'', ''TEXT'')], [])], ca_users := us\<rparr>"

lemma later_migrations:
  assumes "at_stage 3 c" "ca_faults c = []"
  shows "fst (run_migrations 0 (tl migrations) c)"
    "shape_of (snd (run_migrations 0 (tl migrations) c)) = final_shape"
    "ca_users (snd (run_migrations 0 (tl migrations) c)) = ca_users c"
    "ca_legacy (snd (run_migrations 0 (tl migrations) c)) = ca_legacy c"
proof -
  let ?r = "run_migrations 0 (tl migrations) c"
  have low: "\<forall>(n, xs) \<in> set (tl migrations). n \<le> 0 \<longrightarrow> ends n \<le> 3"
    and high: "\<forall>(n, xs) \<in> set (tl migrations). 0 < n \<longrightarrow> 3 < ends n"
    by (simp_all add: migrations_def ends_def)
  have "(\<exists>j'\<ge>3. at_stage j' (snd ?r) \<and> (fst ?r \<longrightarrow> j' = 31))
     \<and> (ca_faults c = [] \<longrightarrow> ca_faults (snd ?r) = []
        \<and> ((\<forall>(n, xs) \<in> set (tl migrations). 0 < n \<longrightarrow> 3 < ends n) \<and> ((3 :: nat) = 3 \<or> \<not> stuck 3) \<longrightarrow> fst ?r))"
    using runs_later assms(1) low unfolding runs_spec_def by blast
  then show "fst ?r" "shape_of (snd ?r) = final_shape"
    using assms(2) high by (auto simp: at_stage_def stage_final)
  show "ca_users (snd ?r) = ca_users c" "ca_legacy (snd ?r) = ca_legacy c"
    using runs_keep_users [OF later_keep_users] by blast+
qed

lemma stage_three: "stage 3 = ([(''schema_version'', [''version'', ''applied_at'']),
    (''users'', [''id'', ''username'', ''email'', ''phone'', ''password_hash'', ''created_at'', ''updated_at''])], [1])"
  by (simp add: stage_def schema_changes_def)

definition copy_fault :: "bool \<Rightarrow> bool list" where
  "copy_fault b = (if b then [False, False, False, False, False, False, False, False, False, True] else [])"

lemma legacy_first:
  assumes "c = (legacy_database us)\<lparr>ca_named := True, ca_open := True, ca_cascade := True, ca_faults := fs\<rparr>"
    "fs = drop 2 (copy_fault b)"
  shows "\<exists>d. runMigrations c = run_migrations 0 (tl migrations) d \<and> at_stage 3 d \<and> ca_faults d = [] \<and> ca_legacy d = []
     \<and> ca_users d = (if b then [] else copy_legacy (map (\<lambda>(u, p). (Some u, Some p)) us) [])"
proof -
  define c1 where "c1 = snd (current_version (snd (run_sql version_table c)))"
  have c1: "c1 = c\<lparr>ca_tables := ca_tables c @ [(''schema_version'', [(''version'', ''INTEGER PRIMARY KEY''), now_column ''applied_at''], [])],
      ca_faults := drop 2 fs\<rparr>" "runMigrations c = run_migrations 0 migrations c1"
    unfolding c1_def
    by (cases b; simp add: assms copy_fault_def legacy_database_def no_database_def runMigrations_def run_sql_def sql_ready_def
        current_version_def has_table_def Let_def)+
  define d where "d = snd (sql_steps migrateToV1 c1)"
  let ?rows = "map (\<lambda>(u, p). (Some u, Some p)) us"
  let ?old = "(''old_users'', [(''id'', ''INTEGER''), (''username'', ''TEXT''), (''password'', ''TEXT'')], [])"
  let ?new = "(''users'', [key_column, (''username'', ''TEXT UNIQUE NOT NULL''), (''email'', ''TEXT''), (''phone'', ''TEXT''),
      (''password_hash'', ''TEXT NOT NULL''), now_column ''created_at'', now_column ''updated_at''], [])"
  let ?ver = "(''schema_version'', [(''version'', ''INTEGER PRIMARY KEY''), now_column ''applied_at''], [])"
  note eval = run_sql_def sql_query_def sql_ready_def has_table_def columns_of_def has_column_def Let_def
  define c2 where "c2 = c1\<lparr>ca_tables := [?old, ?ver], ca_legacy := ?rows, ca_users := [], ca_faults := drop 3 (ca_faults c1)\<rparr>"
  have r: "rename_legacy c1 = (True, c2)"
    by (cases b) (simp_all add: c2_def c1(1) assms copy_fault_def legacy_database_def no_database_def rename_legacy_def eval)
  define c3 where "c3 = c2\<lparr>ca_tables := [?old, ?ver, ?new], ca_faults := drop 1 (ca_faults c2)\<rparr>"
  have n: "required (CreateTable ''users'' [key_column, (''username'', ''TEXT UNIQUE NOT NULL''), (''email'', ''TEXT''), (''phone'', ''TEXT''),
      (''password_hash'', ''TEXT NOT NULL''), now_column ''created_at'', now_column ''updated_at''] []) c2 = (True, c3)"
    by (cases b) (simp_all add: c3_def c2_def c1(1) assms copy_fault_def legacy_database_def no_database_def required_def eval)
  define c4 where "c4 = c3\<lparr>ca_tables := [?ver, ?new], ca_legacy := [], ca_users := (if b then [] else copy_legacy ?rows []), ca_faults := []\<rparr>"
  have k: "carry_legacy c3 = (True, c4)"
    by (cases b) (simp_all add: c4_def c3_def c2_def c1(1) assms copy_fault_def legacy_database_def no_database_def carry_legacy_def eval)
  have "required (InsertVersion 1) c4 = (True, c4\<lparr>ca_versions := [1]\<rparr>)"
    by (simp add: c4_def c3_def c2_def c1(1) assms legacy_database_def no_database_def required_def eval)
  then have dd: "sql_steps migrateToV1 c1 = (True, c4\<lparr>ca_versions := [1]\<rparr>)"
    using r n k by (simp add: migrateToV1_def)
  have de: "d = c4\<lparr>ca_versions := [1]\<rparr>"
    unfolding d_def dd by simp
  have d1: "fst (sql_steps migrateToV1 c1)"
    unfolding dd by simp
  have d: "ca_open d" "shape_of d = stage 3" "ca_faults d = []" "ca_legacy d = []"
      "ca_users d = (if b then [] else copy_legacy ?rows [])"
    by (simp_all add: de c4_def c3_def c2_def c1(1) assms legacy_database_def no_database_def stage_three shape_of_def)
  have "run_migrations 0 migrations c1 = run_migrations 0 (tl migrations) d"
    using d1 by (subst migrations_first) (simp add: d_def split_beta Let_def)
  then show ?thesis
    using d c1(2) by (intro exI [of _ d]) (simp add: at_stage_def)
qed

lemma legacy_start:
  "\<exists>d. one_start (True, copy_fault b) (legacy_database us) = run_migrations 0 (tl migrations) d
     \<and> at_stage 3 d \<and> ca_faults d = [] \<and> ca_legacy d = []
     \<and> ca_users d = (if b then [] else copy_legacy (map (\<lambda>(u, p). (Some u, Some p)) us) [])"
proof -
  have "one_start (True, copy_fault b) (legacy_database us) = runMigrations ((legacy_database us)\<lparr>ca_named := True, ca_open := True,
      ca_cascade := True, ca_faults := drop 2 (copy_fault b)\<rparr>)"
    by (simp add: one_start_def initialize_def openDb_def pragma_def database_def sql_ready_def legacy_database_def
        no_database_def copy_fault_def Let_def)
  then show ?thesis
    using legacy_first [OF refl refl] by simp
qed

lemma copy_legacy_distinct:
  "distinct (map fst us) \<Longrightarrow> set (map fst us) \<inter> set (map fst vs) = {} \<Longrightarrow>
     copy_legacy (map (\<lambda>(u, p). (Some u, Some p)) us) vs = vs @ map (\<lambda>(u, p). (u, ''v0:0::'' @ p)) us"
  by (induction us arbitrary: vs) auto

lemma copy_legacy_all:
  assumes "\<And>p. P (''v0:0::'' @ p)" "list_all (\<lambda>(u, h). P h) vs"
  shows "list_all (\<lambda>(u, h). P h) (copy_legacy rs vs)"
  using assms(2)
proof (induction rs vs rule: copy_legacy.induct)
  case (2 u p rs us)
  then show ?case
    using assms(1) [of p] by simp
qed simp_all

section \<open>A start that stops inside the fourth migration\<close>

text \<open>A step at its own stage that executes \<open>n\<close> statements, none of which fails.\<close>

definition executes :: "nat \<Rightarrow> nat \<Rightarrow> nat \<Rightarrow> migration_step \<Rightarrow> bool" where
  "executes n i m x \<longleftrightarrow> (\<forall>c fs. at_stage i c \<longrightarrow> ca_faults c = replicate n False @ fs \<longrightarrow>
     (\<exists>d. x c = (True, d) \<and> at_stage m d \<and> ca_faults d = fs))"

lemma executesD:
  "executes n i m x \<Longrightarrow> at_stage i c \<Longrightarrow> ca_faults c = replicate n False @ fs \<Longrightarrow>
     \<exists>d. x c = (True, d) \<and> at_stage m d \<and> ca_faults d = fs"
  by (simp add: executes_def)

lemma ready_without_fault:
  assumes "at_stage i c" "ca_faults c = replicate 1 False @ fs"
  shows "sql_ready c = (True, c\<lparr>ca_faults := fs\<rparr>)" "at_stage i (c\<lparr>ca_faults := fs\<rparr>)"
  using assms by (auto simp: at_stage_def sql_ready_def shape_of_def)

lemma executes_required:
  assumes "change_of x = Some (schema_changes ! i)" "i < 31"
  shows "executes 1 i (Suc i) (required x)"
  unfolding executes_def
proof (intro allI impI)
  fix c fs assume c: "at_stage i c" "ca_faults c = replicate 1 False @ fs"
  note r = ready_without_fault [OF c]
  obtain d where d: "exec_stmt x (c\<lparr>ca_faults := fs\<rparr>) = Some d" "at_stage (Suc i) d"
    using exec_own [OF r(2) assms] by blast
  then show "\<exists>d. required x c = (True, d) \<and> at_stage (Suc i) d \<and> ca_faults d = fs"
    using exec_keeps [OF d(1)] r(1) by (simp add: required_def run_sql_def)
qed

lemma executes_optional:
  assumes "change_of x = None" "x \<notin> {RenameUsers, DropLegacyUsers}"
  shows "executes 1 i i (optional x)"
  unfolding executes_def
proof (intro allI impI)
  fix c fs assume c: "at_stage i c" "ca_faults c = replicate 1 False @ fs"
  note r = ready_without_fault [OF c]
  show "\<exists>d. optional x c = (True, d) \<and> at_stage i d \<and> ca_faults d = fs"
  proof (cases "exec_stmt x (c\<lparr>ca_faults := fs\<rparr>)")
    case None
    then show ?thesis
      using r by (simp add: optional_def run_sql_def)
  next
    case (Some d)
    then show ?thesis
      using neutral_exec [OF assms r(2) Some] exec_keeps [OF Some] r(1) by (simp add: optional_def run_sql_def)
  qed
qed

lemma executes_absent:
  assumes "t \<notin> fst ` set (fst (stage i))" "\<And>c. \<not> fst (sql_query (\<lambda>c. has_table t (ca_tables c)) c) \<Longrightarrow>
      x c = (True, snd (sql_query (\<lambda>c. has_table t (ca_tables c)) c))"
  shows "executes 1 i i x"
  unfolding executes_def
proof (intro allI impI)
  fix c fs assume c: "at_stage i c" "ca_faults c = replicate 1 False @ fs"
  note r = ready_without_fault [OF c]
  have "sql_query (\<lambda>c. has_table t (ca_tables c)) c = (False, c\<lparr>ca_faults := fs\<rparr>)"
    using r assms(1) shape_has_table [of t "c\<lparr>ca_faults := fs\<rparr>"] by (simp add: sql_query_def at_stage_def)
  then show "\<exists>d. x c = (True, d) \<and> at_stage i d \<and> ca_faults d = fs"
    using assms(2) [of c] r(2) by simp
qed

lemma executes_rename: "executes 1 1 1 rename_legacy"
  using stage_users(1) by (intro executes_absent [of "''users''"]) (simp_all add: rename_legacy_def split_beta Let_def)

lemma executes_carry: "executes 1 2 2 carry_legacy"
proof (rule executes_absent [of "''old_users''"])
  have "grown (stage 2) final_shape"
    using stage_grows [of 2 31] by (simp add: stage_final)
  then show "''old_users'' \<notin> fst ` set (fst (stage 2))"
    by (auto simp: grown_def final_shape_def)
qed (simp add: carry_legacy_def split_beta Let_def)

lemma executes_nil: "i = m \<Longrightarrow> executes 0 i m (sql_steps [])"
  by (simp add: executes_def)

lemma executes_cons:
  assumes "executes 1 i k x" "executes n k m (sql_steps xs)"
  shows "executes (Suc n) i m (sql_steps (x # xs))"
  unfolding executes_def
proof (intro allI impI)
  fix c fs assume c: "at_stage i c" "ca_faults c = replicate (Suc n) False @ fs"
  obtain d where d: "x c = (True, d)" "at_stage k d" "ca_faults d = replicate n False @ fs"
    using executesD [OF assms(1) c(1), of "replicate n False @ fs"] c(2) by auto
  then show "\<exists>d. sql_steps (x # xs) c = (True, d) \<and> at_stage m d \<and> ca_faults d = fs"
    using executesD [OF assms(2) d(2,3)] by simp
qed

lemmas executes_walk = executes_cons [OF executes_required] executes_cons [OF executes_optional]

lemma executes_first_three:
  "executes (Suc (Suc (Suc (Suc 0)))) 1 3 (sql_steps migrateToV1)"
  "executes (Suc (Suc (Suc (Suc 0)))) 3 7 (sql_steps migrateToV2)"
  "executes (Suc (Suc (Suc (Suc (Suc (Suc (Suc (Suc 0)))))))) 7 12 (sql_steps migrateToV3)"
  unfolding migrateToV1_def migrateToV2_def migrateToV3_def
  by (rule executes_nil executes_cons [OF executes_rename] executes_cons [OF executes_carry [folded Suc_1]] executes_walk;
      (simp add: schema_changes_def; fail)?)+

lemma half_done_reached: "half_done (starts [(True, replicate 21 False @ [True])] no_database)"
proof -
  define c where "c = no_database\<lparr>ca_named := True, ca_open := True, ca_cascade := True, ca_faults := replicate 19 False @ [True]\<rparr>"
  have start: "one_start (True, replicate 21 False @ [True]) no_database = runMigrations c"
    by (simp add: one_start_def initialize_def openDb_def no_database_def pragma_def database_def sql_ready_def c_def Let_def
        numeral_eq_Suc)
  have "at_stage 0 c"
    by (simp add: at_stage_def c_def no_database_def shape_of_def stage_def)
  moreover have "executes 1 0 1 (required version_table)"
    using executes_required [of version_table 0] by (simp add: schema_changes_def)
  moreover have "ca_faults c = replicate 1 False @ replicate 18 False @ [True]"
    by (simp add: c_def numeral_eq_Suc)
  ultimately obtain d where d: "run_sql version_table c = (True, d)" "at_stage 1 d" "ca_faults d = replicate 18 False @ [True]"
    using executesD unfolding required_def by metis
  define e where "e = d\<lparr>ca_faults := replicate 17 False @ [True]\<rparr>"
  have "ca_versions d = []"
    using d(2) stage_versions(1) [of 1] shape_versions [of d] by (simp add: at_stage_def ends_def)
  then have e: "current_version d = (0, e)" "at_stage 1 e" "ca_faults e = replicate 17 False @ [True]"
    using d(2,3) by (simp_all add: current_version_def sql_ready_def e_def at_stage_def shape_of_def numeral_eq_Suc)
  obtain f where f: "sql_steps migrateToV1 e = (True, f)" "at_stage 3 f" "ca_faults f = replicate 13 False @ [True]"
    using executesD [OF executes_first_three(1) e(2), of "replicate 13 False @ [True]"] e(3) by (auto simp: numeral_eq_Suc)
  obtain g where g: "sql_steps migrateToV2 f = (True, g)" "at_stage 7 g" "ca_faults g = replicate 9 False @ [True]"
    using executesD [OF executes_first_three(2) f(2), of "replicate 9 False @ [True]"] f(3) by (auto simp: numeral_eq_Suc)
  obtain h where h: "sql_steps migrateToV3 g = (True, h)" "at_stage 12 h" "ca_faults h = replicate 1 False @ [True]"
    using executesD [OF executes_first_three(3) g(2), of "[False, True]"] g(3) by (auto simp: numeral_eq_Suc)
  have "executes 1 12 13 (required (AddColumn ''messages'' ''client_message_id'' ''TEXT''))"
    using executes_required [of "AddColumn ''messages'' ''client_message_id'' ''TEXT''" 12] by (simp add: schema_changes_def)
  then obtain k where k: "run_sql (AddColumn ''messages'' ''client_message_id'' ''TEXT'') h = (True, k)" "at_stage 13 k" "ca_faults k = [True]"
    using executesD [OF _ h(2,3)] unfolding required_def by blast
  have fail: "fst (sql_steps migrateToV4 h) = False" "at_stage 13 (snd (sql_steps migrateToV4 h))"
    using k by (simp_all add: migrateToV4_def required_def run_sql_def [of _ k] sql_ready_def Let_def at_stage_def shape_of_def)
  define ms where "ms = drop 4 migrations"
  have ms: "migrations = (1, migrateToV1) # (2, migrateToV2) # (3, migrateToV3) # (4, migrateToV4) # ms"
    by (simp add: migrations_def ms_def)
  have "sql_steps migrateToV4 h = (False, snd (sql_steps migrateToV4 h))"
    using fail(1) by (metis prod.collapse)
  then have "run_migrations 0 migrations e = (False, snd (sql_steps migrateToV4 h))"
    unfolding ms using f(1) g(1) h(1) by (auto split: prod.splits)
  then have "runMigrations c = (False, snd (sql_steps migrateToV4 h))"
    using d(1) e(1) by (simp add: runMigrations_def)
  then have "stored 13 (starts [(True, replicate 21 False @ [True])] no_database)"
    using start close_stored [OF fail(2)] by simp
  then show ?thesis
    using stuck_half_done [of 13] by (simp add: stored_def stuck_def)
qed

section \<open>Properties\<close>

text \<open>
  C34: the server never serves an incomplete schema. Whatever statements failed in the starts before
  and in this one, a start that answers true leaves all fourteen tables with the columns that the
  operations use and the nine versions recorded.
\<close>

theorem start_is_complete:
  assumes "fst (one_start s (starts ss no_database))"
  shows "shape_of (snd (one_start s (starts ss no_database))) = final_shape"
proof -
  obtain j where j: "stored j (starts ss no_database)"
    using starts_stored [OF stored_empty] by blast
  have "fst s"
  proof (rule ccontr)
    assume "\<not> fst s"
    then have "one_start s (starts ss no_database) = (False, (starts ss no_database)\<lparr>ca_faults := snd s, ca_named := True\<rparr>)"
      using start_stored(1) [OF j, of "snd s"] by (metis prod.collapse)
    then show False
      using assms by simp
  qed
  then obtain fs where s: "s = (True, fs)"
    by (cases s) simp
  obtain d where d: "one_start s (starts ss no_database) = runMigrations d" "at_stage j d"
    using start_stored(2) [OF j, of fs] unfolding s by blast
  then show ?thesis
    using run_start(1) [OF d(2)] assms by (auto simp: at_stage_def stage_final)
qed

theorem start_is_complete_witness:
  "shape_of (snd (one_start (True, []) (starts [] no_database))) = final_shape"
proof (rule start_is_complete)
  obtain d where "one_start (True, []) no_database = runMigrations d" "at_stage 0 d" "ca_faults d = []"
    using start_stored(2) [OF stored_empty, of "[]"] by auto
  then show "fst (one_start (True, []) (starts [] no_database))"
    using run_start(2) [of 0 d] by (simp add: stuck_def)
qed

text \<open>
  C35: a start that was interrupted is completed by the next one. After any starts with any failing
  statements, a start whose statements all succeed answers true with the complete schema, or the
  fourth migration was interrupted behind its first statement.
\<close>

theorem migrations_resume:
  "half_done (starts ss no_database)
     \<or> (fst (one_start (True, []) (starts ss no_database))
        \<and> shape_of (snd (one_start (True, []) (starts ss no_database))) = final_shape)"
proof -
  obtain j where j: "stored j (starts ss no_database)"
    using starts_stored [OF stored_empty] by blast
  then have h: "half_done (starts ss no_database) \<longleftrightarrow> stuck j"
    using stuck_half_done by (auto simp: stored_def)
  obtain d where d: "one_start (True, []) (starts ss no_database) = runMigrations d" "at_stage j d" "ca_faults d = []"
    using start_stored(2) [OF j, of "[]"] by auto
  show ?thesis
    using run_start(1,2) [OF d(2)] d h by (auto simp: at_stage_def stage_final)
qed

text \<open>
  C36: the fourth migration cannot be repeated. Once a start was interrupted between the first statement
  of \<open>migrateToV4\<close> and its last, no later start ever succeeds: the column that it adds without looking
  is already there.
\<close>

theorem v4_never_completes:
  assumes "half_done (starts ss no_database)"
  shows "\<not> fst (one_start s (starts ts (starts ss no_database)))"
proof -
  have stays: "\<not> fst (one_start s c) \<and> stored j (closeDb (snd (one_start s c)))"
    if c: "stored j c" and st: "stuck j" for j c and s :: "bool \<times> bool list"
  proof (cases "fst s")
    case True
    then obtain d where d: "one_start s c = runMigrations d" "at_stage j d"
      using start_stored(2) [OF c, of "snd s"] by (metis prod.collapse)
    show ?thesis
      using stuck_start [OF d(2) st] close_stored [of j] unfolding d(1) by blast
  next
    case False
    then have "one_start s c = (False, c\<lparr>ca_faults := snd s, ca_named := True\<rparr>)"
      using start_stored(1) [OF c, of "snd s"] by (metis prod.collapse)
    then show ?thesis
      using c by (simp add: stored_def closeDb_def shape_of_def)
  qed
  have all: "stored j c \<Longrightarrow> stuck j \<Longrightarrow> stored j (starts ts c)" for j c
    using stays by (induction ts arbitrary: c) auto
  obtain j where j: "stored j (starts ss no_database)"
    using starts_stored [OF stored_empty] by blast
  then have "stuck j"
    using assms stuck_half_done unfolding stored_def by blast
  then show ?thesis
    using stays all j by blast
qed

theorem v4_never_completes_witness:
  "\<not> fst (one_start (True, []) (starts [(True, [])] (starts [(True, replicate 21 False @ [True])] no_database)))"
  by (rule v4_never_completes [OF half_done_reached])

text \<open>
  C37: the accounts of the first program. They are carried over with their old hash marked v0, and none
  of them can log in again: no password verifies against such a hash. When the copying statement
  fails, its result is not looked at and the old table is dropped: the start answers true and no
  account is left.
\<close>

theorem legacy_accounts:
  "fst (one_start (True, copy_fault b) (legacy_database us))
   \<and> ca_users (snd (one_start (True, copy_fault b) (legacy_database us))) =
       (if b then [] else copy_legacy (map (\<lambda>(u, p). (Some u, Some p)) us) [])
   \<and> ca_legacy (snd (one_start (True, copy_fault b) (legacy_database us))) = []
   \<and> list_all (\<lambda>(u, h). \<not> verifyPassword X pw h) (ca_users (snd (one_start (True, copy_fault b) (legacy_database us))))"
proof -
  obtain d where d: "one_start (True, copy_fault b) (legacy_database us) = run_migrations 0 (tl migrations) d" "at_stage 3 d"
      "ca_faults d = []" "ca_legacy d = []"
      "ca_users d = (if b then [] else copy_legacy (map (\<lambda>(u, p). (Some u, Some p)) us) [])"
    using legacy_start [of b us] by auto
  have "\<not> verifyPassword X pw (''v0:0::'' @ p)" for p
    by (simp add: verifyPassword_def Let_def split: list.split)
  then have "list_all (\<lambda>(u, h). \<not> verifyPassword X pw h) (copy_legacy (map (\<lambda>(u, p). (Some u, Some p)) us) [])"
    by (intro copy_legacy_all) simp_all
  then have "list_all (\<lambda>(u, h). \<not> verifyPassword X pw h) (ca_users d)"
    by (simp add: d(5))
  then show ?thesis
    using later_migrations [OF d(2,3)] d by simp
qed

end
