(* ===== verification/Tls_Setup.thy ===== *)
theory Tls_Setup
  imports Key_Storage Client_System Server_Routing
begin

text \<open>
  CommonModule/security/TlsHelper.cpp, the certificates the server makes for itself and the
  configurations both sides load, with the callers Server::initTls, NetworkManager::initTls and the
  server's main; CommonModule/security/SecureMemory.cpp; and the two small programs around the user
  interface, Chat-Client/main.cpp and core/ThemeSettings.h. OpenSSL is the record \<open>pki\<close>; the files are
  those of \<open>Key_Storage\<close>.
\<close>

section \<open>Certificates\<close>

type_synonym x509_name = "(string \<times> string) list"

record cert_body =
  cb_version :: int
  cb_serial :: int
  cb_notBefore :: int
  cb_notAfter :: int
  cb_pubkey :: bytes
  cb_subject :: x509_name
  cb_issuer :: x509_name
  cb_extensions :: "(string \<times> string) list"

record cert =
  ct_body :: cert_body
  ct_signature :: bytes

text \<open>EVP_RSA_gen (the first key and the second of a run), the public half of a key, X509_new,
  X509V3_EXT_conf_nid, X509_sign, and the PEM writers and readers; \<open>None\<close> is their null result.\<close>

record pki =
  pk_gen :: "nat \<Rightarrow> bytes option"
  pk_pub :: "bytes \<Rightarrow> bytes"
  pk_x509 :: bool
  pk_ext :: "string \<times> string \<Rightarrow> bool"
  pk_sign :: "bytes \<Rightarrow> cert_body \<Rightarrow> bytes option"
  pk_key_pem :: "bytes \<Rightarrow> bytes option"
  pk_cert_pem :: "cert \<Rightarrow> bytes option"
  pk_read_key :: "bytes \<Rightarrow> bytes option"
  pk_read_cert :: "bytes \<Rightarrow> cert option"

section \<open>Files\<close>

definition read_file :: "string \<Rightarrow> files \<Rightarrow> bytes option" where
  "read_file path f = (if fs_locked f path then None else fs_content f path)"

text \<open>\<open>part\<close>: how much of the data a write that fails leaves.\<close>

definition write_pem :: "nat \<Rightarrow> string \<Rightarrow> bytes \<Rightarrow> files \<Rightarrow> bool \<times> files" where
  "write_pem part path data f =
     (let (opened, f1) = fs_open_truncate path f in if \<not> opened then (False, f1) else fs_write part path data f1)"

definition writeKeyToFile :: "pki \<Rightarrow> nat \<Rightarrow> bytes \<Rightarrow> string \<Rightarrow> files \<Rightarrow> bool \<times> files" where
  "writeKeyToFile K part pkey path f =
     (case pk_key_pem K pkey of None \<Rightarrow> (False, f) | Some data \<Rightarrow> write_pem part path data f)"

definition writeCertToFile :: "pki \<Rightarrow> nat \<Rightarrow> cert \<Rightarrow> string \<Rightarrow> files \<Rightarrow> bool \<times> files" where
  "writeCertToFile K part cert path f =
     (case pk_cert_pem K cert of None \<Rightarrow> (False, f) | Some data \<Rightarrow> write_pem part path data f)"

definition readKeyFromFile :: "pki \<Rightarrow> string \<Rightarrow> files \<Rightarrow> bytes option" where
  "readKeyFromFile K path f = (case read_file path f of None \<Rightarrow> None | Some data \<Rightarrow> pk_read_key K data)"

definition readCertFromFile :: "pki \<Rightarrow> string \<Rightarrow> files \<Rightarrow> cert option" where
  "readCertFromFile K path f = (case read_file path f of None \<Rightarrow> None | Some data \<Rightarrow> pk_read_cert K data)"

section \<open>Generation\<close>

definition ten_years :: int where "ten_years = 3650 * 24 * 3600"

definition dev_name :: "string \<Rightarrow> string \<Rightarrow> x509_name" where
  "dev_name ou cn = [(''C'', ''CN''), (''O'', ''XYChat''), (''OU'', ou), (''CN'', cn)]"

definition ca_body :: "pki \<Rightarrow> int \<Rightarrow> bytes \<Rightarrow> cert_body" where
  "ca_body K now pkey =
     (let name = dev_name ''DevCA'' ''XYChat Dev Root CA''
      in \<lparr>cb_version = 2, cb_serial = 1, cb_notBefore = now, cb_notAfter = now + ten_years, cb_pubkey = pk_pub K pkey,
         cb_subject = name, cb_issuer = name,
         cb_extensions = filter (pk_ext K)
           [(''basicConstraints'', ''critical,CA:TRUE''), (''keyUsage'', ''critical,keyCertSign,cRLSign'')]\<rparr>)"

definition generateCaCert :: "pki \<Rightarrow> nat \<Rightarrow> int \<Rightarrow> string \<Rightarrow> files \<Rightarrow> bool \<times> files" where
  "generateCaCert K part now certDir f =
     (let caKeyPath = certDir @ ''/ca.key''; caCertPath = certDir @ ''/ca.crt''
      in case pk_gen K 0 of
           None \<Rightarrow> (False, f)
         | Some pkey \<Rightarrow>
             if \<not> pk_x509 K then (False, f)
             else case pk_sign K pkey (ca_body K now pkey) of
               None \<Rightarrow> (False, f)
             | Some sig \<Rightarrow>
                 let (keyOk, f1) = writeKeyToFile K part pkey caKeyPath f;
                     (certOk, f2) = writeCertToFile K part \<lparr>ct_body = ca_body K now pkey, ct_signature = sig\<rparr> caCertPath f1
                 in (keyOk \<and> certOk, f2))"

definition server_body :: "pki \<Rightarrow> int \<Rightarrow> cert \<Rightarrow> bytes \<Rightarrow> cert_body" where
  "server_body K now caCert serverKey =
     \<lparr>cb_version = 2, cb_serial = 2, cb_notBefore = now, cb_notAfter = now + ten_years, cb_pubkey = pk_pub K serverKey,
      cb_subject = dev_name ''Server'' ''localhost'', cb_issuer = cb_subject (ct_body caCert),
      cb_extensions = filter (pk_ext K)
        [(''basicConstraints'', ''CA:FALSE''), (''keyUsage'', ''digitalSignature,keyEncipherment''),
         (''extendedKeyUsage'', ''serverAuth''), (''subjectAltName'', ''DNS:localhost,IP:127.0.0.1'')]\<rparr>"

definition generateServerCert :: "pki \<Rightarrow> nat \<Rightarrow> int \<Rightarrow> string \<Rightarrow> files \<Rightarrow> bool \<times> files" where
  "generateServerCert K part now certDir f =
     (case readKeyFromFile K (certDir @ ''/ca.key'') f of
        None \<Rightarrow> (False, f)
      | Some caKey \<Rightarrow>
          (case readCertFromFile K (certDir @ ''/ca.crt'') f of
             None \<Rightarrow> (False, f)
           | Some caCert \<Rightarrow>
               (case pk_gen K 1 of
                  None \<Rightarrow> (False, f)
                | Some serverKey \<Rightarrow>
                    (case pk_sign K caKey (server_body K now caCert serverKey) of
                       None \<Rightarrow> (False, f)
                     | Some sig \<Rightarrow>
                         let (keyOk, f1) = writeKeyToFile K part serverKey (certDir @ ''/server.key'') f;
                             (certOk, f2) = writeCertToFile K part
                                \<lparr>ct_body = server_body K now caCert serverKey, ct_signature = sig\<rparr> (certDir @ ''/server.crt'') f1
                         in (keyOk \<and> certOk, f2)))))"

definition generateDevCertificates :: "pki \<Rightarrow> nat \<Rightarrow> int \<Rightarrow> string \<Rightarrow> files \<Rightarrow> bool \<times> files" where
  "generateDevCertificates K part now certDir f =
     (let (ok, f1) = generateCaCert K part now certDir f
      in if \<not> ok then (False, f1) else generateServerCert K part now certDir f1)"

section \<open>Configurations\<close>

record tls_config =
  tc_certificate :: "cert option"
  tc_privateKey :: "bytes option"
  tc_caCertificate :: "cert option"
  tc_valid :: bool

definition no_config :: tls_config where
  "no_config = \<lparr>tc_certificate = None, tc_privateKey = None, tc_caCertificate = None, tc_valid = False\<rparr>"

text \<open>QFileInfo::absolutePath of an absolute path.\<close>

definition dir_of :: "string \<Rightarrow> string" where
  "dir_of path = rev (tl (dropWhile (\<lambda>c. c \<noteq> CHR ''/'') (rev path)))"

definition loadServerConfig :: "pki \<Rightarrow> nat \<Rightarrow> int \<Rightarrow> string \<Rightarrow> string \<Rightarrow> string \<Rightarrow> bool \<Rightarrow> files \<Rightarrow> tls_config \<times> files" where
  "loadServerConfig K part now certPath keyPath caCertPath allowGenerate f =
     (let missing = (\<not> fs_exists certPath f \<or> \<not> fs_exists keyPath f)
      in if missing \<and> \<not> allowGenerate then (no_config, f)
         else
           let (ok, f1) = (if missing then generateDevCertificates K part now (dir_of certPath) f else (True, f))
           in if \<not> ok then (no_config, f1)
              else
                let certificate = readCertFromFile K certPath f1;
                    privateKey = readKeyFromFile K keyPath f1;
                    caCertificate = readCertFromFile K caCertPath f1
                in (\<lparr>tc_certificate = certificate, tc_privateKey = privateKey, tc_caCertificate = caCertificate,
                     tc_valid = (certificate \<noteq> None \<and> privateKey \<noteq> None)\<rparr>, f1))"

definition loadClientConfig :: "pki \<Rightarrow> string \<Rightarrow> files \<Rightarrow> tls_config" where
  "loadClientConfig K caCertPath f =
     (case readCertFromFile K caCertPath f of
        None \<Rightarrow> no_config | Some ca \<Rightarrow> no_config\<lparr>tc_caCertificate := Some ca, tc_valid := True\<rparr>)"

text \<open>The directory next to the program if it exists, else that of the user's data, which is created.\<close>

definition defaultCertDir :: "(string \<Rightarrow> bool) \<Rightarrow> string \<Rightarrow> string \<Rightarrow> string" where
  "defaultCertDir dir_exists exeDir dataDir =
     (if dir_exists (exeDir @ ''/certs'') then exeDir @ ''/certs'' else dataDir @ ''/certs'')"

section \<open>The callers\<close>

definition server_initTls :: "pki \<Rightarrow> nat \<Rightarrow> int \<Rightarrow> string \<Rightarrow> files \<Rightarrow> server \<Rightarrow> (bool \<times> server) \<times> tls_config \<times> files" where
  "server_initTls K part now certDir f sv =
     (let (tlsConfig, f1) = loadServerConfig K part now (certDir @ ''/server.crt'') (certDir @ ''/server.key'') (certDir @ ''/ca.crt'') True f
      in (initTls (tc_valid tlsConfig) sv, tlsConfig, f1))"

text \<open>The client searches three directories for the CA certificate; the result is the certificate it
  verifies the server against, if TLS is enabled.\<close>

definition client_initTls :: "pki \<Rightarrow> (string \<Rightarrow> bool) \<Rightarrow> string \<Rightarrow> string \<Rightarrow> files \<Rightarrow> cert option" where
  "client_initTls K dir_exists exeDir dataDir f =
     (case find (\<lambda>p. fs_exists p f) (map (\<lambda>dir. dir @ ''/ca.crt'')
             [exeDir @ ''/certs'', exeDir @ ''/../certs'', defaultCertDir dir_exists exeDir dataDir]) of
        None \<Rightarrow> None
      | Some caCertPath \<Rightarrow>
          let config = loadClientConfig K caCertPath f
          in if \<not> tc_valid config then None else tc_caCertificate config)"

text \<open>The server's main: a start that fails ends the process with the code -1.\<close>

definition server_main ::
    "pki \<Rightarrow> nat \<Rightarrow> (string \<Rightarrow> bool) \<Rightarrow> string \<Rightarrow> string \<Rightarrow> bool \<Rightarrow> bool \<Rightarrow> bool \<Rightarrow> time \<Rightarrow> db \<Rightarrow> files \<Rightarrow> bool \<times> server \<times> db" where
  "server_main K part dir_exists exeDir dataDir plaintextOption maintenance listens now d f =
     (let certDir = defaultCertDir dir_exists exeDir dataDir;
          ((ok, sv), config, f1) = server_initTls K part now certDir f new_server
      in start plaintextOption maintenance listens now (sv, d))"

section \<open>A fresh setup\<close>

lemma write_pem_ok:
  assumes "fs_faults f = []"
  shows "write_pem part p d f = (True, fs_put p d f)"
  using assms by (simp add: write_pem_def fs_open_truncate_def fs_write_def fs_fault_def fs_put_def)

lemma fs_put_simps [simp]:
  "fs_faults (fs_put p d f) = fs_faults f" "fs_locked (fs_put p d f) = fs_locked f"
  "fs_content (fs_put p d f) = (fs_content f)(p \<mapsto> d)"
  by (simp_all add: fs_put_def)

lemma dir_of_child: "CHR ''/'' \<notin> set n \<Longrightarrow> dir_of (d @ ''/'' @ n) = d"
  by (simp add: dir_of_def dropWhile_append)

definition key_roundtrip :: "pki \<Rightarrow> bytes \<Rightarrow> bool" where
  "key_roundtrip K k = (case pk_key_pem K k of None \<Rightarrow> False | Some d \<Rightarrow> pk_read_key K d = Some k)"

definition cert_roundtrip :: "pki \<Rightarrow> cert \<Rightarrow> bool" where
  "cert_roundtrip K c = (case pk_cert_pem K c of None \<Rightarrow> False | Some d \<Rightarrow> pk_read_cert K d = Some c)"

text \<open>What the setup relies on: OpenSSL generates two keys, signs, and reads back the PEM that it wrote.\<close>

definition openssl_works :: "pki \<Rightarrow> int \<Rightarrow> bytes \<Rightarrow> cert \<Rightarrow> bytes \<Rightarrow> cert \<Rightarrow> bool" where
  "openssl_works K now caKey ca serverKey cert \<longleftrightarrow>
     pk_gen K 0 = Some caKey \<and> pk_gen K 1 = Some serverKey \<and> pk_x509 K
     \<and> ct_body ca = ca_body K now caKey \<and> pk_sign K caKey (ca_body K now caKey) = Some (ct_signature ca)
     \<and> ct_body cert = server_body K now ca serverKey \<and> pk_sign K caKey (server_body K now ca serverKey) = Some (ct_signature cert)
     \<and> key_roundtrip K caKey \<and> key_roundtrip K serverKey \<and> cert_roundtrip K ca \<and> cert_roundtrip K cert"

lemma cert_eta: "\<lparr>ct_body = ct_body c, ct_signature = ct_signature c\<rparr> = c"
  by simp

lemma body_fields:
  "cb_pubkey (ca_body K now k) = pk_pub K k" "cb_pubkey (server_body K now ca k) = pk_pub K k"
  "cb_issuer (server_body K now ca k) = cb_subject (ct_body ca)"
  by (simp_all add: ca_body_def server_body_def Let_def)

lemma dev_certificates:
  assumes "openssl_works K now caKey ca serverKey cert" "fs_faults f = []"
    "list_all (\<lambda>n. \<not> fs_locked f (dir @ n)) [''/ca.key'', ''/ca.crt'', ''/server.key'', ''/server.crt'']"
  shows "\<exists>f1. generateDevCertificates K part now dir f = (True, f1) \<and> fs_faults f1 = []
     \<and> fs_exists (dir @ ''/server.crt'') f1 \<and> fs_exists (dir @ ''/server.key'') f1
     \<and> readCertFromFile K (dir @ ''/server.crt'') f1 = Some cert \<and> readKeyFromFile K (dir @ ''/server.key'') f1 = Some serverKey
     \<and> readCertFromFile K (dir @ ''/ca.crt'') f1 = Some ca"
proof -
  obtain ck cc sk sc where pem: "pk_key_pem K caKey = Some ck" "pk_read_key K ck = Some caKey"
      "pk_cert_pem K ca = Some cc" "pk_read_cert K cc = Some ca" "pk_key_pem K serverKey = Some sk" "pk_read_key K sk = Some serverKey"
      "pk_cert_pem K cert = Some sc" "pk_read_cert K sc = Some cert"
    using assms(1) by (auto simp: openssl_works_def key_roundtrip_def cert_roundtrip_def split: option.splits)
  have ca: "pk_cert_pem K \<lparr>ct_body = ca_body K now caKey, ct_signature = ct_signature ca\<rparr> = Some cc"
    and ct: "pk_cert_pem K \<lparr>ct_body = server_body K now ca serverKey, ct_signature = ct_signature cert\<rparr> = Some sc"
    using assms(1) pem(3,7) cert_eta [of ca] cert_eta [of cert] by (metis openssl_works_def)+
  define f1 where "f1 = fs_put (dir @ ''/ca.crt'') cc (fs_put (dir @ ''/ca.key'') ck f)"
  define f2 where "f2 = fs_put (dir @ ''/server.crt'') sc (fs_put (dir @ ''/server.key'') sk f1)"
  have one: "generateCaCert K part now dir f = (True, f1)"
    using assms(1,2) pem(1) ca
    by (simp add: generateCaCert_def openssl_works_def writeKeyToFile_def writeCertToFile_def write_pem_ok f1_def Let_def)
  have clean: "fs_faults f1 = []"
    using assms(2) by (simp add: f1_def)
  have read: "readKeyFromFile K (dir @ ''/ca.key'') f1 = Some caKey" "readCertFromFile K (dir @ ''/ca.crt'') f1 = Some ca"
    using assms(3) pem(2,4) by (simp_all add: readKeyFromFile_def readCertFromFile_def read_file_def f1_def)
  have "generateServerCert K part now dir f1 = (True, f2)"
    using assms(1) clean pem(5) ct
    by (simp add: generateServerCert_def read openssl_works_def writeKeyToFile_def writeCertToFile_def write_pem_ok f2_def Let_def)
  then have "generateDevCertificates K part now dir f = (True, f2)"
    by (simp add: generateDevCertificates_def one)
  moreover have "fs_faults f2 = []" "fs_exists (dir @ ''/server.crt'') f2" "fs_exists (dir @ ''/server.key'') f2"
    using assms(2) by (simp_all add: f2_def f1_def fs_exists_def)
  moreover have "readCertFromFile K (dir @ ''/server.crt'') f2 = Some cert" "readKeyFromFile K (dir @ ''/server.key'') f2 = Some serverKey"
      "readCertFromFile K (dir @ ''/ca.crt'') f2 = Some ca"
    using assms(3) pem(4,6,8) by (simp_all add: readKeyFromFile_def readCertFromFile_def read_file_def f2_def f1_def)
  ultimately show ?thesis
    by blast
qed

text \<open>
  C38: the first start of the server sets up TLS that the client trusts. In a directory without
  certificates the server makes a CA and a certificate for itself; the client that loads the CA file
  gets the certificate whose key signed the server's, and whose name is its issuer; the server's next
  start loads the same certificate and key and writes no file.
\<close>

theorem tls_setup_trusted:
  assumes "openssl_works K now caKey ca serverKey cert" "fs_faults f = []" "\<not> fs_exists (dir @ ''/server.crt'') f"
    "list_all (\<lambda>n. \<not> fs_locked f (dir @ n)) [''/ca.key'', ''/ca.crt'', ''/server.key'', ''/server.crt'']"
  shows "\<exists>f1. server_initTls K part now dir f sv =
        ((True, sv\<lparr>sv_tlsEnabled := True\<rparr>),
         \<lparr>tc_certificate = Some cert, tc_privateKey = Some serverKey, tc_caCertificate = Some ca, tc_valid = True\<rparr>, f1)
     \<and> tc_caCertificate (loadClientConfig K (dir @ ''/ca.crt'') f1) = Some ca
     \<and> cb_pubkey (ct_body ca) = pk_pub K caKey \<and> pk_sign K caKey (ct_body cert) = Some (ct_signature cert)
     \<and> cb_issuer (ct_body cert) = cb_subject (ct_body ca) \<and> cb_pubkey (ct_body cert) = pk_pub K serverKey
     \<and> server_initTls K part' now' dir f1 sv =
         ((True, sv\<lparr>sv_tlsEnabled := True\<rparr>),
          \<lparr>tc_certificate = Some cert, tc_privateKey = Some serverKey, tc_caCertificate = Some ca, tc_valid = True\<rparr>, f1)"
proof -
  obtain f1 where f1: "generateDevCertificates K part now dir f = (True, f1)"
      "fs_exists (dir @ ''/server.crt'') f1" "fs_exists (dir @ ''/server.key'') f1"
      "readCertFromFile K (dir @ ''/server.crt'') f1 = Some cert" "readKeyFromFile K (dir @ ''/server.key'') f1 = Some serverKey"
      "readCertFromFile K (dir @ ''/ca.crt'') f1 = Some ca"
    using dev_certificates [OF assms(1,2,4)] by blast
  have dir: "dir_of (dir @ ''/server.crt'') = dir"
    using dir_of_child [of "''server.crt''" dir] by simp
  have config: "loadServerConfig K part now (dir @ ''/server.crt'') (dir @ ''/server.key'') (dir @ ''/ca.crt'') True f =
      (\<lparr>tc_certificate = Some cert, tc_privateKey = Some serverKey, tc_caCertificate = Some ca, tc_valid = True\<rparr>, f1)"
    using assms(3) f1 dir by (simp add: loadServerConfig_def)
  have again: "loadServerConfig K part' now' (dir @ ''/server.crt'') (dir @ ''/server.key'') (dir @ ''/ca.crt'') True f1 =
      (\<lparr>tc_certificate = Some cert, tc_privateKey = Some serverKey, tc_caCertificate = Some ca, tc_valid = True\<rparr>, f1)"
    using f1 by (simp add: loadServerConfig_def)
  show ?thesis
    using assms(1) f1(6) body_fields
    by (intro exI [of _ f1]) (simp add: server_initTls_def config again initTls_def loadClientConfig_def openssl_works_def)
qed

text \<open>A library whose PEM of a certificate is its serial number.\<close>

definition sample_ca :: cert where
  "sample_ca = \<lparr>ct_body = \<lparr>cb_version = 2, cb_serial = 1, cb_notBefore = 0, cb_notAfter = ten_years, cb_pubkey = [7],
     cb_subject = dev_name ''DevCA'' ''XYChat Dev Root CA'', cb_issuer = dev_name ''DevCA'' ''XYChat Dev Root CA'',
     cb_extensions = [(''basicConstraints'', ''critical,CA:TRUE''), (''keyUsage'', ''critical,keyCertSign,cRLSign'')]\<rparr>,
     ct_signature = [7, 1]\<rparr>"

definition sample_cert :: cert where
  "sample_cert = \<lparr>ct_body = \<lparr>cb_version = 2, cb_serial = 2, cb_notBefore = 0, cb_notAfter = ten_years, cb_pubkey = [8],
     cb_subject = dev_name ''Server'' ''localhost'', cb_issuer = dev_name ''DevCA'' ''XYChat Dev Root CA'',
     cb_extensions = [(''basicConstraints'', ''CA:FALSE''), (''keyUsage'', ''digitalSignature,keyEncipherment''),
         (''extendedKeyUsage'', ''serverAuth''), (''subjectAltName'', ''DNS:localhost,IP:127.0.0.1'')]\<rparr>,
     ct_signature = [7, 2]\<rparr>"

definition sample_pki :: pki where
  "sample_pki = \<lparr>pk_gen = (\<lambda>k. Some [if k = 0 then 7 else 8]), pk_pub = id, pk_x509 = True, pk_ext = (\<lambda>e. True),
     pk_sign = (\<lambda>k b. Some (k @ [of_int (cb_serial b)])), pk_key_pem = Some,
     pk_cert_pem = (\<lambda>c. Some [of_int (cb_serial (ct_body c))]), pk_read_key = Some,
     pk_read_cert = (\<lambda>d. if d = [1] then Some sample_ca else if d = [2] then Some sample_cert else None)\<rparr>"

definition no_files :: files where
  "no_files = \<lparr>fs_content = Map.empty, fs_locked = (\<lambda>p. False), fs_faults = []\<rparr>"

lemma sample_pki_works: "openssl_works sample_pki 0 [7] sample_ca [8] sample_cert"
  by (simp add: openssl_works_def sample_pki_def sample_ca_def sample_cert_def ca_body_def server_body_def key_roundtrip_def
      cert_roundtrip_def Let_def)

theorem tls_setup_trusted_witness:
  "\<exists>f1. server_initTls sample_pki 0 0 ''/srv/certs'' no_files new_server =
        ((True, new_server\<lparr>sv_tlsEnabled := True\<rparr>),
         \<lparr>tc_certificate = Some sample_cert, tc_privateKey = Some [8], tc_caCertificate = Some sample_ca, tc_valid = True\<rparr>, f1)
     \<and> tc_caCertificate (loadClientConfig sample_pki (''/srv/certs'' @ ''/ca.crt'') f1) = Some sample_ca"
  using tls_setup_trusted [OF sample_pki_works, of no_files "''/srv/certs''" 0 new_server 0 0]
  by (auto simp: no_files_def fs_exists_def)

lemma plaintext_needs_the_option:
  assumes "tc_valid (fst (snd (server_initTls K part now (defaultCertDir dir_exists exeDir dataDir) f new_server))) = False"
  shows "server_main K part dir_exists exeDir dataDir False maintenance listens now d f = (False, new_server, d)"
  using assms by (auto simp: server_main_def server_initTls_def initTls_def start_def new_server_def split: prod.splits)

section \<open>Secure memory\<close>

text \<open>Wiping a value: the value afterwards, and what its buffer then holds. A buffer shared with a copy is
  detached first, so that the other copy keeps it.\<close>

definition wipe_memory :: "bytes \<Rightarrow> nat \<Rightarrow> bytes" where
  "wipe_memory buffer n = replicate (min n (length buffer)) 0 @ drop n buffer"

definition wipe :: "bool \<Rightarrow> bytes \<Rightarrow> bytes \<times> bytes" where
  "wipe shared data =
     (if data = [] then (data, data) else ([], if shared then data else wipe_memory data (length data)))"

lemma wipe_clears: "fst (wipe shared data) = [] \<and> (\<not> shared \<longrightarrow> snd (wipe shared data) = replicate (length data) 0)"
  by (simp add: wipe_def wipe_memory_def)

section \<open>The programs around the user interface\<close>

record theme_settings =
  th_darkMode :: bool
  th_stored :: "bool option"
  th_changes :: nat

definition ThemeSettings :: "bool option \<Rightarrow> theme_settings" where
  "ThemeSettings stored =
     \<lparr>th_darkMode = (case stored of None \<Rightarrow> False | Some b \<Rightarrow> b), th_stored = stored, th_changes = 0\<rparr>"

definition setDarkMode :: "bool \<Rightarrow> theme_settings \<Rightarrow> theme_settings" where
  "setDarkMode dark t =
     (if th_darkMode t = dark then t
      else t\<lparr>th_darkMode := dark, th_stored := Some dark, th_changes := th_changes t + 1\<rparr>)"

lemma theme_survives_restart: "th_darkMode (ThemeSettings (th_stored (setDarkMode dark (ThemeSettings s)))) = dark"
  by (simp add: ThemeSettings_def setDarkMode_def split: option.split)

text \<open>The client's main: the names of the root objects after each of the two loads; \<open>None\<close> is the
  event loop.\<close>

definition client_main :: "string list \<Rightarrow> string list \<Rightarrow> int option" where
  "client_main loginRoots allRoots =
     (if loginRoots = [] then Some (- 1)
      else if ''mainWindow'' \<in> set allRoots \<and> ''loginRoot'' \<in> set allRoots then None
      else Some (- 1))"

end
