(* ===== verification/Pairwise_Properties.thy ===== *)
theory Pairwise_Properties
  imports Client_System
begin

text \<open>
  Two clients and a message between them: what the sender encrypts for the devices of a user
  (\<open>encryptForUser\<close>) is what one of these devices reads (\<open>decryptIncomingContent\<close>), once. The library
  functions are those of \<open>ext\<close>; what is relied on is stated below, each the documented behaviour of the
  function.
\<close>

section \<open>What is relied on\<close>

text \<open>X25519 agrees: either side computes the same secret.\<close>

definition dh_agrees :: "ext \<Rightarrow> bool" where
  "dh_agrees X \<longleftrightarrow> (\<forall>a b A B. x_x25519Public X a = Some A \<longrightarrow> x_x25519Public X b = Some B \<longrightarrow> x_x25519 X a B = x_x25519 X b A)"

text \<open>Generated pairs belong together, and an iv has twelve bytes.\<close>

definition draws_ok :: "cenv \<Rightarrow> bool" where
  "draws_ok E \<longleftrightarrow> (\<forall>n pub priv. ce_x25519 E n = Some (pub, priv) \<longrightarrow> x_x25519Public (ce_ext E) priv = Some pub)
     \<and> (\<forall>n r. ce_random E n 0 = Some r \<longrightarrow> length r = 12)"

text \<open>The message key of a pair of secrets, and two prekeys of which the second opens nothing that was sealed
  for the first: their message keys differ, and AES-GCM refuses another key than the one it sealed with.\<close>

definition message_key :: "ext \<Rightarrow> bytes \<Rightarrow> bytes \<Rightarrow> bytes \<Rightarrow> bytes" where
  "message_key X prekeyPriv identityPriv eph = e2ee_deriveMessageKey X (ecdh X prekeyPriv eph @ ecdh X identityPriv eph)"

definition separates :: "ext \<Rightarrow> bytes \<Rightarrow> prekey_entry \<Rightarrow> prekey_entry \<Rightarrow> bool" where
  "separates X identityPriv p q \<longleftrightarrow>
     (\<forall>eph iv plain ct. message_key X (pk_privateKey p) identityPriv eph \<noteq> [] \<longrightarrow>
        x_gcmSeal X (message_key X (pk_privateKey p) identityPriv eph) iv plain = Some ct \<longrightarrow>
        aesGcmDecrypt X (message_key X (pk_privateKey q) identityPriv eph) iv ct = [])"

definition envelope_entries :: "cenv \<Rightarrow> json list \<Rightarrow> string \<Rightarrow> client \<Rightarrow> envelope_entry list" where
  "envelope_entries E bundles txt c =
     (case encrypt_to_devices E (x_utf8 (ce_ext E) txt) bundles c of
        (None, c1) \<Rightarrow> [] | (Some es, c1) \<Rightarrow> es @ fst (encrypt_self_copy E (x_utf8 (ce_ext E) txt) c1))"

text \<open>The text of an envelope is a JSON object that reads back.\<close>

definition envelope_reads_back :: "ext \<Rightarrow> envelope_entry list \<Rightarrow> bool" where
  "envelope_reads_back X es \<longleftrightarrow> (let s = x_compact X (JObj (encodeEnvelope X es))
     in s \<noteq> [] \<and> hd s = CHR ''{'' \<and> x_parse X s = Some (JObj (encodeEnvelope X es)))"

text \<open>A bundle that the server hands out for a device with this identity key and this prekey.\<close>

definition bundle_of :: "ext \<Rightarrow> client \<Rightarrow> prekey_entry \<Rightarrow> jobj \<Rightarrow> bool" where
  "bundle_of X d p b \<longleftrightarrow> jstr (jget b ''deviceId'') = cl_deviceId d
     \<and> x_fromBase64Lax X (jstr (jget b ''identityPub'')) = kp_publicKey (cl_identity d)
     \<and> x_fromBase64Lax X (jstr (jget b ''prekeyPub'')) = pk_publicKey p"

definition owns_keys :: "ext \<Rightarrow> client \<Rightarrow> prekey_entry \<Rightarrow> bool" where
  "owns_keys X d p \<longleftrightarrow> kp_valid (cl_identity d) \<and> x_x25519Public X (kp_privateKey (cl_identity d)) = Some (kp_publicKey (cl_identity d))
     \<and> x_x25519Public X (pk_privateKey p) = Some (pk_publicKey p) \<and> length (kp_privateKey (cl_identity d)) = 32
     \<and> length (pk_privateKey p) = 32"

section \<open>One device\<close>

text \<open>An entry that was sealed for a device: nobody else's key opens it, and it passes the decoder.\<close>

definition sealed_for :: "ext \<Rightarrow> bytes \<Rightarrow> client \<Rightarrow> prekey_entry \<Rightarrow> envelope_entry \<Rightarrow> bool" where
  "sealed_for X plain d p e \<longleftrightarrow>
     (let k = message_key X (pk_privateKey p) (kp_privateKey (cl_identity d)) (ee_eph e)
      in ee_deviceId e = cl_deviceId d \<and> ee_prekeyId e \<noteq> SelfCopyPrekeyId
         \<and> k \<noteq> [] \<and> x_gcmSeal X k (ee_iv e) plain = Some (ee_ciphertext e))"

lemma ecdh_agrees:
  assumes "dh_agrees X" "x_x25519Public X a = Some A" "x_x25519Public X b = Some B" "length a = 32" "length b = 32"
    "length A = 32" "length B = 32"
  shows "ecdh X a B = ecdh X b A"
proof -
  have "x_x25519 X a B = x_x25519 X b A"
    using assms(1-3) unfolding dh_agrees_def by blast
  then show ?thesis
    using assms(4-7) unfolding ecdh_def by simp
qed

lemma generated_pair:
  assumes "kp_valid (generateX25519KeyPair g)"
  shows "\<exists>pub priv. g = Some (pub, priv) \<and> length pub = 32 \<and> length priv = 32
     \<and> kp_publicKey (generateX25519KeyPair g) = pub \<and> kp_privateKey (generateX25519KeyPair g) = priv"
proof (cases g)
  case None
  then show ?thesis
    using assms by (simp add: generateX25519KeyPair_def invalid_pair_def)
next
  case (Some w)
  obtain pub priv where w: "w = (pub, priv)"
    by force
  have "length pub = 32" "length priv = 32"
    using assms Some w by (simp_all add: generateX25519KeyPair_def invalid_pair_def split: if_splits)
  then show ?thesis
    using Some w by (simp add: generateX25519KeyPair_def)
qed

lemma ecdh_length: "length (ecdh X a b) = 32 \<or> ecdh X a b = []"
  by (auto simp: ecdh_def split: option.split)

lemma ecdh_sizes: "ecdh X a b \<noteq> [] \<Longrightarrow> length a = 32 \<and> length b = 32"
  by (auto simp: ecdh_def split: if_splits)

lemma ecdh_both:
  assumes "length (ecdh X a b @ ecdh X a' b') = 64"
  shows "ecdh X a b \<noteq> []" "ecdh X a' b' \<noteq> []"
  using assms ecdh_length [of X a b] ecdh_length [of X a' b'] by auto

lemma valid_seal:
  assumes "gr_valid (aesGcmEncrypt X random k plain)"
  shows "\<exists>r. random = Some r \<and> gr_iv (aesGcmEncrypt X random k plain) = r
     \<and> x_gcmSeal X k r plain = Some (gr_ciphertext (aesGcmEncrypt X random k plain))"
proof -
  have "length k = 32"
    using assms by (auto simp: aesGcmEncrypt_def gcm_failed_def split: if_splits)
  moreover obtain r where "random = Some r"
    using assms by (cases random) (simp_all add: aesGcmEncrypt_def gcm_failed_def split: if_splits)
  ultimately show ?thesis
    using assms by (cases "x_gcmSeal X k r plain") (simp_all add: aesGcmEncrypt_def gcm_failed_def)
qed

lemma derived_32: "e2ee_deriveMessageKey X s \<noteq> [] \<Longrightarrow> length (e2ee_deriveMessageKey X s) = 32"
  by (auto simp: e2ee_deriveMessageKey_def split: option.splits if_splits)

lemma device_entry:
  assumes "encrypt_to_device E plain b c = (Some e, c')" "draws_ok E"
  shows "\<exists>priv. x_x25519Public (ce_ext E) priv = Some (ee_eph e) \<and> length priv = 32 \<and> length (ee_eph e) = 32
     \<and> ecdh (ce_ext E) priv (x_fromBase64Lax (ce_ext E) (jstr (jget b ''prekeyPub''))) \<noteq> []
     \<and> ecdh (ce_ext E) priv (x_fromBase64Lax (ce_ext E) (jstr (jget b ''identityPub''))) \<noteq> []
     \<and> (let k = e2ee_deriveMessageKey (ce_ext E)
               (ecdh (ce_ext E) priv (x_fromBase64Lax (ce_ext E) (jstr (jget b ''prekeyPub'')))
                @ ecdh (ce_ext E) priv (x_fromBase64Lax (ce_ext E) (jstr (jget b ''identityPub''))))
        in k \<noteq> [] \<and> x_gcmSeal (ce_ext E) k (ee_iv e) plain = Some (ee_ciphertext e))
     \<and> length (ee_iv e) = 12 \<and> ee_deviceId e = jstr (jget b ''deviceId'') \<and> ee_deviceId e \<noteq> [] \<and> ee_prekeyId e > 0"
proof -
  define g where "g = ce_x25519 E (cl_draws c)"
  define eph where "eph = generateX25519KeyPair g"
  define c1 where "c1 = c\<lparr>cl_draws := cl_draws c + 1\<rparr>"
  define shared where "shared = ecdh (ce_ext E) (kp_privateKey eph) (x_fromBase64Lax (ce_ext E) (jstr (jget b ''prekeyPub'')))
      @ ecdh (ce_ext E) (kp_privateKey eph) (x_fromBase64Lax (ce_ext E) (jstr (jget b ''identityPub'')))"
  define k where "k = e2ee_deriveMessageKey (ce_ext E) shared"
  define gcm where "gcm = aesGcmEncrypt (ce_ext E) (ce_random E (cl_draws c1) 0) k plain"
  have f: "fresh_pair E c = (eph, c1)"
    by (simp add: fresh_pair_def draw_def eph_def g_def c1_def)
  have e: "jstr (jget b ''deviceId'') \<noteq> []" "jdouble (jget b ''prekeyId'') > 0" "kp_valid eph" "length shared = 64" "k \<noteq> []"
      "gr_valid gcm" "e = \<lparr>ee_deviceId = jstr (jget b ''deviceId''), ee_prekeyId = jdouble (jget b ''prekeyId''),
         ee_eph = kp_publicKey eph, ee_iv = gr_iv gcm, ee_ciphertext = gr_ciphertext gcm\<rparr>"
    using assms(1) unfolding encrypt_to_device_def f seal_def draw_def Let_def split_beta prod.case fst_conv snd_conv
      shared_def [symmetric] k_def [symmetric] gcm_def [symmetric]
    by (simp_all split: if_splits)
  obtain pub priv where g: "g = Some (pub, priv)" "length pub = 32" "length priv = 32" "kp_publicKey eph = pub" "kp_privateKey eph = priv"
    using generated_pair e(3) unfolding eph_def by blast
  have pub: "x_x25519Public (ce_ext E) priv = Some pub"
    using assms(2) g(1) unfolding draws_ok_def g_def by blast
  obtain r where r: "ce_random E (cl_draws c1) 0 = Some r" "gr_iv gcm = r" "x_gcmSeal (ce_ext E) k r plain = Some (gr_ciphertext gcm)"
    using e(6) valid_seal [of "ce_ext E" _ k plain] unfolding gcm_def by blast
  have "length r = 12"
    using assms(2) r(1) unfolding draws_ok_def by blast
  moreover have "ecdh (ce_ext E) priv (x_fromBase64Lax (ce_ext E) (jstr (jget b ''prekeyPub''))) \<noteq> []"
      "ecdh (ce_ext E) priv (x_fromBase64Lax (ce_ext E) (jstr (jget b ''identityPub''))) \<noteq> []"
    using e(4) ecdh_both unfolding shared_def g(5) by blast+
  moreover have "k = e2ee_deriveMessageKey (ce_ext E)
               (ecdh (ce_ext E) priv (x_fromBase64Lax (ce_ext E) (jstr (jget b ''prekeyPub'')))
                @ ecdh (ce_ext E) priv (x_fromBase64Lax (ce_ext E) (jstr (jget b ''identityPub''))))"
    by (simp add: k_def shared_def g(5))
  ultimately show ?thesis
    using pub g r e by (intro exI [of _ priv]) simp
qed

lemma entry_ok_device:
  assumes "encrypt_to_device E plain b c = (Some e, c')" "draws_ok E" "gcm_inverts (ce_ext E)"
  shows "entry_ok e"
proof -
  obtain k where "x_gcmSeal (ce_ext E) k (ee_iv e) plain = Some (ee_ciphertext e)" "length (ee_iv e) = 12" "length (ee_eph e) = 32"
      "ee_deviceId e \<noteq> []" "ee_prekeyId e > 0"
    using device_entry [OF assms(1,2)] by (auto simp: Let_def)
  moreover from this have "length (ee_ciphertext e) = length plain + 16"
    using assms(3) unfolding gcm_inverts_def by (metis option.inject)
  ultimately show ?thesis
    by (simp add: entry_ok_def)
qed

lemma sealed_for_device:
  assumes "encrypt_to_device E plain b c = (Some e, c')" "draws_ok E" "dh_agrees (ce_ext E)" "owns_keys (ce_ext E) d p"
    "bundle_of (ce_ext E) d p b"
  shows "sealed_for (ce_ext E) plain d p e"
proof -
  obtain priv where v: "x_x25519Public (ce_ext E) priv = Some (ee_eph e)" "length priv = 32" "length (ee_eph e) = 32"
      "ecdh (ce_ext E) priv (pk_publicKey p) \<noteq> []" "ecdh (ce_ext E) priv (kp_publicKey (cl_identity d)) \<noteq> []"
      "e2ee_deriveMessageKey (ce_ext E) (ecdh (ce_ext E) priv (pk_publicKey p) @ ecdh (ce_ext E) priv (kp_publicKey (cl_identity d))) \<noteq> []"
      "x_gcmSeal (ce_ext E) (e2ee_deriveMessageKey (ce_ext E)
          (ecdh (ce_ext E) priv (pk_publicKey p) @ ecdh (ce_ext E) priv (kp_publicKey (cl_identity d)))) (ee_iv e) plain = Some (ee_ciphertext e)"
      "ee_deviceId e = cl_deviceId d" "ee_prekeyId e > 0"
    using device_entry [OF assms(1,2)] assms(5) unfolding bundle_of_def Let_def by metis
  have "ecdh (ce_ext E) priv (pk_publicKey p) = ecdh (ce_ext E) (pk_privateKey p) (ee_eph e)"
      "ecdh (ce_ext E) priv (kp_publicKey (cl_identity d)) = ecdh (ce_ext E) (kp_privateKey (cl_identity d)) (ee_eph e)"
    using ecdh_agrees [OF assms(3) v(1)] assms(4) v(2,3) ecdh_sizes [OF v(4)] ecdh_sizes [OF v(5)] by (simp_all add: owns_keys_def)
  then have "message_key (ce_ext E) (pk_privateKey p) (kp_privateKey (cl_identity d)) (ee_eph e) =
      e2ee_deriveMessageKey (ce_ext E) (ecdh (ce_ext E) priv (pk_publicKey p) @ ecdh (ce_ext E) priv (kp_publicKey (cl_identity d)))"
    by (simp add: message_key_def)
  then show ?thesis
    using v by (simp add: sealed_for_def SelfCopyPrekeyId_def)
qed

section \<open>The receiving device\<close>

lemma sealed_opens:
  assumes "sealed_for X plain d p e" "gcm_inverts X" "length (ee_iv e) = 12"
  shows "aesGcmDecrypt X (message_key X (pk_privateKey p) (kp_privateKey (cl_identity d)) (ee_eph e)) (ee_iv e) (ee_ciphertext e) = plain"
proof -
  define k where "k = message_key X (pk_privateKey p) (kp_privateKey (cl_identity d)) (ee_eph e)"
  have k: "k \<noteq> []" "x_gcmSeal X k (ee_iv e) plain = Some (ee_ciphertext e)"
    using assms(1) by (simp_all add: sealed_for_def k_def Let_def)
  obtain ct where "x_gcmSeal X k (ee_iv e) plain = Some ct" "length ct = length plain + 16" "x_gcmOpen X k (ee_iv e) ct = Some plain"
    using assms(2) unfolding gcm_inverts_def by blast
  moreover have "length k = 32"
    using derived_32 k(1) unfolding k_def message_key_def by blast
  ultimately show ?thesis
    using k(2) assms(3) by (simp add: aesGcmDecrypt_def flip: k_def)
qed

lemma other_key_fails:
  assumes "sealed_for X plain d p e" "separates X (kp_privateKey (cl_identity d)) p q"
  shows "aesGcmDecrypt X (message_key X (pk_privateKey q) (kp_privateKey (cl_identity d)) (ee_eph e)) (ee_iv e) (ee_ciphertext e) = []"
  using assms unfolding sealed_for_def separates_def Let_def by blast

lemma no_prekey_opens:
  assumes "sealed_for X plain d p e" "list_all (separates X (kp_privateKey (cl_identity d)) p) ps"
  shows "open_with_prekeys X (kp_privateKey (cl_identity d)) e ps = None"
  using assms(2)
proof (induction ps)
  case (Cons q ps)
  then show ?case
    using other_key_fails [OF assms(1), of q] by (simp add: message_key_def Let_def)
qed simp

lemma prekey_opens:
  assumes "sealed_for X plain d p e" "gcm_inverts X" "length (ee_iv e) = 12" "plain \<noteq> []"
    "list_all (separates X (kp_privateKey (cl_identity d)) p) ps"
  shows "open_with_prekeys X (kp_privateKey (cl_identity d)) e (ps @ p # qs) = Some (plain, ps @ qs)"
  using assms(5)
proof (induction ps)
  case Nil
  then show ?case
    using sealed_opens [OF assms(1,2,3)] assms(4) by (simp add: message_key_def Let_def)
next
  case (Cons q ps)
  then show ?case
    using other_key_fails [OF assms(1), of q] by (simp add: message_key_def Let_def)
qed

lemma save_prekeys_keeps [simp]:
  "cl_prekeys (save_prekeys E c) = cl_prekeys c" "cl_identity (save_prekeys E c) = cl_identity c"
  "cl_deviceId (save_prekeys E c) = cl_deviceId c"
  by (simp_all add: save_prekeys_def on_files_def Let_def split_beta)

definition consumed :: "cenv \<Rightarrow> prekey_entry list \<Rightarrow> client \<Rightarrow> client" where
  "consumed E rest d = save_prekeys E (d\<lparr>cl_prekeys := rest\<rparr>)"

lemma consumed_keeps [simp]:
  "cl_prekeys (consumed E rest d) = rest" "cl_identity (consumed E rest d) = cl_identity d"
  "cl_deviceId (consumed E rest d) = cl_deviceId d"
  by (simp_all add: consumed_def)

lemma own_entry_read:
  assumes "sealed_for (ce_ext E) plain d p e" "gcm_inverts (ce_ext E)" "length (ee_iv e) = 12" "plain \<noteq> []"
    "kp_valid (cl_identity d)" "list_all (separates (ce_ext E) (kp_privateKey (cl_identity d)) p) ps"
  shows "cl_prekeys d = ps @ p # qs \<Longrightarrow> decryptEnvelopeEntry E e d = (plain, consumed E (ps @ qs) d)"
    "cl_prekeys d = ps \<Longrightarrow> decryptEnvelopeEntry E e d = ([], d)"
proof -
  have e: "ee_deviceId e = cl_deviceId d" "ee_prekeyId e \<noteq> SelfCopyPrekeyId"
    using assms(1) by (simp_all add: sealed_for_def Let_def)
  show "decryptEnvelopeEntry E e d = (plain, consumed E (ps @ qs) d)" if "cl_prekeys d = ps @ p # qs"
    using prekey_opens [OF assms(1-4,6), of qs] e assms(5) that by (simp add: decryptEnvelopeEntry_def consumed_def Let_def)
  show "decryptEnvelopeEntry E e d = ([], d)" if "cl_prekeys d = ps"
    using no_prekey_opens [OF assms(1,6)] e assms(5) that by (simp add: decryptEnvelopeEntry_def Let_def)
qed

lemma first_opened_skips:
  "list_all (\<lambda>e. ee_deviceId e \<noteq> cl_deviceId d) es \<Longrightarrow> first_opened E (es @ fs) d = first_opened E fs d"
  by (induction es) (auto simp: decryptEnvelopeEntry_def Let_def)

section \<open>The envelope\<close>

lemma device_entries:
  "encrypt_to_devices E plain vs c = (Some es, c') \<Longrightarrow>
     list_all2 (\<lambda>v e. \<exists>c0 c1. encrypt_to_device E plain (jobject v) c0 = (Some e, c1)) vs es"
proof (induction vs arbitrary: c c' es)
  case (Cons v vs)
  obtain e c1 where "encrypt_to_device E plain (jobject v) c = (Some e, c1)"
    using Cons.prems by (auto split: prod.splits option.splits)
  moreover from this obtain es1 c2 where "encrypt_to_devices E plain vs c1 = (Some es1, c2)" "es = e # es1"
    using Cons.prems by (auto split: prod.splits option.splits)
  ultimately show ?case
    using Cons.IH by auto
qed simp

lemma self_copy_ok:
  assumes "draws_ok E" "gcm_inverts (ce_ext E)" "x \<in> set (fst (encrypt_self_copy E plain c))"
  shows "entry_ok x \<and> ee_deviceId x = cl_deviceId c"
proof -
  define g where "g = ce_x25519 E (cl_draws c)"
  define eph where "eph = generateX25519KeyPair g"
  define c1 where "c1 = c\<lparr>cl_draws := cl_draws c + 1\<rparr>"
  define dh where "dh = ecdh (ce_ext E) (kp_privateKey eph) (kp_publicKey (cl_identity c))"
  define k where "k = e2ee_deriveMessageKey (ce_ext E) (dh @ dh)"
  define gcm where "gcm = aesGcmEncrypt (ce_ext E) (ce_random E (cl_draws c1) 0) k plain"
  have f: "fresh_pair E c = (eph, c1)" and i: "cl_identity c1 = cl_identity c" "cl_deviceId c1 = cl_deviceId c"
    by (simp_all add: fresh_pair_def draw_def eph_def g_def c1_def)
  have x: "kp_valid eph" "cl_deviceId c \<noteq> []" "gr_valid gcm" "x = \<lparr>ee_deviceId = cl_deviceId c, ee_prekeyId = SelfCopyPrekeyId,
      ee_eph = kp_publicKey eph, ee_iv = gr_iv gcm, ee_ciphertext = gr_ciphertext gcm\<rparr>"
    using assms(3) unfolding encrypt_self_copy_def f seal_def draw_def Let_def split_beta prod.case fst_conv snd_conv
      i dh_def [symmetric] k_def [symmetric] gcm_def [symmetric]
    by (simp_all add: i split: if_splits)
  obtain pub where "kp_publicKey eph = pub" "length pub = 32"
    using generated_pair x(1) unfolding eph_def by blast
  moreover obtain r where r: "ce_random E (cl_draws c1) 0 = Some r" "gr_iv gcm = r" "x_gcmSeal (ce_ext E) k r plain = Some (gr_ciphertext gcm)"
    using x(3) valid_seal [of "ce_ext E" _ k plain] unfolding gcm_def by blast
  moreover have "length r = 12"
    using assms(1) r(1) unfolding draws_ok_def by blast
  moreover have "length (gr_ciphertext gcm) = length plain + 16"
    using assms(2) r(3) unfolding gcm_inverts_def by (metis option.inject)
  ultimately show ?thesis
    using x(2,4) by (simp add: entry_ok_def SelfCopyPrekeyId_def)
qed

lemma sent_envelope:
  assumes "fst (encryptForUser E bundles txt c) \<noteq> []"
  shows "\<exists>es c1. encrypt_to_devices E (x_utf8 (ce_ext E) txt) bundles c = (Some es, c1)
     \<and> envelope_entries E bundles txt c = es @ fst (encrypt_self_copy E (x_utf8 (ce_ext E) txt) c1)
     \<and> envelope_entries E bundles txt c \<noteq> []
     \<and> fst (encryptForUser E bundles txt c) = x_compact (ce_ext E) (JObj (encodeEnvelope (ce_ext E) (envelope_entries E bundles txt c)))"
proof -
  obtain r c1 where r: "encrypt_to_devices E (x_utf8 (ce_ext E) txt) bundles c = (r, c1)"
    by force
  then obtain es where "r = Some es"
    using assms by (cases r) (simp_all add: encryptForUser_def)
  then show ?thesis
    using assms r by (auto simp: encryptForUser_def envelope_entries_def envelope_text_def Let_def split_beta split: if_splits)
qed

lemma devices_keep_id: "cl_deviceId (snd (encrypt_to_devices E plain vs c)) = cl_deviceId c"
proof -
  have "cl_deviceId (snd (encrypt_to_device E plain b c)) = cl_deviceId c" for b c
    by (simp add: encrypt_to_device_def fresh_pair_def seal_def draw_def Let_def split_beta)
  then show ?thesis
    by (induction vs arbitrary: c) (auto split: prod.splits option.splits, metis snd_conv, metis snd_conv, metis snd_conv)
qed

definition base64_works :: "ext \<Rightarrow> bool" where
  "base64_works X \<longleftrightarrow> (\<forall>b. base64_inverts X b)"

definition libraries_work :: "cenv \<Rightarrow> bool" where
  "libraries_work E \<longleftrightarrow> draws_ok E \<and> dh_agrees (ce_ext E) \<and> gcm_inverts (ce_ext E) \<and> base64_works (ce_ext E)"

definition other_device :: "client \<Rightarrow> json \<Rightarrow> bool" where
  "other_device d v \<longleftrightarrow> jstr (jget (jobject v) ''deviceId'') \<noteq> cl_deviceId d"

lemma entries_for_device:
  assumes "libraries_work E" "fst (encryptForUser E (us @ v # vs) txt c) \<noteq> []" "list_all (other_device d) (us @ vs)"
    "cl_deviceId c \<noteq> cl_deviceId d" "bundle_of (ce_ext E) d p (jobject v)" "owns_keys (ce_ext E) d p"
  shows "\<exists>es e fs. envelope_entries E (us @ v # vs) txt c = es @ e # fs
     \<and> list_all (\<lambda>x. ee_deviceId x \<noteq> cl_deviceId d) (es @ fs) \<and> list_all entry_ok (es @ e # fs)
     \<and> sealed_for (ce_ext E) (x_utf8 (ce_ext E) txt) d p e \<and> length (ee_iv e) = 12"
proof -
  let ?plain = "x_utf8 (ce_ext E) txt"
  let ?R = "\<lambda>v e. \<exists>c0 c1. encrypt_to_device E ?plain (jobject v) c0 = (Some e, c1)"
  have L: "draws_ok E" "dh_agrees (ce_ext E)" "gcm_inverts (ce_ext E)"
    using assms(1) by (simp_all add: libraries_work_def)
  obtain xs c1 where xs: "encrypt_to_devices E ?plain (us @ v # vs) c = (Some xs, c1)"
      "envelope_entries E (us @ v # vs) txt c = xs @ fst (encrypt_self_copy E ?plain c1)"
    using sent_envelope [OF assms(2)] by blast
  define own where "own = fst (encrypt_self_copy E ?plain c1)"
  obtain es ws where ws: "xs = es @ ws" "list_all2 ?R us es" "list_all2 ?R (v # vs) ws"
    using device_entries [OF xs(1)] unfolding list_all2_append1 by blast
  then obtain e fs where split: "xs = es @ e # fs" "list_all2 ?R us es" "?R v e" "list_all2 ?R vs fs"
    unfolding list_all2_Cons1 by blast
  have ids: "ee_deviceId y = jstr (jget (jobject u) ''deviceId'')" and ok: "entry_ok y" if "?R u y" for u y
    using that device_entry [OF _ L(1)] entry_ok_device [OF _ L(1,3)] by blast+
  have others: "list_all (\<lambda>x. ee_deviceId x \<noteq> cl_deviceId d) ys \<and> list_all entry_ok ys"
    if "list_all2 ?R ws ys" "list_all (other_device d) ws" for ws ys
    using that
  proof (induction rule: list_all2_induct)
    case (Cons u us y ys)
    then show ?case
      using ids [of u y] ok [of u y] by (simp add: other_device_def)
  qed simp
  have "cl_deviceId c1 = cl_deviceId c"
    using devices_keep_id [of E ?plain "us @ v # vs" c] xs(1) by simp
  then have own: "list_all (\<lambda>x. ee_deviceId x \<noteq> cl_deviceId d) own \<and> list_all entry_ok own"
    using self_copy_ok [OF L(1,3)] assms(4) unfolding own_def list_all_iff by metis
  obtain c0 c2 where e: "encrypt_to_device E ?plain (jobject v) c0 = (Some e, c2)"
    using split(3) by blast
  have "sealed_for (ce_ext E) ?plain d p e"
    by (rule sealed_for_device [OF e L(1,2) assms(6,5)])
  moreover have "length (ee_iv e) = 12"
    using device_entry [OF e L(1)] by blast
  moreover have "entry_ok e"
    by (rule entry_ok_device [OF e L(1,3)])
  ultimately show ?thesis
    using xs(2) split(1) others [OF split(2)] others [OF split(4)] own assms(3)
    by (intro exI [of _ es] exI [of _ e] exI [of _ "fs @ own"]) (simp add: own_def)
qed

section \<open>The message\<close>

text \<open>
  C39: a message is read by the device it was encrypted for, once. Whatever other devices the message is
  for, the device whose identity key and prekey the server handed out reads exactly the text that was
  sent, and the prekey, and no other, is gone from its store afterwards; the same envelope cannot be
  read a second time.
\<close>

theorem pairwise_roundtrip:
  assumes "libraries_work E" "ce_ext E' = ce_ext E" "utf8_inverts (ce_ext E) txt" "txt \<noteq> []"
    "list_all (other_device d) (us @ vs)" "cl_deviceId c \<noteq> cl_deviceId d"
    "bundle_of (ce_ext E) d p (jobject v)" "owns_keys (ce_ext E) d p"
    "cl_prekeys d = ps @ p # qs" "list_all (separates (ce_ext E) (kp_privateKey (cl_identity d)) p) (ps @ qs)"
    "fst (encryptForUser E (us @ v # vs) txt c) \<noteq> []"
    "envelope_reads_back (ce_ext E) (envelope_entries E (us @ v # vs) txt c)"
  shows "\<exists>d1. decryptIncomingContent E' (fst (encryptForUser E (us @ v # vs) txt c)) d = (txt, False, d1)
     \<and> cl_prekeys d1 = ps @ qs
     \<and> decryptIncomingContent E' (fst (encryptForUser E (us @ v # vs) txt c)) d1 = ([], True, d1)"
proof -
  let ?X = "ce_ext E" and ?s = "fst (encryptForUser E (us @ v # vs) txt c)"
  let ?plain = "x_utf8 ?X txt"
  obtain es e fs where en: "envelope_entries E (us @ v # vs) txt c = es @ e # fs"
      "list_all (\<lambda>x. ee_deviceId x \<noteq> cl_deviceId d) (es @ fs)" "list_all entry_ok (es @ e # fs)"
      "sealed_for ?X ?plain d p e" "length (ee_iv e) = 12"
    using entries_for_device [OF assms(1,11,5-8)] by blast
  have s: "?s = x_compact ?X (JObj (encodeEnvelope ?X (es @ e # fs)))"
    using sent_envelope [OF assms(11)] en(1) by auto
  have reads: "?s \<noteq> []" "hd ?s = CHR ''{''" "x_parse ?X ?s = Some (JObj (encodeEnvelope ?X (es @ e # fs)))"
    using assms(12) unfolding envelope_reads_back_def en(1) Let_def s by blast+
  have dec: "decodeEnvelope ?X ?s = Some (es @ e # fs)"
    using assms(1) en(3) reads(3)
    by (intro decodeEnvelope_encode) (auto simp: libraries_work_def base64_works_def entry_base64_def list_all_iff)
  then have looks: "looksLikeEnvelope ?X ?s"
    using decodeEnvelope_looks_like reads(1,2) by blast
  have L: "gcm_inverts ?X" "kp_valid (cl_identity d)" "?plain \<noteq> []" "x_fromUtf8 ?X ?plain = txt"
    using assms(1,3,4,8) by (simp_all add: libraries_work_def utf8_inverts_def owns_keys_def)
  have sep: "list_all (separates ?X (kp_privateKey (cl_identity d)) p) ps"
    using assms(10) by simp
  define d1 where "d1 = consumed E' (ps @ qs) d"
  have one: "decryptEnvelopeEntry E' e d = (?plain, d1)"
    using own_entry_read(1) [of E' ?plain d p e ps qs] assms(2,9) en(4,5) L sep by (simp add: d1_def)
  have sealed1: "sealed_for ?X ?plain d1 p e"
    using en(4) by (simp add: sealed_for_def d1_def)
  have two: "decryptEnvelopeEntry E' e d1 = ([], d1)"
    using own_entry_read(2) [of E' ?plain d1 p e "ps @ qs"] assms(2,10) en(5) L sealed1 by (simp add: d1_def)
  have "first_opened E' (es @ e # fs) d = (?plain, d1)"
    using first_opened_skips [of d es E' "e # fs"] en(2) one L(3) by simp
  moreover have "first_opened E' fs d1 = ([], d1)"
    using first_opened_skips [of d1 fs E' "[]"] en(2) by (simp add: d1_def)
  then have "first_opened E' (es @ e # fs) d1 = ([], d1)"
    using first_opened_skips [of d1 es E' "e # fs"] en(2) two by (simp add: d1_def)
  ultimately show ?thesis
    using looks dec L(3,4) assms(2) by (intro exI [of _ d1]) (simp add: decryptIncomingContent_def d1_def)
qed

text \<open>A library whose shared secret is the exclusive or of the keys and whose tag is half of the key; the
  receiver has two prekeys and the sender uses the second.\<close>

definition half_key :: "bytes \<Rightarrow> bytes" where
  "half_key k = take 16 (k @ replicate 16 0)"

definition xor_ext :: ext where
  "xor_ext = sample_ext\<lparr>x_x25519Public := Some, x_x25519 := (\<lambda>a b. Some (map2 (XOR) a b)),
     x_gcmSeal := (\<lambda>k iv p. Some (p @ half_key k)),
     x_gcmOpen := (\<lambda>k iv c. if drop (length c - 16) c = half_key k then Some (take (length c - 16) c) else None)\<rparr>"

definition pair_entry :: envelope_entry where
  "pair_entry = \<lparr>ee_deviceId = ''b'', ee_prekeyId = 5, ee_eph = replicate 32 4, ee_iv = replicate 12 0,
     ee_ciphertext = bytes_of ''hi'' @ replicate 16 5\<rparr>"

definition pair_ext :: ext where
  "pair_ext = xor_ext\<lparr>x_parse := (\<lambda>s. Some (JObj (encodeEnvelope xor_ext [pair_entry])))\<rparr>"

definition pair_env :: cenv where
  "pair_env = \<lparr>ce_ext = pair_ext, ce_now = 100, ce_uuid = (\<lambda>n. replicate n CHR ''x''),
     ce_x25519 = (\<lambda>n. Some (replicate 32 4, replicate 32 4)), ce_ed25519 = (\<lambda>n. None),
     ce_random = (\<lambda>n k. Some (replicate 12 0)), ce_part = 0, ce_driver = False, ce_deviceId = ''a'',
     ce_platform = ''linux'', ce_plaintext = False, ce_iso = (\<lambda>t. None)\<rparr>"

definition pair_bundle :: json where
  "pair_bundle = JObj [(''deviceId'', JStr ''b''), (''prekeyId'', JNum 5), (''identityPub'', JStr (chars_of (replicate 32 8))),
     (''prekeyPub'', JStr (chars_of (replicate 32 1)))]"

definition pair_prekey :: "byte \<Rightarrow> prekey_entry" where
  "pair_prekey n = \<lparr>pk_publicKey = replicate 32 n, pk_privateKey = replicate 32 n\<rparr>"

definition pair_store :: local_store where
  "pair_store = \<lparr>ls_open = False, ls_handle = False, ls_username = [], ls_deviceId = [], ls_storageKey = [],
     ls_dbs = Map.empty, ls_files = \<lparr>fs_content = Map.empty, fs_locked = (\<lambda>p. False), fs_faults = []\<rparr>, ls_faults = []\<rparr>"

definition pair_sender :: client where
  "pair_sender = (new_client True pair_store)\<lparr>cl_deviceId := ''a''\<rparr>"

definition pair_receiver :: client where
  "pair_receiver = (new_client True pair_store)\<lparr>cl_deviceId := ''b'', cl_prekeys := [pair_prekey 2, pair_prekey 1],
     cl_identity := \<lparr>kp_publicKey = replicate 32 8, kp_privateKey = replicate 32 8, kp_valid = True\<rparr>\<rparr>"

lemma half_key_length [simp]: "length (half_key k) = 16"
  by (simp add: half_key_def)

lemma xor_commutes: "map2 (XOR) a b = map2 (XOR) b (a :: bytes)"
  by (rule nth_equalityI) (simp_all add: xor.commute)

lemma pair_selectors:
  "x_x25519Public pair_ext = Some" "x_x25519 pair_ext = (\<lambda>a b. Some (map2 (XOR) a b))"
  "x_gcmSeal pair_ext = (\<lambda>k iv p. Some (p @ half_key k))"
  "x_gcmOpen pair_ext = (\<lambda>k iv c. if drop (length c - 16) c = half_key k then Some (take (length c - 16) c) else None)"
  "x_hkdf pair_ext = (\<lambda>k s i. Some (take 32 (k @ replicate 32 0)))" "x_utf8 pair_ext = bytes_of" "x_fromUtf8 pair_ext = chars_of"
  "x_toBase64 pair_ext = chars_of" "x_fromBase64 pair_ext = bytes_of" "x_fromBase64Lax pair_ext = bytes_of"
  "x_compact pair_ext = (\<lambda>j. ''{}'')" "x_parse pair_ext = (\<lambda>s. Some (JObj (encodeEnvelope xor_ext [pair_entry])))"
  "ce_ext pair_env = pair_ext" "ce_x25519 pair_env = (\<lambda>n. Some (replicate 32 4, replicate 32 4))"
  "ce_random pair_env = (\<lambda>n k. Some (replicate 12 0))"
  by (simp_all add: pair_ext_def xor_ext_def sample_ext_def pair_env_def)

lemma pair_libraries: "libraries_work pair_env"
proof -
  have "dh_agrees pair_ext"
    unfolding dh_agrees_def pair_selectors using xor_commutes by auto
  moreover have "gcm_inverts pair_ext"
    by (simp add: gcm_inverts_def pair_selectors)
  ultimately show ?thesis
    by (simp add: libraries_work_def draws_ok_def base64_works_def base64_inverts_def pair_selectors)
qed

lemma pair_message_key:
  assumes "message_key pair_ext (replicate 32 n) (replicate 32 m) eph \<noteq> []"
  shows "\<exists>x rest. message_key pair_ext (replicate 32 n) (replicate 32 m) eph = (n XOR x) # rest \<and> eph \<noteq> [] \<and> x = hd eph"
proof -
  have "length eph = 32"
    using assms by (rule contrapos_np) (simp add: message_key_def ecdh_def e2ee_deriveMessageKey_def)
  moreover from this obtain x ys where "eph = x # ys"
    by (cases eph) simp_all
  ultimately show ?thesis
    by (simp add: message_key_def ecdh_def e2ee_deriveMessageKey_def pair_selectors numeral_eq_Suc)
qed

lemma pair_separates: "separates pair_ext (replicate 32 8) (pair_prekey 1) (pair_prekey 2)"
  unfolding separates_def
proof (intro allI impI)
  fix eph iv plain ct
  let ?k = "\<lambda>n. message_key pair_ext (replicate 32 n) (replicate 32 8) eph"
  assume "message_key pair_ext (pk_privateKey (pair_prekey 1)) (replicate 32 8) eph \<noteq> []"
    and "x_gcmSeal pair_ext (message_key pair_ext (pk_privateKey (pair_prekey 1)) (replicate 32 8) eph) iv plain = Some ct"
  then have k: "?k 1 \<noteq> []" and ct: "ct = plain @ half_key (?k 1)"
    by (simp_all add: pair_prekey_def pair_selectors)
  have "half_key (?k 1) \<noteq> half_key (?k 2)" if two: "?k 2 \<noteq> []"
  proof -
    obtain x r1 r2 where "?k 1 = (1 XOR x) # r1" "?k 2 = (2 XOR x) # r2"
      using pair_message_key [OF k] pair_message_key [OF two] by auto
    moreover have "(1 XOR x :: byte) \<noteq> 2 XOR x"
    proof
      assume "(1 XOR x :: byte) = 2 XOR x"
      then have "(1 XOR x :: byte) XOR x = (2 XOR x) XOR x"
        by simp
      then show False
        by (simp add: xor.assoc)
    qed
    ultimately show ?thesis
      by (simp add: half_key_def numeral_eq_Suc)
  qed
  then show "aesGcmDecrypt pair_ext (message_key pair_ext (pk_privateKey (pair_prekey 2)) (replicate 32 8) eph) iv ct = []"
    unfolding ct by (cases "?k 2 = []") (simp_all add: aesGcmDecrypt_def pair_prekey_def pair_selectors)
qed

lemma pair_sent: "fst (encrypt_to_devices pair_env (bytes_of ''hi'') [pair_bundle] pair_sender) = Some [pair_entry]"
  by (simp add: encrypt_to_device_def fresh_pair_def seal_def draw_def pair_selectors pair_bundle_def generateX25519KeyPair_def
      ecdh_def e2ee_deriveMessageKey_def aesGcmEncrypt_def pair_entry_def half_key_def pair_sender_def new_client_def jget_def Let_def)

lemma pair_entries: "envelope_entries pair_env [pair_bundle] ''hi'' pair_sender = [pair_entry]"
proof -
  obtain c1 where c: "encrypt_to_devices pair_env (bytes_of ''hi'') [pair_bundle] pair_sender = (Some [pair_entry], c1)"
    using pair_sent by (metis prod.collapse)
  then have "cl_identity c1 = cl_identity pair_sender"
    by (auto simp: encrypt_to_device_def fresh_pair_def seal_def draw_def Let_def split_beta split: if_splits option.splits prod.splits)
  then have "fst (encrypt_self_copy pair_env (bytes_of ''hi'') c1) = []"
    by (simp add: encrypt_self_copy_def pair_sender_def new_client_def invalid_pair_def)
  then show ?thesis
    using c by (simp add: envelope_entries_def pair_selectors)
qed

theorem pairwise_roundtrip_witness:
  "\<exists>d1. decryptIncomingContent pair_env (fst (encryptForUser pair_env ([] @ pair_bundle # []) ''hi'' pair_sender)) pair_receiver = (''hi'', False, d1)
     \<and> cl_prekeys d1 = [pair_prekey 2] @ []
     \<and> decryptIncomingContent pair_env (fst (encryptForUser pair_env ([] @ pair_bundle # []) ''hi'' pair_sender)) d1 = ([], True, d1)"
proof (rule pairwise_roundtrip [of pair_env pair_env "''hi''" pair_receiver "[]" "[]" pair_sender "pair_prekey 1"])
  show "fst (encryptForUser pair_env ([] @ pair_bundle # []) ''hi'' pair_sender) \<noteq> []"
  proof -
    obtain c1 where "encrypt_to_devices pair_env (bytes_of ''hi'') [pair_bundle] pair_sender = (Some [pair_entry], c1)"
      using pair_sent by (metis prod.collapse)
    then show ?thesis
      by (simp add: encryptForUser_def pair_selectors envelope_text_def split_beta del: encrypt_to_devices.simps)
  qed
  show "envelope_reads_back (ce_ext pair_env) (envelope_entries pair_env ([] @ pair_bundle # []) ''hi'' pair_sender)"
    using pair_entries by (simp add: envelope_reads_back_def pair_selectors encodeEnvelope_def encode_entry_def xor_ext_def sample_ext_def)
  show "list_all (separates (ce_ext pair_env) (kp_privateKey (cl_identity pair_receiver)) (pair_prekey 1)) ([pair_prekey 2] @ [])"
    using pair_separates by (simp add: pair_selectors pair_receiver_def)
  show "bundle_of (ce_ext pair_env) pair_receiver (pair_prekey 1) (jobject pair_bundle)"
    by (simp add: bundle_of_def pair_selectors pair_bundle_def pair_receiver_def pair_prekey_def jget_def)
  show "owns_keys (ce_ext pair_env) pair_receiver (pair_prekey 1)"
    by (simp add: owns_keys_def pair_selectors pair_receiver_def pair_prekey_def)
  show "utf8_inverts (ce_ext pair_env) ''hi''"
    unfolding utf8_inverts_def pair_selectors by (rule conjI, rule chars_of_bytes_of, simp add: bytes_of_def)
qed (simp_all add: pair_libraries pair_receiver_def pair_sender_def new_client_def)

end
