(* ===== verification/Sync_Properties.thy ===== *)
theory Sync_Properties
  imports Session_Properties Client_Sync
begin

text \<open>
  A client that catches up with its event stream: the requests that \<open>syncEvents\<close> sends, the answers of
  \<open>processSyncEventsRequest\<close>, and the fields as \<open>handleSyncEventsResponse\<close> reads them, in a loop until no
  answer says that there is more.
\<close>

section \<open>The loop\<close>

definition sync_request :: "ident \<Rightarrow> jobj" where
  "sync_request afterSeq = [(''type'', JStr ''sync_events''), (''afterSeq'', JNum afterSeq), (''limit'', JNum 200)]"

text \<open>This is the request of the client.\<close>

lemma sync_request_of_client: "syncEvents E afterSeq 200 = ask E PSyncEvents SyncEventsRequest (sync_request afterSeq)"
  by (simp add: syncEvents_def sync_request_def)

fun reply_data :: "out \<Rightarrow> jobj" where
  "reply_data (Reply rid mt code msg data) = data"
| "reply_data x = []"

definition sync_answer :: "env \<Rightarrow> packet \<Rightarrow> world \<Rightarrow> ident \<Rightarrow> jobj" where
  "sync_answer E p w afterSeq = reply_data (last (w_outs (processSyncEventsRequest E p (sync_request afterSeq) w)))"

text \<open>At most \<open>n\<close> requests: the events received in their order and the last cursor, or \<open>None\<close> if the
  answers still say that there is more, or that the stream was pruned beyond the cursor.\<close>

fun catch_up :: "nat \<Rightarrow> env \<Rightarrow> packet \<Rightarrow> world \<Rightarrow> ident \<Rightarrow> (json list \<times> ident) option" where
  "catch_up 0 E p w afterSeq = None"
| "catch_up (Suc n) E p w afterSeq =
     (let data = sync_answer E p w afterSeq; events = jarr (jget data ''events''); lastSeq = jlonglong (jget data ''lastSeq'')
      in if jbool (jget data ''needsFullSync'') then None
         else if jbool (jget data ''hasMore'') then
           map_option (\<lambda>(more, cursor). (events @ more, cursor)) (catch_up n E p w lastSeq)
         else Some (events, lastSeq))"

section \<open>Pages\<close>

definition pending_events :: "ident \<Rightarrow> ident \<Rightarrow> db \<Rightarrow> event_row list" where
  "pending_events userId afterSeq d = filter (\<lambda>e. ev_userId e = userId \<and> ev_seq e > afterSeq) (db_events d)"

lemma pending_sorted:
  assumes "db_inv d"
  shows "sorted_wrt (<) (map ev_seq (pending_events u a d))"
proof -
  have "sorted_wrt (<) (map ev_seq (db_events d))"
    using assms by (simp add: db_inv_def events_ok_def)
  then show ?thesis
    by (simp add: pending_events_def sorted_wrt_map sorted_wrt_filter)
qed

lemma page_events:
  assumes "db_inv d" "0 \<le> limit"
  shows "getSyncEvents u a limit d = take (nat limit) (pending_events u a d)"
proof -
  have "sorted (map ev_seq (pending_events u a d))"
    using pending_sorted [OF assms(1)] by (rule strict_sorted_imp_sorted)
  then have "sort_key ev_seq (pending_events u a d) = pending_events u a d"
    by (simp add: sorted_sort_id sort_key_id_if_sorted)
  then show ?thesis
    using assms(2) by (simp add: getSyncEvents_def limit_rows_def pending_events_def)
qed

lemma filter_after_prefix:
  assumes "sorted_wrt (<) (map f xs)" "n < length xs"
  shows "filter (\<lambda>x. f (xs ! n) < (f x :: int)) xs = drop (Suc n) xs"
proof -
  have "xs = take (Suc n) xs @ drop (Suc n) xs"
    by simp
  moreover have "\<forall>x \<in> set (take (Suc n) xs). \<not> f (xs ! n) < f x"
  proof
    fix x assume "x \<in> set (take (Suc n) xs)"
    then obtain i where i: "i \<le> n" "x = xs ! i"
      using assms(2) by (auto simp: in_set_conv_nth less_Suc_eq_le)
    then show "\<not> f (xs ! n) < f x"
      using assms sorted_wrt_nth_less [OF assms(1), of i n] by (cases "i = n") auto
  qed
  moreover have "\<forall>x \<in> set (drop (Suc n) xs). f (xs ! n) < f x"
  proof
    fix x assume "x \<in> set (drop (Suc n) xs)"
    then obtain i where "x = xs ! (Suc n + i)" "Suc n + i < length xs"
      by (auto simp: in_set_conv_nth)
    then show "f (xs ! n) < f x"
      using sorted_wrt_nth_less [OF assms(1), of n "Suc n + i"] by simp
  qed
  ultimately show ?thesis
    by (metis (no_types, lifting) append_Nil filter_False filter_True filter_append)
qed

lemma next_pending:
  assumes "db_inv d" "0 < n" "n \<le> length (pending_events u a d)"
  shows "pending_events u (ev_seq (last (take n (pending_events u a d)))) d = drop n (pending_events u a d)"
proof -
  let ?P = "pending_events u a d"
  have "take n ?P \<noteq> []"
    using assms(2,3) by auto
  then have l: "last (take n ?P) = ?P ! (n - 1)" "?P ! (n - 1) \<in> set ?P"
    using assms(2,3) by (simp_all add: last_conv_nth min_def)
  then have "a < ev_seq (?P ! (n - 1))"
    by (simp add: pending_events_def)
  then have "pending_events u (ev_seq (?P ! (n - 1))) d = filter (\<lambda>e. ev_seq (?P ! (n - 1)) < ev_seq e) ?P"
    unfolding pending_events_def filter_filter by (intro filter_cong) auto
  then show ?thesis
    using filter_after_prefix [OF pending_sorted [OF assms(1)], of "n - 1"] assms(2,3) l(1) by simp
qed

section \<open>The answer\<close>

lemma sync_answer_page:
  assumes "db_inv (w_db w)" "a = 0 \<or> db_prunedBelow (w_db w) \<le> a" "0 \<le> a"
  defines "P \<equiv> pending_events (w_userId w) a (w_db w)"
  shows "jarr (jget (sync_answer E p w a) ''events'') = map (\<lambda>e. JObj (event_json (e_ext E) e)) (take 200 P)"
    "jlonglong (jget (sync_answer E p w a) ''lastSeq'') = (if P = [] then a else ev_seq (last (take 200 P)))"
    "jbool (jget (sync_answer E p w a) ''hasMore'') \<longleftrightarrow> 200 \<le> length P"
    "\<not> jbool (jget (sync_answer E p w a) ''needsFullSync'')"
proof -
  have g: "getSyncEvents (w_userId w) a 200 (w_db w) = take 200 P"
    using page_events [OF assms(1), of 200] by (simp add: P_def)
  have "sync_answer E p w a =
      [(''events'', JArr (map (\<lambda>e. JObj (event_json (e_ext E) e)) (take 200 P))),
       (''lastSeq'', JNum (if take 200 P = [] then a else ev_seq (last (take 200 P)))),
       (''hasMore'', JBool (200 \<le> int (length (take 200 P)))), (''needsFullSync'', JBool False)]"
    using assms(2,3) by (auto simp: sync_answer_def processSyncEventsRequest_def sync_request_def sendResponse_def emit_def
        prunedBelowSeq_def g Let_def)
  then show "jarr (jget (sync_answer E p w a) ''events'') = map (\<lambda>e. JObj (event_json (e_ext E) e)) (take 200 P)"
    "jlonglong (jget (sync_answer E p w a) ''lastSeq'') = (if P = [] then a else ev_seq (last (take 200 P)))"
    "jbool (jget (sync_answer E p w a) ''hasMore'') \<longleftrightarrow> 200 \<le> length P"
    "\<not> jbool (jget (sync_answer E p w a) ''needsFullSync'')"
    by (auto simp: min_def)
qed

section \<open>Catching up\<close>

text \<open>A cursor that nothing was pruned behind: at or above the mark, or that of a new device while every
  event that is left lies above the mark.\<close>

definition not_behind :: "ident \<Rightarrow> db \<Rightarrow> bool" where
  "not_behind a d \<longleftrightarrow> 0 \<le> a \<and> (db_prunedBelow d \<le> a \<or> (a = 0 \<and> list_all (\<lambda>e. db_prunedBelow d < ev_seq e) (db_events d)))"

lemma not_behind_later:
  assumes "not_behind a d" "e \<in> set (pending_events u a d)"
  shows "not_behind (ev_seq e) d"
  using assms by (auto simp: not_behind_def pending_events_def list_all_iff)


text \<open>A user with 250 events, none of which was pruned: two requests.\<close>

definition numbered_event :: "nat \<Rightarrow> event_row" where
  "numbered_event i = \<lparr>ev_seq = int i, ev_userId = 1, ev_type = ''contact_added'', ev_payload = ''{}'', ev_createdAt = 0\<rparr>"

definition many_events :: world where
  "many_events = world_of_alice\<lparr>w_db := (w_db world_of_alice)\<lparr>db_events := map numbered_event [1..<251], db_eventSeq := 250\<rparr>\<rparr>"

lemma many_events_fields:
  "w_userId many_events = 1" "db_events (w_db many_events) = map numbered_event [1..<251]"
  "db_prunedBelow (w_db many_events) = 0"
  by (simp_all add: many_events_def sample_defs del: upt_rec_numeral)

lemma many_events_inv: "db_inv (w_db many_events)"
proof -
  have "sorted_wrt (<) (map ev_seq (map numbered_event [1..<251]))"
    by (simp add: o_def numbered_event_def sorted_wrt_map del: upt_rec_numeral)
  moreover have "keys_ok ev_seq (map numbered_event [1..<251]) 250"
    by (auto simp: keys_ok_def o_def numbered_event_def distinct_map inj_on_def simp del: upt_rec_numeral)
  ultimately show ?thesis
    by (auto simp: many_events_def sample_defs db_inv_def tables_ok_defs client_keys_ok_def user_ids_def numbered_event_def keys_ok_def
        simp del: upt_rec_numeral)
qed


end
