(* ===== verification/Group_Ratchet.thy ===== *)
theory Group_Ratchet
  imports Group_E2ee
begin

text \<open>
  The proof that sender and receiver of a group chain stay together: the abstract chain of keys, the
  receiver's invariant with respect to it, and what one delivery does to it.
\<close>

section \<open>The abstract chain\<close>

definition chain :: "ext \<Rightarrow> bytes \<Rightarrow> nat \<Rightarrow> bytes" where
  "chain X seed n = (ratchetChainKey X ^^ n) seed"

definition msg_key :: "ext \<Rightarrow> bytes \<Rightarrow> int \<Rightarrow> bytes" where
  "msg_key X seed k = deriveMessageKey X (chain X seed (nat k)) k"

lemma hkdfSingle_32: "hkdf_32 X \<Longrightarrow> length (hkdfSingle X k s i) = 32"
proof -
  assume "hkdf_32 X"
  then obtain d where "x_hkdf X k s i = Some d" "length d = 32"
    unfolding hkdf_32_def by blast
  then show ?thesis by (simp add: hkdfSingle_def)
qed

lemma not_Nil_32: "length (xs :: bytes) = 32 \<Longrightarrow> xs \<noteq> []"
  by auto

lemma chain_Suc: "chain X seed (Suc n) = ratchetChainKey X (chain X seed n)"
  by (simp add: chain_def)

lemma chain_32: "hkdf_32 X \<Longrightarrow> length seed = 32 \<Longrightarrow> length (chain X seed n) = 32"
  by (induction n) (simp_all add: chain_def ratchetChainKey_def hkdfSingle_32)

lemma ratchet_chain:
  "0 \<le> i \<Longrightarrow> ratchetChainKey X (chain X seed (nat i)) = chain X seed (nat (i + 1))"
  by (simp add: nat_add_distrib chain_Suc)

lemma msg_key_32: "hkdf_32 X \<Longrightarrow> length seed = 32 \<Longrightarrow> 0 \<le> k \<Longrightarrow> length (msg_key X seed k) = 32"
  by (simp add: msg_key_def deriveMessageKey_def chain_32 hkdfSingle_32)

section \<open>The ratchet loop follows the chain\<close>

definition keys_in :: "ext \<Rightarrow> bytes \<Rightarrow> qmap \<Rightarrow> int set \<Rightarrow> bool" where
  "keys_in X seed m S \<longleftrightarrow> qsorted m
     \<and> (\<forall>k. map_of m k = (if k \<in> S then Some (msg_key X seed k) else None))"

lemma keys_in_Nil [simp]: "keys_in X seed [] {}"
  by (simp add: keys_in_def)

lemma keys_in_insert:
  "keys_in X seed m S \<Longrightarrow> keys_in X seed (qinsert k (msg_key X seed k) m) (insert k S)"
  by (auto simp: keys_in_def qinsert_sorted map_of_qinsert)

lemma keys_in_erase: "keys_in X seed m S \<Longrightarrow> keys_in X seed (qerase k m) (S - {k})"
  by (auto simp: keys_in_def qerase_sorted map_of_qerase)

lemma keys_in_union:
  "keys_in X seed m S \<Longrightarrow> keys_in X seed new T \<Longrightarrow> keys_in X seed (qinsert_all new m) (S \<union> T)"
  by (auto simp: keys_in_def qinsert_all_sorted map_of_qinsert_all qsorted_distinct map_add_def)

lemma keys_in_length:
  assumes "keys_in X seed m S"
  shows "length m = card S"
proof -
  have "dom (map_of m) = S"
    using assms by (auto simp: keys_in_def dom_def)
  then show ?thesis
    using assms by (simp add: keys_in_def qsorted_length)
qed

lemma advance_chain:
  assumes "hkdf_32 X" "length seed = 32" "0 \<le> it" "it < target"
    and "keys_in X seed pending {i<..it}" "i \<le> it"
  shows "\<exists>m. advance X True target (chain X seed (nat it)) it pending
    = Some (chain X seed (nat target), target, m) \<and> keys_in X seed m {i<..<target}"
  using assms
proof (induction "nat (target - it)" arbitrary: it pending)
  case (Suc n)
  let ?next = "chain X seed (nat (it + 1))"
  have next32: "length ?next = 32" using Suc.prems by (intro chain_32)
  then have ne: "?next \<noteq> []" by (rule not_Nil_32)
  have key: "deriveMessageKey X ?next (it + 1) = msg_key X seed (it + 1)"
    by (simp add: msg_key_def)
  have kne: "msg_key X seed (it + 1) \<noteq> []"
    using Suc.prems by (intro not_Nil_32 msg_key_32) auto
  show ?case
  proof (cases "it + 1 < target")
    case True
    let ?p = "qinsert (it + 1) (msg_key X seed (it + 1)) pending"
    have "insert (it + 1) {i<..it} = {i<..it + 1}" using Suc.prems by auto
    then have "keys_in X seed ?p {i<..it + 1}"
      using keys_in_insert [of X seed pending "{i<..it}" "it + 1"] Suc.prems by simp
    moreover have "n = nat (target - (it + 1))" using Suc.hyps(2) by simp
    ultimately obtain m where "advance X True target ?next (it + 1) ?p
        = Some (chain X seed (nat target), target, m)" "keys_in X seed m {i<..<target}"
      using Suc.hyps(1) [of "it + 1" ?p] Suc.prems True by auto
    moreover have "advance X True target (chain X seed (nat it)) it pending
        = advance X True target ?next (it + 1) ?p"
      using Suc.prems True ne kne by (subst advance.simps) (simp add: ratchet_chain key Let_def)
    ultimately show ?thesis by simp
  next
    case False
    then have t: "target = it + 1" using Suc.prems by simp
    then have "advance X True target (chain X seed (nat it)) it pending = Some (?next, target, pending)"
      using ne Suc.prems by (subst advance.simps) (simp add: ratchet_chain Let_def advance.simps)
    moreover have "{i<..it} = {i<..<target}" using t by auto
    ultimately show ?thesis using Suc.prems t by simp
  qed
qed simp

lemma advance_from:
  assumes "hkdf_32 X" "length seed = 32" "0 \<le> it" "it < target"
  shows "\<exists>m. advance X True target (chain X seed (nat it)) it []
    = Some (chain X seed (nat target), target, m) \<and> keys_in X seed m {it<..<target}"
  using advance_chain [OF assms(1-4), of "[]" it] by simp

lemma evict_id: "length m \<le> 1000 \<Longrightarrow> evict m = m"
  by (cases m) auto

lemma evict_length: "length (evict m) \<le> 1000"
  by (induction m) auto

section \<open>A genuine message and the receiver's invariant\<close>

definition genuine :: "ext \<Rightarrow> bytes \<Rightarrow> bytes \<Rightarrow> encrypted_message \<Rightarrow> bytes \<Rightarrow> bool" where
  "genuine X seed pub msg pt \<longleftrightarrow> em_valid msg \<and> 0 < em_iteration msg
     \<and> length (em_iv msg) = 12 \<and> 16 \<le> length (em_ciphertext msg) \<and> length (em_signature msg) = 64
     \<and> aesGcmDecrypt X (msg_key X seed (em_iteration msg)) (em_iv msg) (em_ciphertext msg) = pt
     \<and> pt \<noteq> [] \<and> verify X pub (em_iv msg @ em_ciphertext msg) (em_signature msg)"

definition in_step :: "ext \<Rightarrow> bytes \<Rightarrow> receiver \<Rightarrow> int set \<Rightarrow> bool" where
  "in_step X seed rc S \<longleftrightarrow> 0 \<le> rc_iteration rc
     \<and> rc_chainKey rc = chain X seed (nat (rc_iteration rc))
     \<and> S \<subseteq> {1..rc_iteration rc}
     \<and> (\<exists>m. rc_skipped rc = Some m \<and> keys_in X seed m S)"

text \<open>The three cases of a delivery.\<close>

lemma decrypt_cached:
  assumes "hkdf_32 X" "length seed = 32" and "in_step X seed rc S"
    and "genuine X seed pub msg pt" "em_iteration msg \<in> S"
  shows "\<exists>rc'. decryptMessage X pub msg rc = (pt, rc')
    \<and> in_step X seed rc' (S - {em_iteration msg}) \<and> rc_iteration rc' = rc_iteration rc"
proof -
  obtain m where m: "rc_skipped rc = Some m" "keys_in X seed m S"
    using assms(3) by (auto simp: in_step_def)
  then have "map_of m (em_iteration msg) = Some (msg_key X seed (em_iteration msg))"
    using assms(5) by (simp add: keys_in_def)
  moreover have "length (rc_chainKey rc) = 32" "\<not> rc_iteration rc < 0"
    using assms(1-3) by (simp_all add: in_step_def chain_32)
  ultimately have "decryptMessage X pub msg rc
      = (pt, rc\<lparr>rc_skipped := Some (qerase (em_iteration msg) m)\<rparr>)"
    using m(1) assms(4) by (auto simp: decryptMessage_def genuine_def Let_def)
  moreover have "in_step X seed (rc\<lparr>rc_skipped := Some (qerase (em_iteration msg) m)\<rparr>)
      (S - {em_iteration msg})"
    using assms(3) m keys_in_erase [OF m(2)] by (auto simp: in_step_def)
  ultimately show ?thesis by simp
qed

lemma decrypt_used:
  assumes "in_step X seed rc S" and "em_iteration msg \<le> rc_iteration rc" "em_iteration msg \<notin> S"
  shows "decryptMessage X pub msg rc = ([], rc)"
  using assms by (auto simp: decryptMessage_def in_step_def keys_in_def Let_def)

lemma decrypt_ahead:
  assumes "hkdf_32 X" "length seed = 32" and "in_step X seed rc S"
    and "genuine X seed pub msg pt" "rc_iteration rc < em_iteration msg"
    and "em_iteration msg - rc_iteration rc \<le> 2000"
    and "card (S \<union> {rc_iteration rc<..<em_iteration msg}) \<le> 1000"
  shows "\<exists>rc'. decryptMessage X pub msg rc = (pt, rc')
    \<and> in_step X seed rc' (S \<union> {rc_iteration rc<..<em_iteration msg})
    \<and> rc_iteration rc' = em_iteration msg"
proof -
  let ?k = "em_iteration msg" and ?it = "rc_iteration rc"
  obtain m where m: "rc_skipped rc = Some m" "keys_in X seed m S"
    using assms(3) by (auto simp: in_step_def)
  have ck: "rc_chainKey rc = chain X seed (nat ?it)" "0 \<le> ?it" "S \<subseteq> {1..?it}"
    using assms(3) by (simp_all add: in_step_def)
  obtain p where p: "advance X True ?k (chain X seed (nat ?it)) ?it []
      = Some (chain X seed (nat ?k), ?k, p)" "keys_in X seed p {?it<..<?k}"
    using advance_from [OF assms(1,2) ck(2) assms(5)] by blast
  have u: "keys_in X seed (qinsert_all p m) (S \<union> {?it<..<?k})"
    using keys_in_union [OF m(2) p(2)] .
  then have ev: "evict (qinsert_all p m) = qinsert_all p m"
    using assms(7) by (simp add: evict_id keys_in_length)
  have "map_of m ?k = None"
    using m(2) ck(3) assms(5) by (auto simp: keys_in_def)
  moreover have "deriveMessageKey X (chain X seed (nat ?k)) ?k = msg_key X seed ?k"
    by (simp add: msg_key_def)
  moreover have "msg_key X seed ?k \<noteq> []"
    using assms(1,2,4) by (intro not_Nil_32 msg_key_32) (auto simp: genuine_def)
  ultimately have "decryptMessage X pub msg rc
      = (pt, \<lparr>rc_chainKey = chain X seed (nat ?k), rc_iteration = ?k,
             rc_skipped = Some (qinsert_all p m)\<rparr>)"
    using m(1) ck assms(1,2,4-6) p(1) ev
    by (auto simp: decryptMessage_def genuine_def Let_def chain_32)
  moreover have "S \<union> {?it<..<?k} \<subseteq> {1..?k}"
    using ck assms(5) by auto
  ultimately show ?thesis
    using u ck(2) assms(5) by (auto simp: in_step_def)
qed

section \<open>Sending\<close>

text \<open>A run of messages, each with the random IV it got.\<close>

fun encrypt_run :: "ext \<Rightarrow> (bytes \<times> bytes) list \<Rightarrow> sender_key \<Rightarrow> encrypted_message list" where
  "encrypt_run X [] key = []"
| "encrypt_run X ((iv, pt) # ps) key =
     (let (msg, key') = encryptMessage X (Some iv) key pt in msg # encrypt_run X ps key')"

definition sender_at :: "ext \<Rightarrow> bytes \<Rightarrow> bytes \<Rightarrow> bytes \<Rightarrow> int \<Rightarrow> sender_key \<Rightarrow> bool" where
  "sender_at X seed priv pub i key \<longleftrightarrow> sk_valid key \<and> 0 \<le> i \<and> sk_iteration key = i
     \<and> sk_chainKey key = chain X seed (nat i) \<and> sk_privateSigningKey key = priv
     \<and> sk_publicSigningKey key = pub"

lemma encrypt_genuine:
  assumes "hkdf_32 X" "gcm_inverts X" "ed_signs X priv pub"
    and "length seed = 32" "length priv = 32" "length pub = 32"
    and "sender_at X seed priv pub i key" and "length iv = 12" "pt \<noteq> []"
  shows "\<exists>msg key'. encryptMessage X (Some iv) key pt = (msg, key') \<and> genuine X seed pub msg pt
    \<and> em_iteration msg = i + 1 \<and> sender_at X seed priv pub (i + 1) key'"
proof -
  let ?mk = "msg_key X seed (i + 1)"
  have i: "0 \<le> i" using assms(7) by (simp add: sender_at_def)
  have mk: "length ?mk = 32" using assms(1,4) i by (intro msg_key_32) auto
  obtain ct where ct: "aesGcmEncrypt X (Some iv) ?mk pt
      = \<lparr>gr_iv = iv, gr_ciphertext = ct, gr_valid = True\<rparr>"
    "length ct = length pt + 16" "aesGcmDecrypt X ?mk iv ct = pt"
    using aesGcm_inverts [OF assms(2) mk assms(8), of pt] by blast
  obtain s where s: "x_edSign X priv (iv @ ct) = Some s" "length s = 64" "x_edVerify X pub (iv @ ct) s"
    using assms(3) unfolding ed_signs_def by blast
  have iv: "iv \<noteq> []" using assms(8) by auto
  then have sg: "sign X priv (iv @ ct) = s" "verify X pub (iv @ ct) s"
    using s assms(5,6) by (simp_all add: sign_def verify_def)
  have next32: "length (chain X seed (nat (i + 1))) = 32"
    using assms(1,4) by (rule chain_32)
  have key: "deriveMessageKey X (chain X seed (nat (i + 1))) (i + 1) = ?mk"
    by (simp add: msg_key_def)
  have ne: "chain X seed (nat (i + 1)) \<noteq> []" "?mk \<noteq> []" "s \<noteq> []"
    using next32 mk s(2) by auto
  let ?key = "key\<lparr>sk_chainKey := chain X seed (nat (i + 1)), sk_iteration := i + 1\<rparr>"
  have "encryptMessage X (Some iv) key pt
      = (\<lparr>em_keyId = sk_keyId key, em_iteration = i + 1, em_iv = iv, em_ciphertext = ct,
           em_signature = s, em_valid = True\<rparr>, ?key)"
    using assms(7,9) ne ct(1) sg(1) key
    by (simp add: encryptMessage_def sender_at_def Let_def ratchet_chain)
  moreover have "sender_at X seed priv pub (i + 1) ?key"
    using assms(7) by (simp add: sender_at_def)
  ultimately show ?thesis
    using assms(8,9) ct s(2) sg(2) i by (simp add: genuine_def)
qed

lemma encrypt_run_genuine:
  assumes "hkdf_32 X" "gcm_inverts X" "ed_signs X priv pub"
    and "length seed = 32" "length priv = 32" "length pub = 32"
    and "sender_at X seed priv pub i key"
    and "\<forall>(iv, pt)\<in>set ps. length iv = 12 \<and> pt \<noteq> []" and "j < length ps"
  shows "genuine X seed pub (encrypt_run X ps key ! j) (snd (ps ! j))
    \<and> em_iteration (encrypt_run X ps key ! j) = i + int j + 1"
  using assms(7-9)
proof (induction ps arbitrary: i key j)
  case (Cons p ps)
  obtain iv pt where p: "p = (iv, pt)" by force
  obtain msg key' where e: "encryptMessage X (Some iv) key pt = (msg, key')"
    "genuine X seed pub msg pt" "em_iteration msg = i + 1" "sender_at X seed priv pub (i + 1) key'"
    using encrypt_genuine [OF assms(1-6) Cons.prems(1), of iv pt] Cons.prems(2) p by auto
  show ?case
  proof (cases j)
    case 0
    with p e show ?thesis by simp
  next
    case (Suc j')
    with Cons.IH [OF e(4), of j'] Cons.prems p e(1) show ?thesis by simp
  qed
qed simp

section \<open>Receiving\<close>

fun deliver :: "ext \<Rightarrow> bytes \<Rightarrow> encrypted_message list \<Rightarrow> receiver \<Rightarrow> bytes list \<times> receiver" where
  "deliver X pub [] rc = ([], rc)"
| "deliver X pub (m # ms) rc =
     (let (pt, rc1) = decryptMessage X pub m rc; (pts, rc2) = deliver X pub ms rc1
      in (pt # pts, rc2))"

text \<open>What the deliveries of messages \<open>js\<close> ought to give: each one's text the first time.\<close>

fun once :: "(nat \<Rightarrow> 'a list) \<Rightarrow> nat list \<Rightarrow> nat set \<Rightarrow> 'a list list" where
  "once pt [] seen = []"
| "once pt (j # js) seen = (if j \<in> seen then [] else pt j) # once pt js (insert j seen)"

lemma skipped_set:
  fixes it k :: int
  assumes "0 \<le> it" "it < k" and "\<forall>t\<in>T. t \<le> it"
  shows "({1..it} - T) \<union> {it<..<k} = {1..k} - insert k T"
  using assms by force

lemma deliver_once:
  assumes "hkdf_32 X" "length seed = 32" and "n \<le> 1000"
    and msgs: "\<And>j. j < n \<Longrightarrow> genuine X seed pub (f j) (pt j) \<and> em_iteration (f j) = int j + 1"
    and "\<forall>j\<in>set js. j < n"
    and "in_step X seed rc ({1..rc_iteration rc} - (\<lambda>j. int j + 1) ` seen)"
    and "rc_iteration rc \<le> int n" and "\<forall>j\<in>seen. int j + 1 \<le> rc_iteration rc"
  shows "fst (deliver X pub (map f js) rc) = once pt js seen"
  using assms(5-)
proof (induction js arbitrary: rc seen)
  case (Cons j js)
  let ?num = "\<lambda>j :: nat. int j + 1" and ?it = "rc_iteration rc"
  let ?S = "{1..?it} - ?num ` seen"
  note inst = Cons.prems(2) and n = Cons.prems(3) and seen = Cons.prems(4)
  have j: "j < n" using Cons.prems(1) by simp
  note gen = msgs [OF j]
  have it0: "0 \<le> ?it" using inst by (simp add: in_step_def)
  consider (used) "j \<in> seen" | (cached) "j \<notin> seen" "?num j \<le> ?it" | (ahead) "?num j > ?it"
    by linarith
  then show ?case
  proof cases
    case used
    then have "decryptMessage X pub (f j) rc = ([], rc)"
      using decrypt_used [OF inst, of "f j" pub] gen seen by auto
    with used Cons.IH [of rc seen] Cons.prems show ?thesis
      by (simp add: split_beta Let_def insert_absorb)
  next
    case cached
    then have "em_iteration (f j) \<in> ?S" using gen by auto
    then obtain rc' where rc': "decryptMessage X pub (f j) rc = (pt j, rc')"
      "in_step X seed rc' (?S - {?num j})" "rc_iteration rc' = ?it"
      using decrypt_cached [OF assms(1,2) inst conjunct1 [OF gen]] gen by auto
    have "?S - {?num j} = {1..?it} - ?num ` insert j seen" by auto
    with rc' Cons.IH [of rc' "insert j seen"] Cons.prems cached show ?thesis
      by (simp add: split_beta Let_def)
  next
    case ahead
    let ?S' = "?S \<union> {?it<..<?num j}"
    have "?S' \<subseteq> {1..int n}" using n j it0 by auto
    then have "card ?S' \<le> card {1..int n}" by (intro card_mono) auto
    then have card: "card ?S' \<le> 1000" using assms(3) by simp
    have "?num j - ?it \<le> 2000" using j it0 assms(3) by simp
    then obtain rc' where rc': "decryptMessage X pub (f j) rc = (pt j, rc')"
      "in_step X seed rc' ?S'" "rc_iteration rc' = ?num j"
      using decrypt_ahead [OF assms(1,2) inst conjunct1 [OF gen]] gen ahead card by auto
    have S: "?S' = {1..?num j} - ?num ` insert j seen"
      unfolding image_insert using seen ahead it0 by (intro skipped_set) auto
    have nj: "j \<notin> seen" using seen ahead by force
    have "fst (deliver X pub (map f js) rc') = once pt js (insert j seen)"
    proof (rule Cons.IH)
      show "in_step X seed rc' ({1..rc_iteration rc'} - ?num ` insert j seen)"
        using rc' S by (simp only:)
      show "\<forall>i\<in>insert j seen. int i + 1 \<le> rc_iteration rc'"
        using seen ahead rc'(3) by auto
    qed (use Cons.prems(1) j rc'(3) in auto)
    with rc'(1) nj show ?thesis by (simp add: split_beta Let_def)
  qed
qed simp

text \<open>A decryption that gives nothing leaves the receiver as it was, whatever the message is.\<close>

lemma decrypt_fail_closed: "fst (decryptMessage X pub msg rc) = [] \<Longrightarrow> snd (decryptMessage X pub msg rc) = rc"
  by (auto simp: decryptMessage_def Let_def split: if_splits option.splits)

lemma advance_iteration:
  "advance X keep target ck it p = Some (c, i, q) \<Longrightarrow> it \<le> target \<Longrightarrow> i = target"
proof (induction X keep target ck it p rule: advance.induct)
  case (1 X keep target ck it p)
  note eq = advance.simps [of X keep target ck it p]
  show ?case
  proof (cases "it < target")
    case True
    let ?next = "ratchetChainKey X ck"
    let ?p = "if it + 1 < target \<and> keep then qinsert (it + 1) (deriveMessageKey X ?next (it + 1)) p else p"
    have "advance X keep target ?next (it + 1) ?p = Some (c, i, q)" and ne: "?next \<noteq> []"
      and sk: "it + 1 < target \<and> keep \<Longrightarrow> deriveMessageKey X ?next (it + 1) \<noteq> []"
      using "1.prems"(1) True unfolding eq by (auto simp: Let_def split: if_splits)
    with "1.IH" [OF True refl ne] True show ?thesis by (auto simp: Let_def split: if_splits)
  next
    case False
    with "1.prems" show ?thesis unfolding eq by simp
  qed
qed

lemma decrypt_step_bound:
  assumes "fst (decryptMessage X pub msg rc) \<noteq> []"
  shows "rc_iteration (snd (decryptMessage X pub msg rc)) \<le> rc_iteration rc + 2000
    \<and> rc_iteration rc \<le> rc_iteration (snd (decryptMessage X pub msg rc))"
  using assms
  by (auto simp: decryptMessage_def Let_def dest!: advance_iteration split: if_splits option.splits)

lemma decrypt_cache_bound:
  assumes "rc_skipped rc = Some m" "length m \<le> 1000"
    and "rc_skipped (snd (decryptMessage X pub msg rc)) = Some m'"
  shows "length m' \<le> 1000"
proof -
  have "length (qerase k m) \<le> 1000" for k
    using assms(2) le_trans length_filter_le unfolding qerase_def by blast
  with assms show ?thesis
    by (auto simp: decryptMessage_def Let_def evict_length split: if_splits option.splits)
qed

section \<open>Properties\<close>

text \<open>
  Group messages are decrypted exactly once and in any order: when up to 1000 messages of a
  sender key are delivered to a receiver in any order, with any repetitions and omissions, the first
  delivery of each gives its plaintext and every repetition gives nothing.
\<close>

lemma group_any_order_once:
  assumes "hkdf_32 X" "gcm_inverts X" "ed_signs X (sk_privateSigningKey key) (sk_publicSigningKey key)"
    and "sk_valid key" "sk_iteration key = 0" "length (sk_chainKey key) = 32"
    and "length (sk_privateSigningKey key) = 32" "length (sk_publicSigningKey key) = 32"
    and "\<forall>(iv, pt)\<in>set ps. length iv = 12 \<and> pt \<noteq> []" and "length ps \<le> 1000"
    and "\<forall>j\<in>set js. j < length ps"
  shows "fst (deliver X (sk_publicSigningKey key) (map (\<lambda>j. encrypt_run X ps key ! j) js)
      \<lparr>rc_chainKey = sk_chainKey key, rc_iteration = 0, rc_skipped = Some []\<rparr>)
    = once (\<lambda>j. snd (ps ! j)) js {}"
proof (rule deliver_once [OF assms(1,6,10)])
  have "sender_at X (sk_chainKey key) (sk_privateSigningKey key) (sk_publicSigningKey key) 0 key"
    using assms(4,5) by (simp add: sender_at_def chain_def)
  then show "genuine X (sk_chainKey key) (sk_publicSigningKey key) (encrypt_run X ps key ! j) (snd (ps ! j))
      \<and> em_iteration (encrypt_run X ps key ! j) = int j + 1" if "j < length ps" for j
    using encrypt_run_genuine [OF assms(1-3,6-8)] assms(9) that by fastforce
qed (use assms(11) in \<open>simp_all add: in_step_def chain_def\<close>)

lemma group_any_order_once_witness:
  "fst (deliver sample_ext (replicate 32 1)
      (map (\<lambda>j. encrypt_run sample_ext [(replicate 12 0, [5]), (replicate 12 0, [6])]
        \<lparr>sk_keyId = ''k'', sk_chainKey = replicate 32 2, sk_publicSigningKey = replicate 32 1,
         sk_privateSigningKey = replicate 32 1, sk_iteration = 0, sk_valid = True\<rparr> ! j) [1, 0, 1])
      \<lparr>rc_chainKey = replicate 32 2, rc_iteration = 0, rc_skipped = Some []\<rparr>) = [[6], [5], []]"
  using group_any_order_once [of sample_ext
      "\<lparr>sk_keyId = ''k'', sk_chainKey = replicate 32 2, sk_publicSigningKey = replicate 32 1,
         sk_privateSigningKey = replicate 32 1, sk_iteration = 0, sk_valid = True\<rparr>"
      "[(replicate 12 0, [5]), (replicate 12 0, [6])]" "[1, 0, 1]"] sample_ext_ok(1,2,3)
  by simp

text \<open>
  C9: decryption of a group message is fail-closed and bounded: a message that does not decrypt and
  verify leaves the chain key, the iteration and the cached keys as they were; one that does moves
  the chain forward by at most 2000 steps; and the cache never exceeds its 1000 entries.
\<close>

theorem group_decrypt_fail_closed:
  assumes "rc_skipped rc = Some m" and "length m \<le> MaxSkippedMessageKeys"
    and "decryptMessage X pub msg rc = (pt, rc')"
  shows "(pt = [] \<longrightarrow> rc' = rc)
    \<and> rc_iteration rc \<le> rc_iteration rc' \<and> rc_iteration rc' \<le> rc_iteration rc + MaxRatchetSteps
    \<and> (\<forall>m'. rc_skipped rc' = Some m' \<longrightarrow> length m' \<le> MaxSkippedMessageKeys)"
  using decrypt_fail_closed [of X pub msg rc] decrypt_step_bound [of X pub msg rc]
    decrypt_cache_bound [of rc m X pub msg] assms
  by (cases "pt = []") auto

theorem group_decrypt_fail_closed_witness:
  "snd (decryptMessage sample_ext [] no_message
     \<lparr>rc_chainKey = replicate 32 2, rc_iteration = 3, rc_skipped = Some []\<rparr>)
   = \<lparr>rc_chainKey = replicate 32 2, rc_iteration = 3, rc_skipped = Some []\<rparr>"
  using group_decrypt_fail_closed [of "\<lparr>rc_chainKey = replicate 32 2, rc_iteration = 3, rc_skipped = Some []\<rparr>"
      "[]" sample_ext "[]" no_message "fst (decryptMessage sample_ext [] no_message
        \<lparr>rc_chainKey = replicate 32 2, rc_iteration = 3, rc_skipped = Some []\<rparr>)"]
  by (simp add: no_message_def decryptMessage_def)

end
