(* ===== verification/Group_Delivery.thy ===== *)
theory Group_Delivery
  imports Local_Properties Client_System Group_Ratchet
begin

text \<open>
  The messages of a group from one client to another: what a sender's client seals, a receiver's client
  reads through its local store, which keeps the chain key and the skipped keys encrypted between the
  messages.
\<close>

section \<open>The receiver's state in the store\<close>

lemma qinsert_last: "\<forall>x\<in>fst ` set m. x < k \<Longrightarrow> qinsert k v m = m @ [(k, v)]"
  by (induction k v m rule: qinsert.induct) auto

lemma qinsert_all_append:
  "qsorted (m @ new) \<Longrightarrow> qinsert_all new m = m @ new"
proof (induction new arbitrary: m)
  case (Cons p new)
  obtain k v where p: "p = (k, v)" by force
  have "\<forall>x\<in>fst ` set m. x < k"
    using Cons.prems p by (auto simp: qsorted_def sorted_wrt_append)
  then have "qinsert_all (p # new) m = qinsert_all new (m @ [(k, v)])"
    by (simp add: qinsert_all_def p qinsert_last)
  also have "\<dots> = (m @ [(k, v)]) @ new"
    using Cons.prems p by (intro Cons.IH) simp
  finally show ?case by (simp add: p)
qed (simp add: qinsert_all_def)

text \<open>A map of skipped keys whose JSON text reads back.\<close>

definition skipped_object :: "ext \<Rightarrow> qmap \<Rightarrow> jobj" where
  "skipped_object X m = map (\<lambda>(i, k). (number i, JStr (x_toBase64 X k))) m"

definition storable :: "ext \<Rightarrow> qmap \<Rightarrow> bool" where
  "storable X m \<longleftrightarrow> qsorted m \<and> (\<forall>(i, k)\<in>set m. 0 < i \<and> i < 2 ^ 31 \<and> k \<noteq> [])
     \<and> (m \<noteq> [] \<longrightarrow> json_text_inverts X (skipped_object X m))"

lemma skipped_entries:
  assumes "\<And>b. base64_inverts X b" and "\<forall>(i, k)\<in>set m. 0 < i \<and> i < 2 ^ 31 \<and> k \<noteq> []"
  shows "List.map_filter (skipped_entry X) (skipped_object X m) = m"
  using assms(2)
proof (induction m)
  case (Cons p m)
  obtain i k where p: "p = (i, k)" by force
  then have "parse_int 32 (number i) = Some i" "k \<noteq> []" "0 < i"
    using Cons.prems parse_number [of i 32] by auto
  then have "skipped_entry X (number i, JStr (x_toBase64 X k)) = Some p"
    using assms(1) [of k] by (simp add: skipped_entry_def Let_def p base64_inverts_def)
  with Cons show ?case by (simp add: skipped_object_def p List.map_filter_def)
qed (simp add: skipped_object_def List.map_filter_def)

text \<open>The store holds the receiver's chain key, iteration and skipped keys of one sender key.\<close>

definition holds :: "ext \<Rightarrow> key_place \<Rightarrow> bytes \<Rightarrow> receiver \<Rightarrow> local_store \<Rightarrow> bool" where
  "holds X = (\<lambda>(g, u, d, k) pub rc s. ready s \<and> ls_faults s = []
     \<and> loadSenderKey X g u d k s = (True, rc_chainKey rc, pub, [], rc_iteration rc)
     \<and> rc_skipped rc = Some (loadSkippedMessageKeys X g u d k s))"

lemma holds_place: "holds X (g, u, d, k) pub rc s \<Longrightarrow> g > 0 \<and> u > 0 \<and> d \<noteq> [] \<and> k \<noteq> [] \<and> ls_open s
    \<and> length pub = 32 \<and> length (rc_chainKey rc) = 32"
  by (auto simp: holds_def loadSenderKey_def Let_def split: if_splits option.splits)

lemma load_tables:
  assumes "lt_senderKeys (tables s) = lt_senderKeys (tables s')" "lt_skipped (tables s) = lt_skipped (tables s')"
    and "ls_open s = ls_open s'" "ls_storageKey s = ls_storageKey s'"
  shows "loadSenderKey X g u d k s = loadSenderKey X g u d k s'"
    "loadSkippedMessageKeys X g u d k s = loadSkippedMessageKeys X g u d k s'"
  using assms decryptText_key [OF assms(4)]
  by (simp_all add: loadSenderKey_def loadSkippedMessageKeys_def Let_def split: option.split)

lemma skipped_saved:
  assumes "crypto_ok L" "ready s" "ls_faults s = []" "storable (le_ext L) m"
    and "g > 0" "u > 0" "d \<noteq> []" "k \<noteq> []"
  defines "s' \<equiv> snd (saveSkippedMessageKeys L g u d k m s)"
  shows "loadSkippedMessageKeys (le_ext L) g u d k s' = m"
    and "lt_senderKeys (tables s') = lt_senderKeys (tables s)" "ready s'" "ls_faults s' = []"
    "ls_storageKey s' = ls_storageKey s"
proof -
  let ?X = "le_ext L" and ?place = "(g, u, d, k)"
  let ?enc = "encryptText L 0 (skipped_text ?X m) s"
  have key: "length (ls_storageKey s) = 32" and op: "ls_open s" using assms(2) by (simp_all add: ready_def)
  have b: "base64_inverts ?X x" "utf8_inverts ?X t" for x t
    using assms(1) by (simp_all add: crypto_ok_def)
  have t: "skipped_text ?X m = x_compact ?X (JObj (skipped_object ?X m))"
    using b(2) by (simp add: skipped_text_def text_of_def utf8_inverts_def skipped_object_def)
  have none: "map_of (delete_where (\<lambda>s. fst s = ?place) kvs) ?place = None" for kvs
    by (auto simp: map_of_eq_None_iff)
  have "loadSkippedMessageKeys ?X g u d k s' = m \<and> lt_senderKeys (tables s') = lt_senderKeys (tables s)
    \<and> ready s' \<and> ls_faults s' = [] \<and> ls_storageKey s' = ls_storageKey s"
  proof (cases "m = []")
    case True
    have sel: "lt_skipped (t\<lparr>lt_skipped := x\<rparr>) = x" for t x by simp
    have eq: "(\<lambda>(p, e). p = ?place) = (\<lambda>s. fst s = ?place)" by auto
    have s': "s' = set_tables ((tables s)\<lparr>lt_skipped := delete_where (\<lambda>s. fst s = ?place) (lt_skipped (tables s))\<rparr>) s"
      using True assms(3,5-8) by (simp add: s'_def saveSkippedMessageKeys_def with_db_ready [OF assms(2)]
          run_stmt_no_fault Let_def eq)
    have "lt_skipped (tables s') = delete_where (\<lambda>s. fst s = ?place) (lt_skipped (tables s))"
      unfolding s' tables_simps sel ..
    then have "map_of (lt_skipped (tables s')) ?place = None" by (simp only: none)
    then have "loadSkippedMessageKeys ?X g u d k s' = []" by (simp add: loadSkippedMessageKeys_def)
    with True assms(2,3) show ?thesis by (simp add: s' ready_def)
  next
    case False
    have j: "x_utf8 ?X (skipped_text ?X m) \<noteq> []"
      "object_of ?X (x_utf8 ?X (skipped_text ?X m)) = skipped_object ?X m"
      using assms(4) False by (simp_all add: storable_def json_text_inverts_def t object_of_def)
    then have ne: "skipped_text ?X m \<noteq> []" using b(2) [of "skipped_text ?X m"] by (auto simp: utf8_inverts_def)
    note e = decrypt_encrypt [OF assms(1) ne key, of 0]
    have s': "s' = set_tables ((tables s)\<lparr>lt_skipped := replace_row fst (?place, ?enc) (lt_skipped (tables s))\<rparr>) s"
      using False e(1) assms(3,5-8) by (simp add: s'_def saveSkippedMessageKeys_def with_db_ready [OF assms(2)]
          run_stmt_no_fault Let_def)
    have f: "map_of (lt_skipped (tables s')) ?place = Some ?enc"
      unfolding s' replace_row_def by (simp add: map_add_def none)
    have "decryptText ?X ?enc s' = skipped_text ?X m"
      using e(2) decryptText_key [of s' s] by (simp add: s')
    moreover have "ls_open s'" using op by (simp add: s')
    ultimately have "loadSkippedMessageKeys ?X g u d k s'
        = qinsert_all (List.map_filter (skipped_entry ?X) (skipped_object ?X m)) []"
      using f ne j(2) assms(5-8) by (simp add: loadSkippedMessageKeys_def Let_def)
    also have "\<dots> = m"
      using assms(4) skipped_entries [of ?X m] b(1) qinsert_all_append [of "[]" m] by (simp add: storable_def)
    finally show ?thesis using assms(2,3) by (simp add: s' ready_def)
  qed
  then show "loadSkippedMessageKeys ?X g u d k s' = m" "lt_senderKeys (tables s') = lt_senderKeys (tables s)"
    "ready s'" "ls_faults s' = []" "ls_storageKey s' = ls_storageKey s" by blast+
qed

lemma chain_saved:
  fixes L :: lenv and it :: int
  assumes "crypto_ok L" "ready s" "ls_faults s = []" "g > 0" "u > 0" "d \<noteq> []" "k \<noteq> []"
    and "length ck = 32" "length pub = 32"
  defines "s' \<equiv> snd (saveSenderKey L g u d k ck pub [] it s)"
  shows "loadSenderKey (le_ext L) g u d k s' = (True, ck, pub, [], it)"
    and "lt_skipped (tables s') = lt_skipped (tables s)" "ready s'" "ls_faults s' = []"
    "ls_storageKey s' = ls_storageKey s"
proof -
  have ne: "ck \<noteq> []" "pub \<noteq> []" using assms(8,9) by auto
  then have b: "x_toBase64 (le_ext L) ck \<noteq> []" using assms(1) by (simp add: crypto_ok_def)
  have "encryptText L 0 (x_toBase64 (le_ext L) ck) s \<noteq> []"
    using decrypt_encrypt(1) [OF assms(1) b] assms(2) by (simp add: ready_def)
  then have ok: "\<exists>f. saveSenderKey L g u d k ck pub [] it s = (True, set_tables (f (tables s)) s)
      \<and> lt_skipped (f (tables s)) = lt_skipped (tables s)"
    using assms(3-7) ne by (auto simp: saveSenderKey_def with_db_ready [OF assms(2)] run_stmt_no_fault Let_def)
  then show "lt_skipped (tables s') = lt_skipped (tables s)" "ready s'" "ls_faults s' = []"
    "ls_storageKey s' = ls_storageKey s"
    using assms(2,3) by (auto simp: s'_def ready_def)
  have "fst (saveSenderKey L g u d k ck pub [] it s)" using ok by auto
  from sender_key_roundtrip [OF assms(1,2) this assms(8,9)]
  show "loadSenderKey (le_ext L) g u d k s' = (True, ck, pub, [], it)" by (simp add: s'_def)
qed

definition store_works :: "cenv \<Rightarrow> bool" where
  "store_works E \<longleftrightarrow> (\<forall>c. crypto_ok (lenv_at E c))"

lemma lenv_ext [simp]: "le_ext (lenv_at E c) = ce_ext E"
  by (simp add: lenv_at_def)

lemma files_frame: "tables (s\<lparr>ls_files := f\<rparr>) = tables s" "ready (s\<lparr>ls_files := f\<rparr>) = ready s"
  by (simp_all add: tables_def store_path_def ready_def)

lemma content_saved:
  fixes L :: lenv and i :: nat and mid :: ident and t :: string
  assumes "ready s" "ls_faults s = []"
  defines "s' \<equiv> snd (saveDecryptedContent L i mid t s)"
  shows "ready s'" "ls_faults s' = []" "lt_senderKeys (tables s') = lt_senderKeys (tables s)"
    "lt_skipped (tables s') = lt_skipped (tables s)" "ls_storageKey s' = ls_storageKey s"
  using assms by (auto simp: saveDecryptedContent_def with_db_ready run_stmt_no_fault Let_def ready_def)

lemma remembered:
  fixes E :: cenv and mid :: ident and t :: string
  assumes "ready (cl_store c)" "ls_faults (cl_store c) = []"
  defines "s \<equiv> cl_store c" and "s' \<equiv> cl_store (remember_text E mid t c)"
  shows "ready s' \<and> ls_faults s' = [] \<and> lt_senderKeys (tables s') = lt_senderKeys (tables s)
    \<and> lt_skipped (tables s') = lt_skipped (tables s) \<and> ls_storageKey s' = ls_storageKey s"
proof -
  have c: "cl_store (cache_put mid t c) = s" by (simp add: cache_put_def s_def)
  show ?thesis
    using content_saved [OF assms(1,2)] assms(1,2) c
    by (auto simp: s'_def s_def remember_text_def on_store_def on_files_def Let_def split_beta files_frame)
qed

section \<open>One message\<close>

lemma received:
  assumes "store_works E" "holds (ce_ext E) (g, u, dev, k) pub rc (cl_store c)"
    and "decodeGroupMessage (ce_ext E) (jstr (jget msg ''content'')) = (True, m, Some dev)" "em_keyId m = k"
    and "jlonglong (jget msg ''conversationId'') = g" "jlonglong (jget msg ''senderId'') = u"
    and dec: "decryptMessage (ce_ext E) pub m rc = (plain, rc')"
  shows "plain = [] \<Longrightarrow> decryptGroupMessageObject E msg c = (False, undecryptable_msg msg, c)"
    and "plain \<noteq> [] \<Longrightarrow> rc_skipped rc' = Some m' \<Longrightarrow> storable (ce_ext E) m' \<Longrightarrow> length (rc_chainKey rc') = 32 \<Longrightarrow>
      \<exists>c'. decryptGroupMessageObject E msg c = (True, jset ''content'' (JStr (x_fromUtf8 (ce_ext E) plain)) msg, c')
        \<and> holds (ce_ext E) (g, u, dev, k) pub rc' (cl_store c')"
proof -
  let ?X = "ce_ext E"
  note place = holds_place [OF assms(2)]
  have h: "ready (cl_store c)" "ls_faults (cl_store c) = []"
    "loadSenderKey ?X g u dev k (cl_store c) = (True, rc_chainKey rc, pub, [], rc_iteration rc)"
    "rc_skipped rc = Some (loadSkippedMessageKeys ?X g u dev k (cl_store c))"
    using assms(2) by (simp_all add: holds_def)
  have rc: "\<lparr>rc_chainKey = rc_chainKey rc, rc_iteration = rc_iteration rc,
      rc_skipped = Some (loadSkippedMessageKeys ?X g u dev k (cl_store c))\<rparr> = rc"
    using h(4) by (cases rc) simp
  note def = decryptGroupMessageObject_def Let_def assms(3-6) prod.case option.case bool.case
  show "decryptGroupMessageObject E msg c = (False, undecryptable_msg msg, c)" if "plain = []"
    using place h(3) rc dec that by (simp add: def)
  assume p: "plain \<noteq> []" and m': "rc_skipped rc' = Some m'" "storable ?X m'" "length (rc_chainKey rc') = 32"
  let ?sk = "loadSkippedMessageKeys ?X g u dev k (cl_store c)"
  let ?c1 = "remember_text E (jlonglong (jget msg ''messageId'')) (x_fromUtf8 ?X plain) c"
  let ?c2 = "do_store E (\<lambda>L. saveSenderKey L g u dev k (rc_chainKey rc') pub [] (rc_iteration rc')) ?c1"
  let ?c3 = "if ls_open (cl_store ?c2) \<and> (m' \<noteq> [] \<or> ?sk \<noteq> [])
    then do_store E (\<lambda>L. saveSkippedMessageKeys L g u dev k m') ?c2 else ?c2"
  have L: "crypto_ok (lenv_at E c)" for c using assms(1) by (simp add: store_works_def)
  note r = remembered [OF h(1,2), of E "jlonglong (jget msg ''messageId'')" "x_fromUtf8 ?X plain"]
  have s2: "cl_store ?c2 = snd (saveSenderKey (lenv_at E ?c1) g u dev k (rc_chainKey rc') pub [] (rc_iteration rc') (cl_store ?c1))"
    by (simp add: on_store_def split_beta)
  note cs = chain_saved [OF L conjunct1 [OF r] conjunct1 [OF conjunct2 [OF r]], of g u dev k "rc_chainKey rc'" pub ?c1
      "rc_iteration rc'"]
  have c2: "loadSenderKey ?X g u dev k (cl_store ?c2) = (True, rc_chainKey rc', pub, [], rc_iteration rc')"
    "lt_skipped (tables (cl_store ?c2)) = lt_skipped (tables (cl_store c))" "ready (cl_store ?c2)"
    "ls_faults (cl_store ?c2) = []" "ls_storageKey (cl_store ?c2) = ls_storageKey (cl_store c)"
    unfolding s2 using cs r place m'(3) by simp_all
  have "holds ?X (g, u, dev, k) pub rc' (cl_store ?c3)"
  proof (cases "m' \<noteq> [] \<or> ?sk \<noteq> []")
    case True
    let ?s3 = "snd (saveSkippedMessageKeys (lenv_at E ?c2) g u dev k m' (cl_store ?c2))"
    have "storable (le_ext (lenv_at E ?c2)) m'" using m'(2) by simp
    note sv = skipped_saved [OF L c2(3,4) this, of g u dev k]
    have "loadSenderKey ?X g u dev k ?s3 = loadSenderKey ?X g u dev k (cl_store ?c2)"
      using sv(2,3,5) c2(3) place
      by (simp add: loadSenderKey_def ready_def decryptText_key [of ?s3 "cl_store ?c2"] Let_def split: option.split)
    then have "holds ?X (g, u, dev, k) pub rc' ?s3"
      using sv(1,3,4) c2(1) place m'(1) by (simp add: holds_def)
    moreover have "cl_store ?c3 = ?s3" using True c2(3) by (simp add: ready_def on_store_def split_beta)
    ultimately show ?thesis by simp
  next
    case False
    have "loadSkippedMessageKeys ?X g u dev k (cl_store ?c2) = ?sk"
      using c2(2,3,5) place decryptText_key [OF c2(5)]
      by (simp add: loadSkippedMessageKeys_def ready_def Let_def split: option.split)
    with False c2 m'(1) show ?thesis by (simp add: holds_def)
  qed
  moreover have "decryptGroupMessageObject E msg c = (True, jset ''content'' (JStr (x_fromUtf8 ?X plain)) msg, ?c3)"
    using place h(3) rc dec p m'(1) by (auto simp: def)
  ultimately show "\<exists>c'. decryptGroupMessageObject E msg c = (True, jset ''content'' (JStr (x_fromUtf8 ?X plain)) msg, c')
      \<and> holds ?X (g, u, dev, k) pub rc' (cl_store c')" by blast
qed

section \<open>How the receiver comes to hold the key\<close>

text \<open>A distribution that is accepted puts the chain key that its entry carries into the store, at
  iteration 0; with a key that is new no skipped keys are there.\<close>

lemma distribution_gives_key:
  fixes E :: cenv and msg :: jobj and d :: client
  defines "dist \<equiv> snd (decodeDistribution (ce_ext E) (jstr (jget msg ''content'')))"
  assumes "store_works E" "fst (processGroupSenderKeyDistribution E msg d)"
    and own: "own_chain_key E (di_entries dist) d = (b64, d1)" "ready (cl_store d1)" "ls_faults (cl_store d1) = []"
    and pub: "sk_publicSigningKey (di_key dist) = pub" "length pub = 32" "sk_keyId (di_key dist) \<noteq> []"
    and new: "loadSkippedMessageKeys (ce_ext E) (di_groupId dist) (di_senderUserId dist) (di_senderDeviceId dist)
      (sk_keyId (di_key dist)) (cl_store d1) = []"
  shows "holds (ce_ext E) (di_groupId dist, di_senderUserId dist, di_senderDeviceId dist, sk_keyId (di_key dist)) pub
    \<lparr>rc_chainKey = x_fromBase64 (ce_ext E) (chars_of b64), rc_iteration = sk_iteration (di_key dist), rc_skipped = Some []\<rparr>
    (cl_store (snd (processGroupSenderKeyDistribution E msg d)))"
proof -
  let ?p = "processGroupSenderKeyDistribution E msg d" and ?X = "ce_ext E"
  let ?g = "di_groupId dist" and ?u = "di_senderUserId dist" and ?dev = "di_senderDeviceId dist"
    and ?k = "sk_keyId (di_key dist)" and ?ck = "x_fromBase64 ?X (chars_of b64)"
  have L: "crypto_ok (lenv_at E d1)" using assms(2) by (simp add: store_works_def)
  have g: "?g > 0" "?u > 0" "?dev \<noteq> []" "length ?ck = 32"
    using assms(3) own(1) unfolding processGroupSenderKeyDistribution_def Let_def dist_def [symmetric] split_beta
    by (auto split: if_splits)
  have p: "cl_store (snd ?p) = snd (saveSenderKey (lenv_at E d1) ?g ?u ?dev ?k ?ck pub [] (sk_iteration (di_key dist)) (cl_store d1))"
    using assms(3) own g pub(1) unfolding processGroupSenderKeyDistribution_def Let_def dist_def [symmetric] split_beta
    by (auto simp: on_store_def split_beta ready_def split: if_splits)
  note cs = chain_saved [OF L own(2,3) g(1-3) pub(3) g(4) pub(2), of "sk_iteration (di_key dist)", folded p]
  have "loadSkippedMessageKeys ?X ?g ?u ?dev ?k (cl_store (snd ?p))
      = loadSkippedMessageKeys ?X ?g ?u ?dev ?k (cl_store d1)"
    using cs(2,3,5) own(2) decryptText_key [OF cs(5)]
    by (simp add: loadSkippedMessageKeys_def ready_def Let_def split: option.split)
  then have "loadSkippedMessageKeys ?X ?g ?u ?dev ?k (cl_store (snd ?p)) = []" by (simp only: new)
  with cs show ?thesis by (simp add: holds_def)
qed

section \<open>Any sequence of messages\<close>

text \<open>The texts that a client reads from the messages given to it; a refused one gives nothing.\<close>

fun receive_all :: "(cenv \<times> jobj) list \<Rightarrow> client \<Rightarrow> string list \<times> client" where
  "receive_all [] c = ([], c)"
| "receive_all ((E, msg) # ms) c =
     (let (ok, msg1, c1) = decryptGroupMessageObject E msg c; (ts, c2) = receive_all ms c1
      in ((if ok then jstr (jget msg1 ''content'') else []) # ts, c2))"

lemma decrypt_in_step:
  assumes "hkdf_32 X" "length seed = 32" "in_step X seed rc S" "rc_iteration rc \<le> int n" "n \<le> 1000"
    and "genuine X seed pub msg pt" "em_iteration msg \<le> int n"
  shows "\<exists>S'. in_step X seed (snd (decryptMessage X pub msg rc)) S'
    \<and> rc_iteration (snd (decryptMessage X pub msg rc)) \<le> int n"
proof -
  have rc: "0 \<le> rc_iteration rc" "S \<subseteq> {1..rc_iteration rc}" using assms(3) by (simp_all add: in_step_def)
  consider "em_iteration msg \<in> S" | "em_iteration msg \<le> rc_iteration rc" "em_iteration msg \<notin> S"
    | "rc_iteration rc < em_iteration msg" by linarith
  then show ?thesis
  proof cases
    case 1
    then show ?thesis using decrypt_cached [OF assms(1-3,6)] assms(4) by auto
  next
    case 2
    then show ?thesis using decrypt_used [OF assms(3)] assms(3,4) by auto
  next
    case 3
    have "S \<union> {rc_iteration rc<..<em_iteration msg} \<subseteq> {1..int n}" using rc assms(4,7) by auto
    then have "card (S \<union> {rc_iteration rc<..<em_iteration msg}) \<le> card {1..int n}" by (intro card_mono) auto
    then have "card (S \<union> {rc_iteration rc<..<em_iteration msg}) \<le> 1000" using assms(5) by simp
    moreover have "em_iteration msg - rc_iteration rc \<le> 2000" using rc assms(5,7) by simp
    ultimately show ?thesis using decrypt_ahead [OF assms(1-3,6) 3] assms(7) by auto
  qed
qed

text \<open>The skipped keys of the first \<open>n\<close> messages can be stored.\<close>

definition keys_storable :: "ext \<Rightarrow> bytes \<Rightarrow> nat \<Rightarrow> bool" where
  "keys_storable X seed n \<longleftrightarrow> (\<forall>m S. S \<subseteq> {1..int n} \<longrightarrow> keys_in X seed m S \<longrightarrow> m \<noteq> [] \<longrightarrow>
     json_text_inverts X (skipped_object X m))"

lemma in_step_storable:
  assumes "hkdf_32 X" "length seed = 32" "in_step X seed rc S" "rc_iteration rc \<le> int n" "n \<le> 1000"
    and "keys_storable X seed n" "rc_skipped rc = Some m"
  shows "storable X m \<and> length (rc_chainKey rc) = 32"
proof -
  have m: "keys_in X seed m S" "S \<subseteq> {1..int n}" "qsorted m" "rc_chainKey rc = chain X seed (nat (rc_iteration rc))"
    using assms(3,4,7) by (auto simp: in_step_def keys_in_def)
  have "0 < i \<and> i < 2 ^ 31 \<and> k \<noteq> []" if "(i, k) \<in> set m" for i k
  proof -
    have "map_of m i = Some k" using that m(3) by (simp add: qsorted_distinct)
    then have i: "i \<in> S" "k = msg_key X seed i" using m(1) by (auto simp: keys_in_def split: if_splits)
    then have "0 < i" "i \<le> 1000" using m(2) assms(5) by auto
    moreover from this have "length k = 32" using i assms(1,2) by (simp add: msg_key_32)
    ultimately show ?thesis by auto
  qed
  then show ?thesis
    using m assms(1,2,6) by (auto simp: storable_def keys_storable_def chain_32)
qed

text \<open>A message object that carries a sealed message of a sender to a group.\<close>

definition carries :: "ext \<Rightarrow> key_place \<Rightarrow> encrypted_message \<Rightarrow> jobj \<Rightarrow> bool" where
  "carries X = (\<lambda>(g, u, d, k) m msg. decodeGroupMessage X (jstr (jget msg ''content'')) = (True, m, Some d)
     \<and> em_keyId m = k \<and> jlonglong (jget msg ''conversationId'') = g \<and> jlonglong (jget msg ''senderId'') = u)"

text \<open>The client with its store reads what the ratchet in memory reads.\<close>

lemma receive_refines:
  assumes "hkdf_32 X" "length seed = 32" "n \<le> 1000" "keys_storable X seed n"
    and "holds X (g, u, dev, k) pub rc (cl_store c)" "in_step X seed rc S" "rc_iteration rc \<le> int n"
    and "\<forall>(E, m, msg)\<in>set ds. store_works E \<and> ce_ext E = X \<and> carries X (g, u, dev, k) m msg
      \<and> (\<exists>pt. genuine X seed pub m pt) \<and> em_iteration m \<le> int n"
    and "x_fromUtf8 X [] = []"
  shows "fst (receive_all (map (\<lambda>(E, m, msg). (E, msg)) ds) c)
    = map (x_fromUtf8 X) (fst (deliver X pub (map (\<lambda>(E, m, msg). m) ds) rc))"
  using assms(5-8)
proof (induction ds arbitrary: rc c S)
  case (Cons d ds)
  obtain E m msg where d: "d = (E, m, msg)" by (cases d)
  have h: "store_works E" "ce_ext E = X" "carries X (g, u, dev, k) m msg" "em_iteration m \<le> int n"
    and gen: "\<exists>pt. genuine X seed pub m pt" using Cons.prems(4) by (auto simp: d)
  obtain pt where gen: "genuine X seed pub m pt" using gen by blast
  have car: "decodeGroupMessage (ce_ext E) (jstr (jget msg ''content'')) = (True, m, Some dev)" "em_keyId m = k"
    "jlonglong (jget msg ''conversationId'') = g" "jlonglong (jget msg ''senderId'') = u"
    using h(2,3) by (simp_all add: carries_def)
  obtain plain rc' where dec: "decryptMessage X pub m rc = (plain, rc')" by force
  obtain S' where S': "in_step X seed rc' S'" "rc_iteration rc' \<le> int n"
    using decrypt_in_step [OF assms(1,2) Cons.prems(2,3) assms(3) gen h(4)] dec by auto
  obtain m' where m': "rc_skipped rc' = Some m'" using S'(1) by (auto simp: in_step_def)
  note st = in_step_storable [OF assms(1,2) S' assms(3,4) m']
  note rcv = received [OF h(1) Cons.prems(1) [folded h(2)] car dec [folded h(2)]]
  have rest: "\<forall>(E, m, msg)\<in>set ds. store_works E \<and> ce_ext E = X \<and> carries X (g, u, dev, k) m msg
      \<and> (\<exists>pt. genuine X seed pub m pt) \<and> em_iteration m \<le> int n"
    using Cons.prems(4) by simp
  show ?case
  proof (cases "plain = []")
    case True
    have "rc' = rc" using decrypt_fail_closed [of X pub m rc] dec True by simp
    with True Cons.IH [OF Cons.prems(1-3) rest] rcv(1) dec assms(9) show ?thesis
      by (simp add: d Let_def split_beta)
  next
    case False
    obtain c' where c': "decryptGroupMessageObject E msg c = (True, jset ''content'' (JStr (x_fromUtf8 X plain)) msg, c')"
      "holds X (g, u, dev, k) pub rc' (cl_store c')"
      using rcv(2) [OF False m'] st h(2) by auto
    with Cons.IH [OF c'(2) S' rest] dec show ?thesis
      by (simp add: d Let_def split_beta)
  qed
qed simp

section \<open>The sender\<close>

text \<open>A client that seals texts for a group one after the other: what it sends, and the sealed messages
  that are in it.\<close>

fun send_all :: "(cenv \<times> string) list \<Rightarrow> ident \<Rightarrow> client \<Rightarrow> string list" where
  "send_all [] g c = []"
| "send_all ((E, t) # ts) g c = (let (s, c1) = encryptGroupMessage E g t c in s # send_all ts g c1)"

fun sealed_all :: "(cenv \<times> string) list \<Rightarrow> ident \<Rightarrow> client \<Rightarrow> encrypted_message list" where
  "sealed_all [] g c = []"
| "sealed_all ((E, t) # ts) g c =
     (case cl_groupKeys c g of None \<Rightarrow> no_message
      | Some key \<Rightarrow> fst (encryptMessage (ce_ext E) (ce_random E (cl_draws c) 0) key (x_utf8 (ce_ext E) t)))
     # sealed_all ts g (snd (encryptGroupMessage E g t c))"

definition group_sender :: "ext \<Rightarrow> key_place \<Rightarrow> bytes \<Rightarrow> bytes \<Rightarrow> bytes \<Rightarrow> int \<Rightarrow> client \<Rightarrow> bool" where
  "group_sender X = (\<lambda>(g, u, dev, k) seed priv pub i c. g > 0 \<and> 0 < cl_userId c \<and> cl_userId c = u
     \<and> cl_deviceId c = dev \<and> dev \<noteq> []
     \<and> (\<exists>key. cl_groupKeys c g = Some key \<and> sender_at X seed priv pub i key \<and> sk_keyId key = k))"

lemma draws_iv:
  assumes "store_works E"
  shows "\<exists>iv. ce_random E n 0 = Some iv \<and> length iv = 12"
proof -
  define c :: client where "c = undefined\<lparr>cl_draws := n\<rparr>"
  have "crypto_ok (lenv_at E c)" using assms by (simp add: store_works_def)
  then show ?thesis by (simp add: crypto_ok_def lenv_at_def c_def)
qed

lemma encrypt_keyId: "em_valid (fst (encryptMessage X r key pt)) \<Longrightarrow> em_keyId (fst (encryptMessage X r key pt)) = sk_keyId key"
  "sk_keyId (snd (encryptMessage X r key pt)) = sk_keyId key"
  by (auto simp: encryptMessage_def no_message_def Let_def split: if_splits)

lemma save_own_key_frame:
  "cl_userId (save_own_key E g key c) = cl_userId c" "cl_deviceId (save_own_key E g key c) = cl_deviceId c"
  "cl_groupKeys (save_own_key E g key c) g = Some key"
  by (simp_all add: save_own_key_def on_store_def Let_def split_beta)

lemma sent_one:
  assumes "hkdf_32 X" "gcm_inverts X" "ed_signs X priv pub"
    and "length seed = 32" "length priv = 32" "length pub = 32"
    and "group_sender X (g, u, dev, k) seed priv pub i c" "store_works E" "ce_ext E = X" "x_utf8 X t \<noteq> []"
  defines "m \<equiv> hd (sealed_all [(E, t)] g c)" and "c1 \<equiv> snd (encryptGroupMessage E g t c)"
  shows "fst (encryptGroupMessage E g t c) = x_compact X (JObj (encodeGroupMessage X m dev))"
    "genuine X seed pub m (x_utf8 X t)" "em_iteration m = i + 1" "em_keyId m = k"
    "group_sender X (g, u, dev, k) seed priv pub (i + 1) c1"
proof -
  obtain key where key: "cl_groupKeys c g = Some key" "sender_at X seed priv pub i key" "sk_keyId key = k"
    and c: "g > 0" "0 < cl_userId c" "cl_userId c = u" "cl_deviceId c = dev" "dev \<noteq> []"
    using assms(7) by (auto simp: group_sender_def)
  obtain iv where iv: "ce_random E (cl_draws c) 0 = Some iv" "length iv = 12"
    using draws_iv [OF assms(8)] by blast
  obtain m' key' where e: "encryptMessage X (Some iv) key (x_utf8 X t) = (m', key')" "genuine X seed pub m' (x_utf8 X t)"
    "em_iteration m' = i + 1" "sender_at X seed priv pub (i + 1) key'"
    using encrypt_genuine [OF assms(1-6) key(2) iv(2) assms(10)] by blast
  have m: "m = m'" using e(1) key(1) iv(1) assms(9) by (simp add: m_def)
  have valid: "sk_valid key" "em_valid m'" using key(2) e(2) by (simp_all add: sender_at_def genuine_def)
  have ids: "em_keyId m' = k" "sk_keyId key' = k"
    using encrypt_keyId [of X "Some iv" key "x_utf8 X t"] e(1) valid(2) key(3) by simp_all
  have "ensureGroupSenderKey E g c = (Some key, c)"
    using c key(1) valid(1) by (simp add: ensureGroupSenderKey_def)
  then have run: "encryptGroupMessage E g t c
      = (x_compact X (JObj (encodeGroupMessage X m' dev)),
         save_own_key E g key' (c\<lparr>cl_draws := cl_draws c + 1\<rparr>))"
    using key(1) valid iv(1) e(1) assms(9) c(4)
    by (simp add: encryptGroupMessage_def draw_def Let_def envelope_text_def save_own_key_frame)
  show "fst (encryptGroupMessage E g t c) = x_compact X (JObj (encodeGroupMessage X m dev))" by (simp add: run m)
  show "genuine X seed pub m (x_utf8 X t)" "em_iteration m = i + 1" "em_keyId m = k"
    using e(2,3) ids(1) by (simp_all add: m)
  show "group_sender X (g, u, dev, k) seed priv pub (i + 1) c1"
    using c e(4) ids(2) by (auto simp: c1_def run group_sender_def save_own_key_frame)
qed

lemma sent_all:
  assumes "hkdf_32 X" "gcm_inverts X" "ed_signs X priv pub"
    and "length seed = 32" "length priv = 32" "length pub = 32"
    and "group_sender X (g, u, dev, k) seed priv pub i c"
    and "\<forall>(E, t)\<in>set ts. store_works E \<and> ce_ext E = X \<and> x_utf8 X t \<noteq> []" and "j < length ts"
  shows "send_all ts g c ! j = x_compact X (JObj (encodeGroupMessage X (sealed_all ts g c ! j) dev))
    \<and> genuine X seed pub (sealed_all ts g c ! j) (x_utf8 X (snd (ts ! j)))
    \<and> em_iteration (sealed_all ts g c ! j) = i + int j + 1 \<and> em_keyId (sealed_all ts g c ! j) = k"
  using assms(7-9)
proof (induction ts arbitrary: i c j)
  case (Cons p ts)
  obtain E t where p: "p = (E, t)" by force
  have E: "store_works E" "ce_ext E = X" "x_utf8 X t \<noteq> []" using Cons.prems(2) by (simp_all add: p)
  note one = sent_one [OF assms(1-6) Cons.prems(1) E]
  show ?case
  proof (cases j)
    case 0
    with one show ?thesis by (simp add: p split_beta)
  next
    case (Suc j')
    have "\<forall>(E, t)\<in>set ts. store_works E \<and> ce_ext E = X \<and> x_utf8 X t \<noteq> []" "j' < length ts"
      using Cons.prems(2,3) Suc by simp_all
    from Cons.IH [OF one(5) this] show ?thesis by (simp add: p Suc split_beta)
  qed
qed simp

lemma send_length: "length (send_all ts g c) = length ts" "length (sealed_all ts g c) = length ts"
  by (induction ts arbitrary: c) (auto simp: split_beta)

lemma decode_group_message:
  assumes "x_parse X s = Some (JObj (encodeGroupMessage X m dev))" "\<And>b. base64_inverts X b"
    and "genuine X seed pub m pt" "em_iteration m \<le> 1000" "em_keyId m \<noteq> []"
  shows "decodeGroupMessage X s = (True, m, Some dev)"
  using assms
  by (cases m) (simp add: decodeGroupMessage_def encodeGroupMessage_def genuine_def jint_or_def
      base64_inverts_def jget_def)

section \<open>From the sender to the receiver\<close>

lemma map_once:
  "f [] = [] \<Longrightarrow> \<forall>j\<in>set js. f (pt j) = pt' j \<Longrightarrow> map f (once pt js seen) = once pt' js seen"
  by (induction js arbitrary: seen) auto

text \<open>
  C4: a member of a group reads every message of another member once, whatever way the messages come.
  When the client of the sender seals up to 1000 texts with a sender key that the store of the receiver
  holds, and the server hands the messages over in any order, with repetitions and omissions, then the
  receiver reads from each the text that was sent the first time it sees the message and refuses every
  repetition, with the chain key and the skipped keys going through its encrypted store in between.
\<close>

theorem group_messages_read_once:
  fixes c d :: client and ts :: "(cenv \<times> string) list" and ds :: "(cenv \<times> nat \<times> jobj) list"
  assumes "hkdf_32 X" "gcm_inverts X" "ed_signs X priv pub"
    and "length seed = 32" "length priv = 32" "length pub = 32"
    and "group_sender X (g, u, dev, k) seed priv pub 0 c"
    and "holds X (g, u, dev, k) pub \<lparr>rc_chainKey = seed, rc_iteration = 0, rc_skipped = Some []\<rparr> (cl_store d)"
    and "\<forall>(E, t)\<in>set ts. store_works E \<and> ce_ext E = X \<and> t \<noteq> []" and "length ts \<le> 1000"
    and "keys_storable X seed (length ts)"
    and "\<forall>m\<in>set (sealed_all ts g c). json_inverts X (JObj (encodeGroupMessage X m dev))"
    and "\<forall>(E, j, msg)\<in>set ds. store_works E \<and> ce_ext E = X \<and> j < length ts
      \<and> jget msg ''content'' = JStr (send_all ts g c ! j)
      \<and> jlonglong (jget msg ''conversationId'') = g \<and> jlonglong (jget msg ''senderId'') = u"
  shows "fst (receive_all (map (\<lambda>(E, j, msg). (E, msg)) ds) d)
    = once (\<lambda>j. snd (ts ! j)) (map (\<lambda>(E, j, msg). j) ds) {}"
proof (cases "ds = []")
  case False
  then obtain E0 where E0: "store_works E0" "ce_ext E0 = X" using assms(13) by (cases ds) auto
  have "crypto_ok (lenv_at E0 d)" using E0(1) by (simp add: store_works_def)
  then have lib: "base64_inverts X b" "utf8_inverts X t" for b t by (simp_all add: crypto_ok_def E0(2))
  have nil: "x_fromUtf8 X [] = []" by (metis lib(2) utf8_inverts_def)
  let ?n = "length ts" and ?f = "\<lambda>j. sealed_all ts g c ! j" and ?pt = "\<lambda>j. x_utf8 X (snd (ts ! j))"
  let ?rc = "\<lparr>rc_chainKey = seed, rc_iteration = 0, rc_skipped = Some []\<rparr>"
  let ?js = "map (\<lambda>(E, j, msg). j) ds"
  have "\<forall>(E, t)\<in>set ts. store_works E \<and> ce_ext E = X \<and> x_utf8 X t \<noteq> []"
    using assms(9) lib(2) by (auto simp: utf8_inverts_def)
  from sent_all [OF assms(1-7) this]
  have sent: "send_all ts g c ! j = x_compact X (JObj (encodeGroupMessage X (?f j) dev))"
    "genuine X seed pub (?f j) (?pt j)" "em_iteration (?f j) = int j + 1" "em_keyId (?f j) = k" if "j < ?n" for j
    using that by simp_all
  have step: "in_step X seed ?rc ({1..rc_iteration ?rc} - (\<lambda>j. int j + 1) ` {})"
    by (simp add: in_step_def chain_def)
  have place: "k \<noteq> []" using holds_place [OF assms(8)] by simp
  have carried: "carries X (g, u, dev, k) (?f j) msg" if "(E, j, msg) \<in> set ds" for E j msg
  proof -
    have j: "j < ?n" and msg: "jget msg ''content'' = JStr (send_all ts g c ! j)"
      "jlonglong (jget msg ''conversationId'') = g" "jlonglong (jget msg ''senderId'') = u"
      using assms(13) that by auto
    have "?f j \<in> set (sealed_all ts g c)" using j by (simp add: send_length)
    then have "x_parse X (send_all ts g c ! j) = Some (JObj (encodeGroupMessage X (?f j) dev))"
      using assms(12) sent(1) [OF j] by (simp add: json_inverts_def)
    from decode_group_message [OF this lib(1) sent(2) [OF j]] show ?thesis
      using sent(3,4) [OF j] msg j assms(10) place by (simp add: carries_def)
  qed
  let ?ds = "map (\<lambda>(E, j, msg). (E, ?f j, msg)) ds"
  have all: "\<forall>(E, m, msg)\<in>set ?ds. store_works E \<and> ce_ext E = X \<and> carries X (g, u, dev, k) m msg
      \<and> (\<exists>pt. genuine X seed pub m pt) \<and> em_iteration m \<le> int ?n"
  proof (rule ballI)
    fix x assume "x \<in> set ?ds"
    then obtain E j msg where x: "x = (E, ?f j, msg)" "(E, j, msg) \<in> set ds" by auto
    then have j: "j < ?n" "store_works E" "ce_ext E = X" using assms(13) by auto
    then show "case x of (E, m, msg) \<Rightarrow> store_works E \<and> ce_ext E = X \<and> carries X (g, u, dev, k) m msg
        \<and> (\<exists>pt. genuine X seed pub m pt) \<and> em_iteration m \<le> int ?n"
      using carried [OF x(2)] sent(2,3) [OF j(1)] by (auto simp: x(1))
  qed
  have "rc_iteration ?rc \<le> int ?n" by simp
  from receive_refines [OF assms(1,4,10,11,8) step this all nil]
  have "fst (receive_all (map (\<lambda>(E, m, msg). (E, msg)) ?ds) d)
      = map (x_fromUtf8 X) (fst (deliver X pub (map (\<lambda>(E, m, msg). m) ?ds) ?rc))" .
  moreover have "map (\<lambda>(E, m, msg). (E, msg)) ?ds = map (\<lambda>(E, j, msg). (E, msg)) ds"
    "map (\<lambda>(E, m, msg). m) ?ds = map ?f ?js"
    by (auto simp: split_beta)
  moreover have "fst (deliver X pub (map ?f ?js) ?rc) = once ?pt ?js {}"
  proof (rule deliver_once [OF assms(1,4,10) _ _ step])
    show "\<forall>j\<in>set ?js. j < ?n" using assms(13) by auto
  qed (use sent in simp_all)
  moreover have "map (x_fromUtf8 X) (once ?pt ?js {}) = once (\<lambda>j. snd (ts ! j)) ?js {}"
    using lib(2) nil by (intro map_once) (simp_all add: utf8_inverts_def)
  ultimately show ?thesis by (simp only:)
qed simp

text \<open>A library that knows the texts of two messages and of the keys that can be skipped; the second message
  comes first and then once more.\<close>

definition two_sealed :: "nat \<Rightarrow> byte \<Rightarrow> encrypted_message" where
  "two_sealed i b = \<lparr>em_keyId = ''k'', em_iteration = int i, em_iv = replicate 12 1, em_ciphertext = b # replicate 16 0,
     em_signature = replicate 64 0, em_valid = True\<rparr>"

definition hex_ext :: ext where
  "hex_ext = sample_ext\<lparr>x_toBase64 := to_hex, x_fromBase64 := from_hex\<rparr>"

definition two_text :: "json \<Rightarrow> string" where
  "two_text j = (let ob = jobject j in
     if jlonglong (jget ob ''v'') = 1 then ''m'' @ number (jlonglong (jget ob ''iteration''))
     else ''s'' @ concat (map fst ob))"

definition two_ext :: ext where
  "two_ext = hex_ext\<lparr>x_compact := two_text,
     x_parse := (\<lambda>s. if s = ''m1'' then Some (JObj (encodeGroupMessage hex_ext (two_sealed 1 97) ''d''))
       else if s = ''m2'' then Some (JObj (encodeGroupMessage hex_ext (two_sealed 2 98) ''d'')) else None),
     x_fromJson := (\<lambda>b. if b = bytes_of ''s1'' then Some (JObj (skipped_object hex_ext [(1, replicate 32 2)]))
       else if b = bytes_of ''s2'' then Some (JObj (skipped_object hex_ext [(2, replicate 32 2)]))
       else Some (JObj (skipped_object hex_ext [(1, replicate 32 2), (2, replicate 32 2)])))\<rparr>"

definition two_env :: cenv where
  "two_env = \<lparr>ce_ext = two_ext, ce_now = 100, ce_uuid = (\<lambda>n. replicate n CHR ''x''),
     ce_x25519 = (\<lambda>n. None), ce_ed25519 = (\<lambda>n. None), ce_random = (\<lambda>n k. Some (replicate 12 1)), ce_part = 0,
     ce_driver = False, ce_deviceId = ''d'', ce_platform = ''linux'', ce_plaintext = False, ce_iso = (\<lambda>t. None)\<rparr>"

definition two_key :: sender_key where
  "two_key = \<lparr>sk_keyId = ''k'', sk_chainKey = replicate 32 2, sk_publicSigningKey = replicate 32 1,
     sk_privateSigningKey = replicate 32 1, sk_iteration = 0, sk_valid = True\<rparr>"

definition two_sender :: client where
  "two_sender = (new_client True (sample_store\<lparr>ls_open := False\<rparr>))\<lparr>cl_userId := 1, cl_deviceId := ''d'',
     cl_groupKeys := [1 \<mapsto> two_key]\<rparr>"

definition two_receiver :: client where
  "two_receiver = new_client True (snd (saveSenderKey (lenv_at two_env two_sender) 1 1 ''d'' ''k'' (replicate 32 2)
     (replicate 32 1) [] 0 sample_store))"

definition handed_over :: "string \<Rightarrow> jobj" where
  "handed_over s = [(''content'', JStr s), (''conversationId'', JNum 1), (''senderId'', JNum 1)]"

lemma two_selectors:
  "x_utf8 two_ext = bytes_of" "x_fromUtf8 two_ext = chars_of" "x_toBase64 two_ext = to_hex" "x_fromBase64 two_ext = from_hex"
  "x_hkdf two_ext = (\<lambda>k s i. Some (take 32 (k @ replicate 32 0)))"
  "x_gcmSeal two_ext = (\<lambda>k iv p. Some (p @ replicate 16 0))" "x_gcmOpen two_ext = (\<lambda>k iv c. Some (take (length c - 16) c))"
  "x_edSign two_ext = (\<lambda>k m. Some (replicate 64 0))" "x_edVerify two_ext = (\<lambda>p m s. True)" "x_compact two_ext = two_text"
  "ce_ext two_env = two_ext" "ce_random two_env = (\<lambda>n k. Some (replicate 12 1))"
  by (simp_all add: two_ext_def hex_ext_def sample_ext_def two_env_def)

lemma two_libraries: "hkdf_32 two_ext" "gcm_inverts two_ext" "ed_signs two_ext priv pub" "store_works two_env"
proof -
  show "hkdf_32 two_ext" "gcm_inverts two_ext" "ed_signs two_ext priv pub"
    by (simp_all add: hkdf_32_def gcm_inverts_def ed_signs_def two_selectors min_def)
  have "utf8_inverts two_ext s" for s
    using sample_ext_ok(6) [of s] by (simp add: utf8_inverts_def two_selectors sample_ext_def)
  then show "store_works two_env"
    using \<open>gcm_inverts two_ext\<close>
    by (simp add: store_works_def crypto_ok_def lenv_at_def two_selectors base64_inverts_def to_hex_no_colon)
qed

lemma two_chain: "chain two_ext (replicate 32 2) n = replicate 32 2"
proof (induction n)
  case (Suc n)
  then show ?case by (simp add: chain_Suc ratchetChainKey_def hkdfSingle_def two_selectors)
qed (simp add: chain_def)

lemma two_msg_key: "0 \<le> i \<Longrightarrow> msg_key two_ext (replicate 32 2) i = replicate 32 2"
  by (simp add: msg_key_def two_chain deriveMessageKey_def hkdfSingle_def two_selectors)

lemma two_keys_storable: "keys_storable two_ext (replicate 32 2) 2"
  unfolding keys_storable_def
proof (intro allI impI)
  fix m S assume S: "S \<subseteq> {1..int 2}" and m: "keys_in two_ext (replicate 32 2) m S" "m \<noteq> []"
  have mem: "i \<in> {1, 2} \<and> k = replicate 32 2" if "(i, k) \<in> set m" for i k
  proof -
    have "qsorted m" using m(1) by (simp add: keys_in_def)
    then have "map_of m i = Some k" using that by (simp add: qsorted_distinct)
    then have "i \<in> S" "k = msg_key two_ext (replicate 32 2) i"
      using m(1) by (auto simp: keys_in_def split: if_splits)
    moreover from this have "1 \<le> i" "i \<le> 2" using S by auto
    ultimately show ?thesis by (auto simp: two_msg_key)
  qed
  have sorted: "sorted_wrt (<) (map fst m)" using m(1) by (simp add: keys_in_def qsorted_def)
  have "m = [(1, replicate 32 2)] \<or> m = [(2, replicate 32 2)] \<or> m = [(1, replicate 32 2), (2, replicate 32 2)]"
  proof (cases m)
    case (Cons p r)
    show ?thesis
    proof (cases r)
      case Nil
      with Cons mem show ?thesis by (cases p) auto
    next
      case r: (Cons q r')
      have "r' = []"
      proof (rule ccontr)
        assume "r' \<noteq> []"
        then obtain z where "z \<in> set r'" by (cases r') auto
        with Cons r sorted mem [of "fst p" "snd p"] mem [of "fst q" "snd q"] mem [of "fst z" "snd z"] show False by auto
      qed
      with Cons r mem [of "fst p" "snd p"] mem [of "fst q" "snd q"] sorted show ?thesis
        by (cases p; cases q) auto
    qed
  qed (use m(2) in simp)
  moreover have "number 1 = ''1''" "number 2 = ''2''" by code_simp+
  ultimately show "json_text_inverts two_ext (skipped_object two_ext m)"
    by (elim disjE) (simp_all add: json_text_inverts_def two_ext_def hex_ext_def sample_ext_def skipped_object_def
        two_text_def jget_def jlonglong_def bytes_of_def Let_def)
qed

lemma two_sealed_run: "sealed_all [(two_env, ''a''), (two_env, ''b'')] 1 two_sender = [two_sealed 1 97, two_sealed 2 98]"
proof -
  have r: "ratchetChainKey two_ext (replicate 32 2) = replicate 32 2" "deriveMessageKey two_ext (replicate 32 2) i = replicate 32 2"
    if "0 \<le> i" for i
    using that by (simp_all add: ratchetChainKey_def deriveMessageKey_def hkdfSingle_def two_selectors)
  have e: "encryptMessage two_ext (Some (replicate 12 1)) (two_key\<lparr>sk_iteration := int i\<rparr>) (bytes_of [ch])
      = (two_sealed (Suc i) (hd (bytes_of [ch])), two_key\<lparr>sk_iteration := int (Suc i)\<rparr>)" for i ch
    using r [of "int i + 1"] by (simp add: encryptMessage_def two_key_def aesGcmEncrypt_def sign_def two_selectors
        two_sealed_def bytes_of_def Let_def)
  have z: "two_key\<lparr>sk_iteration := 0\<rparr> = two_key" by (simp add: two_key_def)
  have e0: "encryptMessage two_ext (Some (replicate 12 1)) two_key (bytes_of ''a'')
      = (two_sealed 1 (hd (bytes_of ''a'')), two_key\<lparr>sk_iteration := 1\<rparr>)"
    using e [of 0 "CHR ''a''"] by (simp add: z)
  have e1: "encryptMessage two_ext (Some (replicate 12 1)) (two_key\<lparr>sk_iteration := 1\<rparr>) (bytes_of ''b'')
      = (two_sealed 2 (hd (bytes_of ''b'')), two_key\<lparr>sk_iteration := 2\<rparr>)"
    using e [of 1 "CHR ''b''"] by (simp add: numeral_2_eq_2)
  have v: "sk_valid two_key" "em_valid (two_sealed i b)" for i b by (simp_all add: two_key_def two_sealed_def)
  have bs: "hd (bytes_of ''a'') = 97" "hd (bytes_of ''b'') = 98" by (simp_all add: bytes_of_def)
  show ?thesis
    using e0 e1 v bs
    by (simp add: two_selectors two_sender_def new_client_def sample_store_def encryptGroupMessage_def ensureGroupSenderKey_def
        draw_def save_own_key_def Let_def split_beta)
qed

lemma two_holds:
  "holds two_ext (1, 1, ''d'', ''k'') (replicate 32 1)
     \<lparr>rc_chainKey = replicate 32 2, rc_iteration = 0, rc_skipped = Some []\<rparr> (cl_store two_receiver)"
proof -
  let ?L = "lenv_at two_env two_sender"
  have L: "crypto_ok ?L" using two_libraries(4) by (simp add: store_works_def)
  have f: "ls_faults sample_store = []" by (simp add: sample_store_def)
  have st: "cl_store two_receiver = snd (saveSenderKey ?L 1 1 ''d'' ''k'' (replicate 32 2) (replicate 32 1) [] 0 sample_store)"
    by (simp add: two_receiver_def new_client_def)
  note cs = chain_saved [OF L sample_ready(1) f, of 1 1 "''d''" "''k''" "replicate 32 2" "replicate 32 1" 0,
      simplified, folded st]
  have "lt_skipped (tables (cl_store two_receiver)) = []" using cs(2) by (simp add: sample_ready(2) empty_tables_def)
  then have "loadSkippedMessageKeys two_ext 1 1 ''d'' ''k'' (cl_store two_receiver) = []"
    by (simp add: loadSkippedMessageKeys_def)
  with cs show ?thesis by (simp add: holds_def two_selectors(11))
qed

theorem group_messages_read_once_witness:
  "let ts = [(two_env, ''a''), (two_env, ''b'')]; sent = (\<lambda>j. (two_env, handed_over (send_all ts 1 two_sender ! j)))
   in fst (receive_all [sent 1, sent 0, sent 1] two_receiver) = [''b'', ''a'', []]"
proof -
  let ?ts = "[(two_env, ''a''), (two_env, ''b'')]"
  let ?d = "\<lambda>j. (two_env, j, handed_over (send_all ?ts 1 two_sender ! j))"
  let ?ds = "[?d 1, ?d 0, ?d 1]"
  have sender: "group_sender two_ext (1, 1, ''d'', ''k'') (replicate 32 2) (replicate 32 1) (replicate 32 1) 0 two_sender"
    by (simp add: group_sender_def two_sender_def new_client_def sender_at_def two_key_def chain_def)
  have len: "length ?ts = 2" by simp
  have ts: "\<forall>(E, t)\<in>set ?ts. store_works E \<and> ce_ext E = two_ext \<and> t \<noteq> []"
    by (simp add: two_libraries(4) two_selectors(11))
  have n: "number 1 = ''1''" "number 2 = ''2''" by code_simp+
  have b: "x_toBase64 two_ext = x_toBase64 hex_ext" by (simp add: two_selectors hex_ext_def)
  have json: "\<forall>m\<in>set (sealed_all ?ts 1 two_sender). json_inverts two_ext (JObj (encodeGroupMessage two_ext m ''d''))"
    unfolding two_sealed_run
    by (simp add: json_inverts_def two_selectors(10) two_text_def encodeGroupMessage_def two_sealed_def jget_def
        jlonglong_def Let_def b) (simp add: two_ext_def n encodeGroupMessage_def two_sealed_def)
  have ds: "\<forall>(E, j, msg)\<in>set ?ds. store_works E \<and> ce_ext E = two_ext \<and> j < length ?ts
      \<and> jget msg ''content'' = JStr (send_all ?ts 1 two_sender ! j)
      \<and> jlonglong (jget msg ''conversationId'') = 1 \<and> jlonglong (jget msg ''senderId'') = 1"
    by (simp add: two_libraries(4) two_selectors(11) handed_over_def jget_def jlonglong_def del: send_all.simps)
  have "keys_storable two_ext (replicate 32 2) (length ?ts)" unfolding len by (rule two_keys_storable)
  from group_messages_read_once [OF two_libraries(1-3) _ _ _ sender two_holds ts _ this json ds]
  show ?thesis by (simp add: Let_def del: send_all.simps receive_all.simps)
qed

end
