(* ===== verification/Client_Server.thy ===== *)
theory Client_Server
  imports Client_Properties Account_Properties
begin

text \<open>
  The client and the server on one connection: what the client writes is what RequestHandler reads, and
  its replies are what NetworkManager reads. The two agree on the session after a login; a request the
  client makes then passes both gates of the server; a renewal of the token moves both sides to the new
  one.
\<close>

section \<open>What the sending of a client leaves alone\<close>

text \<open>The fields that say who the client is.\<close>

definition who :: "client \<Rightarrow> client_state \<times> string \<times> ident \<times> string \<times> string" where
  "who c = (cl_state c, cl_token c, cl_userId c, cl_deviceId c, cl_username c)"

lemma who_updates [simp]:
  "who (cl_pending_update f1 c) = who c" "who (cl_outs_update f2 c) = who c"
  "who (cl_draws_update f3 c) = who c" "who (cl_nextId_update f4 c) = who c"
  "who (cl_store_update f5 c) = who c" "who (cl_outbox_update f6 c) = who c"
  "who (cl_inFlight_update f7 c) = who c" "who (cl_identity_update f8 c) = who c"
  "who (cl_prekeys_update f9 c) = who c" "who (cl_ready_update f10 c) = who c"
  "who (cl_bootstrapping_update f11 c) = who c" "who (cl_fetchTarget_update f12 c) = who c"
  "who (cl_cache_update f13 c) = who c" "who (cl_cacheLoaded_update f14 c) = who c"
  "who (cl_groupTarget_update f15 c) = who c" "who (cl_groupKeys_update f16 c) = who c"
  "who (cl_healQueue_update f17 c) = who c" "who (cl_renewTimer_update f18 c) = who c"
  "who (cl_buffer_update f19 c) = who c" "who (cl_expiresAt_update f20 c) = who c"
  "who (cl_loginQueued_update f21 c) = who c" "who (cl_expiredNotified_update f22 c) = who c"
  by (simp_all add: who_def)

lemma who_selectors: "who c = who d \<Longrightarrow> cl_state c = cl_state d \<and> cl_token c = cl_token d
    \<and> cl_userId c = cl_userId d \<and> cl_deviceId c = cl_deviceId d \<and> cl_username c = cl_username d"
  by (simp add: who_def)

lemma who_primitives [simp]:
  "who (cemit x c) = who c" "who (csignal s c) = who c" "who (set_pending p i c) = who c"
  "who (snd (draw f c)) = who c" "who (snd (nextRequestId c)) = who c"
  "who (snd (addReplayProtection E json c)) = who c" "who (send_packet X mt rid json c) = who c"
  "who (snd (on_store E g c)) = who c" "who (snd (on_files h c)) = who c" "who (inflight_put rid cid c) = who c"
  by (simp_all add: cemit_def csignal_def set_pending_def draw_def nextRequestId_def addReplayProtection_def
      send_packet_def on_store_def on_files_def inflight_put_def Let_def split_beta)

lemma who_send_request [simp]:
  "(\<And>rid v. who (note rid v) = who v) \<Longrightarrow> who (send_request E mt json note c) = who c"
  by (simp add: send_request_def Let_def split_beta)

lemma who_keys [simp]:
  "who (snd (fresh_pair E c)) = who c" "who (save_prekeys E c) = who c" "who (save_identity E c) = who c"
  "who (save_own_key E g k c) = who c"
  by (simp_all add: fresh_pair_def save_prekeys_def save_identity_def save_own_key_def Let_def split_beta)

lemma who_make_prekeys [simp]: "who (snd (make_prekeys E n c)) = who c"
  by (induction n arbitrary: c) (simp_all add: Let_def split_beta)

lemma who_sendRegisterKeysRequest [simp]: "who (sendRegisterKeysRequest E c) = who c"
  by (simp add: sendRegisterKeysRequest_def Let_def split_beta)

lemma who_load_identity [simp]: "who (load_identity E c) = who c"
  by (simp add: load_identity_def Let_def split_beta)

lemma who_bootstrapE2ee [simp]: "who (bootstrapE2ee E c) = who c"
  by (simp add: bootstrapE2ee_def Let_def)

lemma who_ensureGroupSenderKey [simp]: "who (snd (ensureGroupSenderKey E g c)) = who c"
  by (simp add: ensureGroupSenderKey_def Let_def split_beta split: option.split)

lemma who_encryptGroupMessage [simp]: "who (snd (encryptGroupMessage E g t c)) = who c"
  using who_ensureGroupSenderKey [of E g c]
  by (simp add: encryptGroupMessage_def Let_def split_beta split: option.split prod.split)

lemma who_fetches [simp]:
  "who (sendFetchGroupKeysRequest E g c) = who c" "who (sendFetchKeysRequest E u c) = who c"
  by (simp_all add: sendFetchGroupKeysRequest_def sendFetchKeysRequest_def)

lemma who_flush_groups [simp]: "who (snd (flush_groups E sent is c)) = who c"
proof (induction "is" arbitrary: c)
  case (Cons i "is")
  then show ?case
    using who_ensureGroupSenderKey [of E "oi_convId i" c]
    by (simp add: Let_def split_beta split: option.split prod.split)
qed simp

lemma who_flush_targets [simp]: "who (flush_targets E ts c) = who c"
  by (induction ts arbitrary: c) simp_all

lemma who_flushOutbox [simp]: "who (flushOutbox E c) = who c"
  by (simp add: flushOutbox_def Let_def split_beta)

lemma who_drainHealQueue [simp]: "who (drainHealQueue E c) = who c"
  by (simp add: drainHealQueue_def split: list.split)

lemma who_login_steps [simp]:
  "who (emitCachedConversations E c) = who c" "who (syncEvents E seq limit c) = who c"
  "who (snd (open_store_as E u d c)) = who c"
  by (simp_all add: open_store_as_def emitCachedConversations_def syncEvents_def ask_def Let_def)

lemma who_openLocalStore [simp]: "who (openLocalStore E c) = who c"
proof -
  have c1: "who (if P then let c' = do_store E clearUserData c in c'\<lparr>cl_store := f c'\<rparr> else c) = who c" for P f
    by (simp add: Let_def)
  have c2: "who (snd (if P then (True, v) else open_store_as E (cl_username v) (cl_deviceId v) v)) = who v" for P v
    by simp
  show ?thesis
    unfolding openLocalStore_def
    by (subst Let_def) (auto simp only: split_beta Let_def who_updates who_login_steps who_primitives c2 c1 
        split: if_split)
qed

lemma who_scheduleTokenRenew [simp]: "who (scheduleTokenRenew E c) = who c"
  by (simp add: scheduleTokenRenew_def Let_def)

section \<open>The wire between them\<close>

text \<open>The bytes an output of the client puts on its socket (\<open>wire\<close> is the same for the server); a
  heartbeat and its answer have no payload.\<close>

fun client_wire :: "ext \<Rightarrow> cout \<Rightarrow> bytes" where
  "client_wire X (Request mt rid json) = encode (mk_packet mt rid (text_of X json))"
| "client_wire X (HeartbeatPing rid) = encode (mk_packet Ping rid [])"
| "client_wire X (PongTo rid) = encode (mk_packet Pong rid [])"
| "client_wire X _ = []"

text \<open>The outputs of a connection that go to its own client, not through the server.\<close>

fun to_client :: "out \<Rightarrow> bool" where
  "to_client (Reply rid mt code msg data) = True"
| "to_client (PongReply rid) = True"
| "to_client x = False"

definition client_bytes :: "ext \<Rightarrow> client \<Rightarrow> bytes" where
  "client_bytes X c = concat (map (client_wire X) (cl_outs c))"

definition server_bytes :: "ext \<Rightarrow> world \<Rightarrow> bytes" where
  "server_bytes X w = concat (map (wire X) (filter to_client (w_outs w)))"

text \<open>What the client has written arrives at the server; what the server has answered arrives at the client.\<close>

definition serve :: "(nat \<Rightarrow> env) \<Rightarrow> client \<Rightarrow> world \<Rightarrow> world" where
  "serve es c w = onReadyRead es (client_bytes (e_ext (es 0)) c) (w\<lparr>w_outs := []\<rparr>)"

definition hear :: "(nat \<Rightarrow> cenv) \<Rightarrow> world \<Rightarrow> client \<Rightarrow> client" where
  "hear Cs w c = client_onReadyRead Cs (server_bytes (ce_ext (Cs 0)) w) (c\<lparr>cl_outs := []\<rparr>)"

definition fits :: "ext \<Rightarrow> jobj \<Rightarrow> bool" where
  "fits X ob \<longleftrightarrow> length (text_of X ob) \<le> unat MaxPayloadSize"

text \<open>The documented behaviour of QJsonDocument on the texts in transit: they read back as the objects they
  were written from. A reply also has to fit into a packet: the server drops it silently otherwise.\<close>

fun legible_request :: "ext \<Rightarrow> cout \<Rightarrow> bool" where
  "legible_request X (Request mt rid json) = json_text_inverts X json"
| "legible_request X x = True"

fun legible_reply :: "ext \<Rightarrow> out \<Rightarrow> bool" where
  "legible_reply X (Reply rid mt code msg data)
     = (json_text_inverts X (response_object code msg data) \<and> fits X (response_object code msg data))"
| "legible_reply X x = True"

definition legible :: "ext \<Rightarrow> client \<Rightarrow> world \<Rightarrow> bool" where
  "legible X c w \<longleftrightarrow> (\<forall>x\<in>set (cl_outs c). legible_request X x) \<and> (\<forall>x\<in>set (w_outs w). legible_reply X x)"

lemma legible_replyD:
  assumes "legible X c w" and "filter to_client (w_outs w) = [Reply rid mt code msg data]"
  shows "json_text_inverts X (response_object code msg data)" "fits X (response_object code msg data)"
proof -
  have "Reply rid mt code msg data \<in> set (filter to_client (w_outs w))"
    by (simp only: assms(2) list.set_intros)
  then have "legible_reply X (Reply rid mt code msg data)"
    using assms(1) by (simp only: legible_def set_filter mem_Collect_eq)
  then show "json_text_inverts X (response_object code msg data)" "fits X (response_object code msg data)"
    by simp_all
qed

lemma encodes: "encode (mk_packet mt rid pl) \<noteq> [] \<longleftrightarrow> length pl \<le> unat MaxPayloadSize"
  using length_be_bytes [of 4 Magic] by (auto simp: encode_def mk_packet_def simp del: length_be_bytes)

lemma drain_packet: "drain (encode (mk_packet mt rid pl))
    = (if length pl \<le> unat MaxPayloadSize then ([mk_packet mt rid pl], None, []) else ([], None, []))"
  using drain_encodes [of "[mk_packet mt rid pl]"] drain_empty
  by (auto simp: mk_packet_def encode_def not_le)

lemma serve_packet:
  assumes "client_bytes (e_ext (es 0)) c = encode (mk_packet mt rid pl)" and "w_buffer w = []"
  shows "serve es c w = (if length pl \<le> unat MaxPayloadSize
    then (processPacket (es 0) (mk_packet mt rid pl) (w\<lparr>w_outs := []\<rparr>))\<lparr>w_buffer := []\<rparr> else w\<lparr>w_outs := []\<rparr>)"
  using assms by (simp add: serve_def onReadyRead_def appendData_def drain_packet)

lemma hear_reply:
  assumes "filter to_client (w_outs w) = [Reply rid mt code msg data]" and "cl_buffer c = []"
    and "fits (ce_ext (Cs 0)) (response_object code msg data)"
  shows "hear Cs w c = (handlePacket (Cs 0) (mk_packet mt rid (text_of (ce_ext (Cs 0))
    (response_object code msg data))) (c\<lparr>cl_outs := []\<rparr>))\<lparr>cl_buffer := []\<rparr>"
  using assms drain_packet
  by (simp add: hear_def server_bytes_def client_onReadyRead_def appendData_def fits_def text_of_def)

lemma hear_nothing: "filter to_client (w_outs w) = [] \<Longrightarrow> cl_buffer c = [] \<Longrightarrow> hear Cs w c = c\<lparr>cl_outs := []\<rparr>"
  by (simp add: hear_def server_bytes_def client_onReadyRead_def appendData_def drain_empty)

lemma client_bytes_simps [simp]:
  "client_bytes X (cemit x c) = client_bytes X c @ client_wire X x"
  "client_bytes X (csignal s c) = client_bytes X c"
  "client_bytes X (set_pending p i c) = client_bytes X c"
  "client_bytes X (setState st c) = client_bytes X c"
  "client_bytes X (c\<lparr>cl_renewTimer := t\<rparr>) = client_bytes X c"
  by (simp_all add: client_bytes_def cemit_def csignal_def set_pending_def setState_def)

lemma send_request_bytes:
  assumes "cl_outs c = []" and "\<And>rid v. client_bytes (ce_ext E) (note rid v) = client_bytes (ce_ext E) v"
  shows "client_bytes (ce_ext E) (send_request E mt json note c)
    = encode (mk_packet mt (cl_nextId c) (text_of (ce_ext E) (fst (addReplayProtection E json c))))"
proof -
  have "client_bytes (ce_ext E) (snd (nextRequestId (snd (addReplayProtection E json c)))) = []"
    using assms(1) by (simp add: client_bytes_def nextRequestId_def addReplayProtection_def draw_def Let_def)
  moreover have "fst (nextRequestId (snd (addReplayProtection E json c))) = cl_nextId c"
    by (simp add: nextRequestId_def addReplayProtection_def draw_def Let_def)
  ultimately show ?thesis
    using assms(2) by (simp add: send_request_def send_packet_def Let_def split_beta)
qed

text \<open>The two sides agree: the client holds the token, the user and the device of a session that the
  connection has and that ends at \<open>t\<close>.\<close>

definition agreed :: "ext \<Rightarrow> time \<Rightarrow> client \<Rightarrow> world \<Rightarrow> bool" where
  "agreed X t c w \<longleftrightarrow> cl_state c = Authenticated \<and> cl_token c \<noteq> [] \<and> 0 < w_sessionId w \<and> 0 < w_userId w
     \<and> cl_userId c = w_userId w \<and> cl_deviceId c = w_deviceId w
     \<and> (\<exists>r\<in>set (db_users (w_db w)). ur_id r = w_userId w \<and> ur_username r = cl_username c)
     \<and> (\<exists>s. getSessionById (w_sessionId w) (w_db w) = Some s \<and> se_userId s = w_userId w
          \<and> se_tokenHash s = hashToken X (cl_token c) \<and> se_expiresAt s = Some t)"

lemma agreedI:
  assumes "who c = (Authenticated, token, ur_id u, w_deviceId w, ur_username u)" and "token \<noteq> []"
    and "u \<in> set (db_users (w_db w))" and "0 < ur_id u" "w_userId w = ur_id u" "0 < w_sessionId w"
    and "getSessionById (w_sessionId w) (w_db w)
      = Some (new_session sid (ur_id u) dev (hashToken X token) ip default_session_ttl now)"
  shows "agreed X (now + 7 * 86400) c w"
  using assms by (auto simp: agreed_def who_def new_session_def default_session_ttl_def)

section \<open>Login\<close>

text \<open>What a login does on the server: one reply, and a session exactly when the reply is positive.\<close>

lemma registerDevice_sessions [simp]:
  "db_sessions (snd (registerDevice u dev nm pf now d)) = db_sessions d"
  unfolding registerDevice_def by (rule exec_stmt_frame) (simp_all add: upsert_device_def Let_def)

lemma createSession_failed:
  assumes "db_inv d" and "fst (createSession u dev h ip ttl now d) < 0"
  shows "db_sessions (snd (createSession u dev h ip ttl now d)) = db_sessions d"
proof -
  let ?ok = "\<lambda>d. has_user u d \<and> \<not> exists_where (\<lambda>s. se_tokenHash s = h) (db_sessions d)"
  let ?ins = "insert_session (u, dev, h, ip, now, ttl)"
  have "0 \<le> db_sessionSeq d"
    using assms(1) by (simp add: db_inv_def sessions_ok_def keys_ok_def)
  then show ?thesis
    using assms(2)
    by (rule_tac exec_stmt_cases [of ?ok ?ins d]) (simp_all add: createSession_def insert_session_def)
qed

lemma login_outcome:
  fixes E p rq
  assumes "db_inv (w_db w)" and "w_outs w = []"
  defines "w' \<equiv> processLoginRequest E p rq w"
  obtains (refused) code msg where "code \<noteq> Ok" "w_outs w' = [Reply (pk_reqid p) LoginResponse code msg []]"
      "w_userId w' = w_userId w" "w_sessionId w' = w_sessionId w" "db_sessions (w_db w') = db_sessions (w_db w)"
  | (accepted) u where "filter to_client (w_outs w') = [Reply (pk_reqid p) LoginResponse Ok ''OK''
        [(''username'', JStr (ur_username u)), (''userId'', JNum (ur_id u)),
         (''token'', JStr (generateToken (e_token E))),
         (''expiresAt'', JStr (x_isoTime (e_ext E) (e_now E + 86400 * 7)))]]"
      "u \<in> set (db_users (w_db w'))" "0 < ur_id u" "w_userId w' = ur_id u" "0 < w_sessionId w'"
      "w_deviceId w' = jstr (jget rq ''deviceId'')" "ur_username u = trimmed (jstr (jget rq ''username''))"
      "verifyPassword (e_ext E) (jstr (jget rq ''password'')) (ur_passwordHash u)"
      "getSessionById (w_sessionId w') (w_db w') = Some (new_session (w_sessionId w') (ur_id u)
         (jstr (jget rq ''deviceId'')) (hashToken (e_ext E) (generateToken (e_token E))) (e_peer E)
         default_session_ttl (e_now E))"
proof (cases "\<exists>data. Reply (pk_reqid p) LoginResponse Ok ''OK'' data \<in> set (w_outs w')")
  case True
  have w: "w\<lparr>w_outs := []\<rparr> = w" using assms(2) by simp
  from True obtain data where 2: "Reply (pk_reqid p) LoginResponse Ok ''OK'' data \<in> set (w_outs w')" ..
  then have r: "Reply (pk_reqid p) LoginResponse Ok ''OK'' data
      \<in> set (w_outs (processLoginRequest E p rq (w\<lparr>w_outs := []\<rparr>)))"
    unfolding w'_def w .
  show thesis
  proof (rule login_success [OF assms(1) r])
    fix u sid
    assume *: "getUserByUsername (trimmed (jstr (jget rq ''username''))) (w_db w) = Some u"
      "verifyPassword (e_ext E) (jstr (jget rq ''password'')) (ur_passwordHash u)"
      "w_userId (processLoginRequest E p rq w) = ur_id u"
      "w_sessionId (processLoginRequest E p rq w) = sid" "0 < sid" "0 < ur_id u"
      "w_deviceId (processLoginRequest E p rq w) = jstr (jget rq ''deviceId'')"
      "getSessionById sid (w_db (processLoginRequest E p rq w)) = Some (new_session sid (ur_id u)
        (jstr (jget rq ''deviceId'')) (hashToken (e_ext E) (generateToken (e_token E))) (e_peer E)
        default_session_ttl (e_now E))"
    have row: "u \<in> set (db_users (w_db w))" "ur_username u = trimmed (jstr (jget rq ''username''))"
      using *(1) unfolding getUserByUsername_def by (blast dest: find_SomeD)+
    moreover have "db_users (w_db w') = db_users (w_db w)"
      by (simp add: w'_def processLoginRequest_def Let_def split_beta split: option.split)
    ultimately have u: "u \<in> set (db_users (w_db w'))" by simp
    show thesis
      by (rule accepted [OF _ u])
        (use * row 2 assms(2) in \<open>simp_all add: w'_def processLoginRequest_def Let_def split_beta split: if_splits\<close>)
  qed
next
  case False
  let ?name = "trimmed (jstr (jget rq ''username''))" and ?pw = "jstr (jget rq ''password'')"
  let ?same = "\<lambda>x. w_userId x = w_userId w \<and> w_sessionId x = w_sessionId w
    \<and> db_sessions (w_db x) = db_sessions (w_db w)
    \<and> (\<exists>code msg. code \<noteq> Ok \<and> w_outs x = [Reply (pk_reqid p) LoginResponse code msg []])"
  have "?same w'"
  proof (cases "getUserByUsername ?name (w_db w)")
    case None
    then show ?thesis using assms(2) by (simp add: w'_def processLoginRequest_def Let_def)
  next
    case (Some u)
    let ?dev = "jstr (jget rq ''deviceId'')"
    let ?d = "snd (registerDevice (ur_id u) ?dev (''Device-'' @ take 8 ?dev) (jstr (jget rq ''platform''))
        (e_now E) (w_db w))"
    note no = createSession_failed [OF registerDevice_inv [OF assms(1)]]
    show ?thesis
      using False Some assms(2) no
      by (simp add: w'_def processLoginRequest_def Let_def split_beta split: if_split_asm)
  qed
  then show thesis using refused by blast
qed

lemma addReplayProtection_keeps [simp]:
  "cl_state (snd (addReplayProtection E json c)) = cl_state c"
  "cl_pending (snd (addReplayProtection E json c)) = cl_pending c"
  "cl_nextId (snd (addReplayProtection E json c)) = cl_nextId c"
  "cl_buffer (snd (addReplayProtection E json c)) = cl_buffer c"
  "jget (fst (addReplayProtection E json c)) ''nonce'' = JStr (ce_uuid E (cl_draws c))"
  "jget (fst (addReplayProtection E json c)) ''timestamp'' = JNum (ce_now E)"
  "jhas (fst (addReplayProtection E json c)) ''timestamp''"
  "k \<notin> {''nonce'', ''timestamp'', ''token''} \<Longrightarrow> jget (fst (addReplayProtection E json c)) k = jget json k"
  by (simp_all add: addReplayProtection_def draw_def Let_def)

lemma nextRequestId_keeps [simp]:
  "fst (nextRequestId c) = cl_nextId c" "cl_state (snd (nextRequestId c)) = cl_state c"
  "cl_pending (snd (nextRequestId c)) = cl_pending c" "cl_buffer (snd (nextRequestId c)) = cl_buffer c"
  by (simp_all add: nextRequestId_def)

lemma send_packet_keeps [simp]:
  "cl_state (send_packet X mt rid json c) = cl_state c" "cl_pending (send_packet X mt rid json c) = cl_pending c"
  "cl_buffer (send_packet X mt rid json c) = cl_buffer c"
  by (simp_all add: send_packet_def csignal_def cemit_def)

text \<open>The login of a connected client.\<close>

lemma login_sent:
  fixes C name pw
  assumes "cl_state c = Connected" and "cl_outs c = []"
  defines "c1 \<equiv> client_login C name pw c"
  obtains json where
    "client_bytes (ce_ext C) c1 = encode (mk_packet LoginRequest (cl_nextId c) (text_of (ce_ext C) json))"
    "fits (ce_ext C) json \<Longrightarrow> Request LoginRequest (cl_nextId c) json \<in> set (cl_outs c1)"
    "jget json ''type'' = JStr ''login''" "jget json ''deviceId'' = JStr (ce_deviceId C)"
    "jget json ''username'' = JStr name" "jget json ''password'' = JStr pw"
    "cl_state c1 = LoggingIn" "cl_pending c1 PLogin = cl_nextId c" "cl_buffer c1 = cl_buffer c"
    "cl_deviceId c1 = ce_deviceId C"
proof -
  define c0 where "c0 = c\<lparr>cl_pendingUsername := name, cl_pendingPassword := pw, cl_loginQueued := True,
    cl_registerQueued := False, cl_reconnect := True, cl_deviceId := ce_deviceId C\<rparr>"
  define json0 where "json0 = [(''type'', JStr ''login''), (''username'', JStr name), (''password'', JStr pw),
    (''clientVersion'', JStr ''0.2.0''), (''platform'', JStr (ce_platform C)), (''deviceId'', JStr (ce_deviceId C))]"
  define mark where "mark = (\<lambda>rid v. setState LoggingIn (set_pending PLogin rid v))"
  define json where "json = fst (addReplayProtection C json0 c0)"
  have c0: "cl_outs c0 = []" "cl_nextId c0 = cl_nextId c" "cl_state c0 = Connected"
    "cl_deviceId c0 = ce_deviceId C" "cl_buffer c0 = cl_buffer c"
    using assms by (simp_all add: c0_def)
  have c1: "c1 = send_request C LoginRequest json0 mark c0"
    using assms(1) by (simp add: c1_def client_login_def sendLoginRequest_def c0_def json0_def mark_def)
  have mark: "cl_state (mark rid v) = LoggingIn" "cl_pending (mark rid v) PLogin = rid" "cl_buffer (mark rid v) = cl_buffer v"
    "cl_deviceId (mark rid v) = cl_deviceId v" "client_bytes X (mark rid v) = client_bytes X v" for rid v X
    by (simp_all add: mark_def setState_def set_pending_def csignal_def cemit_def client_bytes_def)
  show thesis
  proof (rule that [of json])
    show "client_bytes (ce_ext C) c1 = encode (mk_packet LoginRequest (cl_nextId c) (text_of (ce_ext C) json))"
      using send_request_bytes [OF c0(1), of C mark] mark(5) by (simp add: c1 c0(2) json_def)
    show "Request LoginRequest (cl_nextId c) json \<in> set (cl_outs c1)" if "fits (ce_ext C) json"
    proof -
      have "encode (mk_packet LoginRequest (cl_nextId c) (text_of (ce_ext C) json)) \<noteq> []"
        using that by (simp add: encodes fits_def)
      then show ?thesis
        by (simp add: c1 send_request_def send_packet_def json_def Let_def split_beta cemit_def c0(2))
    qed
    show "jget json ''type'' = JStr ''login''" "jget json ''deviceId'' = JStr (ce_deviceId C)"
      "jget json ''username'' = JStr name" "jget json ''password'' = JStr pw"
      by (simp_all add: json_def json0_def)
    show "cl_state c1 = LoggingIn" "cl_pending c1 PLogin = cl_nextId c" "cl_buffer c1 = cl_buffer c"
      by (simp_all add: c1 send_request_def Let_def split_beta mark c0)
    have "who c1 = who (mark (cl_nextId c) (snd (nextRequestId (snd (addReplayProtection C json0 c0)))))"
      by (simp add: c1 send_request_def Let_def split_beta c0)
    moreover have "cl_deviceId (snd (nextRequestId (snd (addReplayProtection C json0 c0)))) = ce_deviceId C"
      using c0(4) by (simp add: nextRequestId_def addReplayProtection_def draw_def Let_def)
    ultimately show "cl_deviceId c1 = ce_deviceId C"
      by (simp add: who_def mark)
  qed
qed

text \<open>What the client makes of the answer.\<close>

lemma who_setState: "who (setState st c) = (st, cl_token c, cl_userId c, cl_deviceId c, cl_username c)"
  by (simp add: setState_def who_def csignal_def cemit_def)

lemma response_parts [simp]:
  "json_text_inverts X (response_object code msg data)
    \<Longrightarrow> object_of X (text_of X (response_object code msg data)) = response_object code msg data"
  "code_or d (response_object code msg data) = error_num code"
  "response_data (response_object code msg data) = data"
proof -
  show "code_or d (response_object code msg data) = error_num code"
    by (cases code) (simp_all add: code_or_def response_object_def)
qed (simp_all add: json_text_inverts_def object_of_def text_of_def response_object_def)

lemma login_heard:
  assumes "cl_pending c PLogin = rid" and "json_text_inverts (ce_ext C) (response_object code msg data)"
  defines "c' \<equiv> handlePacket C (mk_packet LoginResponse rid (text_of (ce_ext C) (response_object code msg data))) c"
  shows "code = Ok \<Longrightarrow> who c' = (Authenticated, jstr (jget data ''token''), jlonglong (jget data ''userId''),
      cl_deviceId c, jstr (jget data ''username''))"
    and "code \<noteq> Ok \<Longrightarrow> cl_state c' = Connected"
proof -
  have h: "c' = handleLoginResponse C (mk_packet LoginResponse rid
      (text_of (ce_ext C) (response_object code msg data))) c"
    by (simp add: c'_def handlePacket_def handlers_def mk_packet_def)
  show "who c' = (Authenticated, jstr (jget data ''token''), jlonglong (jget data ''userId''), cl_deviceId c,
      jstr (jget data ''username''))" if "code = Ok"
    using assms(1,2) that
    by (simp add: h handleLoginResponse_def answered_def mk_packet_def Let_def who_setState set_pending_def)
  have "is_code (error_num code) Ok \<longleftrightarrow> code = Ok"
    by (cases code) simp_all
  then show "cl_state c' = Connected" if "code \<noteq> Ok"
    using assms(1,2) that
    by (simp add: h handleLoginResponse_def answered_def mk_packet_def Let_def setState_def csignal_def cemit_def)
qed

lemma error_heard:
  assumes "cl_state c \<noteq> Authenticated"
  shows "cl_state (handlePacket C (mk_packet ErrorPacket rid pl) c) \<noteq> Authenticated"
proof -
  have h: "handlePacket C (mk_packet ErrorPacket rid pl) c = handleErrorResponse C (mk_packet ErrorPacket rid pl) c"
    by (simp add: handlePacket_def handlers_def mk_packet_def)
  have st: "cl_state (drainHealQueue C v) = cl_state v" for v
    using who_drainHealQueue [of C v] by (simp add: who_def)
  have "cl_state (notifySessionExpired C c) \<noteq> Authenticated"
    using assms by (simp add: notifySessionExpired_def Let_def setState_def csignal_def cemit_def)
  then show ?thesis
    using assms by (simp add: h handleErrorResponse_def Let_def st set_pending_def)
qed

lemma mk_packet_fields [simp]:
  "pk_type (mk_packet mt rid pl) = mt_code mt" "pk_reqid (mk_packet mt rid pl) = rid"
  "pk_payload (mk_packet mt rid pl) = pl"
  by (simp_all add: mk_packet_def)

text \<open>The server's part of a login: the packet is refused as a replay or by the handler, or it is accepted.\<close>

lemma login_replied:
  fixes E json rid
  assumes "json_text_inverts (e_ext E) json" and "jget json ''type'' = JStr ''login''" and "db_inv (w_db w)"
  defines "w' \<equiv> processPacket E (mk_packet LoginRequest rid (text_of (e_ext E) json)) (w\<lparr>w_outs := []\<rparr>)"
  obtains (refused) mt code msg where "w_outs w' = [Reply rid mt code msg []]"
      "mt = ErrorPacket \<or> mt = LoginResponse \<and> code \<noteq> Ok"
      "w_userId w' = w_userId w" "w_sessionId w' = w_sessionId w" "db_sessions (w_db w') = db_sessions (w_db w)"
  | (accepted) u where "filter to_client (w_outs w') = [Reply rid LoginResponse Ok ''OK''
        [(''username'', JStr (ur_username u)), (''userId'', JNum (ur_id u)),
         (''token'', JStr (generateToken (e_token E))),
         (''expiresAt'', JStr (x_isoTime (e_ext E) (e_now E + 86400 * 7)))]]"
      "u \<in> set (db_users (w_db w'))" "0 < ur_id u" "w_userId w' = ur_id u" "0 < w_sessionId w'"
      "w_deviceId w' = jstr (jget json ''deviceId'')" "ur_username u = trimmed (jstr (jget json ''username''))"
      "verifyPassword (e_ext E) (jstr (jget json ''password'')) (ur_passwordHash u)"
      "getSessionById (w_sessionId w') (w_db w') = Some (new_session (w_sessionId w') (ur_id u)
         (jstr (jget json ''deviceId'')) (hashToken (e_ext E) (generateToken (e_token E))) (e_peer E)
         default_session_ttl (e_now E))"
proof -
  let ?p = "mk_packet LoginRequest rid (text_of (e_ext E) json)"
  obtain n where n: "after_replay E ?p json (w\<lparr>w_outs := []\<rparr>) = w\<lparr>w_outs := [], w_nonces := n\<rparr>"
    using after_replay_nonces [of E ?p json "w\<lparr>w_outs := []\<rparr>"] by auto
  let ?w = "w\<lparr>w_outs := [], w_nonces := n\<rparr>"
  have json: "x_fromJson (e_ext E) (pk_payload ?p) = Some (JObj json)"
    using assms(1) by (simp add: json_text_inverts_def text_of_def)
  have w': "w' = (if \<not> replay_ok E ?p json (w\<lparr>w_outs := []\<rparr>)
      then sendResponse rid ErrorPacket ReplayRejected ''Replay protection check failed'' [] ?w
      else processLoginRequest E ?p json ?w)"
    using processPacket_json [OF json] assms(2) by (simp add: w'_def n Let_def is_request_def)
  show thesis
  proof (cases "replay_ok E ?p json (w\<lparr>w_outs := []\<rparr>)")
    case False
    then show thesis
      by (intro refused [of ErrorPacket ReplayRejected "''Replay protection check failed''"])
        (simp_all add: w' sendResponse_def emit_def)
  next
    case True
    then have v: "w' = processLoginRequest E ?p json ?w" by (simp add: w')
    have inv: "db_inv (w_db ?w)" "w_outs ?w = []" using assms(3) by simp_all
    show thesis
    proof (rule login_outcome [OF inv, of E ?p json, folded v], goal_cases)
      case (1 code msg)
      then show thesis by (intro refused [of LoginResponse code msg]) simp_all
    next
      case (2 u)
      then show thesis by (intro accepted [of u]) simp_all
    qed
  qed
qed

lemma not_logged_in:
  assumes "cl_state c = LoggingIn" "cl_pending c PLogin = rid"
    and "mt = ErrorPacket \<or> mt = LoginResponse \<and> code \<noteq> Ok"
    and "json_text_inverts (ce_ext C) (response_object code msg data)"
  shows "cl_state (handlePacket C (mk_packet mt rid (text_of (ce_ext C) (response_object code msg data))) c) \<noteq> Authenticated"
  using assms(3)
proof
  assume "mt = ErrorPacket"
  then show ?thesis using error_heard [of c] assms(1) by simp
next
  assume "mt = LoginResponse \<and> code \<noteq> Ok"
  then show ?thesis using login_heard(2) [OF assms(2,4)] by simp
qed

text \<open>
  C5: after a login the two sides agree, or both are as before. A connected client asks to log in, the
  server reads the bytes, the client reads the reply: then either the client is authenticated and holds
  the token, the user, the name and the device of the session the connection now has, which lasts seven
  days, and the password verifies for the account of that name; or the client is not authenticated and the server has neither a new session nor a new user.
\<close>

theorem login_agreement:
  fixes C Cs es name pw
  assumes "cl_state c = Connected" "cl_outs c = []" "cl_buffer c = []" "w_buffer w = []" "db_inv (w_db w)"
    and "ce_ext C = X" "ce_ext (Cs 0) = X" "e_ext (es 0) = X" "e_token (es 0) \<noteq> []"
  defines "c1 \<equiv> client_login C name pw c"
  defines "w1 \<equiv> serve es c1 w"
  defines "c2 \<equiv> hear Cs w1 c1"
  assumes "legible X c1 w1"
  shows "(agreed X (e_now (es 0) + 7 * 86400) c2 w1
      \<and> (\<exists>u\<in>set (db_users (w_db w1)). ur_id u = w_userId w1 \<and> ur_username u = trimmed name
           \<and> verifyPassword X pw (ur_passwordHash u)))
    \<or> (cl_state c2 \<noteq> Authenticated \<and> w_userId w1 = w_userId w \<and> w_sessionId w1 = w_sessionId w
        \<and> db_sessions (w_db w1) = db_sessions (w_db w))"
proof -
  let ?E = "es 0" and ?rid = "cl_nextId c" and ?tok = "generateToken (e_token (es 0))"
  obtain json where sent: "client_bytes X c1 = encode (mk_packet LoginRequest ?rid (text_of X json))"
    "fits X json \<Longrightarrow> Request LoginRequest ?rid json \<in> set (cl_outs c1)"
    and fields: "jget json ''type'' = JStr ''login''" "jget json ''deviceId'' = JStr (ce_deviceId C)"
    "jget json ''username'' = JStr name" "jget json ''password'' = JStr pw"
    and c1: "cl_state c1 = LoggingIn" "cl_pending c1 PLogin = ?rid" "cl_buffer c1 = []" "cl_deviceId c1 = ce_deviceId C"
    using login_sent [OF assms(1,2), of C name pw] assms(3,6) unfolding c1_def by metis
  let ?p = "mk_packet LoginRequest ?rid (text_of X json)" and ?c = "c1\<lparr>cl_outs := []\<rparr>"
  have w1: "w1 = (if fits X json then (processPacket ?E ?p (w\<lparr>w_outs := []\<rparr>))\<lparr>w_buffer := []\<rparr> else w\<lparr>w_outs := []\<rparr>)"
    using serve_packet [of es c1 LoginRequest ?rid "text_of X json" w] sent(1) assms(4,8)
    by (simp add: w1_def fits_def)
  note hears = hear_reply [where w = w1 and c = c1 and Cs = Cs, OF _ c1(3), folded c2_def, unfolded assms(7)]
  note read = legible_replyD [OF assms(13)]
  show ?thesis
  proof (cases "fits X json")
    case False
    then show ?thesis
      using hear_nothing [OF _ c1(3), of w1] w1 c1(1) by (simp add: c2_def)
  next
    case True
    then have json: "json_text_inverts (e_ext ?E) json"
      using sent(2) assms(8,13) by (force simp: legible_def)
    show ?thesis
    proof (rule login_replied [OF json fields(1) assms(5), of ?rid, unfolded assms(8)], goal_cases)
      case (1 mt code msg)
      then have out: "filter to_client (w_outs w1) = [Reply ?rid mt code msg []]" by (simp add: w1 True)
      have "cl_state c2 \<noteq> Authenticated"
        using hears [OF out read(2) [OF out]] not_logged_in [of ?c ?rid mt code "Cs 0" msg "[]"] 1(2) read(1) [OF out]
          c1(1,2) assms(7) by simp
      then show ?thesis using 1(3-5) by (simp add: w1 True)
    next
      case (2 u)
      then have out: "filter to_client (w_outs w1) = [Reply ?rid LoginResponse Ok ''OK''
          [(''username'', JStr (ur_username u)), (''userId'', JNum (ur_id u)), (''token'', JStr ?tok),
           (''expiresAt'', JStr (x_isoTime X (e_now ?E + 86400 * 7)))]]" by (simp add: w1 True)
      have "who c2 = (Authenticated, ?tok, ur_id u, w_deviceId w1, ur_username u)"
        using hears [OF out read(2) [OF out]] login_heard(1) [of ?c ?rid "Cs 0" Ok "''OK''"] read(1) [OF out]
          c1(2,4) assms(7) 2(6) fields(2) by (simp add: w1 True)
      moreover have "?tok \<noteq> []"
        using assms(9) by (cases "e_token ?E") (simp_all add: generateToken_def)
      ultimately have "agreed X (e_now ?E + 7 * 86400) c2 w1"
        using 2(2-5,9) by (intro agreedI [where u = u]) (simp_all add: w1 True)
      then show ?thesis
        using 2(2,4,7,8) fields(3,4) by (auto simp: w1 True)
    qed
  qed
qed

text \<open>A concrete pair: a parser and printer that know one request and one reply, a connected client.\<close>

definition pair_texts :: "jobj \<Rightarrow> jobj \<Rightarrow> ext" where
  "pair_texts rq rp = sample_ext\<lparr>x_compact := (\<lambda>j. if j = JObj rq then ''q'' else ''r''),
     x_fromJson := (\<lambda>b. if b = bytes_of ''q'' then Some (JObj rq) else Some (JObj rp))\<rparr>"

lemma pair_texts_simps [simp]:
  "json_text_inverts (pair_texts rq rp) rq" "rp \<noteq> rq \<Longrightarrow> json_text_inverts (pair_texts rq rp) rp"
  "fits (pair_texts rq rp) ob" "hashToken (pair_texts rq rp) t = hashToken sample_ext t"
  "x_isoTime (pair_texts rq rp) = x_isoTime sample_ext"
  by (simp_all add: pair_texts_def json_text_inverts_def fits_def text_of_def sample_ext_def bytes_of_def hashToken_def
      encryptPassword_def)

definition login_json :: jobj where
  "login_json = [(''type'', JStr ''login''), (''username'', JStr ''alice''), (''password'', JStr ''secret''),
     (''clientVersion'', JStr ''0.2.0''), (''platform'', JStr ''linux''), (''deviceId'', JStr ''dev''),
     (''timestamp'', JNum 50), (''nonce'', JStr ''x'')]"

definition login_reply :: jobj where
  "login_reply = response_object Ok ''OK'' [(''username'', JStr ''alice''), (''userId'', JNum 1),
     (''token'', JStr (to_hex (replicate 32 7))), (''expiresAt'', JStr (x_isoTime sample_ext (50 + 86400 * 7)))]"

definition wire_env :: "jobj \<Rightarrow> jobj \<Rightarrow> time \<Rightarrow> env" where
  "wire_env rq rp now = (env_reading rq now)\<lparr>e_ext := pair_texts rq rp\<rparr>"

definition wire_cenv :: "jobj \<Rightarrow> jobj \<Rightarrow> time \<Rightarrow> cenv" where
  "wire_cenv rq rp now = client_env\<lparr>ce_ext := pair_texts rq rp, ce_now := now, ce_uuid := (\<lambda>n. ''x'')\<rparr>"

definition online_client :: client where
  "online_client = (new_client True closed_store)\<lparr>cl_state := Connected\<rparr>"

lemma wire_simps [simp]:
  "ce_ext (wire_cenv rq rp now) = pair_texts rq rp" "e_ext (wire_env rq rp now) = pair_texts rq rp"
  "ce_now (wire_cenv rq rp now) = now" "ce_uuid (wire_cenv rq rp now) n = ''x''" "e_now (wire_env rq rp now) = now"
  "e_token (wire_env rq rp now) = replicate 32 7" "e_peer (wire_env rq rp now) = ''10.0.0.1''"
  "x_fromJson (pair_texts rq rp) (text_of (pair_texts rq rp) rq) = Some (JObj rq)"
  by (simp_all add: wire_cenv_def wire_env_def env_reading_def pair_texts_def text_of_def sample_ext_def)

lemma login_json_fields [simp]:
  "jget login_json ''type'' = JStr ''login''" "jget login_json ''username'' = JStr ''alice''"
  "jget login_json ''password'' = JStr ''secret''" "jget login_json ''deviceId'' = JStr ''dev''"
  "jget login_json ''platform'' = JStr ''linux''"
  by (simp_all add: login_json_def)

lemma sent_login:
  "cl_outs (client_login (wire_cenv login_json login_reply 50) ''alice'' ''secret'' online_client)
    = [Signal (StateChanged LoggingIn), Request LoginRequest 1 login_json]"
proof -
  let ?X = "pair_texts login_json login_reply"
  have fits: "encode (mk_packet LoginRequest 1 (text_of ?X login_json)) \<noteq> []"
    using pair_texts_simps(3) [of login_json login_reply login_json] by (simp add: encodes fits_def)
  show ?thesis
    using fits
    by (simp add: client_login_def sendLoginRequest_def send_request_def addReplayProtection_def draw_def
        nextRequestId_def send_packet_def setState_def set_pending_def csignal_def cemit_def online_client_def
        new_client_def wire_cenv_def client_env_def login_json_def Let_def)
qed

lemma served_login:
  defines "w1 \<equiv> serve (\<lambda>_. wire_env login_json login_reply 50)
    (client_login (wire_cenv login_json login_reply 50) ''alice'' ''secret'' online_client)
    (new_connection alice_db (Some server_nonce_cache))"
  shows "w_sessionId w1 = 1" "\<exists>rp. response_object Ok ''OK'' rp = login_reply
    \<and> w_outs w1 = [UserLoggedIn 1 1 ''dev'', Reply 1 LoginResponse Ok ''OK'' rp]"
proof -
  let ?X = "pair_texts login_json login_reply" and ?E = "wire_env login_json login_reply 50"
  let ?p = "mk_packet LoginRequest 1 (text_of ?X login_json)"
  let ?w = "new_connection alice_db (Some server_nonce_cache)"
  have t: "trimmed ''x'' = ''x''" by (simp add: trimmed_def qspace_def Let_def)
  have pw: "verifyPassword ?X ''secret'' (hashPasswordWithSalt sample_ext [1, 2] ''secret'' 100000)"
  proof -
    have "pbkdf2_32 ?X"
      using sample_ext_ok(5) by (simp add: pbkdf2_32_def pair_texts_def)
    moreover have "hashPasswordWithSalt sample_ext [1, 2] ''secret'' 100000 = hashPasswordWithSalt ?X [1, 2] ''secret'' 100000"
      by (simp add: hashPasswordWithSalt_def pair_texts_def)
    ultimately show ?thesis by (simp add: verify_hash_iff)
  qed
  define v where "v = snd (checkReplayProtection ?E login_json ?w)"
  have v: "\<exists>n. v = ?w\<lparr>w_nonces := n\<rparr>" "fst (checkReplayProtection ?E login_json ?w)"
    by (auto simp: v_def checkReplayProtection_def login_json_def sample_defs Let_def handler_limits t
        checkAndInsert_def lazy_clean_def)
  have "client_bytes ?X (client_login (wire_cenv login_json login_reply 50) ''alice'' ''secret'' online_client)
      = encode ?p"
    by (simp add: client_bytes_def sent_login)
  then have "w1 = (processPacket ?E ?p ?w)\<lparr>w_buffer := []\<rparr>"
    using serve_packet [of "\<lambda>_. ?E" _ LoginRequest 1 "text_of ?X login_json" ?w] pair_texts_simps(3) [of login_json login_reply login_json]
    by (simp add: w1_def fits_def new_connection_def)
  also have "processPacket ?E ?p ?w = processLoginRequest ?E ?p login_json v"
    using processPacket_json [of ?E ?p login_json ?w] v(2)
    by (simp add: replay_ok_def after_replay_def is_request_def v_def Let_def)
  finally show "w_sessionId w1 = 1" "\<exists>rp. response_object Ok ''OK'' rp = login_reply
      \<and> w_outs w1 = [UserLoggedIn 1 1 ''dev'', Reply 1 LoginResponse Ok ''OK'' rp]"
    using v(1) pw
    by (auto simp: processLoginRequest_def Let_def split_beta getUserByUsername_def alice_db_def
        sample_defs checkRateLimit_def recentFailedLoginCount_def recentFailedLoginCountForUser_def login_reply_def
        handler_limits registerDevice_def createSession_def exec_stmt_no_fault has_user_def sendResponse_def emit_def
        exists_where_def upsert_device_def insert_session_def recordLoginAttempt_def generateToken_def)
qed

theorem login_agreement_witness:
  "let C = wire_cenv login_json login_reply 50; c1 = client_login C ''alice'' ''secret'' online_client;
       w1 = serve (\<lambda>_. wire_env login_json login_reply 50) c1 (new_connection alice_db (Some server_nonce_cache))
   in agreed (pair_texts login_json login_reply) (50 + 7 * 86400) (hear (\<lambda>_. C) w1 c1) w1"
proof -
  define C where "C = wire_cenv login_json login_reply 50"
  define c1 where "c1 = client_login C ''alice'' ''secret'' online_client"
  define w1 where "w1 = serve (\<lambda>_. wire_env login_json login_reply 50) c1 (new_connection alice_db (Some server_nonce_cache))"
  obtain rp where out: "w_sessionId w1 = 1" "response_object Ok ''OK'' rp = login_reply"
    "w_outs w1 = [UserLoggedIn 1 1 ''dev'', Reply 1 LoginResponse Ok ''OK'' rp]"
    using served_login by (auto simp: w1_def c1_def C_def)
  have "login_reply \<noteq> login_json"
    by (simp add: login_reply_def login_json_def response_object_def)
  then have "legible (pair_texts login_json login_reply) c1 w1"
    using out(2) by (simp add: legible_def out(3) c1_def C_def sent_login)
  then show ?thesis
    using login_agreement [of online_client "new_connection alice_db (Some server_nonce_cache)" C
        "pair_texts login_json login_reply" "\<lambda>_. C" "\<lambda>_. wire_env login_json login_reply 50" "''alice''" "''secret''"]
      alice_db_inv out(1)
    by (simp add: online_client_def new_client_def new_connection_def C_def c1_def w1_def Let_def)
qed

end
