(* ===== verification/Session_Agreement.thy ===== *)
theory Session_Agreement
  imports Client_Server Handler_Contract
begin

text \<open>
  The client and the server while they agree on a session: a request of the client passes both gates of
  the server, no other request ends the agreement, and a renewal of the token moves both sides to the
  new one.
\<close>

section \<open>A request of an authenticated client\<close>

text \<open>The clocks are close enough and the drawn nonce is new to the server.\<close>

definition timely :: "cenv \<Rightarrow> env \<Rightarrow> client \<Rightarrow> world \<Rightarrow> bool" where
  "timely C E c w \<longleftrightarrow> 0 < ce_now C \<and> \<bar>e_now E - ce_now C\<bar> \<le> 300
     \<and> (let n = trimmed (ce_uuid C (cl_draws c))
        in n \<noteq> [] \<and> length n \<le> 128 \<and> (\<exists>nc. w_nonces w = Some nc \<and> n \<notin> fst ` set (nc_nonces nc)))"

lemma checkAndInsert_unseen:
  assumes "n \<noteq> []" and "n \<notin> fst ` set (nc_nonces nc)"
  shows "fst (checkAndInsert n now nc)"
proof -
  have "set (lazy_clean now nc) \<subseteq> set (nc_nonces nc)"
    by (auto simp: lazy_clean_def drop_expired_def delete_where_def)
  with assms(2) have "map_of (lazy_clean now nc) n = None"
    by (auto simp: map_of_eq_None_iff)
  with assms(1) show ?thesis by (simp add: checkAndInsert_def Let_def)
qed

lemma timely_replay:
  assumes "timely C E c w"
  shows "fst (checkReplayProtection E (fst (addReplayProtection C json c)) (w\<lparr>w_outs := []\<rparr>))"
  using assms checkAndInsert_unseen
  by (auto simp: timely_def checkReplayProtection_def Let_def split_beta handler_limits jlonglong_def)

lemma agreed_token:
  "agreed X t c w \<Longrightarrow> jget (fst (addReplayProtection C json c)) ''token'' = JStr (cl_token c)"
  by (simp add: agreed_def addReplayProtection_def draw_def Let_def)

lemma agreed_validates:
  assumes "agreed X t c w" and "e_ext E = X" and "jstr (jget rq ''token'') = cl_token c"
    and "e_now E \<le> t \<or> jstr (jget rq ''type'') = ''token_renew''"
  shows "validateSession E rq (w\<lparr>w_outs := []\<rparr>)"
  using assms by (auto simp: agreed_def validateSession_def Let_def)

lemma after_replay_some:
  "pk_type p \<noteq> mt_code Pong \<Longrightarrow> fst (checkReplayProtection E json w)
    \<Longrightarrow> \<exists>nc. after_replay E p json w = w\<lparr>w_nonces := Some nc\<rparr>"
  by (auto simp: after_replay_def checkReplayProtection_def Let_def split_beta split: if_splits option.splits)

lemma request_processed:
  fixes C E
  assumes "agreed X t c w" and "timely C E c w"
    and "e_now E \<le> t \<or> jstr (jget json ''type'') = ''token_renew''" and "e_ext E = X"
    and "mt \<notin> {Ping, Pong, RegisterRequest, LoginRequest}"
    and "jstr (jget json ''type'') \<notin> {''register'', ''login''}"
  defines "sent \<equiv> fst (addReplayProtection C json c)"
  assumes "json_text_inverts X sent"
  shows "\<exists>nc. processPacket E (mk_packet mt rid (text_of X sent)) (w\<lparr>w_outs := []\<rparr>)
      = dispatch E (mk_packet mt rid (text_of X sent)) sent (touched E (w\<lparr>w_outs := [], w_nonces := Some nc\<rparr>))"
proof -
  let ?p = "mk_packet mt rid (text_of X sent)" and ?w = "w\<lparr>w_outs := []\<rparr>"
  have type: "jget sent ''type'' = jget json ''type''"
    by (simp add: sent_def)
  have other: "pk_type ?p \<noteq> mt_code Ping" "pk_type ?p \<noteq> mt_code Pong" "pk_type ?p \<noteq> mt_code RegisterRequest"
    "pk_type ?p \<noteq> mt_code LoginRequest"
    using assms(5) by (cases mt; simp)+
  have replay: "fst (checkReplayProtection E sent ?w)"
    unfolding sent_def by (rule timely_replay [OF assms(2)])
  obtain nc where nc: "after_replay E ?p sent ?w = ?w\<lparr>w_nonces := Some nc\<rparr>"
    using after_replay_some [OF other(2) replay] by blast
  have valid: "validateSession E sent ?w"
    by (rule agreed_validates [OF assms(1,4)]) (use agreed_token [OF assms(1)] type assms(3) in \<open>simp_all add: sent_def\<close>)
  have json: "x_fromJson (e_ext E) (pk_payload ?p) = Some (JObj sent)"
    using assms(4,8) by (simp add: json_text_inverts_def text_of_def)
  have "processPacket E ?p ?w = dispatch E ?p sent (touched E (?w\<lparr>w_nonces := Some nc\<rparr>))"
    unfolding processPacket_json [OF json other(1)] Let_def nc
    using valid replay other type assms(6) by (simp add: replay_ok_def is_request_def)
  then show ?thesis by auto
qed

text \<open>
  C6: a request of an authenticated client is served. When the two sides agree, the session has not
  ended, the clocks differ by at most five minutes and the nonce is new, the bytes that
  \<open>addReplayProtection\<close> and the encoder make of any request (but a login or registration) pass the replay
  check and the session check: the server does what its dispatcher does with exactly this request, in
  the state in which only the nonce and the time of the last activity have been noted.
\<close>

theorem agreed_request_served:
  fixes C es
  assumes "agreed X t c w" and "timely C (es 0) c w"
    and "e_now (es 0) \<le> t \<or> jstr (jget json ''type'') = ''token_renew''"
    and "cl_outs c = []" "w_buffer w = []" "ce_ext C = X" "e_ext (es 0) = X"
    and "mt \<notin> {Ping, Pong, RegisterRequest, LoginRequest}"
    and "jstr (jget json ''type'') \<notin> {''register'', ''login''}"
    and "\<forall>rid v. cl_outs (mark rid v) = cl_outs v"
  defines "sent \<equiv> fst (addReplayProtection C json c)"
  assumes "json_text_inverts X sent" "fits X sent"
  shows "\<exists>nc. serve es (send_request C mt json mark c) w
      = (dispatch (es 0) (mk_packet mt (cl_nextId c) (text_of X sent)) sent
          (touched (es 0) (w\<lparr>w_outs := [], w_nonces := Some nc\<rparr>)))\<lparr>w_buffer := []\<rparr>
      \<and> jget sent ''token'' = JStr (cl_token c)
      \<and> (\<forall>k. k \<notin> {''nonce'', ''timestamp'', ''token''} \<longrightarrow> jget sent k = jget json k)"
proof -
  have "client_bytes X (send_request C mt json mark c) = encode (mk_packet mt (cl_nextId c) (text_of X sent))"
    using send_request_bytes [OF assms(4), of C mark mt json] assms(6,10)
    by (simp add: sent_def client_bytes_def)
  then have "serve es (send_request C mt json mark c) w
      = (processPacket (es 0) (mk_packet mt (cl_nextId c) (text_of X sent)) (w\<lparr>w_outs := []\<rparr>))\<lparr>w_buffer := []\<rparr>"
    using serve_packet [of es _ mt _ "text_of X sent" w] assms(5,7,13) by (simp add: fits_def)
  moreover have "jget sent ''token'' = JStr (cl_token c)"
    using agreed_token [OF assms(1)] by (simp add: sent_def)
  moreover have "\<forall>k. k \<notin> {''nonce'', ''timestamp'', ''token''} \<longrightarrow> jget sent k = jget json k"
    by (simp add: sent_def)
  ultimately show ?thesis
    using request_processed [OF assms(1-3,7-9), of "cl_nextId c"] assms(12) by (auto simp: sent_def)
qed

definition alice_client :: client where
  "alice_client = online_client\<lparr>cl_state := Authenticated, cl_token := ''h'', cl_userId := 1, cl_username := ''alice'',
     cl_deviceId := ''dev''\<rparr>"

definition contacts_json :: jobj where
  "contacts_json = [(''type'', JStr ''get_contacts''), (''timestamp'', JNum 50), (''nonce'', JStr ''x''),
     (''token'', JStr ''h'')]"

lemma alice_agreed: "agreed (pair_texts rq rp) 100 alice_client world_of_alice"
  by (simp add: agreed_def alice_client_def online_client_def new_client_def sample_defs getSessionById_def)

lemma trimmed_x [simp]: "trimmed ''x'' = ''x''"
  by (simp add: trimmed_def qspace_def Let_def)

lemma alice_timely: "timely (wire_cenv rq rp 50) (wire_env rq rp 50) alice_client world_of_alice"
  by (simp add: timely_def Let_def sample_defs)

theorem agreed_request_served_witness:
  "\<exists>nc. serve (\<lambda>_. wire_env contacts_json [] 50) (send_request (wire_cenv contacts_json [] 50) GetContactsRequest
        [(''type'', JStr ''get_contacts'')] (set_pending PGetContacts) alice_client) world_of_alice
      = (dispatch (wire_env contacts_json [] 50)
          (mk_packet GetContactsRequest 1 (text_of (pair_texts contacts_json []) contacts_json)) contacts_json
          (touched (wire_env contacts_json [] 50) (world_of_alice\<lparr>w_outs := [], w_nonces := Some nc\<rparr>)))\<lparr>w_buffer := []\<rparr>"
proof -
  let ?C = "wire_cenv contacts_json [] 50" and ?E = "wire_env contacts_json [] 50"
  have sent: "fst (addReplayProtection ?C [(''type'', JStr ''get_contacts'')] alice_client) = contacts_json"
    by (simp add: addReplayProtection_def draw_def alice_client_def contacts_json_def Let_def)
  have "cl_outs alice_client = []" "cl_nextId alice_client = 1" "w_buffer world_of_alice = []"
    by (simp_all add: alice_client_def online_client_def new_client_def sample_defs)
  then show ?thesis
    using agreed_request_served [OF alice_agreed, of ?C "\<lambda>_. ?E" "[(''type'', JStr ''get_contacts'')]"
        contacts_json "[]" GetContactsRequest "set_pending PGetContacts"] alice_timely sent
    by (simp add: set_pending_def)
qed

section \<open>How long the agreement lasts\<close>

text \<open>The rows that the agreement rests on: the accounts, and the session of the connection.\<close>

definition rests :: "user_row list \<Rightarrow> ident \<Rightarrow> session_row option \<Rightarrow> db \<Rightarrow> bool" where
  "rests us sid s d \<longleftrightarrow> set us \<subseteq> set (db_users d) \<and> getSessionById sid d = s"

lemma rests_rows: "db_users d' = db_users d \<Longrightarrow> db_sessions d' = db_sessions d \<Longrightarrow> rests us sid s d' = rests us sid s d"
  by (simp add: rests_def getSessionById_def)

lemma rests_fields [simp]:
  "rests us sid s (db_members_update f1 d) = rests us sid s d" "rests us sid s (db_convs_update f2 d) = rests us sid s d"
  "rests us sid s (db_convSeq_update f3 d) = rests us sid s d" "rests us sid s (db_faults_update f4 d) = rests us sid s d"
  by (rule rests_rows; simp)+

lemma rests_stmt:
  "rests us sid s d \<Longrightarrow> (\<And>d. rests us sid s d \<Longrightarrow> rests us sid s (f d)) \<Longrightarrow> rests us sid s (snd (exec_stmt P f d))"
  by (rule exec_stmt_inv [of "rests us sid s"]) simp_all

lemma rests_insert_member: "rests us sid s d \<Longrightarrow> rests us sid s (snd (insertMember c u role now d))"
  unfolding insertMember_def by (rule rests_stmt, assumption) (simp add: insert_member_row_def)

lemma rests_ops:
  assumes "rests us sid s d"
  shows "rests us sid s (snd (update_members P f d))" "rests us sid s (snd (getOrCreatePrivateConversation a b now d))"
    "rests us sid s (snd (db_createGroup u name ms now d))"
proof -
  have conv: "rests us sid s (snd (exec_stmt unconstrained (insert_conv x) d))" if "rests us sid s d" for x d
    by (rule rests_stmt [OF that]) (simp add: insert_conv_def)
  have t: "rests us sid s (snd (beginTransaction d))" "rests us sid s (snd (commitTransaction d))"
    "rests us sid s (rollbackTransaction saved d)" if "rests us sid s d" "rests us sid s saved" for d saved
    using that
    by (simp_all add: beginTransaction_def commitTransaction_def rollbackTransaction_def rests_stmt)
  have i: "rests us sid s (snd (add_initial c ms added now d))" if "rests us sid s d" for c added d
    using that by (induction ms arbitrary: added d) (simp_all add: Let_def split_beta rests_insert_member)
  show "rests us sid s (snd (update_members P f d))"
    unfolding update_members_def by (rule rests_stmt [OF assms]) simp
  show "rests us sid s (snd (getOrCreatePrivateConversation a b now d))"
    using assms conv unfolding getOrCreatePrivateConversation_def Let_def split_beta
    by (auto intro!: rests_insert_member split: option.split)
  show "rests us sid s (snd (db_createGroup u name ms now d))"
    using assms unfolding db_createGroup_def Let_def split_beta
    by (auto intro!: t i conv rests_insert_member)
qed

interpretation rest: member_contract "rests us sid s" for us sid s
  by unfold_locales (assumption | rule rests_rows rests_ops)+

lemma touched_frame [simp]:
  "w_userId (touched E w) = w_userId w" "w_sessionId (touched E w) = w_sessionId w"
  "w_deviceId (touched E w) = w_deviceId w" "w_outs (touched E w) = w_outs w"
  "w_db (touched E w) = snd (updateSessionLastActive (w_sessionId w) (e_now E) (w_db w))"
  by (simp_all add: touched_def on_db_def split_beta)

lemma agreed_seat:
  assumes "agreed X t c w" and "seat v = seat w" and "set (db_users (w_db w)) \<subseteq> set (db_users (w_db v))"
    and "\<And>r. getSessionById (w_sessionId w) (w_db w) = Some r \<Longrightarrow> \<exists>r'. getSessionById (w_sessionId w) (w_db v) = Some r'
      \<and> se_userId r' = se_userId r \<and> se_tokenHash r' = se_tokenHash r \<and> se_expiresAt r' = se_expiresAt r"
  shows "agreed X t c v"
proof -
  have ids: "w_userId v = w_userId w" "w_sessionId v = w_sessionId w" "w_deviceId v = w_deviceId w"
    using assms(2) by (simp_all add: seat_def)
  obtain r where r: "getSessionById (w_sessionId w) (w_db w) = Some r" "se_userId r = w_userId w"
    "se_tokenHash r = hashToken X (cl_token c)" "se_expiresAt r = Some t"
    using assms(1) by (auto simp: agreed_def)
  obtain r' where "getSessionById (w_sessionId w) (w_db v) = Some r'" "se_userId r' = se_userId r"
    "se_tokenHash r' = se_tokenHash r" "se_expiresAt r' = se_expiresAt r"
    using assms(4) [OF r(1)] by blast
  with r have "\<exists>s. getSessionById (w_sessionId v) (w_db v) = Some s \<and> se_userId s = w_userId v
      \<and> se_tokenHash s = hashToken X (cl_token c) \<and> se_expiresAt s = Some t"
    using ids by simp
  with assms(1,3) ids show ?thesis
    unfolding agreed_def by (metis subsetD)
qed

lemma agreed_same:
  assumes "agreed X t c w" and "seat v = seat w"
    and "\<And>us s. rests us (w_sessionId w) s (w_db w) \<Longrightarrow> rests us (w_sessionId w) s (w_db v)"
  shows "agreed X t c v"
proof (rule agreed_seat [OF assms(1,2)])
  show "set (db_users (w_db w)) \<subseteq> set (db_users (w_db v))"
    using assms(3) [of "db_users (w_db w)"] by (simp add: rests_def)
  fix r assume "getSessionById (w_sessionId w) (w_db w) = Some r"
  then have "getSessionById (w_sessionId w) (w_db v) = Some r"
    using assms(3) [of "[]" "Some r"] by (simp add: rests_def)
  then show "\<exists>r'. getSessionById (w_sessionId w) (w_db v) = Some r' \<and> se_userId r' = se_userId r
      \<and> se_tokenHash r' = se_tokenHash r \<and> se_expiresAt r' = se_expiresAt r" by blast
qed

lemma agreed_touched:
  assumes "agreed X t c w"
  shows "agreed X t c (touched E w)"
proof -
  let ?up = "\<lambda>d. d\<lparr>db_sessions := update_where (\<lambda>s. se_id s = w_sessionId w) (\<lambda>s. s\<lparr>se_lastActiveAt := e_now E\<rparr>) (db_sessions d)\<rparr>"
  have f: "find (\<lambda>s. se_id s = i) (update_where (\<lambda>s. se_id s = i) (\<lambda>s. s\<lparr>se_lastActiveAt := n\<rparr>) rs)
      = map_option (\<lambda>s. s\<lparr>se_lastActiveAt := n\<rparr>) (find (\<lambda>s. se_id s = i) rs)" for i n and rs :: "session_row list"
    by (induction rs) simp_all
  have seat: "seat (touched E w) = seat w" by (simp add: seat_def)
  show ?thesis
  proof (rule exec_stmt_cases [of unconstrained ?up "w_db w"])
    fix fs assume "exec_stmt unconstrained ?up (w_db w) = (False, (w_db w)\<lparr>db_faults := fs\<rparr>)"
    then show ?thesis
      by (intro agreed_same [OF assms seat]) (simp add: updateSessionLastActive_def)
  next
    fix fs assume "exec_stmt unconstrained ?up (w_db w) = (True, ?up ((w_db w)\<lparr>db_faults := fs\<rparr>))"
    then show ?thesis
      using f by (intro agreed_seat [OF assms seat]) (auto simp: updateSessionLastActive_def getSessionById_def)
  qed
qed

text \<open>The packets that may replace or end a session: a login, a logout, a renewal, a termination.\<close>

definition session_packet :: "ext \<Rightarrow> packet \<Rightarrow> bool" where
  "session_packet X p = (case x_fromJson X (pk_payload p) of
       Some (JObj json) \<Rightarrow> is_request p json LoginRequest ''login'' \<or> is_request p json LogoutRequest ''logout''
         \<or> is_request p json TokenRenewRequest ''token_renew'' \<or> is_request p json ForceLogoutRequest ''force_logout''
         \<or> jstr (jget json ''type'') = ''terminate_session''
     | _ \<Rightarrow> False)"

lemma rests_register:
  "rests us sid s (w_db w) \<Longrightarrow> rests us sid s (w_db (processRegisterRequest E p rq w))"
proof -
  assume w: "rests us sid s (w_db w)"
  have "rests us sid s (insert_user x d)" if "rests us sid s d" for x d
    using that by (auto simp: rests_def getSessionById_def insert_user_def)
  then have "rests us sid s (snd (registerUser n em ph h now (w_db w)))" for n em ph h now
    using rests_stmt [OF w] by (simp add: registerUser_def Let_def split_beta)
  with w show ?thesis
    by (simp add: processRegisterRequest_def Let_def split_beta)
qed

lemma agreed_packet:
  assumes "agreed X t c w" and "\<not> session_packet (e_ext E) p"
  shows "agreed X t c (processPacket E p w)"
proof (cases "pk_type p = mt_code Ping \<or> (\<nexists>js. x_fromJson (e_ext E) (pk_payload p) = Some (JObj js))")
  case True
  then have "seat (processPacket E p w) = seat w" "w_db (processPacket E p w) = w_db w"
    by (auto simp: processPacket_def Let_def split: option.split json.split)
  then show ?thesis by (intro agreed_same [OF assms(1)]) simp_all
next
  case False
  then obtain js where js: "x_fromJson (e_ext E) (pk_payload p) = Some (JObj js)" "pk_type p \<noteq> mt_code Ping"
    by blast
  obtain n where n: "after_replay E p js w = w\<lparr>w_nonces := n\<rparr>"
    using after_replay_nonces by blast
  let ?v = "w\<lparr>w_nonces := n\<rparr>"
  have v: "agreed X t c ?v" by (intro agreed_same [OF assms(1)]) simp_all
  have other: "\<not> is_request p js LoginRequest ''login''" "\<not> is_request p js LogoutRequest ''logout''"
    "\<not> is_request p js TokenRenewRequest ''token_renew''" "\<not> is_request p js ForceLogoutRequest ''force_logout''"
    "jstr (jget js ''type'') \<noteq> ''terminate_session''"
    using assms(2) js(1) by (simp_all add: session_packet_def)
  have reply: "agreed X t c (sendResponse r mt code m jd ?v)" for r mt code m jd
    by (intro agreed_same [OF v]) simp_all
  moreover have "agreed X t c (processRegisterRequest E p js ?v)"
    by (intro agreed_same [OF v] rests_register) simp_all
  moreover have "agreed X t c (dispatch E p js (touched E ?v))"
    by (rule agreed_same [OF agreed_touched [OF v] seat_dispatch [OF other(2,3)]])
      (rule rest.dispatch_keeps [OF _ other(2-5)], simp only: touched_frame seat_simps world.simps)
  ultimately show ?thesis
    unfolding processPacket_json [OF js] Let_def n using other(1) by simp
qed

lemma agreed_process_all:
  "agreed X t c w \<Longrightarrow> (\<And>i p. p \<in> set ps \<Longrightarrow> \<not> session_packet (e_ext (es i)) p) \<Longrightarrow> agreed X t c (process_all es i ps w)"
  by (induction ps arbitrary: i w) (simp_all add: agreed_packet)

text \<open>None of the packets that the connection takes from the chunks is one of these.\<close>

fun calm_chunks :: "ext \<Rightarrow> bytes \<Rightarrow> ((nat \<Rightarrow> env) \<times> bytes) list \<Rightarrow> bool" where
  "calm_chunks X buf [] = True"
| "calm_chunks X buf ((es, data) # chunks) =
     (let (packets, failure, rest) = drain (appendData buf data)
      in (\<forall>p\<in>set packets. \<not> session_packet X p) \<and> calm_chunks X rest chunks)"

lemma onReadyRead_buffer: "w_buffer (onReadyRead es data w) = snd (snd (drain (appendData (w_buffer w) data)))"
  by (simp add: onReadyRead_def Let_def split_beta emit_def sendResponse_def split: option.split)

lemma agreed_chunk:
  assumes "agreed X t c w" and "\<And>i. e_ext (es i) = X"
    and "\<And>p. p \<in> set (fst (drain (appendData (w_buffer w) data))) \<Longrightarrow> \<not> session_packet X p"
  shows "agreed X t c (onReadyRead es data w)"
proof -
  let ?v = "process_all es 0 (fst (drain (appendData (w_buffer w) data))) w"
  have v: "agreed X t c ?v"
    by (rule agreed_process_all [OF assms(1)]) (simp add: assms(2,3))
  have "seat (onReadyRead es data w) = seat ?v \<and> w_db (onReadyRead es data w) = w_db ?v"
    by (simp add: onReadyRead_def Let_def split_beta split: option.split)
  then show ?thesis
    by (intro agreed_same [OF v]) simp_all
qed



section \<open>Renewal of the token\<close>

text \<open>The renewal on a working database: the session is replaced by one with the hash of the new token.\<close>

lemma renewal_outcome:
  fixes E p rq
  assumes "db_inv (w_db w)" "db_faults (w_db w) = []" "w_outs w = []"
    and "getSessionById (w_sessionId w) (w_db w) = Some s"
    and "jstr (jget rq ''token'') \<noteq> []" "hashToken (e_ext E) (jstr (jget rq ''token'')) = se_tokenHash s"
    and "w_userId w \<in> user_ids (w_db w)"
    and "\<forall>r\<in>set (db_sessions (w_db w)). se_tokenHash r \<noteq> hashToken (e_ext E) (generateToken (e_token E))"
  defines "w' \<equiv> processTokenRenewRequest E p rq w"
  shows "w_outs w' = [Reply (pk_reqid p) TokenRenewResponse Ok ''Token renewed''
      [(''token'', JStr (generateToken (e_token E))), (''expiresAt'', JStr (x_isoTime (e_ext E) (e_now E + 86400 * 7)))]]"
    and "w_userId w' = w_userId w" "w_deviceId w' = w_deviceId w" "db_users (w_db w') = db_users (w_db w)"
    and "0 < w_sessionId w'"
    and "getSessionById (w_sessionId w') (w_db w') = Some (new_session (w_sessionId w') (w_userId w) (w_deviceId w)
      (hashToken (e_ext E) (generateToken (e_token E))) (e_peer E) default_session_ttl (e_now E))"
proof -
  let ?h = "hashToken (e_ext E) (generateToken (e_token E))"
  define d where "d = snd (deleteSession (w_sessionId w) (w_db w))"
  define cs where "cs = createSession (w_userId w) (w_deviceId w) ?h (e_peer E) default_session_ttl (e_now E) d"
  have d: "db_inv d" "db_faults d = []" "db_users d = db_users (w_db w)"
    "db_sessions d = delete_where (\<lambda>s. se_id s = w_sessionId w) (db_sessions (w_db w))"
    using session_ops_inv(2) [OF assms(1)] assms(2)
    by (simp add: d_def, simp_all add: d_def deleteSession_def exec_stmt_no_fault)
  have "has_user (w_userId w) d"
    using assms(7) d(3) by (simp add: has_iff user_ids_def)
  moreover have "\<not> exists_where (\<lambda>s. se_tokenHash s = ?h) (db_sessions d)"
    using assms(8) by (auto simp: exists_where_iff d(4) delete_where_def)
  moreover have "0 \<le> db_sessionSeq d"
    using d(1) by (simp add: db_inv_def sessions_ok_def keys_ok_def)
  ultimately have pos: "0 \<le> fst cs"
    by (simp add: cs_def createSession_def exec_stmt_no_fault [OF d(2)] insert_session_def)
  note made = createSession_success [OF d(1) pos [unfolded cs_def], folded cs_def]
  have w': "w' = sendResponse (pk_reqid p) TokenRenewResponse Ok ''Token renewed''
      [(''token'', JStr (generateToken (e_token E))), (''expiresAt'', JStr (x_isoTime (e_ext E) (e_now E + 86400 * 7)))]
      (w\<lparr>w_db := snd cs, w_sessionId := fst cs\<rparr>)"
    using assms(4-6) pos
    by (simp add: w'_def processTokenRenewRequest_def on_db_def Let_def split_beta d_def [symmetric] cs_def [symmetric])
  have u: "db_users (snd cs) = db_users (w_db w)"
    by (simp add: cs_def d(3))
  show "w_outs w' = [Reply (pk_reqid p) TokenRenewResponse Ok ''Token renewed''
      [(''token'', JStr (generateToken (e_token E))), (''expiresAt'', JStr (x_isoTime (e_ext E) (e_now E + 86400 * 7)))]]"
    "w_userId w' = w_userId w" "w_deviceId w' = w_deviceId w" "db_users (w_db w') = db_users (w_db w)"
    "0 < w_sessionId w'"
    "getSessionById (w_sessionId w') (w_db w') = Some (new_session (w_sessionId w') (w_userId w) (w_deviceId w) ?h
       (e_peer E) default_session_ttl (e_now E))"
    using made(1,2) assms(3) u by (simp_all add: w' sendResponse_def emit_def)
qed

text \<open>The state that the dispatcher gets: only the time of the last activity differs.\<close>

lemma touched_working:
  assumes "db_faults (w_db w) = []"
  shows "db_faults (w_db (touched E w)) = []" "db_users (w_db (touched E w)) = db_users (w_db w)"
    "se_tokenHash ` set (db_sessions (w_db (touched E w))) = se_tokenHash ` set (db_sessions (w_db w))"
    "getSessionById (w_sessionId w) (w_db (touched E w))
      = map_option (\<lambda>s. s\<lparr>se_lastActiveAt := e_now E\<rparr>) (getSessionById (w_sessionId w) (w_db w))"
proof -
  have e: "w_db (touched E w) = (w_db w)\<lparr>db_sessions := update_where (\<lambda>s. se_id s = w_sessionId w)
      (\<lambda>s. s\<lparr>se_lastActiveAt := e_now E\<rparr>) (db_sessions (w_db w))\<rparr>"
    using assms by (simp add: updateSessionLastActive_def exec_stmt_no_fault)
  show "db_faults (w_db (touched E w)) = []" "db_users (w_db (touched E w)) = db_users (w_db w)"
    using assms unfolding e by simp_all
  show "se_tokenHash ` set (db_sessions (w_db (touched E w))) = se_tokenHash ` set (db_sessions (w_db w))"
  proof -
    have "map se_tokenHash (db_sessions (w_db (touched E w))) = map se_tokenHash (db_sessions (w_db w))"
      unfolding e by (simp add: update_where_def)
    then show ?thesis by (metis list.set_map)
  qed
  have "find (\<lambda>s. se_id s = i) (update_where (\<lambda>s. se_id s = i) (\<lambda>s. s\<lparr>se_lastActiveAt := n\<rparr>) rs)
      = map_option (\<lambda>s. s\<lparr>se_lastActiveAt := n\<rparr>) (find (\<lambda>s. se_id s = i) rs)" for i n and rs :: "session_row list"
    by (induction rs) simp_all
  then show "getSessionById (w_sessionId w) (w_db (touched E w))
      = map_option (\<lambda>s. s\<lparr>se_lastActiveAt := e_now E\<rparr>) (getSessionById (w_sessionId w) (w_db w))"
    unfolding e by (simp add: getSessionById_def)
qed

lemma renewal_heard:
  assumes "cl_pending c PRenew = rid" and "json_text_inverts (ce_ext C) (response_object Ok msg data)"
  shows "who (handlePacket C (mk_packet TokenRenewResponse rid (text_of (ce_ext C) (response_object Ok msg data))) c)
    = (cl_state c, jstr (jget data ''token''), cl_userId c, cl_deviceId c, cl_username c)"
proof -
  have tok: "who (cl_token_update f v) = (cl_state v, f (cl_token v), cl_userId v, cl_deviceId v, cl_username v)" for f v
    by (simp add: who_def)
  show ?thesis
    using assms
    by (simp add: handlePacket_def handlers_def handleTokenRenewResponse_def answered_def Let_def set_pending_def tok)
qed

lemma renewal_sent:
  fixes C
  assumes "cl_state c = Authenticated" "cl_token c \<noteq> []" "cl_outs c = []"
  defines "sent \<equiv> fst (addReplayProtection C [(''type'', JStr ''token_renew''), (''token'', JStr (cl_token c))] c)"
  shows "client_bytes (ce_ext C) (renewToken C c)
      = encode (mk_packet TokenRenewRequest (cl_nextId c) (text_of (ce_ext C) sent))"
    "requests (renewToken C c) \<noteq> [] \<Longrightarrow> fits (ce_ext C) sent
       \<and> Request TokenRenewRequest (cl_nextId c) sent \<in> set (cl_outs (renewToken C c))"
    "cl_pending (renewToken C c) PRenew = cl_nextId c" "cl_buffer (renewToken C c) = cl_buffer c"
    "who (renewToken C c) = who c"
proof -
  let ?json = "[(''type'', JStr ''token_renew''), (''token'', JStr (cl_token c))]"
  let ?c = "send_request C TokenRenewRequest ?json (set_pending PRenew) c"
  have r: "renewToken C c = ?c\<lparr>cl_renewTimer := Some kRenewResponseTimeoutMs\<rparr>"
    using assms(1,2) by (simp add: renewToken_def Let_def)
  show "client_bytes (ce_ext C) (renewToken C c)
      = encode (mk_packet TokenRenewRequest (cl_nextId c) (text_of (ce_ext C) sent))"
    using send_request_bytes [OF assms(3), of C "set_pending PRenew"] by (simp add: r sent_def)
  define v where "v = set_pending PRenew (cl_nextId c) (snd (nextRequestId (snd (addReplayProtection C ?json c))))"
  have v: "requests v = []" "?c = send_packet (ce_ext C) TokenRenewRequest (cl_nextId c) sent v"
    using assms(3) by (simp_all add: v_def set_pending_def nextRequestId_def addReplayProtection_def draw_def
        send_request_def sent_def Let_def split_beta)
  have "requests (renewToken C c) = (if fits (ce_ext C) sent then [Request TokenRenewRequest (cl_nextId c) sent] else [])"
    using encodes [of TokenRenewRequest "cl_nextId c" "text_of (ce_ext C) sent"] v(1)
    by (cases "fits (ce_ext C) sent") (simp_all add: r v(2) send_packet_def fits_def csignal_def cemit_def)
  then show "fits (ce_ext C) sent \<and> Request TokenRenewRequest (cl_nextId c) sent \<in> set (cl_outs (renewToken C c))"
    if "requests (renewToken C c) \<noteq> []"
    using that set_filter [of is_client_request "cl_outs (renewToken C c)"] by (auto split: if_splits)
  show "cl_pending (renewToken C c) PRenew = cl_nextId c" "cl_buffer (renewToken C c) = cl_buffer c"
    by (simp_all add: r send_request_def Let_def split_beta) (simp_all add: set_pending_def)
  show "who (renewToken C c) = who c"
    by (simp add: r)
qed

text \<open>The server's part of a renewal, from the bytes of the client to its reply.\<close>

lemma renewal_served:
  fixes C es
  assumes "agreed X t c w" and "timely C (es 0) c w"
    and "cl_outs c = []" "w_buffer w = []" "ce_ext C = X" "e_ext (es 0) = X"
    and "db_inv (w_db w)" "db_faults (w_db w) = []"
    and "\<forall>r\<in>set (db_sessions (w_db w)). se_tokenHash r \<noteq> hashToken X (generateToken (e_token (es 0)))"
  defines "sent \<equiv> fst (addReplayProtection C [(''type'', JStr ''token_renew''), (''token'', JStr (cl_token c))] c)"
    and "w1 \<equiv> serve es (renewToken C c) w"
  assumes "fits X sent" "json_text_inverts X sent"
  shows "w_outs w1 = [Reply (cl_nextId c) TokenRenewResponse Ok ''Token renewed''
      [(''token'', JStr (generateToken (e_token (es 0)))), (''expiresAt'', JStr (x_isoTime X (e_now (es 0) + 86400 * 7)))]]"
    and "w_userId w1 = w_userId w" "w_deviceId w1 = w_deviceId w" "db_users (w_db w1) = db_users (w_db w)"
    and "0 < w_sessionId w1"
    and "getSessionById (w_sessionId w1) (w_db w1) = Some (new_session (w_sessionId w1) (w_userId w) (w_deviceId w)
      (hashToken X (generateToken (e_token (es 0)))) (e_peer (es 0)) default_session_ttl (e_now (es 0)))"
proof -
  let ?E = "es 0" and ?json = "[(''type'', JStr ''token_renew''), (''token'', JStr (cl_token c))]"
  let ?p = "mk_packet TokenRenewRequest (cl_nextId c) (text_of X sent)"
  have st: "cl_state c = Authenticated" "cl_token c \<noteq> []"
    using assms(1) by (simp_all add: agreed_def)
  obtain s u where row: "getSessionById (w_sessionId w) (w_db w) = Some s" "se_tokenHash s = hashToken X (cl_token c)"
    and u: "u \<in> set (db_users (w_db w))" "ur_id u = w_userId w"
    using assms(1) by (auto simp: agreed_def)
  obtain n where proc: "processPacket ?E ?p (w\<lparr>w_outs := []\<rparr>)
      = dispatch ?E ?p sent (touched ?E (w\<lparr>w_outs := [], w_nonces := Some n\<rparr>))"
    using request_processed [OF assms(1,2) _ assms(6), of ?json TokenRenewRequest] assms(13)
    by (auto simp: sent_def)
  define v where "v = touched ?E (w\<lparr>w_outs := [], w_nonces := Some n\<rparr>)"
  have type: "jget sent ''type'' = JStr ''token_renew''" "jget sent ''token'' = JStr (cl_token c)"
    using agreed_token [OF assms(1), of C ?json] by (simp_all add: sent_def)
  have w1: "w1 = (processTokenRenewRequest ?E ?p sent v)\<lparr>w_buffer := []\<rparr>"
    using serve_packet [of es "renewToken C c" TokenRenewRequest "cl_nextId c" "text_of X sent" w]
      renewal_sent(1) [OF st assms(3), of C, folded sent_def] assms(4-6,12) type(1)
    by (simp add: w1_def fits_def proc v_def dispatch_def is_request_def)
  let ?tok = "generateToken (e_token ?E)" and ?w = "w\<lparr>w_outs := [], w_nonces := Some n\<rparr>"
  have "db_faults (w_db ?w) = []" using assms(8) by simp
  note same = touched_working [OF this, of ?E, folded v_def]
  have v: "w_outs v = []" "w_userId v = w_userId w" "w_deviceId v = w_deviceId w" "w_sessionId v = w_sessionId w"
    "db_inv (w_db v)"
    using session_ops_inv(1) [OF assms(7)] by (simp_all add: v_def)
  have hyps: "getSessionById (w_sessionId v) (w_db v) = Some (s\<lparr>se_lastActiveAt := e_now ?E\<rparr>)"
    "jstr (jget sent ''token'') \<noteq> []"
    "hashToken (e_ext ?E) (jstr (jget sent ''token'')) = se_tokenHash (s\<lparr>se_lastActiveAt := e_now ?E\<rparr>)"
    "w_userId v \<in> user_ids (w_db v)"
    "\<forall>r\<in>set (db_sessions (w_db v)). se_tokenHash r \<noteq> hashToken (e_ext ?E) ?tok"
  proof -
    have "hashToken X ?tok \<notin> se_tokenHash ` set (db_sessions (w_db w))"
      using assms(9) by force
    then show "\<forall>r\<in>set (db_sessions (w_db v)). se_tokenHash r \<noteq> hashToken (e_ext ?E) ?tok"
      using same(3) assms(6) by force
    show "w_userId v \<in> user_ids (w_db v)"
      using u same(2) v(2) by (force simp: user_ids_def)
  qed (use same(4) row v(4) type(2) st(2) assms(6) in simp_all)
  note new = renewal_outcome [OF v(5) same(1) v(1) hyps, of ?p]
  show "w_outs w1 = [Reply (cl_nextId c) TokenRenewResponse Ok ''Token renewed''
      [(''token'', JStr ?tok), (''expiresAt'', JStr (x_isoTime X (e_now ?E + 86400 * 7)))]]"
    "w_userId w1 = w_userId w" "w_deviceId w1 = w_deviceId w" "db_users (w_db w1) = db_users (w_db w)"
    "0 < w_sessionId w1"
    "getSessionById (w_sessionId w1) (w_db w1) = Some (new_session (w_sessionId w1) (w_userId w) (w_deviceId w)
      (hashToken X ?tok) (e_peer ?E) default_session_ttl (e_now ?E))"
    using new v(2,3) same(2) assms(6) by (simp_all add: w1)
qed

text \<open>When the second statement of a renewal fails, the old session is gone and there is no new one: the
  connection is not authenticated for anything any more. The answer does not say so, and the client goes on
  with the old token.\<close>

lemma failed_renewal_loses_session:
  assumes "db_faults (w_db w) = [False, True]" "getSessionById (w_sessionId w) (w_db w) = Some s"
    and "jstr (jget rq ''token'') \<noteq> []" "hashToken (e_ext E) (jstr (jget rq ''token'')) = se_tokenHash s"
  shows "w_outs (processTokenRenewRequest E p rq w)
      = w_outs w @ [Reply (pk_reqid p) TokenRenewResponse InternalError ''Failed to renew token'' []]"
    and "\<not> validateSession E' rq' (processTokenRenewRequest E p rq w)"
proof -
  let ?w = "processTokenRenewRequest E p rq w"
  have w: "?w = sendResponse (pk_reqid p) TokenRenewResponse InternalError ''Failed to renew token'' []
      (w\<lparr>w_db := (w_db w)\<lparr>db_faults := [], db_sessions := delete_where (\<lambda>s. se_id s = w_sessionId w)
        (db_sessions (w_db w))\<rparr>\<rparr>)"
    using assms by (simp add: processTokenRenewRequest_def on_db_def deleteSession_def createSession_def
        exec_stmt_def next_fault_def Let_def)
  show "w_outs ?w = w_outs w @ [Reply (pk_reqid p) TokenRenewResponse InternalError ''Failed to renew token'' []]"
    by (simp add: w sendResponse_def emit_def)
  show "\<not> validateSession E' rq' ?w"
    by (rule gone_session [of _ "db_sessions (w_db w)"]) (simp add: w)
qed

lemma failed_renewal_heard:
  assumes "cl_pending c PRenew = rid" and "json_text_inverts (ce_ext C) (response_object InternalError msg data)"
  shows "who (handlePacket C (mk_packet TokenRenewResponse rid (text_of (ce_ext C)
    (response_object InternalError msg data))) c) = who c"
  using assms
  by (simp add: handlePacket_def handlers_def handleTokenRenewResponse_def answered_def Let_def)

text \<open>
  C8: the renewal keeps the agreement. When the two sides agree (the session may even have ended), the
  request is timely, no statement of the database fails and the new token's hash is not in use, then the
  client's renewal (if it fits into a packet), the server's reply and the client's reading of it end with
  both sides agreed on the new token, for seven more days.
\<close>

theorem renewal_agreement:
  fixes C Cs es
  assumes "agreed X t c w" and "timely C (es 0) c w"
    and "cl_outs c = []" "cl_buffer c = []" "w_buffer w = []" "ce_ext C = X" "ce_ext (Cs 0) = X" "e_ext (es 0) = X"
    and "db_inv (w_db w)" "db_faults (w_db w) = []" "e_token (es 0) \<noteq> []"
    and "\<forall>r\<in>set (db_sessions (w_db w)). se_tokenHash r \<noteq> hashToken X (generateToken (e_token (es 0)))"
  defines "c1 \<equiv> renewToken C c"
  defines "w1 \<equiv> serve es c1 w"
  defines "c2 \<equiv> hear Cs w1 c1"
  assumes "legible X c1 w1" and "requests c1 \<noteq> []"
  shows "agreed X (e_now (es 0) + 7 * 86400) c2 w1 \<and> cl_token c2 = generateToken (e_token (es 0))"
proof -
  let ?E = "es 0" and ?tok = "generateToken (e_token (es 0))"
  define sent where "sent = fst (addReplayProtection C [(''type'', JStr ''token_renew''), (''token'', JStr (cl_token c))] c)"
  have st: "cl_state c = Authenticated" "cl_token c \<noteq> []"
    using assms(1) by (simp_all add: agreed_def)
  obtain u where u: "u \<in> set (db_users (w_db w))" "ur_id u = w_userId w" "ur_username u = cl_username c"
    and ids: "0 < w_userId w" "cl_userId c = w_userId w" "cl_deviceId c = w_deviceId w"
    using assms(1) by (auto simp: agreed_def)
  note cl = renewal_sent [OF st assms(3), of C, folded c1_def sent_def, unfolded assms(6)]
  have sent: "fits X sent" "json_text_inverts X sent"
    using cl(2) assms(16,17) by (force simp: legible_def)+
  note new = renewal_served [where es = es, OF assms(1,2,3,5,6,8,9,10,12) sent [unfolded sent_def], folded c1_def, folded w1_def]
  let ?data = "[(''token'', JStr ?tok), (''expiresAt'', JStr (x_isoTime X (e_now ?E + 86400 * 7)))]"
  have reply: "filter to_client (w_outs w1) = [Reply (cl_nextId c) TokenRenewResponse Ok ''Token renewed'' ?data]"
    by (simp add: new(1))
  note ok = legible_replyD [OF assms(16) reply]
  have "c2 = (handlePacket (Cs 0) (mk_packet TokenRenewResponse (cl_nextId c) (text_of X (response_object Ok
      ''Token renewed'' ?data))) (c1\<lparr>cl_outs := []\<rparr>))\<lparr>cl_buffer := []\<rparr>"
    using hear_reply [OF reply, of c1 Cs] cl(4) ok(2) assms(4,7) by (simp add: c2_def)
  then have "who c2 = (Authenticated, ?tok, ur_id u, w_deviceId w1, ur_username u)"
    using renewal_heard [of "c1\<lparr>cl_outs := []\<rparr>" "cl_nextId c" "Cs 0" "''Token renewed''" ?data] ok(1) assms(7)
      cl(3) who_selectors [OF cl(5)] st(1) u ids new(3) by simp
  moreover have "?tok \<noteq> []"
    using assms(11) by (cases "e_token ?E") (simp_all add: generateToken_def)
  ultimately have "agreed X (e_now ?E + 7 * 86400) c2 w1"
    using u ids new(2-6) by (intro agreedI [where u = u]) simp_all
  then show ?thesis
    using \<open>who c2 = _\<close> by (simp add: who_def)
qed

definition renew_json :: jobj where
  "renew_json = [(''type'', JStr ''token_renew''), (''token'', JStr ''h''), (''timestamp'', JNum 50), (''nonce'', JStr ''x'')]"

definition renew_reply :: jobj where
  "renew_reply = response_object Ok ''Token renewed'' [(''token'', JStr (to_hex (replicate 32 7))),
     (''expiresAt'', JStr (x_isoTime sample_ext (50 + 86400 * 7)))]"

theorem renewal_agreement_witness:
  "let C = wire_cenv renew_json renew_reply 50; c1 = renewToken C alice_client;
       w1 = serve (\<lambda>_. wire_env renew_json renew_reply 50) c1 world_of_alice; c2 = hear (\<lambda>_. C) w1 c1
   in agreed (pair_texts renew_json renew_reply) (50 + 7 * 86400) c2 w1 \<and> cl_token c2 = to_hex (replicate 32 7)"
proof -
  let ?C = "wire_cenv renew_json renew_reply 50" and ?X = "pair_texts renew_json renew_reply"
  let ?es = "\<lambda>_::nat. wire_env renew_json renew_reply 50"
  have sent: "fst (addReplayProtection ?C [(''type'', JStr ''token_renew''), (''token'', JStr ''h'')] alice_client) = renew_json"
    by (simp add: addReplayProtection_def draw_def alice_client_def renew_json_def Let_def)
  have cl: "cl_outs alice_client = []" "cl_nextId alice_client = 1" "cl_buffer alice_client = []"
    "cl_state alice_client = Authenticated" "cl_token alice_client = ''h''"
    by (simp_all add: alice_client_def online_client_def new_client_def)
  have w: "w_buffer world_of_alice = []" "db_inv (w_db world_of_alice)" "db_faults (w_db world_of_alice) = []"
    using world_of_alice_inv by (simp_all add: sample_defs)
  have "length (hashToken sample_ext (generateToken (replicate 32 7))) \<noteq> length (hashToken sample_ext ''h'')"
    by (simp add: length_hashToken_sample generateToken_def)
  then have new: "\<forall>r\<in>set (db_sessions (w_db world_of_alice)). se_tokenHash r \<noteq> hashToken ?X (generateToken (replicate 32 7))"
    by (simp add: sample_defs) metis
  have fits: "encode (mk_packet TokenRenewRequest 1 (text_of ?X renew_json)) \<noteq> []"
    using pair_texts_simps(3) [of renew_json renew_reply renew_json] by (simp add: encodes fits_def)
  have "renewToken ?C alice_client = (send_packet ?X TokenRenewRequest 1 renew_json (set_pending PRenew 1
      (snd (nextRequestId (snd (addReplayProtection ?C [(''type'', JStr ''token_renew''), (''token'', JStr ''h'')]
        alice_client))))))\<lparr>cl_renewTimer := Some kRenewResponseTimeoutMs\<rparr>"
    using cl sent by (simp add: renewToken_def send_request_def Let_def split_beta)
  then have outs: "cl_outs (renewToken ?C alice_client) = [Request TokenRenewRequest 1 renew_json]"
    using fits cl(1) by (simp add: send_packet_def cemit_def set_pending_def nextRequestId_def addReplayProtection_def
        draw_def Let_def)
  have served: "w_outs (serve ?es (renewToken ?C alice_client) world_of_alice) = [Reply 1 TokenRenewResponse Ok
      ''Token renewed'' [(''token'', JStr (to_hex (replicate 32 7))), (''expiresAt'', JStr (x_isoTime sample_ext (50 + 86400 * 7)))]]"
    using renewal_served(1) [where es = ?es, OF alice_agreed alice_timely cl(1) w(1) _ _ w(2,3)] new sent cl
    by (simp add: generateToken_def)
  have "renew_reply \<noteq> renew_json" "response_object Ok ''Token renewed'' [(''token'', JStr (to_hex (replicate 32 7))),
      (''expiresAt'', JStr (x_isoTime sample_ext 604850))] = renew_reply"
    by (simp_all add: renew_reply_def renew_json_def response_object_def)
  then have "legible ?X (renewToken ?C alice_client) (serve ?es (renewToken ?C alice_client) world_of_alice)"
    by (simp add: legible_def served outs)
  then show ?thesis
    unfolding Let_def
    using renewal_agreement [where es = ?es and Cs = "\<lambda>_. ?C", OF alice_agreed alice_timely cl(1,3) w(1) _ _ _ w(2,3)] new outs
    by (simp add: generateToken_def)
qed

end
