(* ===== verification/Spec2Isabelle.thy ===== *)
theory Spec2Isabelle
  imports Account_Properties Replay_Properties Group_Policy Server_System
    Local_Properties Storage_Properties Client_Properties
    Migration_Properties Tls_Setup Pairwise_Properties Sync_Properties
    Group_Delivery Session_Agreement Packet_Codec Rate_Window Nonce_Cache Log_Sanitizer Database_Groups
begin

text \<open>
  XYChat is a chat system in C++ on Qt: a server (src/Chat-Server) that keeps accounts, conversations
  and an event stream in SQLite and serves each TLS connection in a thread of its own, a client
  (src/Chat-Client) that keeps an encrypted cache and end-to-end encrypts what it sends, and a library
  that both use (src/CommonModule). This library translates the three into HOL and proves what they
  promise to each other and to their users.

  \<^bold>\<open>Theories and sources.\<close>

  \<^item> XY_Prelude: tables with AUTOINCREMENT keys, updates and deletions by a condition, JSON values with the
    conversions of QJsonValue. Qt_Text: trimming, numbers and hexadecimal texts of QString. External: the
    operations of OpenSSL, Qt's JSON and Base64 and the operating system that the program calls, as a
    record \<open>ext\<close> of functions, and the hypotheses about them.
  \<^item> Packet_Codec (protocol/Packet.h, PacketCodec.cpp): \<open>encode\<close>, \<open>nextPacket\<close> on 16, 32 and 64-bit words and
    the receive loop \<open>drain\<close>. Rate_Window (core/RateWindow.h), Nonce_Cache (core/NonceCache.cpp),
    Log_Sanitizer (security/LogSanitizer.cpp, StructuredLogger.cpp), Encryption_Manager
    (encryption/EncryptionManager.cpp), E2ee_Crypto and Group_E2ee (encryption/E2eeCrypto.cpp,
    GroupE2eeCrypto.cpp), with Group_Ratchet for the proofs about the chain of keys.
  \<^item> Database_Core, _Accounts, _Chat, _Sync, _Keys, _Groups (database/DatabaseManager.cpp): a record \<open>db\<close> with one
    list of rows per table; a statement may fail by a constraint or by a fault of the file, which the list
    \<open>db_faults\<close> announces; the operations are functions from \<open>db\<close> to a result and a new \<open>db\<close>.
  \<^item> Database_Migrations (database/DatabaseManager.cpp, initialize to migrateToV9): the schema as a \<open>catalogue\<close> of
    tables, columns, indexes and recorded versions, the opening and closing of the file and the nine migrations
    as lists of statements of which each may fail. Migration_Stages describes the 31 catalogues at which an
    interrupted run can stop.
  \<^item> Handler_Core, _Account, _Chat, _Keys, _Groups, _Dispatch (core/RequestHandler.cpp): a connection is a record
    \<open>world\<close> of its members, the shared tables and caches, and the list \<open>w_outs\<close> of what it emitted: responses,
    Qt signals, the closing of the socket. \<open>processPacket\<close> is the gate and the dispatch.
  \<^item> Server_Routing (core/Server.cpp): the three session tables and every slot. Server_System: the process as a
    step relation \<open>chat_step\<close> on connections, shared state and the queue of signals.
  \<^item> Key_Storage (core/KeyStorage.cpp): a file system whose operations may fail, and the key files.
    Local_Store, Local_Cache (core/LocalStore.cpp): the client's SQLite file, its key, and every operation.
  \<^item> Client_Core, _Crypto, _Outbox, _Sync (core/NetworkManager.cpp): the client as a record \<open>client\<close> of its members
    and of the list \<open>cl_outs\<close> of what it emitted; every request, response handler, push handler and timer
    callback; \<open>handlePacket\<close> is the dispatch. Client_Effects: what an operation may do to the outside.
    Client_System: the events and the reachable states.
  \<^item> Tls_Setup (security/TlsHelper.cpp, the two \<open>initTls\<close>, security/SecureMemory.cpp, core/ThemeSettings.h and both
    main.cpp): certificates as records of the fields that the code sets, PEM files in a file system that may fail,
    the configurations of server and client, the wiping of a buffer, the start of the server.
  \<^item> Handler_Contract: what a property of the database has to satisfy to survive the handlers. Client_Server and
    Session_Agreement: a client and a connection of the server joined by their bytes (\<open>serve\<close>, \<open>hear\<close>), and what
    it means that the two are \<open>agreed\<close> on a session.
  \<^item> Handler_Frames, Session_, Account_, Replay_, Key_, Message_, Edit_, Local_, Storage_, Client_, Migration_,
    Pairwise_ and Sync_Properties, Group_Policy and Group_Delivery: the lemmas that compose the operations, and the properties.

  \<^bold>\<open>How the parts interact.\<close> A client request is a JSON object with a nonce, a timestamp and the session token
  (\<open>addReplayProtection\<close>) in a packet; the server decodes it (\<open>drain\<close>), checks nonce and session and runs one
  handler to its end. What the handler signals (a login, a logout, a message for a user) is queued to the
  server's thread, which keeps the table of the sessions and writes pushes to the connections. The answer
  and the pushes reach the client's \<open>handlePacket\<close>, which matches answers by request id with its slots,
  decrypts contents and writes the cache.

  \<^bold>\<open>Interfaces.\<close> \<open>auto_table\<close> (a table with generated keys), \<open>window_limiter\<close> (the rate limiter), \<open>replay_cache\<close> (the
  nonce cache), \<open>event_log\<close> (the event stream a reader follows), \<open>client_effects\<close> and its extension
  \<open>client_contract\<close> (the primitive effects from which every operation of the client is built), \<open>data_contract\<close> with
  \<open>account_contract\<close> and \<open>member_contract\<close> (what survives the handlers of the server: used for the memberships in
  Group_Policy and for the session rows in Session_Agreement) are locales; each is interpreted on the definitions
  that model the code.

  \<^bold>\<open>What the lemmas show.\<close>

  \<^item> Transport: packets survive any division of the stream, and the loop keeps no complete packet.
  \<^item> Encryption: a group message is read exactly once in any order of delivery, from the client that seals it to the
    one that reads it through its encrypted store; a failure changes nothing and the
    ratchet and its cache are bounded; passwords verify exactly; every content that a client sends is
    sealed, whatever happens to the client, and no nonce is used twice. A private message that one client
    encrypts for a device is read there once, and its prekey is used up (sender, envelope and receiver composed).
  \<^item> Gates: before a login nothing else is served; an expired session can only be renewed; a replayed request is
    refused within the bounds of the cache; failed logins lock; renewal and logout end the old token.
  \<^item> Client and server together: a login over the wire ends with both sides agreed on the session or both as
    before; while they agree, a timely request of the client passes both gates; no packet but a login, a logout, a
    renewal or a termination ends the agreement; a renewal moves both sides to the new token. These
    theorems suppose that the JSON texts in transit read back (\<open>legible\<close>) and that a reply fits into a packet,
    since the server drops a larger one without an answer.
  \<^item> Groups: over all requests, the members and roles of a conversation change only by somebody entitled to it,
    and a group keeps exactly one owner as long as the statements of the owner's packets succeed.
  \<^item> Data: the database invariant (keys, references, members) survives every request and every reachable state of
    the process; one-time prekeys are handed out once; a message is stored once per client id; only senders
    edit and delete.
  \<^item> Schema: a start of the server that answers true leaves a complete schema, whatever was interrupted before; the
    next start resumes an interrupted one, except inside the fourth migration, after which no start succeeds.
  \<^item> Synchronisation: a client that follows its cursor receives every event once and in order and stops.
  \<^item> Set-up: the certificate that a first start makes is signed by the CA that the client loads and trusts.
  \<^item> Routing: the server's tables are the map of the open sessions; pushes go to open sessions only and reach all
    of them.
  \<^item> Client storage: no stored message shows an envelope, texts, outbox, keys and sender keys survive storing and
    reopening, receipts do not move back, a key file is never torn; a queued message leaves the outbox only
    when a packet settles it.
  \<^item> Some theorems record where the code differs from its comments: packets of type Pong skip the replay check,
    the nonce cache forgets at its limit, a terminated session is not disconnected, a failed renaming loses the
    key file, the outbox in memory survives a logout, an interrupted fourth migration is never completed,
    accounts of the first program are carried over with a hash that no password verifies, an owner whose
    transfer fails leaves the group without one, a renewal that fails half-way loses the session.

  \<^bold>\<open>Conventions and bounds.\<close> Times are integers in seconds; identifiers and sequence numbers are unbounded integers,
  since the program only compares them and SQLite refuses to wrap; request ids, lengths and types on the wire
  are words. Strings are lists of characters and bytes are 8-bit words. A JSON number is an integer: the
  program reads its numbers with toInt, toDouble cast to qint64 and toVariant().toLongLong(). A table is
  the list of its rows in the order of insertion, which is the order SQLite returns where the statement has no
  ORDER BY; a QHash or QSet is a list or a map, traversed in the order of insertion. Loops are structural, or
  terminate by a measure (the ratchet by the distance to its target, \<open>drain\<close> by the length of the buffer);
  no function of the program needs fuel. \<open>catch_up\<close>, a client that asks until nothing is left, has fuel for its
  requests, and exactly \<open>k div 200 + 1\<close> of them are enough for \<open>k\<close> events. The limits of the code (4 MB payload, 2000 ratchet steps, 1000 skipped keys, the
  quotas of the limiters, 2000 cached texts) are definitions with the code's values.

  \<^bold>\<open>Atomicity.\<close> A handler runs without interruption by another one: in the code each connection has its own
  database connection, SQLite serialises the writing transactions, and the nonce cache has a mutex. What a
  handler reads outside a transaction and writes later is therefore modelled as one step. The client is one
  thread. Its packets and timers are separate steps; the signal \<open>disconnected\<close> that \<open>disconnectFromHost\<close>
  causes arrives as an event of its own.

  \<^bold>\<open>Not modelled.\<close> The sockets, the TLS handshake, certificate encodings and threads; what the compiler keeps of the
  wiping of memory, which a functional model cannot observe; the PRAGMAs, and the way SQLite rewrites foreign
  keys when a table is renamed; a failing allocation inside OpenSSL; the conversions for QML
  (\<open>toVariantList\<close>), the QML screens and the set-up of the Qt application; the texts that are only logged.
\<close>

end
